(* ===== verification/Prelude.thy ===== *)
theory Prelude
  imports Main
begin

text \<open>
  What every component of the development shares: the results and errors of fallible
  operations, Rust's checked and saturating arithmetic on unsigned integers, decimal
  rendering of numbers, and the list operations the code reaches through iterators
  (\<open>iter_mut().find(..)\<close>, \<open>position\<close>, \<open>rposition\<close>, \<open>remove\<close>, \<open>insert\<close>, \<open>retain\<close>) with the
  lemmas that describe them. Nothing here models a file of the repository: it is the part
  of the Rust language and standard library the models use.

  Unsigned integers are \<open>nat\<close> and signed ones \<open>int\<close>; wherever the source checks or
  saturates at a width, the width is written out with the operations below.
\<close>

named_theorems model_defs \<open>definitions that a component's proofs unfold together\<close>
named_theorems inv_intros \<open>preservation lemmas of a component's invariant\<close>

section \<open>Results\<close>

text \<open>An I/O error: its kind, as far as the code looks at it, and its text.\<close>

datatype io_kind = NotFound | AlreadyExists | InvalidInput | InvalidData | WouldBlock | Interrupted
  | TimedOut | Unsupported | CrossesDevices | ResourceBusy | NotADirectory
  | NotConnected | HostUnreachable | NetworkUnreachable | NetworkDown | StaleNetworkFileHandle
  | ReadOnlyFilesystem | PermissionDenied | OtherKind

datatype io_error = IoError (err_kind: io_kind) (err_text: string)

type_synonym 'a io_result = "io_error + 'a"

abbreviation io_other :: "string \<Rightarrow> io_error" where
  "io_other msg \<equiv> IoError OtherKind msg"

section \<open>Unsigned arithmetic at a width\<close>

definition max_uint :: "nat \<Rightarrow> nat" where
  "max_uint w = 2 ^ w - 1"

definition saturating_add :: "nat \<Rightarrow> nat \<Rightarrow> nat \<Rightarrow> nat" where
  "saturating_add w a b = min (a + b) (max_uint w)"

definition checked_add :: "nat \<Rightarrow> nat \<Rightarrow> nat \<Rightarrow> nat option" where
  "checked_add w a b = (if a + b \<le> max_uint w then Some (a + b) else None)"

definition checked_mul :: "nat \<Rightarrow> nat \<Rightarrow> nat \<Rightarrow> nat option" where
  "checked_mul w a b = (if a * b \<le> max_uint w then Some (a * b) else None)"

lemma saturating_add_le: "saturating_add w a b \<le> max_uint w"
  by (simp add: saturating_add_def)

lemma saturating_add_ge: "a \<le> max_uint w \<Longrightarrow> a \<le> saturating_add w a b"
  by (simp add: saturating_add_def)

lemma saturating_add_small: "a + b \<le> max_uint w \<Longrightarrow> saturating_add w a b = a + b"
  by (simp add: saturating_add_def)

lemma checked_add_Some_iff: "checked_add w a b = Some c \<longleftrightarrow> c = a + b \<and> c \<le> max_uint w"
  by (auto simp: checked_add_def)

lemma checked_mul_Some_iff: "checked_mul w a b = Some c \<longleftrightarrow> c = a * b \<and> c \<le> max_uint w"
  by (auto simp: checked_mul_def)

section \<open>Decimal rendering\<close>

definition digit_char :: "nat \<Rightarrow> char" where
  "digit_char d = char_of (48 + d)"

definition char_digit :: "char \<Rightarrow> nat" where
  "char_digit c = of_char c - 48"

definition is_digit_char :: "char \<Rightarrow> bool" where
  "is_digit_char c \<longleftrightarrow> 48 \<le> (of_char c :: nat) \<and> (of_char c :: nat) \<le> 57"

lemma char_digit_digit [simp]: "d < 10 \<Longrightarrow> char_digit (digit_char d) = d"
  by (simp add: char_digit_def digit_char_def)

lemma is_digit_digit [simp]: "d < 10 \<Longrightarrow> is_digit_char (digit_char d)"
  by (simp add: is_digit_char_def digit_char_def)

fun show_nat :: "nat \<Rightarrow> string" where
  "show_nat n = (if n < 10 then [digit_char n]
                 else show_nat (n div 10) @ [digit_char (n mod 10)])"

declare show_nat.simps [simp del]

definition digits_value :: "string \<Rightarrow> nat" where
  "digits_value s = foldl (\<lambda>a c. 10 * a + char_digit c) 0 s"

lemma digits_value_snoc [simp]: "digits_value (s @ [c]) = 10 * digits_value s + char_digit c"
  by (simp add: digits_value_def)

lemma digits_value_show_nat [simp]: "digits_value (show_nat n) = n"
proof (induction n rule: show_nat.induct)
  case (1 n)
  show ?case
  proof (cases "n < 10")
    case True
    then show ?thesis by (subst show_nat.simps) (simp add: digits_value_def)
  next
    case False
    with 1 have "digits_value (show_nat (n div 10)) = n div 10" by blast
    with False show ?thesis by (subst show_nat.simps) simp
  qed
qed

lemma show_nat_inject [simp]: "show_nat m = show_nat n \<longleftrightarrow> m = n"
  by (metis digits_value_show_nat)

text \<open>Rust's \<open>{:02}\<close>: padded with zeros on the left to two characters.\<close>

definition pad2 :: "string \<Rightarrow> string" where
  "pad2 s = replicate (2 - length s) (digit_char 0) @ s"

lemma digits_value_zeros: "digits_value (replicate k (digit_char 0) @ s) = digits_value s"
  by (induction k) (simp_all add: digits_value_def)

lemma pad2_show_nat_inject [simp]: "pad2 (show_nat m) = pad2 (show_nat n) \<longleftrightarrow> m = n"
proof
  assume "pad2 (show_nat m) = pad2 (show_nat n)"
  then have "digits_value (pad2 (show_nat m)) = digits_value (pad2 (show_nat n))" by simp
  then show "m = n" by (simp add: pad2_def digits_value_zeros)
qed simp

section \<open>ASCII characters and text\<close>

definition ascii_lower :: "char \<Rightarrow> char" where
  "ascii_lower c = (if 65 \<le> (of_char c :: nat) \<and> (of_char c :: nat) \<le> 90
                    then char_of ((of_char c :: nat) + 32) else c)"

definition eq_ignore_ascii_case :: "string \<Rightarrow> string \<Rightarrow> bool" where
  "eq_ignore_ascii_case a b \<longleftrightarrow> map ascii_lower a = map ascii_lower b"

definition starts_with :: "string \<Rightarrow> string \<Rightarrow> bool" where
  "starts_with s p \<longleftrightarrow> take (length p) s = p"

definition ends_with :: "string \<Rightarrow> string \<Rightarrow> bool" where
  "ends_with s p \<longleftrightarrow> length p \<le> length s \<and> drop (length s - length p) s = p"

definition strip_suffix :: "string \<Rightarrow> string \<Rightarrow> string option" where
  "strip_suffix s p = (if ends_with s p then Some (take (length s - length p) s) else None)"

lemma strip_suffix_append [simp]: "strip_suffix (s @ p) p = Some s"
  by (simp add: strip_suffix_def ends_with_def)

lemma starts_with_append [simp]: "starts_with (p @ s) p"
  by (simp add: starts_with_def)

section \<open>Lists as vectors\<close>

text \<open>\<open>iter_mut().find(P)\<close> followed by a mutation of what it found.\<close>

fun update_first :: "('a \<Rightarrow> bool) \<Rightarrow> ('a \<Rightarrow> 'a) \<Rightarrow> 'a list \<Rightarrow> 'a list" where
  "update_first P f [] = []"
| "update_first P f (x # xs) = (if P x then f x # xs else x # update_first P f xs)"

fun position :: "('a \<Rightarrow> bool) \<Rightarrow> 'a list \<Rightarrow> nat option" where
  "position P [] = None"
| "position P (x # xs) = (if P x then Some 0 else map_option Suc (position P xs))"

definition rposition :: "('a \<Rightarrow> bool) \<Rightarrow> 'a list \<Rightarrow> nat option" where
  "rposition P xs = map_option (\<lambda>i. length xs - 1 - i) (position P (rev xs))"

definition remove_at :: "nat \<Rightarrow> 'a list \<Rightarrow> 'a list" where
  "remove_at i xs = take i xs @ drop (Suc i) xs"

definition insert_at :: "nat \<Rightarrow> 'a \<Rightarrow> 'a list \<Rightarrow> 'a list" where
  "insert_at i x xs = take i xs @ x # drop i xs"

definition last_opt :: "'a list \<Rightarrow> 'a option" where
  "last_opt xs = (if xs = [] then None else Some (last xs))"

fun find_map :: "('a \<Rightarrow> 'b option) \<Rightarrow> 'a list \<Rightarrow> 'b option" where
  "find_map f [] = None"
| "find_map f (x # xs) = (case f x of None \<Rightarrow> find_map f xs | Some y \<Rightarrow> Some y)"

lemma map_update_first:
  "(\<And>x. P x \<Longrightarrow> g (f x) = g x) \<Longrightarrow> map g (update_first P f xs) = map g xs"
  by (induction xs) auto

lemma length_update_first [simp]: "length (update_first P f xs) = length xs"
  by (induction xs) auto

lemma in_set_update_first:
  "y \<in> set (update_first P f xs) \<Longrightarrow> y \<in> set xs \<or> (\<exists>x \<in> set xs. P x \<and> y = f x)"
  by (induction xs) (auto split: if_splits)

lemma list_all_update_first:
  "list_all Q xs \<Longrightarrow> (\<And>x. x \<in> set xs \<Longrightarrow> P x \<Longrightarrow> Q x \<Longrightarrow> Q (f x)) \<Longrightarrow> list_all Q (update_first P f xs)"
  by (induction xs) auto

lemma filter_update_first_le:
  "(\<And>x. x \<in> set xs \<Longrightarrow> P x \<Longrightarrow> Q (f x) \<Longrightarrow> Q x)
    \<Longrightarrow> length (filter Q (update_first P f xs)) \<le> length (filter Q xs)"
proof (induction xs)
  case (Cons x xs)
  then show ?case by (cases "P x") (auto simp: le_SucI)
qed simp

lemma filter_update_first_Suc:
  "length (filter Q (update_first P f xs)) \<le> Suc (length (filter Q xs))"
  by (induction xs) auto

lemma update_first_none: "\<not> (\<exists>x \<in> set xs. P x) \<Longrightarrow> update_first P f xs = xs"
  by (induction xs) auto

lemma find_update_first:
  "find P xs = Some x \<Longrightarrow> P (f x) \<Longrightarrow> find P (update_first P f xs) = Some (f x)"
  by (induction xs) (auto split: if_splits)

lemma position_Some:
  "position P xs = Some i \<Longrightarrow> i < length xs \<and> P (xs ! i) \<and> (\<forall>k < i. \<not> P (xs ! k))"
proof (induction xs arbitrary: i)
  case (Cons x xs)
  show ?case
  proof (cases "P x")
    case False
    with Cons.prems obtain k where k: "position P xs = Some k" "i = Suc k" by auto
    with Cons.IH [OF k(1)] False show ?thesis by (auto simp: less_Suc_eq_0_disj)
  qed (use Cons.prems in auto)
qed simp

lemma position_None: "position P xs = None \<longleftrightarrow> (\<forall>x \<in> set xs. \<not> P x)"
  by (induction xs) auto

lemma rposition_Some:
  assumes "rposition P xs = Some i"
  shows "i < length xs \<and> P (xs ! i)"
proof -
  from assms obtain k where k: "position P (rev xs) = Some k" and i: "i = length xs - 1 - k"
    by (auto simp: rposition_def)
  from position_Some [OF k] have "k < length xs" "P (rev xs ! k)" by auto
  with i show ?thesis by (auto simp: rev_nth)
qed

lemma rposition_None: "rposition P xs = None \<longleftrightarrow> (\<forall>x \<in> set xs. \<not> P x)"
  by (simp add: rposition_def position_None)

lemma remove_insert_mset:
  "i < length xs \<Longrightarrow> set (insert_at k (f (xs ! i)) (remove_at i xs)) \<subseteq> insert (f (xs ! i)) (set xs)"
  by (auto simp: insert_at_def remove_at_def dest: in_set_takeD in_set_dropD)

lemma split_at_nth: "i < length xs \<Longrightarrow> xs = take i xs @ xs ! i # drop (Suc i) xs"
  by (rule id_take_nth_drop)

lemma set_remove_at: "set (remove_at i xs) \<subseteq> set xs"
  by (auto simp: remove_at_def dest: in_set_takeD in_set_dropD)

lemma set_insert_at [simp]: "set (insert_at k x xs) = insert x (set xs)"
proof -
  have "set xs = set (take k xs @ drop k xs)" by (simp only: append_take_drop_id)
  also have "\<dots> = set (take k xs) \<union> set (drop k xs)" by (simp only: set_append)
  finally show ?thesis by (auto simp: insert_at_def)
qed

lemma distinct_map_insert_at:
  "distinct (map g (insert_at k x xs)) \<longleftrightarrow> g x \<notin> g ` set xs \<and> distinct (map g xs)"
proof -
  have "distinct (map g xs) = distinct (map g (take k xs) @ map g (drop k xs))"
    by (metis append_take_drop_id map_append)
  moreover have "g ` set xs = g ` set (take k xs) \<union> g ` set (drop k xs)"
    by (metis append_take_drop_id image_Un set_append)
  ultimately show ?thesis by (auto simp: insert_at_def)
qed

lemma distinct_map_remove_at:
  assumes "i < length xs" "distinct (map g xs)"
  shows "distinct (map g (remove_at i xs)) \<and> g (xs ! i) \<notin> g ` set (remove_at i xs)"
proof -
  have "distinct (map g (take i xs @ xs ! i # drop (Suc i) xs))"
    using assms by (simp flip: split_at_nth)
  then show ?thesis by (auto simp: remove_at_def)
qed

text \<open>Taking an element out and putting a changed copy back somewhere else, with the
  projections the change leaves alone.\<close>

lemma distinct_map_move:
  assumes "i < length xs" "distinct (map g xs)" "g y = g (xs ! i)"
  shows "distinct (map g (insert_at k y (remove_at i xs)))"
  using distinct_map_remove_at [OF assms(1,2)] assms(3) by (simp add: distinct_map_insert_at)

lemma length_filter_insert_at:
  "length (filter Q (insert_at k x xs)) = (if Q x then 1 else 0) + length (filter Q xs)"
proof -
  have "length (filter Q xs) = length (filter Q (take k xs)) + length (filter Q (drop k xs))"
    by (metis append_take_drop_id filter_append length_append)
  then show ?thesis by (simp add: insert_at_def)
qed

lemma length_filter_remove_at:
  "length (filter Q (remove_at i xs)) \<le> length (filter Q xs)"
proof (cases "i < length xs")
  case True
  then have "length (filter Q xs) = length (filter Q (take i xs @ xs ! i # drop (Suc i) xs))"
    by (simp flip: split_at_nth)
  then show ?thesis by (simp add: remove_at_def)
qed (simp add: remove_at_def)

lemma find_map_Some: "find_map f xs = Some y \<Longrightarrow> \<exists>x \<in> set xs. f x = Some y"
  by (induction xs) (auto split: option.splits)

lemma find_map_None: "find_map f xs = None \<longleftrightarrow> (\<forall>x \<in> set xs. f x = None)"
  by (induction xs) (auto split: option.splits)

lemma find_map_cong:
  "xs = ys \<Longrightarrow> (\<And>x. x \<in> set ys \<Longrightarrow> f x = g x) \<Longrightarrow> find_map f xs = find_map g ys"
  by (induction ys arbitrary: xs) (auto split: option.splits)

lemma find_map_map: "find_map f (map g xs) = find_map (\<lambda>x. f (g x)) xs"
  by (induction xs) (auto split: option.splits)

lemma last_opt_map: "last_opt (map f xs) = map_option f (last_opt xs)"
  by (simp add: last_opt_def last_map)

lemma map_snd_enum: "map (\<lambda>x. f (snd x)) (List.enumerate n xs) = map f xs"
  by (induction xs arbitrary: n) simp_all

lemma filter_key_none: "k \<notin> g ` set xs \<Longrightarrow> filter (\<lambda>x. g x = k) xs = []"
  by (auto simp: filter_empty_conv)

lemma filter_key_unique:
  "distinct (map g xs) \<Longrightarrow> k \<in> g ` set xs \<Longrightarrow> map g (filter (\<lambda>x. g x = k) xs) = [k]"
  by (induction xs) (auto simp: filter_key_none)

lemma find_append_none: "\<forall>x \<in> set xs. \<not> P x \<Longrightarrow> find P (xs @ ys) = find P ys"
  by (induction xs) auto

lemma find_in_set: "find P xs = Some x \<Longrightarrow> x \<in> set xs \<and> P x"
  by (induction xs) (auto split: if_splits)

section \<open>Invariants of step relations\<close>

locale step_invariant =
  fixes steps :: "'s \<Rightarrow> 's \<Rightarrow> bool"
    and reach :: "'s \<Rightarrow> bool"
    and start :: "'s \<Rightarrow> bool"
    and inv :: "'s \<Rightarrow> bool"
  assumes reach_induct: "\<lbrakk>reach s; \<And>s. start s \<Longrightarrow> Q s; \<And>s s'. reach s \<Longrightarrow> Q s \<Longrightarrow> steps s s' \<Longrightarrow> Q s'\<rbrakk> \<Longrightarrow> Q s"
    and start_inv: "start s \<Longrightarrow> inv s"
    and step_inv: "inv s \<Longrightarrow> steps s s' \<Longrightarrow> inv s'"
begin

lemma reachable_inv: "reach s \<Longrightarrow> inv s"
  by (rule reach_induct) (auto intro: start_inv step_inv)

lemma step_from_reachable: "reach s \<Longrightarrow> steps s s' \<Longrightarrow> inv s \<and> inv s'"
  using reachable_inv step_inv by blast

end

end
