(* ===== verification/Paths.thy ===== *)
theory Paths
  imports Prelude
begin

text \<open>
  The standard library's \<open>std::path::Path\<close> on Unix, as far as the models use it. A path
  is the list of its components: two \<open>PathBuf\<close> values are equal in Rust exactly when their
  components are (\<open>a//b\<close>, \<open>a/./b\<close> and \<open>a/b/\<close> are the same path), so equality of component
  lists is the equality the code's maps and comparisons use. \<open>path_of\<close> reads a path from
  its text; \<open>path_join\<close>, \<open>path_parent\<close>, \<open>file_name\<close>, \<open>with_file_name\<close>, \<open>file_stem\<close> and
  \<open>extension\<close> are the methods of the same names.
\<close>

datatype comp = RootDir | CurDir | ParentDir | Normal string

type_synonym path = "comp list"

fun split_slash :: "string \<Rightarrow> string list" where
  "split_slash [] = [[]]"
| "split_slash (c # cs) =
     (if c = CHR ''/'' then [] # split_slash cs
      else case split_slash cs of [] \<Rightarrow> [[c]] | w # ws \<Rightarrow> (c # w) # ws)"

definition comp_of :: "string \<Rightarrow> comp" where
  "comp_of s = (if s = ''..'' then ParentDir else Normal s)"

definition path_of :: "string \<Rightarrow> path" where
  "path_of s =
     (let parts = split_slash s;
          body = map comp_of (filter (\<lambda>w. w \<noteq> [] \<and> w \<noteq> ''.'') parts)
      in if s \<noteq> [] \<and> hd s = CHR ''/'' then RootDir # body
         else if hd parts = ''.'' then CurDir # body else body)"

definition is_absolute :: "path \<Rightarrow> bool" where
  "is_absolute p \<longleftrightarrow> (case p of RootDir # _ \<Rightarrow> True | _ \<Rightarrow> False)"

definition path_join :: "path \<Rightarrow> path \<Rightarrow> path" where
  "path_join p r =
     (if is_absolute r then r else if p = [] then r
      else p @ (case r of CurDir # rest \<Rightarrow> rest | _ \<Rightarrow> r))"

definition path_parent :: "path \<Rightarrow> path option" where
  "path_parent p = (if p = [] \<or> last p = RootDir then None else Some (butlast p))"

definition file_name :: "path \<Rightarrow> string option" where
  "file_name p = (if p = [] then None else case last p of Normal s \<Rightarrow> Some s | _ \<Rightarrow> None)"

definition with_file_name :: "path \<Rightarrow> string \<Rightarrow> path" where
  "with_file_name p n =
     path_join (if file_name p = None then p else butlast p) (path_of n)"

definition path_starts_with :: "path \<Rightarrow> path \<Rightarrow> bool" where
  "path_starts_with p r \<longleftrightarrow> take (length r) p = r"

text \<open>\<open>rsplit_file_at_dot\<close>: a name without a dot, or whose only dot is its first character,
  has no extension.\<close>

definition split_at_dot :: "string \<Rightarrow> string \<times> string option" where
  "split_at_dot s =
     (let after = rev (takeWhile (\<lambda>c. c \<noteq> CHR ''.'') (rev s));
          rest = dropWhile (\<lambda>c. c \<noteq> CHR ''.'') (rev s)
      in if s = ''..'' \<or> rest = [] \<or> tl rest = [] then (s, None)
         else (rev (tl rest), Some after))"

definition extension :: "path \<Rightarrow> string option" where
  "extension p = (case file_name p of None \<Rightarrow> None | Some n \<Rightarrow> snd (split_at_dot n))"

definition file_stem :: "path \<Rightarrow> string option" where
  "file_stem p = map_option (\<lambda>n. fst (split_at_dot n)) (file_name p)"

text \<open>The text of a path, as \<open>to_string_lossy\<close> of a normalised one.\<close>

definition comp_text :: "comp \<Rightarrow> string" where
  "comp_text c = (case c of RootDir \<Rightarrow> [] | CurDir \<Rightarrow> ''.'' | ParentDir \<Rightarrow> ''..'' | Normal s \<Rightarrow> s)"

fun slash_join :: "string list \<Rightarrow> string" where
  "slash_join [] = []"
| "slash_join [s] = s"
| "slash_join (s # t # ss) = s @ CHR ''/'' # slash_join (t # ss)"

definition path_text :: "path \<Rightarrow> string" where
  "path_text p = (if p = [RootDir] then ''/'' else slash_join (map comp_text p))"

lemma path_join_absolute [simp]: "is_absolute r \<Longrightarrow> path_join p r = r"
  by (simp add: path_join_def)

lemma path_starts_with_refl [simp]: "path_starts_with p p"
  by (simp add: path_starts_with_def)

lemma path_starts_with_append: "path_starts_with (r @ s) r"
  by (simp add: path_starts_with_def)

lemma path_parent_append_Normal [simp]: "path_parent (p @ [Normal n]) = Some p"
  by (simp add: path_parent_def)

lemma file_name_append_Normal [simp]: "file_name (p @ [Normal n]) = Some n"
  by (simp add: file_name_def)

lemma path_of_example: "path_of ''/a//b/./c/'' = [RootDir, Normal ''a'', Normal ''b'', Normal ''c'']"
  by (simp add: path_of_def comp_of_def)

lemma path_of_relative_example: "path_of ''./a/../b'' = [CurDir, Normal ''a'', ParentDir, Normal ''b'']"
  by (simp add: path_of_def comp_of_def)

lemma extension_example:
  "extension [Normal ''a.tar.gz''] = Some ''gz'' \<and> extension [Normal ''.mkv''] = None
   \<and> file_stem [Normal ''a.tar.gz''] = Some ''a.tar''"
  by (simp add: extension_def file_stem_def file_name_def split_at_dot_def)

end
