(* ===== verification/Durable.thy ===== *)
theory Durable
  imports Paths
begin

text \<open>
  Durable writes of one small file, as \<open>src/src/server/ripper/staging.rs\<close> does them
  (\<open>write_marker_phased\<close>): the bytes go to a sibling \<open>.tmp\<close>, are synced, the \<open>.tmp\<close> is
  renamed over the file, and the folder is synced. The queue file, the links file, the
  match store and every \<open>state.json\<close> are written this way.

  A file and its \<open>.tmp\<close> sibling are a \<open>slot\<close>; the faults a write meets are its
  argument, one optional error per system call. The locale \<open>durable_store\<close> is the contract
  the writers' clients rely on; \<open>write_marker_phased\<close> is proved to meet it. A file's
  content is a parsed document or bytes that do not parse (\<open>doc\<close>): the JSON codec is the
  \<open>serde_json\<close> crate, taken to read back what it wrote.
\<close>

datatype 'f doc = Json 'f | Damaged string

text \<open>What a \<open>.tmp\<close> file holds: a write cut short, or everything.\<close>

datatype 'c tmp_file = Torn | Whole 'c

record 'c slot =
  slot_target :: "'c option"
  slot_tmp :: "'c tmp_file option"

record faults =
  ft_json :: "io_error option"     \<comment> \<open>\<open>serde_json\<close> could not serialise the value\<close>
  ft_create :: "io_error option"
  ft_write :: "io_error option"
  ft_sync :: "io_error option"
  ft_rename :: "io_error option"
  ft_dirsync :: "io_error option"

definition no_faults :: faults where
  "no_faults = \<lparr>ft_json = None, ft_create = None, ft_write = None, ft_sync = None,
     ft_rename = None, ft_dirsync = None\<rparr>"

datatype marker_write_error = BeforePublish io_error | AfterPublish io_error

text \<open>
  \<open>write_marker_phased\<close>. A failed create, write or sync removes the \<open>.tmp\<close>; so does a
  failed rename. The folder is synced only when the path has a parent.
\<close>

definition write_marker_phased ::
    "path \<Rightarrow> 'c \<Rightarrow> faults \<Rightarrow> 'c slot \<Rightarrow> (marker_write_error + unit) \<times> 'c slot" where
  "write_marker_phased p c w s =
     (if file_name p = None
      then (Inl (BeforePublish (IoError InvalidInput ''marker has no file name'')), s)
      else case ft_create w of Some e \<Rightarrow> (Inl (BeforePublish e), s\<lparr>slot_tmp := None\<rparr>)
      | None \<Rightarrow>
      (case ft_write w of Some e \<Rightarrow> (Inl (BeforePublish e), s\<lparr>slot_tmp := None\<rparr>)
      | None \<Rightarrow>
      (case ft_sync w of Some e \<Rightarrow> (Inl (BeforePublish e), s\<lparr>slot_tmp := None\<rparr>)
      | None \<Rightarrow>
      (case ft_rename w of Some e \<Rightarrow> (Inl (BeforePublish e), s\<lparr>slot_tmp := None\<rparr>)
      | None \<Rightarrow>
        let s' = s\<lparr>slot_target := Some c, slot_tmp := None\<rparr> in
        if path_parent p = None then (Inr (), s')
        else case ft_dirsync w of Some e \<Rightarrow> (Inl (AfterPublish e), s')
             | None \<Rightarrow> (Inr (), s')))))"

text \<open>\<open>write_marker_with_directory_sync\<close> and \<open>write_marker_durable\<close> forget the phase.\<close>

definition write_marker_durable ::
    "path \<Rightarrow> 'c \<Rightarrow> faults \<Rightarrow> 'c slot \<Rightarrow> unit io_result \<times> 'c slot" where
  "write_marker_durable p c w s =
     (case write_marker_phased p c w s of
        (Inr u, s') \<Rightarrow> (Inr u, s')
      | (Inl (BeforePublish e), s') \<Rightarrow> (Inl e, s')
      | (Inl (AfterPublish e), s') \<Rightarrow> (Inl e, s'))"

text \<open>
  The states a write passes through, in order, for a crash between two system calls: the
  \<open>.tmp\<close> created and part written, whole, then renamed.
\<close>

definition marker_phases :: "'c \<Rightarrow> 'c slot \<Rightarrow> 'c slot list" where
  "marker_phases c s =
     [s, s\<lparr>slot_tmp := Some Torn\<rparr>, s\<lparr>slot_tmp := Some (Whole c)\<rparr>,
      s\<lparr>slot_target := Some c, slot_tmp := None\<rparr>]"

section \<open>The contract\<close>

text \<open>
  What a client of a durable writer relies on: a success and a failure after publication
  leave the new content, a failure before publication leaves the old one, and no crash
  point shows anything else.
\<close>

locale durable_store =
  fixes put :: "'c \<Rightarrow> faults \<Rightarrow> 's \<Rightarrow> (marker_write_error + unit) \<times> 's"
    and content :: "'s \<Rightarrow> 'c option"
    and phases :: "'c \<Rightarrow> 's \<Rightarrow> 's list"
  assumes write_ok: "put c w s = (Inr (), s') \<Longrightarrow> content s' = Some c"
    and write_after: "put c w s = (Inl (AfterPublish e), s') \<Longrightarrow> content s' = Some c"
    and write_before: "put c w s = (Inl (BeforePublish e), s') \<Longrightarrow> content s' = content s"
    and phases_atomic: "s' \<in> set (phases c s) \<Longrightarrow> content s' = content s \<or> content s' = Some c"
begin

lemma write_cases: "content (snd (put c w s)) = Some c \<or> content (snd (put c w s)) = content s"
proof (cases "put c w s")
  case (Pair r s')
  then show ?thesis
  proof (cases r)
    case (Inl e)
    with Pair show ?thesis
      by (cases e) (auto dest: write_after write_before)
  next
    case (Inr u)
    with Pair show ?thesis using write_ok [of c w s s'] by simp
  qed
qed

lemma write_keeps:
  "content s = Some c' \<Longrightarrow> P c' \<Longrightarrow> P c \<Longrightarrow>
   \<exists>c''. content (snd (put c w s)) = Some c'' \<and> P c''"
  using write_cases [of c w s] by auto

lemma not_before_new:
  "\<forall>e. fst (put c w s) \<noteq> Inl (BeforePublish e) \<Longrightarrow> content (snd (put c w s)) = Some c"
proof (cases "put c w s")
  case (Pair r s')
  assume "\<forall>e. fst (put c w s) \<noteq> Inl (BeforePublish e)"
  with Pair show ?thesis
    by (cases r rule: sum.exhaust)
      (metis fst_conv marker_write_error.exhaust snd_conv write_after, simp add: write_ok)
qed

end

lemma write_marker_phased_cases:
  "write_marker_phased p c w s = (r, s') \<Longrightarrow>
     (r = Inr () \<and> slot_target s' = Some c) \<or>
     (\<exists>e. r = Inl (AfterPublish e) \<and> slot_target s' = Some c) \<or>
     (\<exists>e. r = Inl (BeforePublish e) \<and> slot_target s' = slot_target s)"
  by (auto simp: write_marker_phased_def Let_def split: if_splits option.splits)

interpretation marker: durable_store "write_marker_phased p" slot_target marker_phases for p
proof unfold_locales
  fix c :: 'a and w and s s' :: "'a slot" and e
  show "write_marker_phased p c w s = (Inr (), s') \<Longrightarrow> slot_target s' = Some c"
    by (drule write_marker_phased_cases) auto
  show "write_marker_phased p c w s = (Inl (AfterPublish e), s') \<Longrightarrow> slot_target s' = Some c"
    by (drule write_marker_phased_cases) auto
  show "write_marker_phased p c w s = (Inl (BeforePublish e), s') \<Longrightarrow> slot_target s' = slot_target s"
    by (drule write_marker_phased_cases) auto
  show "s' \<in> set (marker_phases c s) \<Longrightarrow> slot_target s' = slot_target s \<or> slot_target s' = Some c"
    by (auto simp: marker_phases_def)
qed

text \<open>Every write that ends leaves no \<open>.tmp\<close> behind, whatever failed.\<close>

lemma write_marker_phased_no_tmp:
  "file_name p \<noteq> None \<Longrightarrow> slot_tmp (snd (write_marker_phased p c w s)) = None"
  by (auto simp: write_marker_phased_def Let_def split: option.splits)

lemma write_marker_durable_cases:
  "write_marker_durable p c w s = (r, s') \<Longrightarrow>
     (r = Inr () \<and> slot_target s' = Some c) \<or>
     (\<exists>e. r = Inl e \<and> (slot_target s' = Some c \<or> slot_target s' = slot_target s))"
proof -
  assume h: "write_marker_durable p c w s = (r, s')"
  obtain r0 s0 where ph: "write_marker_phased p c w s = (r0, s0)" by fastforce
  from write_marker_phased_cases [OF ph] show ?thesis
    by (elim disjE exE conjE) (use h in \<open>auto simp: write_marker_durable_def ph\<close>)
qed

lemma write_marker_durable_ok:
  "write_marker_durable p c w s = (Inr u, s') \<Longrightarrow> slot_target s' = Some c"
  by (drule write_marker_durable_cases) auto

text \<open>C38: a durable marker write publishes all or nothing.\<close>

theorem marker_write_atomic:
  "slot_target (snd (write_marker_durable p c w s)) \<in> {slot_target s, Some c}
   \<and> slot_target ` set (marker_phases c s) \<subseteq> {slot_target s, Some c}"
proof -
  have "slot_target (snd (write_marker_durable p c w s)) \<in> {slot_target s, Some c}"
    using write_marker_durable_cases [of p c w s] by (cases "write_marker_durable p c w s") auto
  moreover have "slot_target ` set (marker_phases c s) \<subseteq> {slot_target s, Some c}"
    by (auto dest!: marker.phases_atomic)
  ultimately show ?thesis by blast
qed

end
