(* ===== verification/Set_Aside.thy ===== *)
theory Set_Aside
  imports Durable
begin

text \<open>
  \<open>set_aside\<close> of \<open>src/src/server/library/mod.rs\<close>: a damaged state file is renamed to the first
  free \<open><name>.unreadable\<close> or \<open><name>.unreadable.N\<close>. The folder's other files are a map from
  name to content; \<open>stat\<close> is the fault a look at a candidate meets, \<open>ren\<close> the one the
  rename meets.
\<close>

definition aside_name :: "string \<Rightarrow> nat \<Rightarrow> string" where
  "aside_name name n = (if n = 0 then name @ ''.unreadable'' else name @ ''.unreadable.'' @ show_nat n)"

fun set_aside_from ::
    "string \<Rightarrow> 'c \<Rightarrow> (string \<Rightarrow> io_error option) \<Rightarrow> io_error option \<Rightarrow> (string \<rightharpoonup> 'c) \<Rightarrow> nat list
     \<Rightarrow> string io_result \<times> (string \<rightharpoonup> 'c)" where
  "set_aside_from name c stat ren others [] =
     (Inl (IoError AlreadyExists (''too many copies of '' @ name @ '' are already set aside'')), others)"
| "set_aside_from name c stat ren others (n # ns) =
     (let aside = aside_name name n in
      case stat aside of
        Some e \<Rightarrow> (Inl e, others)
      | None \<Rightarrow>
          if others aside \<noteq> None then set_aside_from name c stat ren others ns
          else case ren of Some e \<Rightarrow> (Inl e, others) | None \<Rightarrow> (Inr aside, others(aside \<mapsto> c)))"

definition set_aside ::
    "string \<Rightarrow> 'c \<Rightarrow> (string \<Rightarrow> io_error option) \<Rightarrow> io_error option \<Rightarrow> (string \<rightharpoonup> 'c)
     \<Rightarrow> string io_result \<times> (string \<rightharpoonup> 'c)" where
  "set_aside name c stat ren others = set_aside_from name c stat ren others [0..<1000]"

lemma set_aside_from_cases:
  "set_aside_from name c stat ren others ns = (r, others') \<Longrightarrow>
     (\<exists>e. r = Inl e \<and> others' = others)
   \<or> (\<exists>n \<in> set ns. r = Inr (aside_name name n) \<and> others (aside_name name n) = None
        \<and> others' = others(aside_name name n \<mapsto> c))"
  by (induction ns) (auto simp: Let_def split: option.splits if_splits)

text \<open>Setting a damaged file aside never overwrites an earlier copy, and keeps its content.\<close>

theorem set_aside_preserves:
  "(case set_aside name c stat ren others of
      (Inl _, others') \<Rightarrow> others' = others
    | (Inr aside, others') \<Rightarrow> others aside = None \<and> others' aside = Some c \<and> others \<subseteq>\<^sub>m others')"
proof -
  obtain r others' where r: "set_aside name c stat ren others = (r, others')" by fastforce
  from set_aside_from_cases [OF this [unfolded set_aside_def]] show ?thesis
    by (elim disjE exE conjE bexE) (use r in \<open>auto simp: map_le_def\<close>)
qed

end
