(* ===== verification/Server_Util.thy ===== *)
theory Server_Util
  imports Paths
begin

text \<open>
  \<open>src/src/server/util.rs\<close> and \<open>src/src/title_identity.rs\<close>: the stamp a journal keeps of a
  file, the identity of a scanned title, the civil date of a day number, the sanitised path
  segments staging and library names are built from, and the numbering of several discs
  that share one title.
\<close>

section \<open>Stamps and identities\<close>

text \<open>A modification time is the nanoseconds since the epoch.\<close>

record stamp =
  st_size :: nat
  st_modified :: nat

text \<open>\<open>pinned_mtime\<close>: down to an even whole second, \<open>secs & !1\<close>.\<close>

definition pinned_mtime :: "nat \<Rightarrow> nat" where
  "pinned_mtime t = (let secs = t div 1000000000 in (secs - secs mod 2) * 1000000000)"

lemma pinned_mtime_le: "pinned_mtime t \<le> t"
proof -
  have "(t div 1000000000) * 1000000000 \<le> t" by simp
  moreover have "t div 1000000000 - (t div 1000000000) mod 2 \<le> t div 1000000000" by simp
  ultimately show ?thesis
    unfolding pinned_mtime_def Let_def
    by (meson le_trans mult_le_mono1)
qed

lemma pinned_mtime_idem: "pinned_mtime (pinned_mtime t) = pinned_mtime t"
  by (simp add: pinned_mtime_def Let_def)

record title_identity =
  ti_playlist :: string
  ti_playlist_id :: nat
  ti_extents :: "(nat \<times> nat) list"

section \<open>Dates\<close>

text \<open>
  \<open>civil_from_days\<close>, on Rust's truncating division (the operands of every division but the
  first are not negative): year, month and day of the day \<open>days\<close> after 1970-01-01.
\<close>

definition civil_from_days :: "int \<Rightarrow> int \<times> int \<times> int" where
  "civil_from_days days =
     (let z = days + 719468;
          n = (if z \<ge> 0 then z else z - 146096);
          era = (if n \<ge> 0 then n div 146097 else - ((- n) div 146097));
          doe = z - era * 146097;
          yoe = (doe - doe div 1460 + doe div 36524 - doe div 146096) div 365;
          y = yoe + era * 400;
          doy = doe - (365 * yoe + yoe div 4 - yoe div 100);
          mp = (5 * doy + 2) div 153;
          d = doy - (153 * mp + 2) div 5 + 1;
          m = (if mp < 10 then mp + 3 else mp - 9);
          y' = (if m \<le> 2 then y + 1 else y)
      in (y', m, d))"

lemma civil_epoch: "civil_from_days 0 = (1970, 1, 1)"
  by code_simp

section \<open>Path segments\<close>

definition max_segment_len :: nat where
  "max_segment_len = 200"

definition safe_fallback :: string where
  "safe_fallback = ''untitled''"

definition ensure_safe_segment :: "string \<Rightarrow> string" where
  "ensure_safe_segment s =
     (let stripped = take max_segment_len (dropWhile (\<lambda>c. c = CHR ''.'') s)
      in if stripped = [] \<or> list_all (\<lambda>c. c = CHR ''.'') stripped then safe_fallback
         else stripped)"

definition is_ascii_alphanumeric :: "char \<Rightarrow> bool" where
  "is_ascii_alphanumeric c \<longleftrightarrow>
     (let n = (of_char c :: nat) in 48 \<le> n \<and> n \<le> 57 \<or> 65 \<le> n \<and> n \<le> 90 \<or> 97 \<le> n \<and> n \<le> 122)"

text \<open>The filter keeps no whitespace but the space, so \<open>trim\<close> drops spaces only.\<close>

definition trim_spaces :: "string \<Rightarrow> string" where
  "trim_spaces s = rev (dropWhile (\<lambda>c. c = CHR '' '') (rev (dropWhile (\<lambda>c. c = CHR '' '') s)))"

definition sanitize_path_compact :: "string \<Rightarrow> string" where
  "sanitize_path_compact name =
     ensure_safe_segment
       (map (\<lambda>c. if c = CHR '' '' then CHR ''_'' else c)
         (trim_spaces
           (filter (\<lambda>c. is_ascii_alphanumeric c \<or> c \<in> {CHR '' '', CHR ''-'', CHR ''_'', CHR ''.''}) name)))"

definition sanitize_path_display :: "string \<Rightarrow> string" where
  "sanitize_path_display name =
     ensure_safe_segment
       (trim_spaces
         (filter (\<lambda>c. is_ascii_alphanumeric c \<or>
                      c \<in> {CHR '' '', CHR ''-'', CHR ''_'', CHR ''.'', CHR 0x27}) name))"

lemma ensure_safe_segment_nonempty: "ensure_safe_segment s \<noteq> []"
  by (simp add: ensure_safe_segment_def Let_def safe_fallback_def)

lemma ensure_safe_segment_length: "length (ensure_safe_segment s) \<le> max_segment_len"
  by (simp add: ensure_safe_segment_def Let_def safe_fallback_def max_segment_len_def)

lemma hd_dropWhile_not: "dropWhile P s \<noteq> [] \<Longrightarrow> \<not> P (hd (dropWhile P s))"
  by (rule hd_dropWhile)

lemma ensure_safe_segment_hd: "hd (ensure_safe_segment s) \<noteq> CHR ''.''"
proof (cases "dropWhile (\<lambda>c. c = CHR ''.'') s")
  case Nil
  then show ?thesis by (simp add: ensure_safe_segment_def safe_fallback_def)
next
  case (Cons c cs)
  then have "c \<noteq> CHR ''.''" using hd_dropWhile_not [of "\<lambda>c. c = CHR ''.''" s] by simp
  with Cons show ?thesis
    by (simp add: ensure_safe_segment_def Let_def safe_fallback_def max_segment_len_def)
qed

lemma ensure_safe_segment_set: "set (ensure_safe_segment s) \<subseteq> set s \<union> set safe_fallback"
  by (auto simp: ensure_safe_segment_def Let_def dest!: in_set_takeD set_dropWhileD)

lemma set_trim_spaces: "set (trim_spaces s) \<subseteq> set s"
  by (auto simp: trim_spaces_def dest!: set_dropWhileD)

section \<open>Several discs of one title\<close>

definition max_disc_variants :: nat where
  "max_disc_variants = 64"

definition disc_variant :: "(nat \<Rightarrow> bool) \<Rightarrow> nat option" where
  "disc_variant claimable = find claimable [1..<Suc max_disc_variants]"

definition disc_variant_name :: "string \<Rightarrow> nat \<Rightarrow> string" where
  "disc_variant_name base v = (if v \<le> 1 then base else base @ ''_'' @ show_nat v)"

text \<open>A sanitised name is one safe path segment.\<close>

theorem sanitized_segment_safe:
  fixes name :: string
  defines "s \<equiv> sanitize_path_compact name"
  shows "s \<noteq> [] \<and> length s \<le> 200 \<and> hd s \<noteq> CHR ''.'' \<and> CHR ''/'' \<notin> set s \<and> CHR '' '' \<notin> set s"
proof -
  let ?t = "map (\<lambda>c. if c = CHR '' '' then CHR ''_'' else c)
         (trim_spaces (filter (\<lambda>c. is_ascii_alphanumeric c \<or>
            c \<in> {CHR '' '', CHR ''-'', CHR ''_'', CHR ''.''}) name))"
  have t: "CHR ''/'' \<notin> set ?t" "CHR '' '' \<notin> set ?t"
    using set_trim_spaces by (fastforce simp: is_ascii_alphanumeric_def)+
  have "CHR ''/'' \<notin> set s" "CHR '' '' \<notin> set s"
    using ensure_safe_segment_set [of ?t] t
    by (auto simp: s_def sanitize_path_compact_def safe_fallback_def)
  then show ?thesis
    using ensure_safe_segment_nonempty ensure_safe_segment_length ensure_safe_segment_hd
    by (simp add: s_def sanitize_path_compact_def max_segment_len_def)
qed

end
