(* ===== verification/Planner.thy ===== *)
theory Planner
  imports Server_Util
begin

text \<open>
  \<open>src/src/server/planner.rs\<close>: which output files a source's titles become. A movie (or a TV
  disc that is not an episode set) is one output of the main title; a TV episode set is one
  output per episode, numbered from the operator's first episode or from the disc number.

  The engine crate is a parameter: what it selects, which title is the main one, what TMDB
  answers and how it numbers a season's episodes are the functions of an \<open>engine\<close> record.
  \<open>media_metadata\<close> has the fields the repository writes out wherever it builds the engine's
  \<open>MediaMetadata\<close> (\<open>library/worker.rs\<close>), and \<open>media_kind\<close> the two variants it names.
  A \<open>u16\<close> or \<open>usize\<close> is a \<open>nat\<close>, with the range checks of the code written out.
\<close>

section \<open>Data\<close>

datatype media_kind = Movie | Tv

record media_metadata =
  mm_title :: string
  mm_year :: nat
  mm_tmdb_id :: nat
  mm_season :: "nat option"
  mm_disc :: "nat option"
  mm_kind :: "media_kind option"
  mm_episode_start :: "nat option"

record planned_output =
  po_id :: string
  po_title_index :: nat
  po_episode :: "nat option"
  po_episode_name :: string
  po_filename :: string

record remux_plan =
  rp_media :: media_metadata
  rp_outputs :: "planned_output list"

datatype 'r plan_error = NoTitles | NoOutputs | DuplicateOutput string | Selection 'r | EpisodeRange

text \<open>The three settings of \<open>Config\<close> the planner reads.\<close>

record planner_config =
  pc_tv_auto :: bool
  pc_presentation_language :: string
  pc_tmdb_api_key :: string

text \<open>The engine: episode selection under a presentation language (or the review it needs), the
  main title, TMDB's episodes of a season, and the numbers and names given to a run of them.\<close>

record ('t, 'r, 'e) engine =
  en_select_episodes :: "'t list \<Rightarrow> string option \<Rightarrow> 'r + nat list"
  en_main_title :: "'t list \<Rightarrow> string option \<Rightarrow> nat option"
  en_season_episodes :: "nat \<Rightarrow> nat \<Rightarrow> string \<Rightarrow> 'e list"
  en_numbered_names :: "nat \<Rightarrow> 'e list \<Rightarrow> nat \<Rightarrow> (nat \<times> string) list"

section \<open>Operations\<close>

definition u16_max :: nat where
  "u16_max = 65535"

definition is_white :: "char \<Rightarrow> bool" where
  "is_white c \<longleftrightarrow> (let n = (of_char c :: nat) in n = 32 \<or> 9 \<le> n \<and> n \<le> 13)"

definition presentation :: "planner_config \<Rightarrow> string option" where
  "presentation cfg =
     (let l = pc_presentation_language cfg in if list_all is_white l then None else Some l)"

definition main_title :: "('t, 'r, 'e) engine \<Rightarrow> planner_config \<Rightarrow> 't list \<Rightarrow> 'r plan_error + nat" where
  "main_title en cfg titles =
     (case en_main_title en titles (presentation cfg) of None \<Rightarrow> Inl NoTitles | Some i \<Rightarrow> Inr i)"

definition check_episode_selection ::
    "('t, 'r, 'e) engine \<Rightarrow> 't list \<Rightarrow> planner_config \<Rightarrow> media_kind option \<Rightarrow> 'r plan_error + unit" where
  "check_episode_selection en titles cfg kind =
     (if \<not> pc_tv_auto cfg \<or> kind \<noteq> Some Tv \<or> length titles \<le> 1 then Inr ()
      else case en_select_episodes en titles (presentation cfg) of
             Inl r \<Rightarrow> Inl (Selection r) | Inr _ \<Rightarrow> Inr ())"

definition episode_indices ::
    "('t, 'r, 'e) engine \<Rightarrow> 't list \<Rightarrow> planner_config \<Rightarrow> media_kind option \<Rightarrow> nat list" where
  "episode_indices en titles cfg kind =
     (if \<not> pc_tv_auto cfg \<or> kind \<noteq> Some Tv then []
      else let indices = (case en_select_episodes en titles (presentation cfg) of
                            Inl _ \<Rightarrow> [] | Inr is \<Rightarrow> is)
           in if length indices > 1 then indices else [])"

text \<open>\<open>usize\<close> is 64 bits.\<close>

definition check_episode_range :: "nat option \<Rightarrow> nat \<Rightarrow> 'r plan_error + unit" where
  "check_episode_range start count =
     (case start of None \<Rightarrow> Inr ()
      | Some s \<Rightarrow>
          if s = 0 \<or> count = 0
             \<or> (case checked_add 64 s (count - 1) of None \<Rightarrow> True | Some l \<Rightarrow> l > u16_max)
          then Inl EpisodeRange else Inr ())"

definition episode_start :: "nat \<Rightarrow> nat \<Rightarrow> nat option \<Rightarrow> 'r plan_error + nat" where
  "episode_start count disc explicit =
     (let start =
        (case explicit of Some s \<Rightarrow> Inr s
         | None \<Rightarrow>
            (case Option.bind (checked_mul 64 (max disc 1 - 1) count) (\<lambda>offset. checked_add 64 offset 1) of
               None \<Rightarrow> Inl EpisodeRange
             | Some offset \<Rightarrow> if offset \<le> u16_max then Inr offset else Inl EpisodeRange))
      in case start of Inl e \<Rightarrow> Inl e
         | Inr s \<Rightarrow> (case check_episode_range (Some s) count of Inl e \<Rightarrow> Inl e | Inr _ \<Rightarrow> Inr s))"

definition episode_outputs_from_start ::
    "('t, 'r, 'e) engine \<Rightarrow> nat list \<Rightarrow> nat \<Rightarrow> nat \<Rightarrow> 'e list \<Rightarrow> path \<Rightarrow> planned_output list" where
  "episode_outputs_from_start en indices season start episodes movie_filename =
     (let assignments = en_numbered_names en (length indices) episodes start;
          stem = (case file_stem movie_filename of Some s \<Rightarrow> s | None \<Rightarrow> ''title'');
          ext = (case extension movie_filename of Some s \<Rightarrow> s | None \<Rightarrow> ''mkv'')
      in map (\<lambda>(idx, a). \<lparr>po_id = ''title-'' @ show_nat idx @ ''-episode-'' @ show_nat (fst a),
                          po_title_index = idx,
                          po_episode = Some (fst a),
                          po_episode_name = snd a,
                          po_filename = stem @ ''_S'' @ pad2 (show_nat season) @ ''E''
                                        @ pad2 (show_nat (fst a)) @ ''.'' @ ext\<rparr>)
           (zip indices assignments))"

definition episode_outputs ::
    "('t, 'r, 'e) engine \<Rightarrow> nat list \<Rightarrow> nat \<Rightarrow> nat \<Rightarrow> 'e list \<Rightarrow> path \<Rightarrow> nat option
     \<Rightarrow> 'r plan_error + planned_output list" where
  "episode_outputs en indices season disc episodes movie_filename explicit =
     (case episode_start (length indices) disc explicit of Inl e \<Rightarrow> Inl e
      | Inr start \<Rightarrow> Inr (episode_outputs_from_start en indices season start episodes movie_filename))"

definition plan_leaf :: "path \<Rightarrow> string" where
  "plan_leaf p = (case file_name p of Some n \<Rightarrow> n | None \<Rightarrow> ''title.mkv'')"

definition single_plan :: "media_metadata \<Rightarrow> nat \<Rightarrow> string \<Rightarrow> remux_plan" where
  "single_plan media title_index filename =
     \<lparr>rp_media = media,
      rp_outputs = [\<lparr>po_id = ''title-'' @ show_nat title_index, po_title_index = title_index,
                     po_episode = None, po_episode_name = [], po_filename = filename\<rparr>]\<rparr>"

text \<open>The first output whose file name an earlier one has.\<close>

fun first_duplicate :: "string set \<Rightarrow> planned_output list \<Rightarrow> string option" where
  "first_duplicate seen [] = None"
| "first_duplicate seen (x # xs) =
     (if po_filename x \<in> seen then Some (po_filename x)
      else first_duplicate (insert (po_filename x) seen) xs)"

definition validate_outputs :: "planned_output list \<Rightarrow> 'r plan_error + planned_output list" where
  "validate_outputs outputs =
     (case first_duplicate {} outputs of
        Some n \<Rightarrow> Inl (DuplicateOutput n)
      | None \<Rightarrow> if outputs = [] then Inl NoOutputs else Inr outputs)"

definition plan ::
    "('t, 'r, 'e) engine \<Rightarrow> planner_config \<Rightarrow> 't list \<Rightarrow> media_metadata \<Rightarrow> path
     \<Rightarrow> 'r plan_error + remux_plan" where
  "plan en cfg titles media movie_filename =
     (case check_episode_selection en titles cfg (mm_kind media) of Inl e \<Rightarrow> Inl e
      | Inr _ \<Rightarrow>
        let indices = episode_indices en titles cfg (mm_kind media) in
        if length indices \<le> 1 then
          (case main_title en cfg titles of Inl e \<Rightarrow> Inl e
           | Inr title_index \<Rightarrow> Inr (single_plan media title_index (plan_leaf movie_filename)))
        else
          let season = (case mm_season media of Some s \<Rightarrow> s | None \<Rightarrow> 1) in
          (case check_episode_range (mm_episode_start media) (length indices) of Inl e \<Rightarrow> Inl e
           | Inr _ \<Rightarrow>
             let episodes = en_season_episodes en (mm_tmdb_id media) season (pc_tmdb_api_key cfg) in
             (case episode_start (length indices) (case mm_disc media of Some d \<Rightarrow> d | None \<Rightarrow> 1)
                     (mm_episode_start media) of Inl e \<Rightarrow> Inl e
              | Inr start \<Rightarrow>
                (case validate_outputs
                        (episode_outputs_from_start en indices season start episodes movie_filename) of
                   Inl e \<Rightarrow> Inl e
                 | Inr outputs \<Rightarrow> Inr \<lparr>rp_media = media, rp_outputs = outputs\<rparr>))))"

section \<open>Properties\<close>

lemma first_duplicate_None:
  "first_duplicate seen xs = None \<longleftrightarrow>
     distinct (map po_filename xs) \<and> set (map po_filename xs) \<inter> seen = {}"
  by (induction xs arbitrary: seen) auto

lemma validate_outputs_Inr:
  "validate_outputs outs = Inr r \<longleftrightarrow>
     r = outs \<and> outs \<noteq> [] \<and> distinct (map po_filename outs)"
proof (cases "first_duplicate {} outs")
  case None
  with first_duplicate_None [of "{}" outs] show ?thesis by (auto simp: validate_outputs_def)
next
  case (Some n)
  moreover from Some have "\<not> distinct (map po_filename outs)"
    using first_duplicate_None [of "{}" outs] by auto
  ultimately show ?thesis by (simp add: validate_outputs_def)
qed

lemma episode_start_Inr:
  assumes "episode_start count disc explicit = (Inr s :: 'r plan_error + nat)"
  shows "1 \<le> s \<and> 1 \<le> count \<and> s + count - 1 \<le> u16_max"
    and "explicit = None \<Longrightarrow> s = (max disc 1 - 1) * count + 1"
    and "explicit = Some e \<Longrightarrow> s = e"
  using assms
  by (auto simp: episode_start_def check_episode_range_def Let_def checked_add_Some_iff checked_mul_Some_iff
      split: option.splits if_splits sum.splits Option.bind_splits)

text \<open>The engine numbers a run of episodes one after the other from the first.\<close>

definition numbers_in_order :: "('t, 'r, 'e) engine \<Rightarrow> bool" where
  "numbers_in_order en \<longleftrightarrow>
     (\<forall>n eps start. map fst (en_numbered_names en n eps start) = [start..<start + n])"

lemma episode_outputs_episodes:
  assumes "numbers_in_order en"
  shows "map po_episode (episode_outputs_from_start en indices season start eps p)
         = map Some [start..<start + length indices]"
proof -
  let ?as = "en_numbered_names en (length indices) eps start"
  have as: "map fst ?as = [start..<start + length indices]"
    using assms by (simp add: numbers_in_order_def)
  then have len: "length ?as = length indices" by (metis diff_add_inverse length_map length_upt)
  have "map po_episode (episode_outputs_from_start en indices season start eps p)
        = map (\<lambda>x. Some (fst (snd x))) (zip indices ?as)"
    by (simp add: episode_outputs_from_start_def Let_def case_prod_beta)
  also have "\<dots> = map (\<lambda>a. Some (fst a)) (map snd (zip indices ?as))" by simp
  also have "\<dots> = map Some (map fst ?as)" using len by simp
  finally show ?thesis by (simp add: as)
qed

lemma episode_outputs_filenames:
  "map po_filename (episode_outputs_from_start en indices season start eps p) =
     map (\<lambda>e. (case file_stem p of Some s \<Rightarrow> s | None \<Rightarrow> ''title'') @ ''_S'' @ pad2 (show_nat season)
        @ ''E'' @ pad2 (show_nat (the e)) @ ''.''
        @ (case extension p of Some s \<Rightarrow> s | None \<Rightarrow> ''mkv''))
      (map po_episode (episode_outputs_from_start en indices season start eps p))"
  by (simp add: episode_outputs_from_start_def Let_def case_prod_beta)

lemma episode_outputs_distinct:
  assumes "numbers_in_order en"
  shows "distinct (map po_filename (episode_outputs_from_start en indices season start eps p))"
  unfolding episode_outputs_filenames episode_outputs_episodes [OF assms]
  by (auto simp: distinct_map inj_on_def)

text \<open>The ways a plan succeeds.\<close>

lemma plan_Inr_cases:
  fixes en :: "('t, 'r, 'e) engine"
  assumes "plan en cfg titles media p = Inr r"
  obtains (single) i where "length (episode_indices en titles cfg (mm_kind media)) \<le> 1"
      and "main_title en cfg titles = Inr i" and "r = single_plan media i (plan_leaf p)"
  | (episodes) s eps season where "length (episode_indices en titles cfg (mm_kind media)) > 1"
      and "episode_start (length (episode_indices en titles cfg (mm_kind media)))
             (case mm_disc media of Some d \<Rightarrow> d | None \<Rightarrow> 1) (mm_episode_start media)
           = (Inr s :: 'r plan_error + nat)"
      and "season = (case mm_season media of Some s \<Rightarrow> s | None \<Rightarrow> 1)"
      and "r = \<lparr>rp_media = media, rp_outputs =
             episode_outputs_from_start en (episode_indices en titles cfg (mm_kind media)) season s eps p\<rparr>"
      and "rp_outputs r \<noteq> []" and "distinct (map po_filename (rp_outputs r))"
proof (cases "length (episode_indices en titles cfg (mm_kind media)) \<le> 1")
  case True
  with assms show ?thesis
    by (auto simp: plan_def Let_def split: sum.splits intro: single)
next
  case False
  with assms show ?thesis
    by (auto simp: plan_def Let_def validate_outputs_Inr split: sum.splits intro!: episodes)
qed

text \<open>A plan's outputs have distinct file names, and there is at least one.\<close>

theorem plan_outputs_distinct:
  assumes "plan en cfg titles media movie_filename = Inr r"
  shows "rp_outputs r \<noteq> [] \<and> distinct (map po_filename (rp_outputs r)) \<and> rp_media r = media"
  using assms
proof (cases rule: plan_Inr_cases)
  case (single i)
  then show ?thesis by (simp add: single_plan_def)
next
  case (episodes s eps season)
  then show ?thesis by simp
qed

text \<open>An engine that selects every title and names episodes by number, for the witnesses.\<close>

definition sample_engine :: "(nat, unit, string) engine" where
  "sample_engine = \<lparr>en_select_episodes = (\<lambda>ts _. Inr [0..<length ts]),
     en_main_title = (\<lambda>ts _. if ts = [] then None else Some 0),
     en_season_episodes = (\<lambda>_ _ _. []),
     en_numbered_names = (\<lambda>n _ start. map (\<lambda>e. (e, ''Episode'')) [start..<start + n])\<rparr>"

definition sample_config :: planner_config where
  "sample_config = \<lparr>pc_tv_auto = True, pc_presentation_language = [], pc_tmdb_api_key = []\<rparr>"

definition sample_media :: media_metadata where
  "sample_media = \<lparr>mm_title = ''Show'', mm_year = 0, mm_tmdb_id = 7, mm_season = Some 2,
     mm_disc = Some 3, mm_kind = Some Tv, mm_episode_start = None\<rparr>"

lemma sample_numbers_in_order: "numbers_in_order sample_engine"
  by (simp add: numbers_in_order_def sample_engine_def comp_def)

definition sample_plan :: remux_plan where
  "sample_plan = \<lparr>rp_media = sample_media,
     rp_outputs = episode_outputs_from_start sample_engine [0, 1] 2 5 [] [Normal ''Show.mkv'']\<rparr>"

lemmas sample_defs = sample_engine_def sample_config_def sample_media_def

lemma sample_plan_filenames:
  "map po_filename (rp_outputs sample_plan) = [''Show_S02E05.mkv'', ''Show_S02E06.mkv'']"
  by code_simp

lemma sample_indices: "episode_indices sample_engine [10, 11] sample_config (mm_kind sample_media) = [0, 1]"
  by (simp add: episode_indices_def sample_defs)

lemma sample_plan: "plan sample_engine sample_config [10, 11] sample_media [Normal ''Show.mkv''] = Inr sample_plan"
proof -
  have "validate_outputs (rp_outputs sample_plan) = (Inr (rp_outputs sample_plan) :: unit plan_error + planned_output list)"
    using sample_plan_filenames by (auto simp: validate_outputs_Inr)
  moreover have "episode_start (Suc (Suc 0)) 3 None = (Inr 5 :: unit plan_error + nat)"
    by (simp add: episode_start_def check_episode_range_def checked_mul_def checked_add_def max_uint_def u16_max_def)
  moreover have "check_episode_selection sample_engine [10, 11] sample_config (Some Tv) = Inr ()"
    by (simp add: check_episode_selection_def sample_defs)
  ultimately show ?thesis
    using sample_indices
    by (simp add: plan_def sample_plan_def sample_defs check_episode_range_def)
qed

theorem plan_outputs_distinct_witness:
  "rp_outputs sample_plan \<noteq> [] \<and> distinct (map po_filename (rp_outputs sample_plan))
   \<and> rp_media sample_plan = sample_media"
  using plan_outputs_distinct [OF sample_plan] .

text \<open>
  With an engine that numbers episodes in order, planning a TV episode set never fails on
  a duplicate name, and its outputs are the consecutive episodes from the operator's first
  episode, or from \<open>(disc - 1) * count + 1\<close>, all between 1 and 65535.
\<close>

theorem plan_episode_numbers:
  assumes "numbers_in_order en"
    and "plan en cfg titles media movie_filename = Inr r"
    and "length (episode_indices en titles cfg (mm_kind media)) > 1"
  defines "count \<equiv> length (episode_indices en titles cfg (mm_kind media))"
    and "disc \<equiv> (case mm_disc media of Some d \<Rightarrow> d | None \<Rightarrow> 1)"
  shows "\<exists>s. map po_episode (rp_outputs r) = map Some [s..<s + count]
           \<and> s = (case mm_episode_start media of Some e \<Rightarrow> e | None \<Rightarrow> (max disc 1 - 1) * count + 1)
           \<and> 1 \<le> s \<and> s + count - 1 \<le> 65535"
  using assms(2)
proof (cases rule: plan_Inr_cases)
  case (single i)
  with assms(3) show ?thesis by simp
next
  case (episodes s eps season)
  note start = episode_start_Inr [OF episodes(2)]
  have "map po_episode (rp_outputs r) = map Some [s..<s + count]"
    using episodes(4) episode_outputs_episodes [OF assms(1)] by (simp add: count_def)
  with start show ?thesis
    by (auto simp: u16_max_def count_def disc_def split: option.splits)
qed

text \<open>The witness: disc 3 of a two-episode set is episodes 5 and 6.\<close>

theorem plan_episode_numbers_witness:
  "map po_episode (rp_outputs sample_plan) = map Some [5..<7]"
proof -
  have l: "length (episode_indices sample_engine [10, 11] sample_config (mm_kind sample_media)) = 2"
    by (simp add: sample_indices)
  have "length (episode_indices sample_engine [10, 11] sample_config (mm_kind sample_media)) > 1"
    by (simp add: l)
  note plan_episode_numbers [OF sample_numbers_in_order sample_plan this, unfolded l]
  then show ?thesis by (simp add: sample_media_def)
qed

end
