(* ===== verification/Job_Queue.thy ===== *)
theory Job_Queue
  imports Planner
begin

text \<open>
  The data of \<open>src/src/server/library/queue.rs\<close> and what each of its operations does to the
  queue file. The Library's remux queue is first in, first out, with one job at a time; a
  job is one source image and the file or files it becomes, and may keep a finished file on
  local staging until its folder can take it.

  Every operation of the Rust \<open>Queue\<close> hands a closure over \<open>&mut QueueFile\<close> to one of the
  \<open>mutate\<close> functions. The definitions here are those closures, as functions from a queue
  file to their result and the new queue file; Queue\_Store models the store around them
  (locking, generations, persistence). \<open>epoch_secs()\<close> is the argument \<open>now\<close>.
\<close>

section \<open>Data\<close>

datatype job_state = JQueued | JRunning | JDone | JFailed

datatype job_note = Restarted | Preempted | Interrupted | Stalled | Cancelled
  | WaitingForFolder | StagedWaiting

datatype output_state = OPending | ORunning | ODone | OFailed

record output_progress =
  op_id :: string
  op_target :: path
  op_state :: output_state
  op_staged :: "path option"
  op_landing :: "stamp option"
  op_source_unproven :: bool

text \<open>A failed job's reason: the library error code, when there is one, and the text.\<close>

record failure =
  fl_code :: "nat option"
  fl_message :: string

text \<open>An existing file a job may overwrite (\<open>library/owned.rs\<close>).\<close>

record owned =
  ow_path :: path
  ow_stamp :: stamp

record job =
  job_id :: nat
  job_title :: string
  job_iso :: path
  job_target :: path
  job_plan :: "remux_plan option"
  job_source_stamp :: "stamp option"
  job_title_identities :: "string \<rightharpoonup> title_identity"
  job_outputs :: "output_progress list"
  job_owned :: "owned list option"
  job_retire :: bool
  job_replace :: bool
  job_state :: job_state
  job_queued_at :: nat
  job_started_at :: "nat option"
  job_finished_at :: "nat option"
  job_note :: "job_note option"
  job_failure :: "failure option"
  job_attempts :: nat
  job_first_failed_at :: "nat option"
  job_not_before :: "nat option"
  job_staged :: "path option"
  job_staged_bytes :: "nat option"
  job_staged_attempts :: "nat option"

record staged_file =
  sf_path :: path
  sf_bytes :: nat
  sf_attempts :: nat

record new_job =
  nj_title :: string
  nj_iso :: path
  nj_target :: path
  nj_replace :: bool

datatype job_result =
    ResultDone (size_bytes: nat) (secs: nat) (done_at: nat) (writing_app: "string option")
  | ResultFailed (res_code: "nat option") (res_message: string) (failed_at: nat)

record queue_file =
  qf_schema :: nat
  qf_next_id :: nat
  qf_paused :: bool
  qf_debug_log :: bool
  qf_jobs :: "job list"
  qf_results :: "string \<rightharpoonup> job_result"

definition default_queue_file :: queue_file where
  "default_queue_file = \<lparr>qf_schema = 0, qf_next_id = 0, qf_paused = False, qf_debug_log = False,
     qf_jobs = [], qf_results = Map.empty\<rparr>"

datatype untaken = Gone | Copying | Waiting

section \<open>One job\<close>

definition is_active :: "job \<Rightarrow> bool" where
  "is_active j \<longleftrightarrow> job_state j = JQueued \<or> job_state j = JRunning"

definition holds_source :: "job \<Rightarrow> bool" where
  "holds_source j \<longleftrightarrow> is_active j \<or> job_staged j \<noteq> None
     \<or> list_ex (\<lambda>x. op_staged x \<noteq> None) (job_outputs j)"

definition owns_target :: "path \<Rightarrow> job \<Rightarrow> bool" where
  "owns_target t j \<longleftrightarrow> job_target j = t \<or> list_ex (\<lambda>x. op_target x = t) (job_outputs j)"

text \<open>\<open>target.parent().unwrap_or(".").join(filename)\<close>.\<close>

definition beside :: "path \<Rightarrow> string \<Rightarrow> path" where
  "beside target filename =
     path_join (case path_parent target of Some d \<Rightarrow> d | None \<Rightarrow> [CurDir]) (path_of filename)"

definition output_targets :: "job \<Rightarrow> path list" where
  "output_targets j =
     (if job_plan j \<noteq> None \<and> job_outputs j \<noteq> [] then map op_target (job_outputs j)
      else case job_plan j of
        Some p \<Rightarrow> map (\<lambda>x. if length (rp_outputs p) = 1 then job_target j
                          else beside (job_target j) (po_filename x)) (rp_outputs p)
      | None \<Rightarrow> [job_target j])"

definition release_output :: "path \<Rightarrow> output_progress \<Rightarrow> output_progress" where
  "release_output old x = (if op_staged x = Some old then x\<lparr>op_staged := None\<rparr> else x)"

definition set_staged_file :: "staged_file option \<Rightarrow> job \<Rightarrow> job" where
  "set_staged_file staged j =
     (let outs = (case job_staged j of
          None \<Rightarrow> job_outputs j
        | Some old \<Rightarrow>
            if (case staged of None \<Rightarrow> True | Some s \<Rightarrow> sf_path s \<noteq> old)
            then map (release_output old) (job_outputs j) else job_outputs j)
      in j\<lparr>job_outputs := outs,
           job_staged := map_option sf_path staged,
           job_staged_bytes := map_option sf_bytes staged,
           job_staged_attempts := map_option sf_attempts staged\<rparr>)"

definition park :: "string \<Rightarrow> nat \<Rightarrow> job \<Rightarrow> job" where
  "park message now j =
     j\<lparr>job_state := JFailed, job_note := Some Cancelled, job_not_before := None,
       job_finished_at := Some now,
       job_failure := Some \<lparr>fl_code = Option.bind (job_failure j) fl_code, fl_message = message\<rparr>\<rparr>"

definition gone_message :: string where
  "gone_message = ''The finished MKV kept on local staging is gone (it expired, or staging ran short of space). Queue a fresh remux.''"

definition parked_message :: string where
  "parked_message = ''Taken out of the queue. The finished MKV is still kept on local staging: Retry copies it in, Discard deletes it.''"

definition ready :: "nat \<Rightarrow> job \<Rightarrow> bool" where
  "ready now j \<longleftrightarrow> job_state j = JQueued
     \<and> (case job_not_before j of None \<Rightarrow> True | Some t \<Rightarrow> t \<le> now)"

section \<open>Retries\<close>

definition retry_give_up_secs :: nat where
  "retry_give_up_secs = 24 * 3600"

definition retry_max_attempts :: nat where
  "retry_max_attempts = 30"

definition retry_delay :: "nat \<Rightarrow> nat" where
  "retry_delay attempt =
     (if attempt \<le> 1 then 60 else if attempt = 2 then 5 * 60
      else if attempt = 3 then 15 * 60 else 3600)"

definition retry_at :: "job \<Rightarrow> nat \<Rightarrow> bool \<Rightarrow> nat option" where
  "retry_at j now resolved =
     (let first = (case job_first_failed_at j of Some t \<Rightarrow> t | None \<Rightarrow> now);
          attempt = job_attempts j + 1
      in if now - first \<ge> retry_give_up_secs \<or> attempt > retry_max_attempts then None
         else if resolved \<and> job_attempts j = 0 then Some now
         else Some (now + retry_delay attempt))"

section \<open>Queries on the queue file\<close>

definition running :: "queue_file \<Rightarrow> job option" where
  "running f = find (\<lambda>j. job_state j = JRunning) (qf_jobs f)"

definition next_ready :: "nat \<Rightarrow> queue_file \<Rightarrow> job option" where
  "next_ready now f = find (ready now) (qf_jobs f)"

definition count_state :: "job_state \<Rightarrow> queue_file \<Rightarrow> nat" where
  "count_state s f = length (filter (\<lambda>j. job_state j = s) (qf_jobs f))"

definition active_for :: "path \<Rightarrow> queue_file \<Rightarrow> job option" where
  "active_for t f = find (\<lambda>j. owns_target t j \<and> is_active j) (qf_jobs f)"

definition latest_for :: "path \<Rightarrow> queue_file \<Rightarrow> job option" where
  "latest_for t f = find (owns_target t) (rev (qf_jobs f))"

definition has_work :: "nat \<Rightarrow> queue_file \<Rightarrow> bool" where
  "has_work now f \<longleftrightarrow> running f \<noteq> None \<or> (\<not> qf_paused f \<and> next_ready now f \<noteq> None)"

definition peek_next :: "nat \<Rightarrow> queue_file \<Rightarrow> job option" where
  "peek_next now f = (if qf_paused f \<or> running f \<noteq> None then None else next_ready now f)"

definition staged_total :: "queue_file \<Rightarrow> nat \<times> nat" where
  "staged_total f =
     (let kept = filter (\<lambda>j. job_staged j \<noteq> None) (qf_jobs f)
      in (length kept, sum_list (List.map_filter job_staged_bytes kept)))"

section \<open>Partial files\<close>

definition partial_path :: "path \<Rightarrow> path" where
  "partial_path target =
     with_file_name target ((case file_name target of Some n \<Rightarrow> n | None \<Rightarrow> []) @ ''.partial'')"

definition partial_target :: "path \<Rightarrow> path option" where
  "partial_target partial =
     (case file_name partial of None \<Rightarrow> None
      | Some name \<Rightarrow>
          if length name < length ''.partial'' then None
          else let cut = length name - length ''.partial''; stem = take cut name
               in if eq_ignore_ascii_case (drop cut name) ''.partial'' \<and> stem \<noteq> []
                  then Some (with_file_name partial stem) else None)"

section \<open>Adding jobs\<close>

text \<open>
  \<open>append\<close> indexes the queue once: for every target the positions of its jobs in queue order,
  and the sources a job holds. Positions from \<open>length\<close> of the old jobs on are jobs this batch
  added.
\<close>

type_synonym target_index = "path \<Rightarrow> nat list"

definition index_push :: "nat \<Rightarrow> path \<Rightarrow> target_index \<Rightarrow> target_index" where
  "index_push i t bt = (if last_opt (bt t) = Some i then bt else bt(t := bt t @ [i]))"

fun index_jobs :: "nat \<Rightarrow> job list \<Rightarrow> target_index \<Rightarrow> target_index" where
  "index_jobs i [] bt = bt"
| "index_jobs i (j # js) bt =
     index_jobs (Suc i) js
       (fold (index_push i) (job_target j # map op_target (job_outputs j)) bt)"

definition held_sources :: "job list \<Rightarrow> path set" where
  "held_sources js = set (map job_iso (filter holds_source js))"

text \<open>What a new row job takes over from an earlier job of the same source and target.\<close>

type_synonym prior = "remux_plan \<times> stamp option \<times> (string \<rightharpoonup> title_identity)
  \<times> output_progress list \<times> owned list option"

definition prior_row :: "new_job \<Rightarrow> job \<Rightarrow> output_progress \<Rightarrow> remux_plan \<Rightarrow> prior" where
  "prior_row item j out p =
     (let p' = p\<lparr>rp_outputs := filter (\<lambda>x. po_id x = op_id out) (rp_outputs p)\<rparr>;
          landing = (if job_state j = JFailed \<and> job_staged j = None \<and> op_staged out = None
                        \<and> length (rp_outputs p') = 1 then op_landing out else None);
          owned = map_option (\<lambda>_. filter (\<lambda>x. ow_path x = nj_target item)
                     (case job_owned j of None \<Rightarrow> [] | Some xs \<Rightarrow> xs)) landing
      in (p', job_source_stamp j, job_title_identities j,
          [\<lparr>op_id = op_id out, op_target = nj_target item, op_state = OPending,
            op_staged = None, op_landing = landing,
            op_source_unproven = op_source_unproven out\<rparr>], owned))"

definition prior_of :: "bool \<Rightarrow> new_job \<Rightarrow> job \<Rightarrow> prior option" where
  "prior_of reuse item j =
     (if \<not> reuse \<or> job_iso j \<noteq> nj_iso item then None
      else case find (\<lambda>x. op_target x = nj_target item) (job_outputs j) of
        None \<Rightarrow> None
      | Some out \<Rightarrow> map_option (prior_row item j out) (job_plan j))"

definition make_job :: "nat \<Rightarrow> nat \<Rightarrow> bool \<Rightarrow> new_job \<Rightarrow> prior option \<Rightarrow> job" where
  "make_job i now retire item prior =
     \<lparr>job_id = i, job_title = nj_title item, job_iso = nj_iso item, job_target = nj_target item,
      job_plan = map_option fst prior,
      job_source_stamp = (case prior of None \<Rightarrow> None | Some (_, s, _) \<Rightarrow> s),
      job_title_identities = (case prior of None \<Rightarrow> Map.empty | Some (_, _, ids, _) \<Rightarrow> ids),
      job_outputs = (case prior of None \<Rightarrow> [] | Some (_, _, _, outs, _) \<Rightarrow> outs),
      job_owned = (case prior of None \<Rightarrow> None | Some (_, _, _, _, ow) \<Rightarrow> ow),
      job_retire = retire, job_replace = nj_replace item, job_state = JQueued,
      job_queued_at = now, job_started_at = None, job_finished_at = None, job_note = None,
      job_failure = None, job_attempts = 0, job_first_failed_at = None, job_not_before = None,
      job_staged = None, job_staged_bytes = None, job_staged_attempts = None\<rparr>"

record append_acc =
  aa_next_id :: nat
  aa_by_target :: target_index
  aa_replaced :: "path set"
  aa_added :: "job list"

definition append_item ::
    "job list \<Rightarrow> path set \<Rightarrow> bool \<Rightarrow> bool \<Rightarrow> nat \<Rightarrow> new_job \<Rightarrow> append_acc \<Rightarrow> append_acc" where
  "append_item jobs held reuse retire now item a =
     (if \<not> reuse \<and> nj_iso item \<in> held then a
      else
        let existing = length jobs;
            job_at = (\<lambda>i. if i < existing then jobs ! i else aa_added a ! (i - existing));
            owners = filter (\<lambda>i. i \<ge> existing \<or> job_target (jobs ! i) \<notin> aa_replaced a)
                       (aa_by_target a (nj_target item));
            kept = (case last_opt owners of None \<Rightarrow> False | Some i \<Rightarrow> job_staged (job_at i) \<noteq> None);
            active = list_ex (\<lambda>i. is_active (job_at i)) owners
        in if kept \<or> active then a
           else
             let prior = find_map (\<lambda>i. prior_of reuse item (job_at i)) (rev owners);
                 new_id = aa_next_id a + 1;
                 j = make_job new_id now retire item prior;
                 bt = aa_by_target a
             in \<lparr>aa_next_id = new_id,
                 aa_by_target = bt(nj_target item := bt (nj_target item) @ [existing + length (aa_added a)]),
                 aa_replaced = insert (nj_target item) (aa_replaced a),
                 aa_added = aa_added a @ [j]\<rparr>)"

definition append_jobs ::
    "new_job list \<Rightarrow> bool \<Rightarrow> bool \<Rightarrow> nat \<Rightarrow> queue_file \<Rightarrow> nat \<times> queue_file" where
  "append_jobs items reuse retire now f =
     (let jobs = qf_jobs f;
          a = fold (append_item jobs (held_sources jobs) reuse retire now) items
                \<lparr>aa_next_id = qf_next_id f, aa_by_target = index_jobs 0 jobs (\<lambda>_. []),
                 aa_replaced = {}, aa_added = []\<rparr>
      in (length (aa_added a),
          f\<lparr>qf_next_id := aa_next_id a,
            qf_jobs := filter (\<lambda>j. job_target j \<notin> aa_replaced a) jobs @ aa_added a\<rparr>))"

definition add :: "new_job list \<Rightarrow> nat \<Rightarrow> queue_file \<Rightarrow> nat \<times> queue_file" where
  "add items now f = append_jobs items True False now f"

definition add_fresh :: "new_job list \<Rightarrow> bool \<Rightarrow> nat \<Rightarrow> queue_file \<Rightarrow> nat \<times> queue_file" where
  "add_fresh items retire now f = append_jobs items False retire now f"

text \<open>\<open>with_idle_source\<close> refuses while a job of the source is active or keeps output.\<close>

definition idle_source :: "path \<Rightarrow> queue_file \<Rightarrow> bool" where
  "idle_source source f \<longleftrightarrow> \<not> list_ex (\<lambda>j. job_iso j = source \<and> holds_source j) (qf_jobs f)"

definition with_idle_source :: "path \<Rightarrow> 'a io_result \<Rightarrow> queue_file \<Rightarrow> 'a io_result" where
  "with_idle_source source save f =
     (if idle_source source f then save
      else Inl (IoError WouldBlock ''source has active or retained output; stop or resolve that job first''))"

end
