(* ===== verification/Queue_Ops.thy ===== *)
theory Queue_Ops
  imports Job_Queue
begin

text \<open>
  The operations of \<open>library/queue.rs\<close> on the queue file: claiming, planning, recording
  outputs, finishing, retrying, keeping and adopting staged files, clearing. Each is the
  closure the Rust method of the same name passes to \<open>mutate\<close>, \<open>mutate_if\<close> (then the
  result is paired with whether anything changed) or \<open>mutate_durable\<close>.
\<close>

section \<open>Finding jobs and outputs\<close>

definition find_job :: "nat \<Rightarrow> queue_file \<Rightarrow> job option" where
  "find_job i f = find (\<lambda>j. job_id j = i) (qf_jobs f)"

definition update_job :: "nat \<Rightarrow> (job \<Rightarrow> job) \<Rightarrow> queue_file \<Rightarrow> queue_file" where
  "update_job i g f = f\<lparr>qf_jobs := update_first (\<lambda>j. job_id j = i) g (qf_jobs f)\<rparr>"

definition find_output :: "nat \<Rightarrow> string \<Rightarrow> queue_file \<Rightarrow> output_progress option" where
  "find_output i out f =
     Option.bind (find_job i f) (\<lambda>j. find (\<lambda>x. op_id x = out) (job_outputs j))"

definition update_output ::
    "nat \<Rightarrow> string \<Rightarrow> (output_progress \<Rightarrow> output_progress) \<Rightarrow> queue_file \<Rightarrow> queue_file" where
  "update_output i out g f =
     update_job i (\<lambda>j. j\<lparr>job_outputs := update_first (\<lambda>x. op_id x = out) g (job_outputs j)\<rparr>) f"

text \<open>Where a re-queued job goes: before the first queued job, or at the end.\<close>

definition head_position :: "job list \<Rightarrow> nat" where
  "head_position js =
     (case position (\<lambda>j. job_state j = JQueued) js of Some i \<Rightarrow> i | None \<Rightarrow> length js)"

definition move_to_head :: "nat \<Rightarrow> (job \<Rightarrow> job) \<Rightarrow> queue_file \<Rightarrow> queue_file" where
  "move_to_head pos g f =
     (let j = g (qf_jobs f ! pos);
          rest = remove_at pos (qf_jobs f)
      in f\<lparr>qf_jobs := insert_at (head_position rest) j rest\<rparr>)"

section \<open>Claiming and planning\<close>

text \<open>\<open>claim_next\<close>'s closure; \<open>pending\<close> is the store's unconfirmed-durability flag, and the
  clock is read again for the start time.\<close>

definition claim :: "bool \<Rightarrow> nat \<Rightarrow> nat \<Rightarrow> queue_file \<Rightarrow> job option \<times> queue_file" where
  "claim pending now started f =
     (if pending \<or> qf_paused f \<or> running f \<noteq> None then (None, f)
      else case next_ready now f of
        None \<Rightarrow> (None, f)
      | Some j \<Rightarrow>
          let g = (\<lambda>j. j\<lparr>job_state := JRunning, job_failure := None,
                         job_started_at := Some started, job_finished_at := None\<rparr>)
          in (Some (g j), f\<lparr>qf_jobs := update_first (ready now) g (qf_jobs f)\<rparr>))"

definition plan_progress :: "path list option \<Rightarrow> job \<Rightarrow> remux_plan \<Rightarrow> output_progress list" where
  "plan_progress targets j p =
     (let multi = length (rp_outputs p) > 1
      in map (\<lambda>(i, x). \<lparr>op_id = po_id x,
            op_target = (case targets of Some ts \<Rightarrow> ts ! i
              | None \<Rightarrow> if multi then beside (job_target j) (po_filename x) else job_target j),
            op_state = OPending, op_staged = None, op_landing = None,
            op_source_unproven = False\<rparr>)
          (List.enumerate 0 (rp_outputs p)))"

definition freeze_plan ::
    "nat \<Rightarrow> remux_plan \<Rightarrow> path list option \<Rightarrow> stamp option \<Rightarrow> (string \<rightharpoonup> title_identity)
     \<Rightarrow> queue_file \<Rightarrow> bool \<times> queue_file" where
  "freeze_plan i p targets source_stamp identities f =
     (case find_job i f of None \<Rightarrow> (False, f)
      | Some j \<Rightarrow>
          if job_plan j \<noteq> None \<or> job_staged j \<noteq> None then (False, f)
          else if (case targets of None \<Rightarrow> False | Some ts \<Rightarrow> length ts \<noteq> length (rp_outputs p))
          then (False, f)
          else (True, update_job i (\<lambda>j. j\<lparr>job_outputs := plan_progress targets j p,
                  job_plan := Some p, job_source_stamp := source_stamp,
                  job_title_identities := identities\<rparr>) f))"

definition set_owned :: "nat \<Rightarrow> owned list \<Rightarrow> queue_file \<Rightarrow> bool \<times> queue_file" where
  "set_owned i ow f =
     (case find_job i f of None \<Rightarrow> (False, f)
      | Some _ \<Rightarrow> (True, update_job i (\<lambda>j. j\<lparr>job_owned := Some ow\<rparr>) f))"

section \<open>Outputs\<close>

definition begin_output :: "nat \<Rightarrow> string \<Rightarrow> queue_file \<Rightarrow> (bool \<times> bool) \<times> queue_file" where
  "begin_output i out f =
     (case find_output i out f of None \<Rightarrow> ((False, False), f)
      | Some x \<Rightarrow>
          if op_state x = ODone then ((False, False), f)
          else ((True, op_state x \<noteq> ORunning),
                update_output i out (\<lambda>x. x\<lparr>op_state := ORunning\<rparr>) f))"

definition finish_output :: "nat \<Rightarrow> string \<Rightarrow> output_state \<Rightarrow> queue_file \<Rightarrow> (unit \<times> bool) \<times> queue_file" where
  "finish_output i out s f =
     (case find_output i out f of None \<Rightarrow> (((), False), f)
      | Some x \<Rightarrow>
          let landing = (if s = ODone then None else op_landing x)
          in (((), op_state x \<noteq> s \<or> op_landing x \<noteq> landing),
              update_output i out (\<lambda>x. x\<lparr>op_state := s, op_landing := landing\<rparr>) f))"

definition set_output_landing :: "nat \<Rightarrow> string \<Rightarrow> stamp \<Rightarrow> queue_file \<Rightarrow> unit \<times> queue_file" where
  "set_output_landing i out landing f =
     (case find_output i out f of None \<Rightarrow> ((), f)
      | Some _ \<Rightarrow> ((), update_output i out (\<lambda>x. x\<lparr>op_landing := Some landing\<rparr>) f))"

definition retain_unproven_output ::
    "nat \<Rightarrow> string \<Rightarrow> staged_file \<Rightarrow> queue_file \<Rightarrow> bool \<times> queue_file" where
  "retain_unproven_output i out staged f =
     (case find_output i out f of None \<Rightarrow> (False, f)
      | Some _ \<Rightarrow>
          (True, update_job i (set_staged_file (Some staged))
             (update_output i out (\<lambda>x. x\<lparr>op_source_unproven := True,
                op_staged := Some (sf_path staged), op_state := OFailed\<rparr>) f)))"

definition set_output_staged ::
    "nat \<Rightarrow> string \<Rightarrow> path option \<Rightarrow> queue_file \<Rightarrow> (unit \<times> bool) \<times> queue_file" where
  "set_output_staged i out staged f =
     (case find_output i out f of None \<Rightarrow> (((), False), f)
      | Some x \<Rightarrow>
          if op_staged x = staged then (((), False), f)
          else (((), True), update_output i out (\<lambda>x. x\<lparr>op_staged := staged\<rparr>) f))"

section \<open>Ending a run\<close>

definition result_done :: "job_result \<Rightarrow> bool" where
  "result_done r = (case r of ResultDone _ _ _ _ \<Rightarrow> True | ResultFailed _ _ _ \<Rightarrow> False)"

definition finish_job :: "job_result \<Rightarrow> nat \<Rightarrow> job \<Rightarrow> job" where
  "finish_job r now j =
     (let j' = j\<lparr>job_state := (if result_done r then JDone else JFailed),
                 job_failure := (case r of ResultFailed c m _ \<Rightarrow> Some \<lparr>fl_code = c, fl_message = m\<rparr>
                                 | ResultDone _ _ _ _ \<Rightarrow> None),
                 job_finished_at := Some now\<rparr>
      in if result_done r then set_staged_file None j' else j')"

definition finish :: "nat \<Rightarrow> job_result \<Rightarrow> nat \<Rightarrow> queue_file \<Rightarrow> unit \<times> queue_file" where
  "finish i r now f =
     (case find_job i f of None \<Rightarrow> ((), f)
      | Some j \<Rightarrow>
          let f' = update_job i (finish_job r now) f
          in ((), f'\<lparr>qf_results := (qf_results f')(path_text (job_target j) \<mapsto> r)\<rparr>))"

definition requeue :: "nat \<Rightarrow> job_note \<Rightarrow> queue_file \<Rightarrow> unit \<times> queue_file" where
  "requeue i note f =
     (case position (\<lambda>j. job_id j = i) (qf_jobs f) of None \<Rightarrow> ((), f)
      | Some pos \<Rightarrow>
          ((), move_to_head pos (\<lambda>j. j\<lparr>job_state := JQueued, job_started_at := None,
                 job_note := Some note\<rparr>) f))"

definition retry_later_job :: "failure \<Rightarrow> nat \<Rightarrow> staged_file option \<Rightarrow> nat \<Rightarrow> job \<Rightarrow> job" where
  "retry_later_job fl not_before staged now j =
     set_staged_file staged
       (j\<lparr>job_state := JQueued, job_started_at := None,
         job_note := Some (if staged \<noteq> None then StagedWaiting else WaitingForFolder),
         job_failure := Some fl, job_attempts := job_attempts j + 1,
         job_first_failed_at := (case job_first_failed_at j of None \<Rightarrow> Some now | Some t \<Rightarrow> Some t),
         job_not_before := Some not_before\<rparr>)"

definition retry_later ::
    "nat \<Rightarrow> failure \<Rightarrow> nat \<Rightarrow> staged_file option \<Rightarrow> nat \<Rightarrow> queue_file \<Rightarrow> unit \<times> queue_file" where
  "retry_later i fl not_before staged now f =
     (case position (\<lambda>j. job_id j = i) (qf_jobs f) of None \<Rightarrow> ((), f)
      | Some pos \<Rightarrow> ((), move_to_head pos (retry_later_job fl not_before staged now) f))"

section \<open>Kept files\<close>

definition set_staged :: "nat \<Rightarrow> staged_file option \<Rightarrow> queue_file \<Rightarrow> (unit \<times> bool) \<times> queue_file" where
  "set_staged i staged f =
     (case find_job i f of None \<Rightarrow> (((), False), f)
      | Some j \<Rightarrow> (((), set_staged_file staged j \<noteq> j), update_job i (set_staged_file staged) f))"

definition retry_staged_now :: "path \<Rightarrow> queue_file \<Rightarrow> bool \<times> queue_file" where
  "retry_staged_now target f =
     (case rposition (\<lambda>j. owns_target target j \<and> job_staged j \<noteq> None \<and> job_state j \<noteq> JRunning)
             (qf_jobs f) of
        None \<Rightarrow> (False, f)
      | Some pos \<Rightarrow>
          (True, move_to_head pos (\<lambda>j. j\<lparr>job_state := JQueued, job_note := Some StagedWaiting,
             job_started_at := None, job_finished_at := None, job_not_before := None,
             job_attempts := 0, job_first_failed_at := None\<rparr>) f))"

definition take_staged :: "path \<Rightarrow> bool \<Rightarrow> queue_file \<Rightarrow> (untaken + path) \<times> queue_file" where
  "take_staged target abandoned f =
     (case rposition (\<lambda>j. owns_target target j \<and> job_staged j \<noteq> None) (qf_jobs f) of
        None \<Rightarrow> (Inl Gone, f)
      | Some pos \<Rightarrow>
          let j = qf_jobs f ! pos in
          if job_state j = JRunning then (Inl Copying, f)
          else if abandoned \<and> job_state j \<noteq> JFailed \<and> job_state j \<noteq> JDone then (Inl Waiting, f)
          else case job_staged j of
            None \<Rightarrow> (Inl Gone, f)
          | Some p \<Rightarrow>
              let j' = j\<lparr>job_outputs := map (release_output p) (job_outputs j)\<rparr>
              in (Inr p, f\<lparr>qf_jobs :=
                   (if job_state j = JQueued then remove_at pos (qf_jobs f)
                    else (qf_jobs f)[pos := set_staged_file None j'])\<rparr>))"

definition forget_lost :: "path set \<Rightarrow> nat \<Rightarrow> job \<Rightarrow> job" where
  "forget_lost found now j =
     (let j1 = j\<lparr>job_outputs := map (\<lambda>x. case op_staged x of
                    Some p \<Rightarrow> if p \<in> found then x else x\<lparr>op_staged := None\<rparr> | None \<Rightarrow> x) (job_outputs j)\<rparr>
      in case job_staged j of
           None \<Rightarrow> j1
         | Some p \<Rightarrow>
             if p \<in> found then j1
             else let j2 = set_staged_file None j1
                  in if job_state j2 = JQueued then park gone_message now j2 else j2)"

type_synonym kept = "new_job \<times> staged_file \<times> failure"

definition adopt_output :: "staged_file \<Rightarrow> output_progress \<Rightarrow> output_progress" where
  "adopt_output staged x =
     x\<lparr>op_source_unproven := (op_source_unproven x \<or> op_staged x \<noteq> Some (sf_path staged)),
       op_staged := Some (sf_path staged), op_state := OPending\<rparr>"

definition adopt_planned :: "new_job \<Rightarrow> staged_file \<Rightarrow> failure \<Rightarrow> job \<Rightarrow> job" where
  "adopt_planned item staged fl j =
     set_staged_file (Some staged)
       (j\<lparr>job_outputs := update_first (\<lambda>x. op_target x = nj_target item) (adopt_output staged) (job_outputs j),
         job_state := JQueued, job_not_before := None, job_finished_at := None,
         job_note := Some StagedWaiting,
         job_failure := (case job_failure j of None \<Rightarrow> Some fl | Some x \<Rightarrow> Some x)\<rparr>)"

definition adopt_row :: "staged_file \<Rightarrow> failure \<Rightarrow> job \<Rightarrow> job" where
  "adopt_row staged fl j =
     (let j1 = (if job_state j \<noteq> JQueued
                then j\<lparr>job_state := JQueued, job_not_before := None, job_finished_at := None\<rparr> else j)
      in set_staged_file (Some staged)
           (j1\<lparr>job_note := Some StagedWaiting,
              job_failure := (case job_failure j of None \<Rightarrow> Some fl | Some x \<Rightarrow> Some x)\<rparr>))"

definition adopt_new :: "nat \<Rightarrow> nat \<Rightarrow> new_job \<Rightarrow> staged_file \<Rightarrow> failure \<Rightarrow> job" where
  "adopt_new i now item staged fl =
     (make_job i now False item None)\<lparr>job_note := Some StagedWaiting, job_failure := Some fl,
        job_staged := Some (sf_path staged), job_staged_bytes := Some (sf_bytes staged),
        job_staged_attempts := Some (sf_attempts staged)\<rparr>"

definition adopt_one :: "nat \<Rightarrow> kept \<Rightarrow> nat \<times> queue_file \<Rightarrow> nat \<times> queue_file" where
  "adopt_one now k r =
     (case (k, r) of ((item, staged, fl), (added, f)) \<Rightarrow>
       (case rposition (\<lambda>j. list_ex (\<lambda>x. op_target x = nj_target item) (job_outputs j)
                            \<and> job_iso j = nj_iso item) (qf_jobs f) of
          Some pos \<Rightarrow>
            let j = qf_jobs f ! pos in
            if job_state j = JRunning then (added, f)
            else (added, f\<lparr>qf_jobs := (qf_jobs f)[pos := adopt_planned item staged fl j]\<rparr>)
        | None \<Rightarrow>
            (case rposition (\<lambda>j. job_target j = nj_target item \<and> job_state j \<noteq> JRunning) (qf_jobs f) of
               Some pos \<Rightarrow>
                 (added, f\<lparr>qf_jobs := (qf_jobs f)[pos := adopt_row staged fl (qf_jobs f ! pos)]\<rparr>)
             | None \<Rightarrow>
                 let i = qf_next_id f + 1
                 in (added + 1, f\<lparr>qf_next_id := i,
                       qf_jobs := qf_jobs f @ [adopt_new i now item staged fl]\<rparr>))))"

definition adopt_staged :: "kept list \<Rightarrow> nat \<Rightarrow> queue_file \<Rightarrow> nat \<times> queue_file" where
  "adopt_staged kept now f =
     (let found = (\<lambda>(_, s, _). sf_path s) ` set kept
      in fold (adopt_one now) kept (0, f\<lparr>qf_jobs := map (forget_lost found now) (qf_jobs f)\<rparr>))"

section \<open>Clearing and switches\<close>

definition note_running :: "nat \<Rightarrow> job_note \<Rightarrow> queue_file \<Rightarrow> unit \<times> queue_file" where
  "note_running i note f = ((), update_job i (\<lambda>j. j\<lparr>job_note := Some note\<rparr>) f)"

definition clear_finished :: "queue_file \<Rightarrow> nat \<times> queue_file" where
  "clear_finished f =
     (let left = filter is_active (qf_jobs f)
      in (length (qf_jobs f) - length left, f\<lparr>qf_jobs := left\<rparr>))"

text \<open>\<open>unqueue\<close>: a picked queued job with a kept file stays, parked as failed.\<close>

fun unqueue_jobs :: "(job \<Rightarrow> bool) \<Rightarrow> nat \<Rightarrow> job list \<Rightarrow> nat \<times> job list" where
  "unqueue_jobs pick now [] = (0, [])"
| "unqueue_jobs pick now (j # js) =
     (let (parked, rest) = unqueue_jobs pick now js
      in if job_state j \<noteq> JQueued \<or> \<not> pick j then (parked, j # rest)
         else if job_staged j = None then (parked, rest)
         else (parked + 1, park parked_message now j # rest))"

definition unqueue :: "(job \<Rightarrow> bool) \<Rightarrow> nat \<Rightarrow> queue_file \<Rightarrow> nat \<times> queue_file" where
  "unqueue pick now f =
     (let (parked, left) = unqueue_jobs pick now (qf_jobs f)
      in (length (qf_jobs f) - length left + parked, f\<lparr>qf_jobs := left\<rparr>))"

definition remove_queued :: "path \<Rightarrow> path option \<Rightarrow> nat \<Rightarrow> queue_file \<Rightarrow> nat \<times> queue_file" where
  "remove_queued target source now f =
     unqueue (\<lambda>j. owns_target target j
                  \<or> (case source of None \<Rightarrow> False | Some s \<Rightarrow> job_retire j \<and> job_iso j = s)) now f"

definition clear_queued :: "nat \<Rightarrow> queue_file \<Rightarrow> nat \<times> queue_file" where
  "clear_queued now f = unqueue (\<lambda>_. True) now (f\<lparr>qf_paused := False\<rparr>)"

definition drop_job :: "nat \<Rightarrow> queue_file \<Rightarrow> unit \<times> queue_file" where
  "drop_job i f = ((), f\<lparr>qf_jobs := filter (\<lambda>j. job_id j \<noteq> i) (qf_jobs f)\<rparr>)"

definition set_paused :: "bool \<Rightarrow> queue_file \<Rightarrow> unit \<times> queue_file" where
  "set_paused p f = ((), f\<lparr>qf_paused := p\<rparr>)"

definition set_debug_log :: "bool \<Rightarrow> queue_file \<Rightarrow> unit \<times> queue_file" where
  "set_debug_log b f = ((), f\<lparr>qf_debug_log := b\<rparr>)"

end
