(* ===== verification/Queue_Invariant.thy ===== *)
theory Queue_Invariant
  imports Queue_Ops "HOL-Library.Multiset"
begin

text \<open>
  The invariant of the queue file and its preservation by every operation of Queue\_Ops:
  job numbers are unique and never above \<open>next_id\<close>, so a later job never gets an earlier
  one's number; row targets are unique; at most one job runs; a job keeps a file together
  with its size and attempts or not at all; a failed job has its reason and its time; a
  planned job records its plan's outputs, each once.

  Most operations change one job by a function that keeps its number and target and never
  starts it. The locale \<open>job_change\<close> is that contract; it is interpreted on the change of
  every such operation, which the preservation lemmas then use.
\<close>

section \<open>The invariant\<close>

definition plan_recorded :: "job \<Rightarrow> bool" where
  "plan_recorded j \<longleftrightarrow> map op_id (job_outputs j) = (case job_plan j of None \<Rightarrow> [] | Some p \<Rightarrow> map po_id (rp_outputs p))
     \<and> distinct (map op_id (job_outputs j))"

definition job_ok :: "job \<Rightarrow> bool" where
  "job_ok j \<longleftrightarrow>
     (job_staged_bytes j = None \<longleftrightarrow> job_staged j = None)
   \<and> (job_staged_attempts j = None \<longleftrightarrow> job_staged j = None)
   \<and> (job_state j = JFailed \<longrightarrow> job_failure j \<noteq> None \<and> job_finished_at j \<noteq> None)
   \<and> (job_state j = JRunning \<longrightarrow> job_started_at j \<noteq> None)
   \<and> plan_recorded j"

abbreviation is_running :: "job \<Rightarrow> bool" where
  "is_running j \<equiv> job_state j = JRunning"

definition jobs_ok :: "nat \<Rightarrow> job list \<Rightarrow> bool" where
  "jobs_ok n js \<longleftrightarrow> distinct (map job_id js) \<and> distinct (map job_target js)
     \<and> length (filter is_running js) \<le> 1
     \<and> (\<forall>j \<in> set js. job_ok j \<and> job_id j \<le> n)"

definition queue_ok :: "queue_file \<Rightarrow> bool" where
  "queue_ok f \<longleftrightarrow> jobs_ok (qf_next_id f) (qf_jobs f)"

lemma queue_ok_default: "queue_ok default_queue_file"
  by (simp add: queue_ok_def jobs_ok_def default_queue_file_def)

lemma queue_ok_switches [simp]:
  "queue_ok (f\<lparr>qf_paused := p\<rparr>) = queue_ok f"
  "queue_ok (f\<lparr>qf_debug_log := d\<rparr>) = queue_ok f"
  "queue_ok (f\<lparr>qf_results := r\<rparr>) = queue_ok f"
  "queue_ok (f\<lparr>qf_schema := s\<rparr>) = queue_ok f"
  by (simp_all add: queue_ok_def)

text \<open>Taking jobs out and reordering them keeps the invariant.\<close>

lemma distinct_submset:
  assumes "mset ys \<subseteq># mset xs" "distinct xs"
  shows "distinct ys"
proof -
  from assms(1) obtain M where "mset xs = mset ys + M" by (auto simp: mset_subset_eq_exists_conv)
  moreover obtain zs where "mset zs = M" using ex_mset by blast
  ultimately have "mset xs = mset (ys @ zs)" by simp
  with assms(2) have "distinct (ys @ zs)" by (metis mset_eq_imp_distinct_iff)
  then show ?thesis by simp
qed

lemma jobs_ok_submset:
  assumes ok: "jobs_ok n js" and sub: "mset js' \<subseteq># mset js"
  shows "jobs_ok n js'"
proof -
  have d: "distinct (map g js')" if "distinct (map g js)" for g :: "job \<Rightarrow> 'b"
    by (rule distinct_submset [OF _ that]) (simp add: image_mset_subseteq_mono [OF sub])
  have "size (filter_mset is_running (mset js')) \<le> size (filter_mset is_running (mset js))"
    by (rule size_mset_mono) (rule multiset_filter_mono [OF sub])
  then have "length (filter is_running js') \<le> length (filter is_running js)"
    by (metis mset_filter size_mset)
  moreover have "set js' \<subseteq> set js" using sub by (metis set_mset_mono set_mset_mset)
  ultimately show ?thesis
    using ok d [of job_id] d [of job_target] by (auto simp: jobs_ok_def)
qed

lemma jobs_ok_filter: "jobs_ok n js \<Longrightarrow> jobs_ok n (filter P js)"
  by (rule jobs_ok_submset) (auto simp: mset_filter)

lemma mset_remove_at: "i < length js \<Longrightarrow> mset js = add_mset (js ! i) (mset (remove_at i js))"
  unfolding remove_at_def by (subst id_take_nth_drop [of i js]) auto

lemma mset_remove_at_diff: "i < length js \<Longrightarrow> mset js - {#js ! i#} = mset (remove_at i js)"
  by (drule mset_remove_at) (metis add_mset_remove_trivial)

lemma mset_insert_at [simp]: "mset (insert_at k x js) = add_mset x (mset js)"
proof -
  have "mset js = mset (take k js) + mset (drop k js)" by (metis append_take_drop_id mset_append)
  then show ?thesis by (simp add: insert_at_def)
qed

lemma jobs_ok_remove_at: "jobs_ok n js \<Longrightarrow> i < length js \<Longrightarrow> jobs_ok n (remove_at i js)"
  by (rule jobs_ok_submset) (auto simp flip: mset_remove_at_diff)

lemma jobs_ok_mono: "jobs_ok n js \<Longrightarrow> n \<le> m \<Longrightarrow> jobs_ok m js"
  by (auto simp: jobs_ok_def)

lemma jobs_ok_snoc:
  assumes "jobs_ok n js" "job_id j = n + 1" "job_ok j" "\<not> is_running j"
    and "job_target j \<notin> job_target ` set js"
  shows "jobs_ok (n + 1) (js @ [j])"
  using assms by (fastforce simp: jobs_ok_def)

section \<open>Changes to one job\<close>

locale job_change =
  fixes g :: "job \<Rightarrow> job"
  assumes keeps_id [simp]: "job_id (g j) = job_id j"
    and keeps_target [simp]: "job_target (g j) = job_target j"
    and keeps_ok: "job_ok j \<Longrightarrow> job_ok (g j)"
    and not_started: "is_running (g j) \<Longrightarrow> is_running j"
begin

lemma keeps_map:
  assumes "jobs_ok n js"
  shows "jobs_ok n (map g js)"
proof -
  have "length (filter is_running (map g js)) \<le> length (filter is_running js)"
    using not_started by (induction js) (auto simp: le_SucI)
  moreover have "distinct (map (job_id \<circ> g) js)" "distinct (map (job_target \<circ> g) js)"
    using assms by (simp_all add: comp_def jobs_ok_def)
  ultimately show ?thesis
    using assms keeps_ok by (auto simp: jobs_ok_def)
qed

lemma keeps_update_first:
  assumes "jobs_ok n js"
  shows "jobs_ok n (update_first P g js)"
proof -
  have "map job_id (update_first P g js) = map job_id js"
    by (rule map_update_first) simp
  moreover have "map job_target (update_first P g js) = map job_target js"
    by (rule map_update_first) simp
  moreover have "length (filter is_running (update_first P g js)) \<le> length (filter is_running js)"
    by (rule filter_update_first_le) (rule not_started)
  ultimately show ?thesis
    using assms keeps_ok by (auto simp: jobs_ok_def dest!: in_set_update_first)
qed

lemma keeps_update_job: "queue_ok f \<Longrightarrow> queue_ok (update_job i g f)"
  by (simp add: queue_ok_def update_job_def keeps_update_first)

text \<open>Putting the changed job back anywhere.\<close>

lemma keeps_move:
  assumes ok: "jobs_ok n js" and i: "i < length js" and m: "mset js' = add_mset (g (js ! i)) (mset (remove_at i js))"
  shows "jobs_ok n js'"
proof -
  have js: "mset js = add_mset (js ! i) (mset (remove_at i js))" using i by (rule mset_remove_at)
  have maps: "mset (map h js') = mset (map h js)" if "\<And>j. h (g j) = h j" for h :: "job \<Rightarrow> 'b"
    using m js that by simp
  have "size (filter_mset is_running (mset js')) \<le> size (filter_mset is_running (mset js))"
    unfolding m js using not_started [of "js ! i"] by (cases "is_running (g (js ! i))") (simp_all add: le_SucI)
  then have run: "length (filter is_running js') \<le> length (filter is_running js)"
    by (metis mset_filter size_mset)
  have sets: "set js' = insert (g (js ! i)) (set (remove_at i js))"
    using m by (metis set_mset_add_mset_insert set_mset_mset)
  have "set (remove_at i js) \<subseteq> set js" by (rule set_remove_at)
  with sets ok i keeps_ok have "\<forall>j \<in> set js'. job_ok j \<and> job_id j \<le> n"
    by (auto simp: jobs_ok_def)
  moreover have "distinct (map job_id js')" "distinct (map job_target js')"
    using mset_eq_imp_distinct_iff [OF maps [of job_id]] mset_eq_imp_distinct_iff [OF maps [of job_target]] ok
    by (simp_all add: jobs_ok_def)
  ultimately show ?thesis using run ok by (simp add: jobs_ok_def)
qed

lemma keeps_move_to_head: "queue_ok f \<Longrightarrow> pos < length (qf_jobs f) \<Longrightarrow> queue_ok (move_to_head pos g f)"
  by (simp add: queue_ok_def move_to_head_def Let_def keeps_move)

lemma keeps_list_update:
  assumes "jobs_ok n js" "i < length js"
  shows "jobs_ok n (js[i := g (js ! i)])"
proof (rule keeps_move [OF assms])
  have "mset (js[i := g (js ! i)]) = add_mset (g (js ! i)) (mset js - {#js ! i#})"
    by (rule mset_update [OF assms(2)])
  also have "mset js - {#js ! i#} = mset (remove_at i js)" by (rule mset_remove_at_diff [OF assms(2)])
  finally show "mset (js[i := g (js ! i)]) = add_mset (g (js ! i)) (mset (remove_at i js))" .
qed

end

text \<open>What leaves the outputs' identifiers and the plan alone keeps the record of the plan.\<close>

lemma plan_recorded_cong:
  "map op_id (job_outputs j') = map op_id (job_outputs j) \<Longrightarrow> job_plan j' = job_plan j
   \<Longrightarrow> plan_recorded j' = plan_recorded j"
  by (simp add: plan_recorded_def)

lemma job_ok_outputs:
  "map op_id os = map op_id (job_outputs j) \<Longrightarrow> job_ok j \<Longrightarrow> job_ok (j\<lparr>job_outputs := os\<rparr>)"
  using plan_recorded_cong [of "j\<lparr>job_outputs := os\<rparr>" j] by (simp add: job_ok_def)

lemma op_id_release [simp]: "op_id (release_output p x) = op_id x"
  by (simp add: release_output_def)

lemma set_staged_file_sel [simp]:
  "job_id (set_staged_file s j) = job_id j"
  "job_target (set_staged_file s j) = job_target j"
  "job_state (set_staged_file s j) = job_state j"
  "job_failure (set_staged_file s j) = job_failure j"
  "job_finished_at (set_staged_file s j) = job_finished_at j"
  "job_started_at (set_staged_file s j) = job_started_at j"
  "job_plan (set_staged_file s j) = job_plan j"
  "job_iso (set_staged_file s j) = job_iso j"
  "job_not_before (set_staged_file s j) = job_not_before j"
  "job_staged (set_staged_file s j) = map_option sf_path s"
  "job_staged_bytes (set_staged_file s j) = map_option sf_bytes s"
  "job_staged_attempts (set_staged_file s j) = map_option sf_attempts s"
  by (simp_all add: set_staged_file_def Let_def)

lemma set_staged_file_op_ids [simp]:
  "map op_id (job_outputs (set_staged_file s j)) = map op_id (job_outputs j)"
  by (auto simp: set_staged_file_def Let_def split: option.splits)

lemma set_staged_file_op_targets [simp]:
  "map op_target (job_outputs (set_staged_file s j)) = map op_target (job_outputs j)"
  by (auto simp: set_staged_file_def Let_def release_output_def split: option.splits)

lemma plan_recorded_set_staged [simp]: "plan_recorded (set_staged_file s j) = plan_recorded j"
  by (rule plan_recorded_cong) simp_all

lemma set_staged_file_ok:
  "plan_recorded j \<Longrightarrow> (job_state j = JFailed \<longrightarrow> job_failure j \<noteq> None \<and> job_finished_at j \<noteq> None)
   \<Longrightarrow> (job_state j = JRunning \<longrightarrow> job_started_at j \<noteq> None) \<Longrightarrow> job_ok (set_staged_file s j)"
  by (simp add: job_ok_def)

lemmas job_ok_parts = job_ok_def plan_recorded_def

interpretation set_staged: job_change "set_staged_file s" for s
  by unfold_locales (auto simp: job_ok_def intro: set_staged_file_ok)

interpretation park: job_change "park message now" for message now
  by unfold_locales (auto simp: park_def job_ok_parts)

interpretation finish_job: job_change "finish_job r now" for r now
proof unfold_locales
  fix j :: job
  assume "job_ok j"
  then show "job_ok (finish_job r now j)"
    by (cases r) (auto simp: finish_job_def Let_def result_done_def job_ok_parts
        intro!: set_staged_file_ok)
qed (auto simp: finish_job_def Let_def result_done_def split: job_result.splits)

interpretation retry_later_job: job_change "retry_later_job fl nb staged now" for fl nb staged now
  by unfold_locales (auto simp: retry_later_job_def job_ok_parts intro!: set_staged_file_ok)

interpretation requeue_job: job_change
  "\<lambda>j. j\<lparr>job_state := JQueued, job_started_at := None, job_note := Some n\<rparr>" for n
  by unfold_locales (auto simp: job_ok_parts)

interpretation retry_now_job: job_change
  "\<lambda>j. j\<lparr>job_state := JQueued, job_note := Some StagedWaiting,
             job_started_at := None, job_finished_at := None, job_not_before := None,
             job_attempts := 0, job_first_failed_at := None\<rparr>"
  by unfold_locales (auto simp: job_ok_parts)

interpretation note_job: job_change "\<lambda>j. j\<lparr>job_note := n\<rparr>" for n
  by unfold_locales (auto simp: job_ok_parts)

interpretation owned_job: job_change "\<lambda>j. j\<lparr>job_owned := ow\<rparr>" for ow
  by unfold_locales (auto simp: job_ok_parts)


section \<open>Changes to one output\<close>

lemma map_op_id_update_first:
  "(\<And>x. op_id (g x) = op_id x) \<Longrightarrow> map op_id (update_first P g xs) = map op_id xs"
  by (rule map_update_first)

locale output_change =
  fixes g :: "output_progress \<Rightarrow> output_progress"
  assumes keeps_op_id [simp]: "op_id (g x) = op_id x"
begin

lemma as_job_change: "job_change (\<lambda>j. j\<lparr>job_outputs := update_first P g (job_outputs j)\<rparr>)"
  by unfold_locales (auto simp: job_ok_parts map_op_id_update_first)

lemma keeps_update_output: "queue_ok f \<Longrightarrow> queue_ok (update_output i out g f)"
  unfolding update_output_def by (rule job_change.keeps_update_job [OF as_job_change])

end

interpretation op_state_change: output_change "\<lambda>x. x\<lparr>op_state := s\<rparr>" for s
  by unfold_locales simp

interpretation op_end_change: output_change "\<lambda>x. x\<lparr>op_state := s, op_landing := l\<rparr>" for s l
  by unfold_locales simp

interpretation op_landing_change: output_change "\<lambda>x. x\<lparr>op_landing := l\<rparr>" for l
  by unfold_locales simp

interpretation op_staged_change: output_change "\<lambda>x. x\<lparr>op_staged := p\<rparr>" for p
  by unfold_locales simp

interpretation op_unproven_change: output_change
  "\<lambda>x. x\<lparr>op_source_unproven := True, op_staged := p, op_state := OFailed\<rparr>" for p
  by unfold_locales simp

section \<open>Every operation keeps the invariant\<close>

lemma claim_ok: "queue_ok f \<Longrightarrow> queue_ok (snd (claim pending now started f))"
proof (cases "pending \<or> qf_paused f \<or> running f \<noteq> None \<or> next_ready now f = None")
  case False
  assume ok: "queue_ok f"
  let ?g = "\<lambda>j. j\<lparr>job_state := JRunning, job_failure := None,
                         job_started_at := Some started, job_finished_at := None\<rparr>"
  let ?js = "update_first (ready now) ?g (qf_jobs f)"
  from False have none: "\<forall>j \<in> set (qf_jobs f). \<not> is_running j"
    by (auto simp: running_def find_None_iff)
  then have "filter is_running (qf_jobs f) = []" by (simp add: filter_empty_conv)
  then have "length (filter is_running ?js) \<le> 1"
    using filter_update_first_Suc [of is_running "ready now" ?g "qf_jobs f"] by simp
  moreover have "map job_id ?js = map job_id (qf_jobs f)" "map job_target ?js = map job_target (qf_jobs f)"
    by (rule map_update_first, simp)+
  ultimately have "jobs_ok (qf_next_id f) ?js"
    using ok by (auto simp: queue_ok_def jobs_ok_def job_ok_parts dest!: in_set_update_first)
  with False show ?thesis by (auto simp: claim_def queue_ok_def Let_def)
qed (auto simp: claim_def)

lemma plan_progress_ids [simp]: "map op_id (plan_progress targets j p) = map po_id (rp_outputs p)"
  by (simp add: plan_progress_def Let_def case_prod_beta comp_def map_snd_enum)

lemma freeze_plan_ok:
  assumes "queue_ok f" "distinct (map po_id (rp_outputs p))"
  shows "queue_ok (snd (freeze_plan i p targets st ids f))"
proof -
  have "job_change (\<lambda>j. j\<lparr>job_outputs := plan_progress targets j p,
                  job_plan := Some p, job_source_stamp := st,
                  job_title_identities := ids\<rparr>)"
    by unfold_locales (use assms(2) in \<open>auto simp: job_ok_parts\<close>)
  then show ?thesis
    using assms(1) by (auto simp: freeze_plan_def job_change.keeps_update_job split: option.splits)
qed

lemma set_owned_ok: "queue_ok f \<Longrightarrow> queue_ok (snd (set_owned i ow f))"
  by (simp add: set_owned_def owned_job.keeps_update_job split: option.splits)

lemma begin_output_ok: "queue_ok f \<Longrightarrow> queue_ok (snd (begin_output i out f))"
  by (simp add: begin_output_def op_state_change.keeps_update_output split: option.splits)

lemma finish_output_ok: "queue_ok f \<Longrightarrow> queue_ok (snd (finish_output i out s f))"
  by (simp add: finish_output_def Let_def op_end_change.keeps_update_output split: option.splits)

lemma set_output_landing_ok: "queue_ok f \<Longrightarrow> queue_ok (snd (set_output_landing i out l f))"
  by (simp add: set_output_landing_def op_landing_change.keeps_update_output split: option.splits)

lemma retain_unproven_output_ok: "queue_ok f \<Longrightarrow> queue_ok (snd (retain_unproven_output i out st f))"
  by (simp add: retain_unproven_output_def op_unproven_change.keeps_update_output
      set_staged.keeps_update_job split: option.splits)

lemma set_output_staged_ok: "queue_ok f \<Longrightarrow> queue_ok (snd (set_output_staged i out p f))"
  by (simp add: set_output_staged_def op_staged_change.keeps_update_output split: option.splits)

lemma finish_ok: "queue_ok f \<Longrightarrow> queue_ok (snd (finish i r now f))"
  by (simp add: finish_def Let_def finish_job.keeps_update_job split: option.splits)

lemma requeue_ok: "queue_ok f \<Longrightarrow> queue_ok (snd (requeue i n f))"
  by (auto simp: requeue_def requeue_job.keeps_move_to_head dest: position_Some split: option.splits)

lemma retry_later_ok: "queue_ok f \<Longrightarrow> queue_ok (snd (retry_later i fl nb st now f))"
  by (auto simp: retry_later_def retry_later_job.keeps_move_to_head dest: position_Some split: option.splits)

lemma set_staged_ok: "queue_ok f \<Longrightarrow> queue_ok (snd (set_staged i st f))"
  by (simp add: set_staged_def set_staged.keeps_update_job split: option.splits)

lemma retry_staged_now_ok: "queue_ok f \<Longrightarrow> queue_ok (snd (retry_staged_now t f))"
  by (auto simp: retry_staged_now_def retry_now_job.keeps_move_to_head dest: rposition_Some split: option.splits)

lemma note_running_ok: "queue_ok f \<Longrightarrow> queue_ok (snd (note_running i n f))"
  by (simp add: note_running_def note_job.keeps_update_job)

lemma clear_finished_ok: "queue_ok f \<Longrightarrow> queue_ok (snd (clear_finished f))"
  by (simp add: clear_finished_def Let_def queue_ok_def jobs_ok_filter)

lemma drop_job_ok: "queue_ok f \<Longrightarrow> queue_ok (snd (drop_job i f))"
  by (simp add: drop_job_def queue_ok_def jobs_ok_filter)


text \<open>Taking queued jobs out: those with a kept file stay, parked.\<close>

definition park_if :: "(job \<Rightarrow> bool) \<Rightarrow> nat \<Rightarrow> job \<Rightarrow> job" where
  "park_if pick now j = (if job_state j = JQueued \<and> pick j then park parked_message now j else j)"

lemma unqueue_jobs_eq:
  "snd (unqueue_jobs pick now js) =
     map (park_if pick now) (filter (\<lambda>j. job_state j \<noteq> JQueued \<or> \<not> pick j \<or> job_staged j \<noteq> None) js)"
  by (induction js) (auto simp: case_prod_beta Let_def park_if_def)

interpretation park_if: job_change "park_if pick now" for pick now
  by unfold_locales (auto simp: park_if_def park_def job_ok_parts split: if_splits)

lemma unqueue_ok: "queue_ok f \<Longrightarrow> queue_ok (snd (unqueue pick now f))"
  by (simp add: unqueue_def case_prod_beta Let_def queue_ok_def unqueue_jobs_eq
      park_if.keeps_map jobs_ok_filter)

lemma remove_queued_ok: "queue_ok f \<Longrightarrow> queue_ok (snd (remove_queued t src now f))"
  by (simp add: remove_queued_def unqueue_ok)

lemma clear_queued_ok: "queue_ok f \<Longrightarrow> queue_ok (snd (clear_queued now f))"
  by (simp add: clear_queued_def unqueue_ok)

interpretation detach: job_change
  "\<lambda>j. set_staged_file None (j\<lparr>job_outputs := map (release_output p) (job_outputs j)\<rparr>)" for p
  by unfold_locales (auto simp: job_ok_parts comp_def intro!: set_staged_file_ok)

lemma take_staged_ok: "queue_ok f \<Longrightarrow> queue_ok (snd (take_staged t abandoned f))"
proof (cases "rposition (\<lambda>j. owns_target t j \<and> job_staged j \<noteq> None) (qf_jobs f)")
  case (Some pos)
  assume "queue_ok f"
  with Some show ?thesis
    using rposition_Some [OF Some] detach.keeps_list_update [of "qf_next_id f" "qf_jobs f" pos]
    by (auto simp: take_staged_def Let_def queue_ok_def jobs_ok_remove_at split: option.splits)
qed (simp add: take_staged_def)

section \<open>Adoption of kept files\<close>

interpretation forget_lost: job_change "forget_lost found now" for found now
proof unfold_locales
  fix j :: job
  let ?o = "map (\<lambda>x. case op_staged x of Some p \<Rightarrow> if p \<in> found then x else x\<lparr>op_staged := None\<rparr> | None \<Rightarrow> x) (job_outputs j)"
  have ids: "map op_id ?o = map op_id (job_outputs j)" by (simp split: option.splits)
  assume ok: "job_ok j"
  then have "job_ok (j\<lparr>job_outputs := ?o\<rparr>)" by (rule job_ok_outputs [OF ids])
  then show "job_ok (forget_lost found now j)"
    by (simp add: forget_lost_def Let_def park.keeps_ok set_staged.keeps_ok split: option.splits)
qed (auto simp: forget_lost_def Let_def park_def split: option.splits if_splits)

interpretation adopt_output_change: output_change "adopt_output st" for st
  by unfold_locales (simp add: adopt_output_def)

interpretation adopt_planned: job_change "adopt_planned item st fl" for item st fl
proof unfold_locales
  fix j :: job
  assume "job_ok j"
  then show "job_ok (adopt_planned item st fl j)"
    unfolding adopt_planned_def
    by (intro set_staged_file_ok)
      (auto simp: job_ok_parts map_op_id_update_first split: option.splits)
qed (auto simp: adopt_planned_def)

interpretation adopt_row: job_change "adopt_row st fl" for st fl
  by unfold_locales (auto simp: adopt_row_def Let_def job_ok_parts intro!: set_staged_file_ok split: if_splits)

lemma adopt_new_sel:
  "job_id (adopt_new i now item st fl) = i" "job_target (adopt_new i now item st fl) = nj_target item"
  "job_ok (adopt_new i now item st fl)" "job_state (adopt_new i now item st fl) = JQueued"
  by (simp_all add: adopt_new_def make_job_def job_ok_parts)

lemma no_running_count: "running f = None \<longleftrightarrow> (\<forall>j \<in> set (qf_jobs f). \<not> is_running j)"
  by (auto simp: running_def find_None_iff)

lemma adopt_one_ok:
  assumes "queue_ok (snd r)" "running (snd r) = None"
  shows "queue_ok (snd (adopt_one now k r)) \<and> running (snd (adopt_one now k r)) = None"
proof -
  obtain item st fl added f where [simp]: "k = (item, st, fl)" "r = (added, f)" by (metis prod_cases3 surj_pair)
  have ok: "queue_ok f" and nr: "\<forall>j \<in> set (qf_jobs f). \<not> is_running j"
    using assms by (simp_all add: no_running_count)
  have keep: "queue_ok (f\<lparr>qf_jobs := (qf_jobs f)[pos := g (qf_jobs f ! pos)]\<rparr>)
      \<and> running (f\<lparr>qf_jobs := (qf_jobs f)[pos := g (qf_jobs f ! pos)]\<rparr>) = None"
    if "job_change g" "pos < length (qf_jobs f)" for g pos
  proof
    show "queue_ok (f\<lparr>qf_jobs := (qf_jobs f)[pos := g (qf_jobs f ! pos)]\<rparr>)"
      using ok job_change.keeps_list_update [OF that(1) _ that(2)] by (simp add: queue_ok_def)
    have "\<not> is_running (g (qf_jobs f ! pos))"
      using nr nth_mem [OF that(2)] job_change.not_started [OF that(1)] by blast
    with nr show "running (f\<lparr>qf_jobs := (qf_jobs f)[pos := g (qf_jobs f ! pos)]\<rparr>) = None"
      by (auto simp: no_running_count dest!: set_update_subset_insert [THEN subsetD])
  qed
  show ?thesis
  proof (cases "rposition (\<lambda>j. list_ex (\<lambda>x. op_target x = nj_target item) (job_outputs j)
                            \<and> job_iso j = nj_iso item) (qf_jobs f)")
    case (Some pos)
    with keep [OF adopt_planned.job_change_axioms, of pos item st fl] rposition_Some [OF Some] ok assms(2)
    show ?thesis by (auto simp: adopt_one_def Let_def)
  next
    case None
    note outer = None
    show ?thesis
    proof (cases "rposition (\<lambda>j. job_target j = nj_target item \<and> \<not> is_running j) (qf_jobs f)")
      case (Some pos)
      with keep [OF adopt_row.job_change_axioms, of pos st fl] rposition_Some [OF Some] outer
      show ?thesis by (auto simp: adopt_one_def Let_def)
    next
      case None
      then have "nj_target item \<notin> job_target ` set (qf_jobs f)" using nr by (auto simp: rposition_None)
      with ok have "jobs_ok (qf_next_id f + 1) (qf_jobs f @ [adopt_new (qf_next_id f + 1) now item st fl])"
        by (intro jobs_ok_snoc) (simp_all add: queue_ok_def adopt_new_sel)
      with outer None nr show ?thesis
        by (auto simp: adopt_one_def Let_def queue_ok_def no_running_count adopt_new_sel)
    qed
  qed
qed

lemma adopt_fold_ok:
  "queue_ok (snd r) \<Longrightarrow> running (snd r) = None \<Longrightarrow>
   queue_ok (snd (fold (adopt_one now) ks r)) \<and> running (snd (fold (adopt_one now) ks r)) = None"
  by (induction ks arbitrary: r) (simp_all add: adopt_one_ok)

lemma adopt_staged_ok:
  assumes "queue_ok f" "running f = None"
  shows "queue_ok (snd (adopt_staged ks now f))"
proof -
  let ?found = "(\<lambda>(_, s, _). sf_path s) ` set ks"
  let ?f = "f\<lparr>qf_jobs := map (forget_lost ?found now) (qf_jobs f)\<rparr>"
  have "queue_ok ?f" using assms(1) by (simp add: queue_ok_def forget_lost.keeps_map)
  moreover have "running ?f = None"
    using assms(2) forget_lost.not_started by (auto simp: no_running_count)
  ultimately show ?thesis using adopt_fold_ok [of "(0, ?f)"] by (simp add: adopt_staged_def Let_def)
qed

section \<open>Concrete queues\<close>

text \<open>A queue of three jobs for the witnesses: one to run, one failed that keeps a file, one
  queued that keeps a file.\<close>

definition sample_new :: "string \<Rightarrow> new_job" where
  "sample_new n = \<lparr>nj_title = n, nj_iso = [Normal (n @ ''.iso'')], nj_target = [Normal (n @ ''.mkv'')], nj_replace = False\<rparr>"

definition sample_staged :: "string \<Rightarrow> staged_file" where
  "sample_staged n = \<lparr>sf_path = [Normal ''stage'', Normal n], sf_bytes = 10, sf_attempts = 1\<rparr>"

definition sample_failure :: failure where
  "sample_failure = \<lparr>fl_code = None, fl_message = ''no space''\<rparr>"

definition sample_job1 :: job where "sample_job1 = make_job 1 100 False (sample_new ''a'') None"

definition sample_job2 :: job where
  "sample_job2 = set_staged_file (Some (sample_staged ''b''))
     ((make_job 2 100 False (sample_new ''b'') None)\<lparr>job_state := JFailed, job_failure := Some sample_failure,
       job_finished_at := Some 150\<rparr>)"

definition sample_job3 :: job where
  "sample_job3 = set_staged_file (Some (sample_staged ''c'')) (make_job 3 100 False (sample_new ''c'') None)"

definition sample_queue :: queue_file where
  "sample_queue = \<lparr>qf_schema = 2, qf_next_id = 3, qf_paused = False, qf_debug_log = False,
     qf_jobs = [sample_job1, sample_job2, sample_job3], qf_results = Map.empty\<rparr>"

lemmas sample_jobs = sample_job1_def sample_job2_def sample_job3_def sample_queue_def sample_new_def
  sample_staged_def sample_failure_def make_job_def set_staged_file_def

lemma sample_queue_ok: "queue_ok sample_queue"
  by (simp add: queue_ok_def jobs_ok_def job_ok_parts sample_jobs)

end
