(* ===== verification/Queue_Append.thy ===== *)
theory Queue_Append
  imports Queue_Invariant
begin

text \<open>
  Adding jobs. \<open>append\<close> of \<open>library/queue.rs\<close> indexes the queue once so that a bulk add is
  linear; \<open>add_item\<close> is the reference: one item at a time, scanning the whole queue. The two
  are proved equal (\<open>append_jobs_sequential\<close>), and what an add does is then proved on the
  reference.
\<close>

section \<open>The reference\<close>

definition owners :: "path \<Rightarrow> job list \<Rightarrow> job list" where
  "owners t js = filter (owns_target t) js"

definition blocked :: "job list \<Rightarrow> bool" where
  "blocked os \<longleftrightarrow> (case last_opt os of None \<Rightarrow> False | Some j \<Rightarrow> job_staged j \<noteq> None) \<or> list_ex is_active os"

definition add_item :: "path set \<Rightarrow> bool \<Rightarrow> bool \<Rightarrow> nat \<Rightarrow> new_job \<Rightarrow> queue_file \<Rightarrow> queue_file" where
  "add_item held reuse retire now item f =
     (if \<not> reuse \<and> nj_iso item \<in> held then f
      else let os = owners (nj_target item) (qf_jobs f) in
        if blocked os then f
        else f\<lparr>qf_next_id := qf_next_id f + 1,
               qf_jobs := filter (\<lambda>j. job_target j \<noteq> nj_target item) (qf_jobs f)
                 @ [make_job (qf_next_id f + 1) now retire item (find_map (prior_of reuse item) (rev os))]\<rparr>)"

section \<open>The index\<close>

definition target_positions :: "path \<Rightarrow> job list \<Rightarrow> nat list" where
  "target_positions t js = filter (\<lambda>i. owns_target t (js ! i)) [0..<length js]"

lemma target_positions_Cons:
  "target_positions t (j # js) = (if owns_target t j then [0] else []) @ map Suc (target_positions t js)"
proof -
  have "[0..<length (j # js)] = 0 # map Suc [0..<length js]"
    by (simp add: upt_conv_Cons map_Suc_upt del: upt_Suc)
  then show ?thesis by (simp add: target_positions_def filter_map comp_def del: upt_Suc)
qed

lemma fold_index_push:
  "fold (index_push i) ts bt t =
    (if last_opt (bt t) = Some i \<or> t \<notin> set ts then bt t else bt t @ [i])"
proof (induction ts arbitrary: bt)
  case (Cons s ts)
  have "fold (index_push i) (s # ts) bt t = fold (index_push i) ts (index_push i s bt) t" by simp
  also have "\<dots> = (if last_opt (index_push i s bt t) = Some i \<or> t \<notin> set ts then index_push i s bt t
                 else index_push i s bt t @ [i])" by (rule Cons)
  also have "\<dots> = (if last_opt (bt t) = Some i \<or> t \<notin> set (s # ts) then bt t else bt t @ [i])"
    by (auto simp: index_push_def last_opt_def)
  finally show ?case .
qed simp

lemma owns_target_set: "owns_target t j \<longleftrightarrow> t \<in> set (job_target j # map op_target (job_outputs j))"
  by (auto simp: owns_target_def list_ex_iff)

lemma index_jobs_eq:
  assumes "\<forall>t. \<forall>k \<in> set (bt t). k < i"
  shows "index_jobs i js bt t = bt t @ map (\<lambda>k. i + k) (target_positions t js)"
  using assms
proof (induction js arbitrary: i bt)
  case (Cons j js)
  define bt' where "bt' = fold (index_push i) (job_target j # map op_target (job_outputs j)) bt"
  have l: "last_opt (bt t) \<noteq> Some i" for t
  proof
    assume "last_opt (bt t) = Some i"
    then have "i \<in> set (bt t)" by (auto simp: last_opt_def split: if_splits intro: last_in_set)
    with Cons.prems show False by blast
  qed
  have bt: "bt' t = (if owns_target t j then bt t @ [i] else bt t)" for t
    unfolding bt'_def fold_index_push using l [of t] by (simp add: owns_target_set)
  have "\<forall>t. \<forall>k \<in> set (bt' t). k < Suc i" unfolding bt using Cons.prems by (auto simp: less_SucI)
  from Cons.IH [OF this] have "index_jobs i (j # js) bt t
      = bt' t @ map (\<lambda>k. Suc i + k) (target_positions t js)"
    by (simp add: bt'_def)
  also have "\<dots> = bt t @ map (\<lambda>k. i + k) (target_positions t (j # js))"
    by (simp add: bt target_positions_Cons comp_def)
  finally show ?case .
qed (simp add: target_positions_def)

lemma index_jobs_empty: "index_jobs 0 js (\<lambda>_. []) t = target_positions t js"
  using index_jobs_eq [of "\<lambda>_. []" 0 js t] by simp


lemma map_nth_filter: "map ((!) xs) (filter (\<lambda>i. P (xs ! i)) [0..<length xs]) = filter P xs"
proof -
  have "filter P xs = filter P (map ((!) xs) [0..<length xs])" by (simp add: map_nth)
  also have "\<dots> = map ((!) xs) (filter (\<lambda>i. P (xs ! i)) [0..<length xs])"
    by (simp only: filter_map comp_def)
  finally show ?thesis by simp
qed

text \<open>Looking the filtered positions up gives the reference's owners.\<close>

lemma owners_of_positions:
  "map ((!) (js @ added))
     (filter (\<lambda>i. i \<ge> length js \<or> job_target (js ! i) \<notin> R) (target_positions t (js @ added)))
   = owners t (filter (\<lambda>j. job_target j \<notin> R) js @ added)"
proof -
  let ?n = "length js"
  have split: "[0..<length (js @ added)] = [0..<?n] @ map ((+) ?n) [0..<length added]"
    using upt_add_eq_append [of 0 ?n "length added"] map_add_upt [of ?n "length added"]
    by (simp add: add.commute [of _ ?n])
  let ?Q = "\<lambda>i. owns_target t ((js @ added) ! i) \<and> (i \<ge> ?n \<or> job_target (js ! i) \<notin> R)"
  have "filter ?Q [0..<?n] = filter (\<lambda>i. owns_target t (js ! i) \<and> job_target (js ! i) \<notin> R) [0..<?n]"
    by (rule filter_cong) (auto simp: nth_append)
  then have "map ((!) (js @ added)) (filter ?Q [0..<?n])
      = map ((!) js) (filter (\<lambda>i. owns_target t (js ! i) \<and> job_target (js ! i) \<notin> R) [0..<?n])"
    by (simp add: nth_append)
  also have "\<dots> = owners t (filter (\<lambda>j. job_target j \<notin> R) js)"
    using map_nth_filter [of js "\<lambda>j. owns_target t j \<and> job_target j \<notin> R"]
    by (simp add: owners_def conj_commute)
  finally have left: "map ((!) (js @ added)) (filter ?Q [0..<?n]) = owners t (filter (\<lambda>j. job_target j \<notin> R) js)" .
  have right: "map ((!) (js @ added)) (filter ?Q (map ((+) ?n) [0..<length added])) = owners t added"
    using map_nth_filter [of added "owns_target t"] by (simp add: filter_map comp_def owners_def)
  show ?thesis
    by (simp only: target_positions_def filter_filter split filter_append map_append left right)
       (simp add: owners_def)
qed

section \<open>Equivalence\<close>

definition append_rel :: "job list \<Rightarrow> append_acc \<Rightarrow> queue_file \<Rightarrow> bool" where
  "append_rel js a f \<longleftrightarrow> qf_next_id f = aa_next_id a
     \<and> qf_jobs f = filter (\<lambda>j. job_target j \<notin> aa_replaced a) js @ aa_added a
     \<and> (\<forall>t. aa_by_target a t = target_positions t (js @ aa_added a))
     \<and> (\<forall>j \<in> set (aa_added a). is_active j)"

lemma prior_of_Some:
  "prior_of reuse item j = Some r \<Longrightarrow>
     reuse \<and> job_iso j = nj_iso item \<and>
     (\<exists>out q. find (\<lambda>x. op_target x = nj_target item) (job_outputs j) = Some out
       \<and> job_plan j = Some q \<and> r = prior_row item j out q)"
  by (auto simp: prior_of_def split: if_splits option.splits)

lemma prior_of_outputs:
  "prior_of reuse item j = Some (p, st, ids, outs, ow) \<Longrightarrow> map op_target outs = [nj_target item]"
  by (auto dest!: prior_of_Some simp: prior_row_def Let_def)

lemma owns_target_make_job:
  "find_map (prior_of reuse item) os = p \<Longrightarrow>
     owns_target t (make_job i now retire item p) \<longleftrightarrow> t = nj_target item"
  by (cases p) (auto simp: owns_target_set make_job_def dest!: find_map_Some prior_of_outputs)

lemma make_job_active [simp]: "is_active (make_job i now retire item p)"
  by (simp add: make_job_def is_active_def)

lemma make_job_sel [simp]:
  "job_id (make_job i now retire item p) = i" "job_target (make_job i now retire item p) = nj_target item"
  "job_state (make_job i now retire item p) = JQueued" "job_iso (make_job i now retire item p) = nj_iso item"
  "job_staged (make_job i now retire item p) = None" "job_not_before (make_job i now retire item p) = None"
  by (simp_all add: make_job_def)

lemma target_positions_snoc:
  "target_positions t (js @ [j]) = target_positions t js @ (if owns_target t j then [length js] else [])"
proof -
  have "filter (\<lambda>i. owns_target t ((js @ [j]) ! i)) [0..<length js] = filter (\<lambda>i. owns_target t (js ! i)) [0..<length js]"
    by (rule filter_cong) (auto simp: nth_append)
  then show ?thesis by (simp add: target_positions_def)
qed

lemma append_item_sim:
  assumes rel: "append_rel js a f"
  shows "append_rel js (append_item js held reuse retire now item a) (add_item held reuse retire now item f)"
proof (cases "\<not> reuse \<and> nj_iso item \<in> held")
  case True
  with rel show ?thesis by (simp add: append_item_def add_item_def)
next
  case False
  let ?t = "nj_target item" and ?n = "length js"
  define idx where "idx = filter (\<lambda>i. i \<ge> ?n \<or> job_target (js ! i) \<notin> aa_replaced a) (aa_by_target a ?t)"
  define job_at where "job_at = (\<lambda>i. if i < ?n then js ! i else aa_added a ! (i - ?n))"
  have at: "job_at = (!) (js @ aa_added a)" by (auto simp: job_at_def nth_append)
  have os: "owners ?t (qf_jobs f) = map job_at idx"
    using rel owners_of_positions [of js "aa_added a" "aa_replaced a" ?t]
    by (simp add: append_rel_def idx_def at)
  have blocked: "((case last_opt idx of None \<Rightarrow> False | Some i \<Rightarrow> job_staged (job_at i) \<noteq> None)
      \<or> list_ex (\<lambda>i. is_active (job_at i)) idx) = blocked (owners ?t (qf_jobs f))"
    by (auto simp: blocked_def os last_opt_map list_ex_iff split: option.splits)
  have prior: "find_map (\<lambda>i. prior_of reuse item (job_at i)) (rev idx)
      = find_map (prior_of reuse item) (rev (owners ?t (qf_jobs f)))"
    by (simp add: os find_map_map rev_map)
  have step: "append_item js held reuse retire now item a =
      (if blocked (owners ?t (qf_jobs f)) then a
       else \<lparr>aa_next_id = aa_next_id a + 1,
         aa_by_target = (aa_by_target a)(?t := aa_by_target a ?t @ [?n + length (aa_added a)]),
         aa_replaced = insert ?t (aa_replaced a),
         aa_added = aa_added a @ [make_job (aa_next_id a + 1) now retire item
           (find_map (prior_of reuse item) (rev (owners ?t (qf_jobs f))))]\<rparr>)"
    unfolding blocked [symmetric] prior [symmetric]
    using False by (simp only: append_item_def Let_def idx_def job_at_def if_False)
  show ?thesis
  proof (cases "blocked (owners ?t (qf_jobs f))")
    case True
    with False rel show ?thesis unfolding step by (simp add: add_item_def Let_def)
  next
    case unblocked: False
    define j where "j = make_job (aa_next_id a + 1) now retire item
      (find_map (prior_of reuse item) (rev (owners ?t (qf_jobs f))))"
    have item: "append_item js held reuse retire now item a =
      \<lparr>aa_next_id = aa_next_id a + 1,
       aa_by_target = (aa_by_target a)(?t := aa_by_target a ?t @ [?n + length (aa_added a)]),
       aa_replaced = insert ?t (aa_replaced a), aa_added = aa_added a @ [j]\<rparr>"
      using unblocked by (simp add: step j_def)
    have ref: "add_item held reuse retire now item f = f\<lparr>qf_next_id := aa_next_id a + 1,
       qf_jobs := filter (\<lambda>j. job_target j \<noteq> ?t) (qf_jobs f) @ [j]\<rparr>"
      using False unblocked rel by (auto simp: add_item_def Let_def j_def append_rel_def)
    have "job_target x \<noteq> ?t" if "x \<in> set (aa_added a)" for x
    proof
      assume "job_target x = ?t"
      then have "x \<in> set (owners ?t (qf_jobs f))"
        using that rel by (auto simp: owners_def owns_target_def append_rel_def)
      with that rel unblocked show False by (auto simp: blocked_def append_rel_def list_ex_iff)
    qed
    then have keep: "filter (\<lambda>j. job_target j \<noteq> ?t) (aa_added a) = aa_added a" by simp
    have own: "owns_target t j \<longleftrightarrow> t = ?t" for t by (simp add: j_def owns_target_make_job)
    show ?thesis
      unfolding item ref using rel keep own
      by (auto simp: append_rel_def target_positions_snoc simp flip: append_assoc
          intro!: filter_cong) (auto simp: j_def)
  qed
qed

text \<open>The indexed add is the sequential one, and counts the jobs it added.\<close>

lemma append_fold_sim:
  "append_rel js a f \<Longrightarrow>
   append_rel js (fold (append_item js held reuse retire now) items a)
     (fold (add_item held reuse retire now) items f)"
  by (induction items arbitrary: a f) (simp_all add: append_item_sim)


lemma append_rel_init:
  "append_rel (qf_jobs f) \<lparr>aa_next_id = qf_next_id f, aa_by_target = index_jobs 0 (qf_jobs f) (\<lambda>_. []),
     aa_replaced = {}, aa_added = []\<rparr> f"
  by (simp add: append_rel_def index_jobs_empty)

lemma add_item_fields:
  "\<exists>n js. add_item held reuse retire now item f = f\<lparr>qf_next_id := n, qf_jobs := js\<rparr>"
proof -
  have same: "\<exists>n js. f = f\<lparr>qf_next_id := n, qf_jobs := js\<rparr>"
    by (rule exI [of _ "qf_next_id f"], rule exI [of _ "qf_jobs f"]) simp
  then show ?thesis
    by (cases "\<not> reuse \<and> nj_iso item \<in> held \<or> blocked (owners (nj_target item) (qf_jobs f))")
      (auto simp: add_item_def Let_def intro!: same)
qed

lemma add_items_fields:
  "\<exists>n js. fold (add_item held reuse retire now) items f = f\<lparr>qf_next_id := n, qf_jobs := js\<rparr>"
proof (induction items arbitrary: f)
  case Nil
  have "fold (add_item held reuse retire now) [] f = f\<lparr>qf_next_id := qf_next_id f, qf_jobs := qf_jobs f\<rparr>" by simp
  then show ?case by blast
next
  case (Cons item items)
  obtain n js where "add_item held reuse retire now item f = f\<lparr>qf_next_id := n, qf_jobs := js\<rparr>"
    using add_item_fields by blast
  with Cons.IH [of "f\<lparr>qf_next_id := n, qf_jobs := js\<rparr>"] show ?case by auto
qed

lemma append_count:
  "aa_next_id (fold (append_item js held reuse retire now) items a) =
     aa_next_id a + (length (aa_added (fold (append_item js held reuse retire now) items a)) - length (aa_added a))
   \<and> length (aa_added a) \<le> length (aa_added (fold (append_item js held reuse retire now) items a))"
proof (induction items arbitrary: a)
  case (Cons item items)
  have "append_item js held reuse retire now item a = a \<or>
    (aa_next_id (append_item js held reuse retire now item a) = aa_next_id a + 1
     \<and> length (aa_added (append_item js held reuse retire now item a)) = length (aa_added a) + 1)"
    by (simp add: append_item_def Let_def)
  with Cons.IH [of "append_item js held reuse retire now item a"] show ?case by auto
qed simp

text \<open>
  C27: a bulk add through the target index is the one-item-at-a-time reference, and reports how
  many job numbers it used.
\<close>

theorem append_jobs_sequential:
  "append_jobs items reuse retire now f =
     (qf_next_id (snd (append_jobs items reuse retire now f)) - qf_next_id f,
      fold (add_item (held_sources (qf_jobs f)) reuse retire now) items f)"
proof -
  let ?js = "qf_jobs f"
  let ?init = "\<lparr>aa_next_id = qf_next_id f, aa_by_target = index_jobs 0 ?js (\<lambda>_. []),
     aa_replaced = {}, aa_added = []\<rparr>"
  let ?a = "fold (append_item ?js (held_sources ?js) reuse retire now) items ?init"
  let ?r = "fold (add_item (held_sources ?js) reuse retire now) items f"
  have "append_rel ?js ?a ?r" by (rule append_fold_sim [OF append_rel_init])
  then have r: "qf_next_id ?r = aa_next_id ?a"
    "qf_jobs ?r = filter (\<lambda>j. job_target j \<notin> aa_replaced ?a) ?js @ aa_added ?a"
    by (simp_all add: append_rel_def)
  obtain n js where f: "?r = f\<lparr>qf_next_id := n, qf_jobs := js\<rparr>" using add_items_fields by blast
  have "?r = f\<lparr>qf_next_id := aa_next_id ?a,
      qf_jobs := filter (\<lambda>j. job_target j \<notin> aa_replaced ?a) ?js @ aa_added ?a\<rparr>"
    using r unfolding f by simp
  moreover have "aa_next_id ?a = qf_next_id f + length (aa_added ?a)"
    using append_count [of ?js "held_sources ?js" reuse retire now items ?init] by simp
  ultimately show ?thesis by (simp add: append_jobs_def Let_def)
qed

section \<open>What an add does\<close>

lemma prior_of_ok:
  assumes "job_ok j" "prior_of reuse item j = Some (p, st, ids, outs, ow)"
  shows "map op_id outs = map po_id (rp_outputs p) \<and> distinct (map op_id outs)"
proof -
  from prior_of_Some [OF assms(2)] obtain out q where
      out: "find (\<lambda>x. op_target x = nj_target item) (job_outputs j) = Some out"
    and q: "job_plan j = Some q"
    and r: "(p, st, ids, outs, ow) = prior_row item j out q" by blast
  from r have p: "rp_outputs p = filter (\<lambda>x. po_id x = op_id out) (rp_outputs q)"
    by (simp add: prior_row_def Let_def)
  from r have outs: "map op_id outs = [op_id out]" by (simp add: prior_row_def Let_def)
  have ids: "map op_id (job_outputs j) = map po_id (rp_outputs q)" "distinct (map po_id (rp_outputs q))"
    using assms(1) q by (auto simp: job_ok_parts)
  have "op_id out \<in> set (map op_id (job_outputs j))" using find_in_set [OF out] by auto
  then have "op_id out \<in> set (map po_id (rp_outputs q))" using ids by simp
  then have "map po_id (filter (\<lambda>x. po_id x = op_id out) (rp_outputs q)) = [op_id out]"
    by (intro filter_key_unique ids(2)) simp
  with outs p show ?thesis by simp
qed

lemma make_job_ok:
  assumes "\<forall>j \<in> set os. job_ok j"
  shows "job_ok (make_job i now retire item (find_map (prior_of reuse item) os))"
proof (cases "find_map (prior_of reuse item) os")
  case None
  then show ?thesis by (simp add: make_job_def job_ok_parts)
next
  case (Some pr)
  obtain p st ids outs ow where pr: "pr = (p, st, ids, outs, ow)" by (cases pr)
  from find_map_Some [OF Some] assms obtain j where "job_ok j" "prior_of reuse item j = Some pr" by blast
  from prior_of_ok [OF this [unfolded pr]] show ?thesis
    unfolding Some pr by (auto simp: make_job_def job_ok_def plan_recorded_def)
qed

lemma add_item_ok: "queue_ok f \<Longrightarrow> queue_ok (add_item held reuse retire now item f)"
proof -
  assume ok: "queue_ok f"
  have "jobs_ok (qf_next_id f + 1) (filter (\<lambda>j. job_target j \<noteq> nj_target item) (qf_jobs f)
      @ [make_job (qf_next_id f + 1) now retire item
          (find_map (prior_of reuse item) (rev (owners (nj_target item) (qf_jobs f))))])"
  proof (rule jobs_ok_snoc)
    show "job_ok (make_job (qf_next_id f + 1) now retire item
          (find_map (prior_of reuse item) (rev (owners (nj_target item) (qf_jobs f)))))"
      using ok by (intro make_job_ok) (auto simp: owners_def queue_ok_def jobs_ok_def)
  qed (use ok in \<open>auto simp: queue_ok_def jobs_ok_filter\<close>)
  with ok show ?thesis by (cases reuse) (simp_all add: add_item_def Let_def queue_ok_def)
qed

lemma append_jobs_ok: "queue_ok f \<Longrightarrow> queue_ok (snd (append_jobs items reuse retire now f))"
proof -
  have "queue_ok f \<Longrightarrow> queue_ok (fold (add_item held reuse retire now) items f)" for held
    by (induction items arbitrary: f) (simp_all add: add_item_ok)
  then show "queue_ok f \<Longrightarrow> queue_ok (snd (append_jobs items reuse retire now f))"
    by (subst append_jobs_sequential) simp
qed

text \<open>A job an add must not drop: an active one, or the latest job of its row's target when it
  keeps a file.\<close>

definition protected :: "job \<Rightarrow> job list \<Rightarrow> bool" where
  "protected j js \<longleftrightarrow> j \<in> set js
     \<and> (is_active j \<or> (job_staged j \<noteq> None \<and> last_opt (owners (job_target j) js) = Some j))"

lemma last_opt_filter:
  "last_opt (filter P xs) = Some x \<Longrightarrow> Q x \<Longrightarrow> last_opt (filter P (filter Q xs)) = Some x"
proof (induction xs rule: rev_induct)
  case (snoc y ys)
  then show ?case by (cases "P y") (auto simp: last_opt_def)
qed (simp add: last_opt_def)

lemma add_item_protects:
  assumes "protected j (qf_jobs f)"
  shows "protected j (qf_jobs (add_item held reuse retire now item f))"
proof (cases "blocked (owners (nj_target item) (qf_jobs f)) \<or> (\<not> reuse \<and> nj_iso item \<in> held)")
  case False
  let ?os = "owners (nj_target item) (qf_jobs f)"
  let ?j = "make_job (qf_next_id f + 1) now retire item (find_map (prior_of reuse item) (rev ?os))"
  have ne: "job_target j \<noteq> nj_target item"
  proof
    assume t: "job_target j = nj_target item"
    then have "j \<in> set ?os" using assms by (simp add: protected_def owners_def owns_target_def)
    with t assms False show False by (auto simp: protected_def blocked_def list_ex_iff)
  qed
  then have "\<not> owns_target (job_target j) ?j" by (simp add: owns_target_make_job)
  moreover have "last_opt (owners (job_target j) (qf_jobs f)) = Some j \<Longrightarrow>
      last_opt (owners (job_target j) (filter (\<lambda>j. job_target j \<noteq> nj_target item) (qf_jobs f))) = Some j"
    unfolding owners_def by (rule last_opt_filter) (use ne in auto)
  ultimately show ?thesis
    using False assms ne by (auto simp: add_item_def Let_def protected_def owners_def)
qed (use assms in \<open>auto simp: add_item_def Let_def\<close>)

text \<open>
  Adding jobs never drops a queued or running job, nor the job that keeps a finished file
  for its target.
\<close>

theorem append_keeps_work:
  assumes "protected j (qf_jobs f)"
  shows "protected j (qf_jobs (snd (append_jobs items reuse retire now f)))"
proof -
  have "protected j (qf_jobs f) \<Longrightarrow> protected j (qf_jobs (fold (add_item held reuse retire now) items f))" for held
    by (induction items arbitrary: f) (simp_all add: add_item_protects)
  with assms show ?thesis by (subst append_jobs_sequential) simp
qed

theorem append_keeps_work_witness:
  "protected sample_job1 (qf_jobs (snd (append_jobs [sample_new ''b'', sample_new ''d''] True False 300 sample_queue)))"
proof -
  have "protected sample_job1 (qf_jobs sample_queue)"
    by (simp add: protected_def sample_jobs is_active_def)
  then show ?thesis by (rule append_keeps_work)
qed

end
