(* ===== verification/Queue_Behaviour.thy ===== *)
theory Queue_Behaviour
  imports Queue_Append
begin

text \<open>
  What the operations of the queue file do: which job is claimed, where a stopped job goes
  back, how long a faulty folder is retried, and what becomes of the finished files kept on
  local staging when jobs are discarded, taken out of the queue or matched at startup.
\<close>

section \<open>Claiming\<close>

lemma update_first_at:
  "find P xs \<noteq> None \<Longrightarrow> \<exists>i < length xs. P (xs ! i) \<and> (\<forall>k < i. \<not> P (xs ! k))
      \<and> find P xs = Some (xs ! i) \<and> update_first P g xs = xs[i := g (xs ! i)]"
proof (induction xs)
  case (Cons x xs)
  show ?case
  proof (cases "P x")
    case True
    then show ?thesis by (intro exI [of _ 0]) simp
  next
    case False
    with Cons obtain i where "i < length xs" "P (xs ! i)" "\<forall>k < i. \<not> P (xs ! k)"
      "find P xs = Some (xs ! i)" "update_first P g xs = xs[i := g (xs ! i)]" by auto
    with False show ?thesis by (intro exI [of _ "Suc i"]) (auto simp: less_Suc_eq_0_disj)
  qed
qed simp

lemma find_replaced_none:
  "\<forall>x \<in> set xs. \<not> P x \<Longrightarrow> P y \<Longrightarrow> i < length xs \<Longrightarrow> find P (xs[i := y]) = Some y"
  by (induction xs arbitrary: i) (auto split: nat.splits simp: list_update.simps)

lemma filter_replaced_none:
  "\<forall>x \<in> set xs. \<not> P x \<Longrightarrow> P y \<Longrightarrow> i < length xs \<Longrightarrow> filter P (xs[i := y]) = [y]"
  by (induction xs arbitrary: i) (auto split: nat.splits simp: filter_empty_conv)

lemma claim_cases:
  assumes "claim pending now started f = (Some j, f')"
  obtains i where "\<not> pending" and "\<not> qf_paused f" and "running f = None"
    and "i < length (qf_jobs f)" and "ready now (qf_jobs f ! i)" and "\<forall>k < i. \<not> ready now (qf_jobs f ! k)"
    and "j = (qf_jobs f ! i)\<lparr>job_state := JRunning, job_failure := None,
                         job_started_at := Some started, job_finished_at := None\<rparr>"
    and "f' = f\<lparr>qf_jobs := (qf_jobs f)[i := j]\<rparr>"
proof -
  let ?g = "\<lambda>j. j\<lparr>job_state := JRunning, job_failure := None,
                         job_started_at := Some started, job_finished_at := None\<rparr>"
  from assms have free: "\<not> pending" "\<not> qf_paused f" "running f = None"
    by (auto simp: claim_def split: if_splits)
  with assms obtain j0 where j0: "next_ready now f = Some j0" by (auto simp: claim_def split: option.splits)
  with assms free have j: "j = ?g j0" and f': "f' = f\<lparr>qf_jobs := update_first (ready now) ?g (qf_jobs f)\<rparr>"
    by (simp_all add: claim_def Let_def)
  obtain i where i: "i < length (qf_jobs f)" "ready now (qf_jobs f ! i)" "\<forall>k < i. \<not> ready now (qf_jobs f ! k)"
    and at: "find (ready now) (qf_jobs f) = Some (qf_jobs f ! i)"
    "update_first (ready now) ?g (qf_jobs f) = (qf_jobs f)[i := ?g (qf_jobs f ! i)]"
    using j0 update_first_at [of "ready now" "qf_jobs f" ?g] by (auto simp: next_ready_def)
  have "j = ?g (qf_jobs f ! i)" using at(1) j0 j by (simp add: next_ready_def)
  with free i f' at(2) that show thesis by simp
qed

lemma claim_leaves_one_running:
  assumes "claim pending now started f = (Some j, f')"
  shows "filter (\<lambda>j. job_state j = JRunning) (qf_jobs f') = [j]"
  using assms
proof (rule claim_cases)
  fix i
  assume "running f = None" and i: "i < length (qf_jobs f)"
    and j: "j = (qf_jobs f ! i)\<lparr>job_state := JRunning, job_failure := None,
                         job_started_at := Some started, job_finished_at := None\<rparr>"
    and f': "f' = f\<lparr>qf_jobs := (qf_jobs f)[i := j]\<rparr>"
  then have "\<forall>x \<in> set (qf_jobs f). \<not> is_running x" by (simp add: no_running_count)
  with i j show ?thesis unfolding f' by (simp add: filter_replaced_none)
qed

text \<open>
  A claim takes the first ready job of an unpaused queue with no running job, changes
  nothing else, and leaves it the only running job.
\<close>

theorem claim_first_ready:
  assumes "claim pending now started f = (Some j, f')"
  shows "\<not> pending \<and> \<not> qf_paused f \<and> running f = None \<and>
    (\<exists>i < length (qf_jobs f). ready now (qf_jobs f ! i) \<and> (\<forall>k < i. \<not> ready now (qf_jobs f ! k))
       \<and> job_id j = job_id (qf_jobs f ! i) \<and> job_started_at j = Some started
       \<and> f' = f\<lparr>qf_jobs := (qf_jobs f)[i := j]\<rparr>)
    \<and> filter (\<lambda>j. job_state j = JRunning) (qf_jobs f') = [j]"
  using assms
proof (rule claim_cases)
  fix i
  assume *: "\<not> pending" "\<not> qf_paused f" "running f = None" "i < length (qf_jobs f)" "ready now (qf_jobs f ! i)"
    "\<forall>k < i. \<not> ready now (qf_jobs f ! k)"
    and j: "j = (qf_jobs f ! i)\<lparr>job_state := JRunning, job_failure := None,
                         job_started_at := Some started, job_finished_at := None\<rparr>"
    and f': "f' = f\<lparr>qf_jobs := (qf_jobs f)[i := j]\<rparr>"
  have "filter is_running (qf_jobs f') = [j]" by (rule claim_leaves_one_running [OF assms])
  with * f' j show ?thesis by auto
qed

lemma head_position_before: "k < head_position js \<Longrightarrow> k < length js \<and> job_state (js ! k) \<noteq> JQueued"
  by (auto simp: head_position_def position_None dest: position_Some split: option.splits)

lemma head_position_le: "head_position js \<le> length js"
  by (auto simp: head_position_def dest: position_Some split: option.splits)

lemma find_insert_at:
  assumes "h \<le> length js" "\<forall>k < h. \<not> P (js ! k)" "P j"
  shows "find P (insert_at h j js) = Some j"
proof -
  have "\<forall>x \<in> set (take h js). \<not> P x" using assms(1,2) by (auto simp: in_set_conv_nth)
  then have "find P (take h js @ ys) = find P ys" for ys by (simp add: find_append_none)
  with assms(3) show ?thesis by (simp add: insert_at_def)
qed

lemma next_ready_moved:
  assumes "ready now (g (qf_jobs f ! pos))"
  shows "next_ready now (move_to_head pos g f) = Some (g (qf_jobs f ! pos))"
  unfolding next_ready_def move_to_head_def Let_def
  using head_position_le head_position_before assms by (simp add: find_insert_at ready_def)

lemma position_id:
  assumes "distinct (map job_id js)" "i < length js"
  shows "position (\<lambda>j. job_id j = job_id (js ! i)) js = Some i"
proof (cases "position (\<lambda>j. job_id j = job_id (js ! i)) js")
  case None
  with assms(2) show ?thesis by (auto simp: position_None)
next
  case (Some k)
  from position_Some [OF Some] have "k < length js" "map job_id js ! k = map job_id js ! i"
    using assms(2) by simp_all
  with assms Some show ?thesis using nth_eq_iff_index_eq [of "map job_id js" k i] by simp
qed

text \<open>
  A running job that is put back (preempted, interrupted, stalled) is the next one claimed:
  nothing queued overtakes it.
\<close>

theorem requeued_claimed_next:
  assumes ok: "queue_ok f" and cl: "claim False now started f = (Some j, f1)" and later: "now \<le> now'"
  shows "\<exists>j' f3. claim False now' started' (snd (requeue (job_id j) n f1)) = (Some j', f3)
           \<and> job_id j' = job_id j"
  using cl
proof (rule claim_cases)
  fix i
  assume free: "\<not> qf_paused f" "running f = None"
    and i: "i < length (qf_jobs f)" "ready now (qf_jobs f ! i)"
    and j: "j = (qf_jobs f ! i)\<lparr>job_state := JRunning, job_failure := None,
                         job_started_at := Some started, job_finished_at := None\<rparr>"
    and f1: "f1 = f\<lparr>qf_jobs := (qf_jobs f)[i := j]\<rparr>"
  let ?g = "\<lambda>j. j\<lparr>job_state := JQueued, job_started_at := None, job_note := Some n\<rparr>"
  have "map job_id (qf_jobs f1) = map job_id (qf_jobs f)"
    using i(1) by (simp add: f1 j map_update list_update_same_conv)
  then have d: "distinct (map job_id (qf_jobs f1))" using ok by (simp add: queue_ok_def jobs_ok_def)
  have at: "qf_jobs f1 ! i = j" "i < length (qf_jobs f1)" using i(1) by (simp_all add: f1)
  have pos: "position (\<lambda>x. job_id x = job_id j) (qf_jobs f1) = Some i"
    using position_id [OF d at(2)] at(1) by simp
  have f2: "snd (requeue (job_id j) n f1) = move_to_head i ?g f1" by (simp add: requeue_def pos)
  have "ready now' (?g j)" using i(2) later by (auto simp: ready_def j split: option.splits)
  then have nx: "next_ready now' (move_to_head i ?g f1) = Some (?g j)"
    using next_ready_moved [of now' ?g f1 i] at(1) by simp
  have rest: "set (remove_at i (qf_jobs f1)) \<subseteq> set (qf_jobs f)"
    by (auto simp: f1 remove_at_def dest: in_set_takeD in_set_dropD)
  have "\<forall>x \<in> set (qf_jobs (move_to_head i ?g f1)). \<not> is_running x"
    using rest free(2) by (auto simp: move_to_head_def Let_def no_running_count at(1))
  then have "running (move_to_head i ?g f1) = None" by (simp add: no_running_count)
  moreover have "\<not> qf_paused (move_to_head i ?g f1)" using free(1) by (simp add: move_to_head_def Let_def f1)
  ultimately show ?thesis unfolding f2 using nx by (simp add: claim_def Let_def)
qed


section \<open>Retries\<close>

text \<open>
  A storage fault of a running job at \<open>now\<close>: the worker asks \<open>retry_at\<close> and either puts
  the job back with \<open>retry_later\<close> or leaves it failed. \<open>retries\<close> is a series of faults, each
  granted a retry.
\<close>

fun retries :: "job \<Rightarrow> (nat \<times> bool \<times> failure \<times> staged_file option) list \<Rightarrow> job option" where
  "retries j [] = Some j"
| "retries j ((now, resolved, fl, staged) # faults) =
     (case retry_at j now resolved of None \<Rightarrow> None
      | Some nb \<Rightarrow> retries (retry_later_job fl nb staged now j) faults)"

lemma retry_at_Some:
  "retry_at j now resolved = Some nb \<Longrightarrow>
     job_attempts j < retry_max_attempts
     \<and> now - (case job_first_failed_at j of Some t \<Rightarrow> t | None \<Rightarrow> now) < retry_give_up_secs
     \<and> (nb = now \<or> now + 60 \<le> nb \<and> nb \<le> now + 3600)"
  by (auto simp: retry_at_def Let_def retry_delay_def retry_give_up_secs_def split: if_splits option.splits)

lemma retry_later_job_sel:
  "job_attempts (retry_later_job fl nb st now j) = job_attempts j + 1"
  "job_first_failed_at (retry_later_job fl nb st now j) =
     Some (case job_first_failed_at j of Some t \<Rightarrow> t | None \<Rightarrow> now)"
  by (simp_all add: retry_later_job_def set_staged_file_def Let_def split: option.splits)

lemma retries_attempts:
  "retries j fs = Some j' \<Longrightarrow> job_attempts j' = job_attempts j + length fs
     \<and> (fs \<noteq> [] \<longrightarrow> job_attempts j' \<le> retry_max_attempts)"
  by (induction j fs rule: retries.induct)
    (auto split: option.splits simp: retry_later_job_sel dest: retry_at_Some)

lemma retries_window:
  "retries j fs = Some j' \<Longrightarrow> job_first_failed_at j = Some t \<Longrightarrow>
     list_all (\<lambda>(now, _). now < t + retry_give_up_secs) fs"
  by (induction j fs rule: retries.induct)
    (auto split: option.splits simp: retry_later_job_sel dest!: retry_at_Some)

text \<open>
  C31: a faulty folder is not retried for ever. A series of granted retries is at most 30 long
  from a fresh job, and every fault that is granted one came within 24 hours of the first.
\<close>

theorem retries_end:
  assumes "retries j faults = Some j'" and "faults \<noteq> []"
    and "job_first_failed_at j = None" and "job_attempts j = 0"
  shows "length faults \<le> 30 \<and> list_all (\<lambda>(now, _). now < fst (hd faults) + 24 * 3600) faults"
proof -
  have "length faults \<le> 30"
    using retries_attempts [OF assms(1)] assms(2,4) by (simp add: retry_max_attempts_def)
  moreover have "list_all (\<lambda>(now, _). now < fst (hd faults) + retry_give_up_secs) faults"
  proof (cases faults)
    case (Cons x fs)
    obtain now resolved fl st where x: "x = (now, resolved, fl, st)" by (cases x)
    from assms(1) Cons x obtain nb where "retries (retry_later_job fl nb st now j) fs = Some j'"
      by (auto split: option.splits)
    moreover have "job_first_failed_at (retry_later_job fl nb st now j) = Some now"
      using assms(3) by (simp add: retry_later_job_sel)
    ultimately have "list_all (\<lambda>(now', _). now' < now + retry_give_up_secs) fs"
      by (rule retries_window)
    with Cons x show ?thesis by (simp add: retry_give_up_secs_def)
  qed simp
  ultimately show ?thesis by (simp add: retry_give_up_secs_def)
qed

section \<open>Kept files\<close>

lemma release_outputs_none:
  "\<forall>x \<in> set (map (release_output p) os). op_staged x \<noteq> Some p"
  by (auto simp: release_output_def)

text \<open>
  Discarding a kept file detaches it from the latest job of the target that keeps one: a
  queued job leaves the queue, a failed one keeps its failure; a running one and, when only
  abandoned files may go, a waiting one is refused, and a refusal changes nothing.
\<close>

theorem take_staged_detaches:
  assumes "take_staged target abandoned f = (r, f')"
  shows "case r of
      Inl _ \<Rightarrow> f' = f
    | Inr p \<Rightarrow> (\<exists>pos < length (qf_jobs f). let j = qf_jobs f ! pos in
        owns_target target j \<and> job_staged j = Some p \<and> job_state j \<noteq> JRunning
        \<and> (abandoned \<longrightarrow> job_state j = JFailed \<or> job_state j = JDone)
        \<and> (if job_state j = JQueued then qf_jobs f' = remove_at pos (qf_jobs f)
           else \<exists>j'. qf_jobs f' = (qf_jobs f)[pos := j'] \<and> job_staged j' = None
             \<and> (\<forall>x \<in> set (job_outputs j'). op_staged x \<noteq> Some p)
             \<and> job_state j' = job_state j \<and> job_failure j' = job_failure j))"
proof (cases "rposition (\<lambda>j. owns_target target j \<and> job_staged j \<noteq> None) (qf_jobs f)")
  case None
  with assms show ?thesis by (auto simp: take_staged_def)
next
  case (Some pos)
  let ?j = "qf_jobs f ! pos"
  from rposition_Some [OF Some] have pos: "pos < length (qf_jobs f)" "owns_target target ?j" by auto
  from rposition_Some [OF Some] obtain p where p: "job_staged ?j = Some p" by auto
  let ?j' = "set_staged_file None (?j\<lparr>job_outputs := map (release_output p) (job_outputs ?j)\<rparr>)"
  have rel: "\<forall>x \<in> set (job_outputs ?j'). op_staged x \<noteq> Some p"
    by (auto simp: set_staged_file_def Let_def release_output_def split: option.splits if_splits)
  show ?thesis
  proof (cases "is_running ?j \<or> (abandoned \<and> job_state ?j \<noteq> JFailed \<and> job_state ?j \<noteq> JDone)")
    case True
    with assms Some show ?thesis by (auto simp: take_staged_def Let_def split: if_splits)
  next
    case False
    with assms Some p have "r = Inr p" and
      "qf_jobs f' = (if job_state ?j = JQueued then remove_at pos (qf_jobs f) else (qf_jobs f)[pos := ?j'])"
      by (auto simp: take_staged_def Let_def split: if_splits)
    moreover have "\<exists>j'. (qf_jobs f)[pos := ?j'] = (qf_jobs f)[pos := j'] \<and> job_staged j' = None
             \<and> (\<forall>x \<in> set (job_outputs j'). op_staged x \<noteq> Some p)
             \<and> job_state j' = job_state ?j \<and> job_failure j' = job_failure ?j"
      by (rule exI [of _ ?j']) (simp add: rel)
    ultimately show ?thesis
      unfolding \<open>r = Inr p\<close> sum.case Let_def
      by (intro exI [of _ pos]) (use False pos p in auto)
  qed
qed

lemma park_if_sel:
  "job_id (park_if pick now j) = job_id j" "job_staged (park_if pick now j) = job_staged j"
  "job_outputs (park_if pick now j) = job_outputs j"
  "job_state (park_if pick now j) = JQueued \<Longrightarrow> \<not> pick j \<and> park_if pick now j = j"
  by (auto simp: park_if_def park_def)

lemma unqueue_count: "fst (unqueue pick now f) = length (filter (\<lambda>j. job_state j = JQueued \<and> pick j) (qf_jobs f))"
proof -
  have "length (snd (unqueue_jobs pick now js)) \<le> length js
     \<and> length js - length (snd (unqueue_jobs pick now js)) + fst (unqueue_jobs pick now js)
       = length (filter (\<lambda>j. job_state j = JQueued \<and> pick j) js)" for js
    by (induction js) (auto simp: case_prod_beta Let_def)
  then show ?thesis by (simp add: unqueue_def case_prod_beta Let_def)
qed

text \<open>
  C29: taking jobs out of the queue never loses a finished file: a job that keeps one stays
  listed with it. Jobs not picked, and jobs not queued, stay as they were; no picked job
  stays queued; the answer is how many queued jobs were picked.
\<close>

theorem unqueue_keeps_files:
  "fst (unqueue pick now f) = length (filter (\<lambda>j. job_state j = JQueued \<and> pick j) (qf_jobs f))
   \<and> (\<forall>j \<in> set (qf_jobs f). job_staged j \<noteq> None \<longrightarrow>
        (\<exists>j' \<in> set (qf_jobs (snd (unqueue pick now f))). job_id j' = job_id j
           \<and> job_staged j' = job_staged j \<and> job_outputs j' = job_outputs j))
   \<and> (\<forall>j \<in> set (qf_jobs f). job_state j \<noteq> JQueued \<or> \<not> pick j \<longrightarrow> j \<in> set (qf_jobs (snd (unqueue pick now f))))
   \<and> (\<forall>j \<in> set (qf_jobs (snd (unqueue pick now f))). job_state j = JQueued \<longrightarrow> \<not> pick j)"
proof -
  have jobs: "qf_jobs (snd (unqueue pick now f)) = map (park_if pick now)
      (filter (\<lambda>j. job_state j \<noteq> JQueued \<or> \<not> pick j \<or> job_staged j \<noteq> None) (qf_jobs f))"
    by (simp add: unqueue_def case_prod_beta Let_def unqueue_jobs_eq)
  have "\<exists>j' \<in> set (qf_jobs (snd (unqueue pick now f))). job_id j' = job_id j
           \<and> job_staged j' = job_staged j \<and> job_outputs j' = job_outputs j"
    if "j \<in> set (qf_jobs f)" "job_staged j \<noteq> None" for j
    using that unfolding jobs by (intro bexI [of _ "park_if pick now j"]) (auto simp: park_if_sel)
  moreover have "j \<in> set (qf_jobs (snd (unqueue pick now f)))"
    if "j \<in> set (qf_jobs f)" "job_state j \<noteq> JQueued \<or> \<not> pick j" for j
    unfolding jobs set_map by (rule image_eqI [of _ _ j]) (use that in \<open>auto simp: park_if_def\<close>)
  moreover have "\<not> pick j" if "j \<in> set (qf_jobs (snd (unqueue pick now f)))" "job_state j = JQueued" for j
  proof -
    from that(1) obtain k where "j = park_if pick now k" unfolding jobs by auto
    with that(2) park_if_sel(4) [of pick now k] show ?thesis by metis
  qed
  ultimately show ?thesis using unqueue_count by blast
qed

section \<open>Startup\<close>

definition staged_within :: "path set \<Rightarrow> job \<Rightarrow> bool" where
  "staged_within found j \<longleftrightarrow> (\<forall>p. job_staged j = Some p \<longrightarrow> p \<in> found)
     \<and> (\<forall>x \<in> set (job_outputs j). \<forall>p. op_staged x = Some p \<longrightarrow> p \<in> found)"

lemma set_staged_within:
  "staged_within found j \<Longrightarrow> (\<forall>s. st = Some s \<longrightarrow> sf_path s \<in> found) \<Longrightarrow> staged_within found (set_staged_file st j)"
  by (auto simp: staged_within_def set_staged_file_def Let_def release_output_def split: option.splits if_splits)

lemma forget_lost_within: "staged_within found (forget_lost found now j)"
proof -
  let ?j = "j\<lparr>job_outputs := map (\<lambda>x. case op_staged x of
                    Some p \<Rightarrow> if p \<in> found then x else x\<lparr>op_staged := None\<rparr> | None \<Rightarrow> x) (job_outputs j)\<rparr>"
  have outs: "\<forall>x \<in> set (job_outputs ?j). \<forall>p. op_staged x = Some p \<longrightarrow> p \<in> found"
    by (auto split: option.splits if_splits)
  show ?thesis
  proof (cases "\<exists>p. job_staged j = Some p \<and> p \<notin> found")
    case True
    have "staged_within found (set_staged_file None ?j)"
      using outs by (auto simp: staged_within_def set_staged_file_def Let_def release_output_def
          split: option.splits if_splits)
    moreover have "staged_within found (park m now k) = staged_within found k" for m k
      by (simp add: staged_within_def park_def)
    ultimately show ?thesis using True by (auto simp: forget_lost_def Let_def)
  next
    case False
    with outs have "staged_within found ?j" by (auto simp: staged_within_def)
    with False show ?thesis by (auto simp: forget_lost_def Let_def split: option.splits)
  qed
qed

lemma adopt_planned_within:
  assumes "staged_within found j" "sf_path st \<in> found"
  shows "staged_within found (adopt_planned item st fl j)"
proof -
  let ?os = "update_first (\<lambda>x. op_target x = nj_target item) (adopt_output st) (job_outputs j)"
  have "p \<in> found" if "x \<in> set ?os" "op_staged x = Some p" for x p
    using in_set_update_first [OF that(1)] that(2) assms
    by (auto simp: staged_within_def adopt_output_def)
  with assms(1) show ?thesis
    unfolding adopt_planned_def
    by (intro set_staged_within) (simp_all add: staged_within_def assms(2))
qed

lemma adopt_row_within:
  assumes "staged_within found j" "sf_path st \<in> found"
  shows "staged_within found (adopt_row st fl j)"
  unfolding adopt_row_def Let_def
  by (rule set_staged_within) (use assms in \<open>auto simp: staged_within_def\<close>)

lemma adopt_one_within:
  assumes "\<forall>j \<in> set (qf_jobs (snd r)). staged_within found j" "sf_path (fst (snd k)) \<in> found"
  shows "\<forall>j \<in> set (qf_jobs (snd (adopt_one now k r))). staged_within found j"
proof -
  obtain item st fl added f where k: "k = (item, st, fl)" "r = (added, f)" by (metis prod_cases3 surj_pair)
  have upd: "\<forall>j \<in> set ((qf_jobs f)[pos := x]). staged_within found j" if "staged_within found x" for pos x
    using assms(1) that k by (auto dest!: set_update_subset_insert [THEN subsetD])
  have at: "staged_within found (qf_jobs f ! pos)" if "pos < length (qf_jobs f)" for pos
    using assms(1) k that by simp
  have new: "staged_within found (adopt_new i now item st fl)" for i
    using assms(2) k by (simp add: staged_within_def adopt_new_def make_job_def)
  show ?thesis
  proof (cases "rposition (\<lambda>j. list_ex (\<lambda>x. op_target x = nj_target item) (job_outputs j)
                            \<and> job_iso j = nj_iso item) (qf_jobs f)")
    case (Some pos)
    have "staged_within found (adopt_planned item st fl (qf_jobs f ! pos))"
      using assms(2) k rposition_Some [OF Some] by (intro adopt_planned_within at) simp_all
    from upd [OF this, of pos] show ?thesis
      using assms(1) Some k by (simp add: adopt_one_def Let_def)
  next
    case none: None
    show ?thesis
    proof (cases "rposition (\<lambda>j. job_target j = nj_target item \<and> \<not> is_running j) (qf_jobs f)")
      case (Some pos)
      have "staged_within found (adopt_row st fl (qf_jobs f ! pos))"
        using assms(2) k rposition_Some [OF Some] by (intro adopt_row_within at) simp_all
      from upd [OF this, of pos] show ?thesis
        using none Some k by (simp add: adopt_one_def Let_def)
    next
      case None
      with none new assms(1) k show ?thesis by (simp add: adopt_one_def Let_def)
    qed
  qed
qed

text \<open>
  After matching the queue with the kept files found at startup, no job and no output
  points at a file that is not there.
\<close>

theorem adopt_staged_no_dangling:
  assumes "j \<in> set (qf_jobs (snd (adopt_staged kept now f)))"
  shows "set_option (job_staged j) \<union> (\<Union>x \<in> set (job_outputs j). set_option (op_staged x))
         \<subseteq> (\<lambda>(_, s, _). sf_path s) ` set kept"
proof -
  let ?found = "(\<lambda>(_, s, _). sf_path s) ` set kept"
  have fold: "\<forall>j \<in> set (qf_jobs (snd r)). staged_within ?found j \<Longrightarrow> set ks \<subseteq> set kept \<Longrightarrow>
      \<forall>j \<in> set (qf_jobs (snd (fold (adopt_one now) ks r))). staged_within ?found j" for ks r
  proof (induction ks arbitrary: r)
    case (Cons k ks)
    have "k \<in> set kept" using Cons.prems(2) by simp
    then have "sf_path (fst (snd k)) \<in> ?found" by (rule rev_image_eqI) (simp add: case_prod_beta)
    then have "\<forall>j \<in> set (qf_jobs (snd (adopt_one now k r))). staged_within ?found j"
      by (rule adopt_one_within [OF Cons.prems(1)])
    moreover have "set ks \<subseteq> set kept" using Cons.prems(2) by simp
    ultimately show ?case unfolding fold_simps by (rule Cons.IH)
  qed simp
  have "staged_within ?found j"
    using assms fold [of "(0, f\<lparr>qf_jobs := map (forget_lost ?found now) (qf_jobs f)\<rparr>)" kept]
    by (auto simp: adopt_staged_def Let_def forget_lost_within)
  then show ?thesis by (auto simp: staged_within_def)
qed


section \<open>Witnesses\<close>

definition sample_running :: job where
  "sample_running = sample_job1\<lparr>job_state := JRunning, job_failure := None,
     job_started_at := Some 201, job_finished_at := None\<rparr>"

definition sample_claimed :: queue_file where
  "sample_claimed = sample_queue\<lparr>qf_jobs := [sample_running, sample_job2, sample_job3]\<rparr>"

lemma sample_claim: "claim False 200 201 sample_queue = (Some sample_running, sample_claimed)"
  by (simp add: claim_def running_def next_ready_def ready_def sample_claimed_def sample_running_def
      sample_jobs)

theorem claim_first_ready_witness:
  "running sample_queue = None \<and> filter (\<lambda>j. job_state j = JRunning) (qf_jobs sample_claimed) = [sample_running]"
  using claim_first_ready [OF sample_claim] by blast

theorem requeued_claimed_next_witness:
  "\<exists>j' f3. claim False 300 301 (snd (requeue 1 Preempted sample_claimed)) = (Some j', f3) \<and> job_id j' = 1"
proof -
  have "job_id sample_running = 1" by (simp add: sample_running_def sample_job1_def)
  moreover have "(200 :: nat) \<le> 300" by simp
  ultimately show ?thesis
    using requeued_claimed_next [OF sample_queue_ok sample_claim, of 300 301 Preempted] by simp
qed

theorem retries_end_witness:
  "\<exists>j'. retries sample_job1 [(1000, True, sample_failure, None), (1000, False, sample_failure, None)] = Some j'
     \<and> length [(1000 :: nat, True), (1000, False)] \<le> 30"
proof -
  let ?fs = "[(1000, True, sample_failure, None), (1000, False, sample_failure, None)]"
  have "retry_at sample_job1 1000 True = Some 1000"
    by (simp add: retry_at_def sample_job1_def make_job_def retry_give_up_secs_def retry_max_attempts_def)
  moreover have "retry_at (retry_later_job sample_failure 1000 None 1000 sample_job1) 1000 False = Some 1300"
    by (simp add: retry_at_def retry_later_job_sel sample_job1_def make_job_def retry_give_up_secs_def
        retry_max_attempts_def retry_delay_def)
  ultimately have r: "retries sample_job1 ?fs =
      Some (retry_later_job sample_failure 1300 None 1000 (retry_later_job sample_failure 1000 None 1000 sample_job1))"
    by simp
  have "job_first_failed_at sample_job1 = None" "job_attempts sample_job1 = 0"
    by (simp_all add: sample_job1_def make_job_def)
  from retries_end [OF r _ this] r show ?thesis by simp
qed

theorem take_staged_detaches_witness:
  "\<exists>f'. take_staged [Normal ''b.mkv''] True sample_queue = (Inr [Normal ''stage'', Normal ''b''], f')
     \<and> (\<exists>pos < 3. job_staged (qf_jobs sample_queue ! pos) = Some [Normal ''stage'', Normal ''b''])"
proof -
  obtain f' where t: "take_staged [Normal ''b.mkv''] True sample_queue = (Inr [Normal ''stage'', Normal ''b''], f')"
    by (simp add: take_staged_def rposition_def owns_target_def sample_jobs Let_def)
  have "length (qf_jobs sample_queue) = 3" by (simp add: sample_queue_def)
  with take_staged_detaches [OF t] t show ?thesis by (auto simp: Let_def)
qed

theorem unqueue_keeps_files_witness:
  "fst (unqueue (\<lambda>_. True) 300 sample_queue) = 2
   \<and> (\<exists>j' \<in> set (qf_jobs (snd (unqueue (\<lambda>_. True) 300 sample_queue))).
        job_id j' = 3 \<and> job_staged j' = Some [Normal ''stage'', Normal ''c''])"
proof -
  note all = unqueue_keeps_files [of "\<lambda>_. True" 300 sample_queue]
  have "length (filter (\<lambda>j. job_state j = JQueued \<and> True) (qf_jobs sample_queue)) = 2"
    by (simp add: sample_jobs)
  moreover have "sample_job3 \<in> set (qf_jobs sample_queue)" "job_staged sample_job3 \<noteq> None"
    "job_id sample_job3 = 3" "job_staged sample_job3 = Some [Normal ''stage'', Normal ''c'']"
    by (simp_all add: sample_queue_def) (simp_all add: sample_jobs)
  ultimately show ?thesis using all by metis
qed

definition sample_kept :: "kept list" where
  "sample_kept = [(sample_new ''b'', sample_staged ''b'', sample_failure)]"

theorem adopt_staged_no_dangling_witness:
  "set_option (job_staged (qf_jobs (snd (adopt_staged sample_kept 300 sample_queue)) ! 2))
     \<subseteq> {[Normal ''stage'', Normal ''b'']}"
proof -
  have "length (qf_jobs (snd (adopt_staged sample_kept 300 sample_queue))) = 3"
    by (simp add: adopt_staged_def adopt_one_def sample_kept_def sample_jobs rposition_def forget_lost_def
        park_def Let_def)
  then have "qf_jobs (snd (adopt_staged sample_kept 300 sample_queue)) ! 2
      \<in> set (qf_jobs (snd (adopt_staged sample_kept 300 sample_queue)))" by simp
  from adopt_staged_no_dangling [OF this] show ?thesis
    by (simp add: sample_kept_def sample_staged_def)
qed

end
