(* ===== verification/Queue_Store.thy ===== *)
theory Queue_Store
  imports Queue_Behaviour Set_Aside
begin

text \<open>
  The store around the queue file (\<open>struct Queue\<close> of \<open>library/queue.rs\<close>): the file in memory,
  its generation, the newest generation on disk, the unconfirmed-durability flag, and why the
  file on disk could not be loaded. The configuration folder is the queue file's slot and
  the files set aside. Locks are not modelled: what a lock makes atomic is one definition,
  and Queue\_System interleaves these.
\<close>

section \<open>Data\<close>

datatype held = HeldDamaged string io_error | HeldUnreadable io_error

record store =
  qs_file :: queue_file
  qs_saved :: nat
  qs_generation :: nat
  qs_pending :: bool
  qs_unreadable :: "held option"
  qs_tried_at :: nat
  qs_slot :: "queue_file doc slot"
  qs_asides :: "string \<rightharpoonup> queue_file doc"

definition queue_schema :: nat where
  "queue_schema = 2"

definition queue_file_name :: string where
  "queue_file_name = ''library-queue.json''"

definition unreadable_retry_secs :: nat where
  "unreadable_retry_secs = 60"

section \<open>Reading\<close>

text \<open>\<open>read_retrying\<close>: \<open>faults k\<close> is what the \<open>k\<close>-th read of the file meets.\<close>

function read_retrying ::
    "nat \<Rightarrow> (nat \<Rightarrow> io_error option) \<Rightarrow> 'c option \<Rightarrow> ('c option) io_result" where
  "read_retrying tries faults target =
     (case faults tries of
        None \<Rightarrow> Inr target
      | Some e \<Rightarrow>
          if err_kind e = NotFound then Inr None
          else if tries \<ge> 2 then Inl e
          else read_retrying (tries + 1) faults target)"
  by pat_completeness auto
termination by (relation "measure (\<lambda>(tries, _). 3 - tries)") auto

declare read_retrying.simps [simp del]

record load_env =
  le_reads :: "nat \<Rightarrow> io_error option"
  le_stat :: "string \<Rightarrow> io_error option"
  le_rename :: "io_error option"

definition restart_job :: "job \<Rightarrow> job" where
  "restart_job j = (if job_state j = JRunning then j\<lparr>job_state := JQueued, job_note := Some Restarted\<rparr> else j)"

definition restarted :: "queue_file \<Rightarrow> queue_file" where
  "restarted f = f\<lparr>qf_schema := queue_schema, qf_jobs := map restart_job (qf_jobs f)\<rparr>"

text \<open>The partial files \<open>load\<close> removes: those of every job that is queued after it.\<close>

definition load_removes :: "queue_file \<Rightarrow> path list" where
  "load_removes f =
     concat (map (\<lambda>j. map partial_path (job_target j # output_targets j))
       (filter (\<lambda>j. job_state j = JQueued) (qf_jobs f)))"

definition load ::
    "load_env \<Rightarrow> queue_file doc slot \<Rightarrow> (string \<rightharpoonup> queue_file doc)
     \<Rightarrow> (queue_file \<times> held option) \<times> queue_file doc slot \<times> (string \<rightharpoonup> queue_file doc)" where
  "load env sl asides =
     (case read_retrying 0 (le_reads env) (slot_target sl) of
        Inl e \<Rightarrow> ((restarted default_queue_file, Some (HeldUnreadable e)), sl, asides)
      | Inr None \<Rightarrow> ((restarted default_queue_file, None), sl, asides)
      | Inr (Some (Json f)) \<Rightarrow> ((restarted f, None), sl, asides)
      | Inr (Some (Damaged why)) \<Rightarrow>
          (case set_aside queue_file_name (Damaged why) (le_stat env) (le_rename env) asides of
             (Inl e, asides') \<Rightarrow> ((restarted default_queue_file, Some (HeldDamaged why e)), sl, asides')
           | (Inr _, asides') \<Rightarrow>
               ((restarted default_queue_file, None), sl\<lparr>slot_target := None\<rparr>, asides')))"

section \<open>Writing\<close>

definition write_queue ::
    "path \<Rightarrow> queue_file \<Rightarrow> faults \<Rightarrow> queue_file doc slot
     \<Rightarrow> ((bool \<times> io_error) + unit) \<times> queue_file doc slot" where
  "write_queue p f w sl =
     (case write_marker_phased p (Json f) w sl of
        (Inr u, sl') \<Rightarrow> (Inr u, sl')
      | (Inl (BeforePublish e), sl') \<Rightarrow> (Inl (False, e), sl')
      | (Inl (AfterPublish e), sl') \<Rightarrow> (Inl (True, e), sl'))"

definition persist_snapshot :: "path \<Rightarrow> nat \<Rightarrow> queue_file \<Rightarrow> faults \<Rightarrow> store \<Rightarrow> store" where
  "persist_snapshot p gen f w s =
     (if qs_unreadable s \<noteq> None then s
      else if gen < qs_saved s \<or> (gen = qs_saved s \<and> \<not> qs_pending s) then s
      else case write_queue p f w (qs_slot s) of
        (Inr _, sl) \<Rightarrow> s\<lparr>qs_slot := sl, qs_saved := gen, qs_pending := False\<rparr>
      | (Inl (published, _), sl) \<Rightarrow>
          s\<lparr>qs_slot := sl, qs_saved := (if published then gen else qs_saved s), qs_pending := True\<rparr>)"

text \<open>\<open>persist_now\<close>: a value that does not serialise is not written.\<close>

definition persist_now :: "path \<Rightarrow> faults \<Rightarrow> store \<Rightarrow> store" where
  "persist_now p w s =
     (if ft_json w \<noteq> None then s else persist_snapshot p (qs_generation s) (qs_file s) w s)"

section \<open>Changing\<close>

definition mutate_or :: "'a \<Rightarrow> (queue_file \<Rightarrow> 'a \<times> queue_file) \<Rightarrow> store \<Rightarrow> 'a \<times> store" where
  "mutate_or if_held g s =
     (if qs_unreadable s \<noteq> None then (if_held, s)
      else let (out, f) = g (qs_file s)
           in (out, s\<lparr>qs_file := f, qs_generation := qs_generation s + 1\<rparr>))"

definition mutate_if :: "'a \<Rightarrow> (queue_file \<Rightarrow> ('a \<times> bool) \<times> queue_file) \<Rightarrow> store \<Rightarrow> ('a \<times> bool) \<times> store" where
  "mutate_if d g s =
     (if qs_unreadable s \<noteq> None then ((d, False), s)
      else let ((out, changed), f) = g (qs_file s)
           in ((out, changed),
               s\<lparr>qs_file := f, qs_generation := (if changed then qs_generation s + 1 else qs_generation s)\<rparr>))"

text \<open>The two halves in one thread, with no other thread in between.\<close>

definition mutate :: "path \<Rightarrow> 'a \<Rightarrow> (queue_file \<Rightarrow> 'a \<times> queue_file) \<Rightarrow> faults \<Rightarrow> store \<Rightarrow> 'a \<times> store" where
  "mutate p d g w s =
     (if qs_unreadable s \<noteq> None then (d, s)
      else let (out, s') = mutate_or d g s in (out, persist_now p w s'))"

definition try_mutate_durable ::
    "path \<Rightarrow> (queue_file \<Rightarrow> (io_error + 'a) \<times> queue_file) \<Rightarrow> faults \<Rightarrow> store \<Rightarrow> 'a io_result \<times> store" where
  "try_mutate_durable p g w s =
     (case qs_unreadable s of Some why \<Rightarrow> (Inl (io_other ''the remux queue is held''), s)
      | None \<Rightarrow>
        (case g (qs_file s) of
           (Inl e, _) \<Rightarrow> (Inl e, s)
         | (Inr out, next) \<Rightarrow>
             if next = qs_file s \<and> \<not> qs_pending s then (Inr out, s)
             else case ft_json w of Some e \<Rightarrow> (Inl (io_other (err_text e)), s)
             | None \<Rightarrow>
               (case write_queue p next w (qs_slot s) of
                  (Inl (False, e), sl) \<Rightarrow> (Inl e, s\<lparr>qs_slot := sl\<rparr>)
                | (Inl (True, e), sl) \<Rightarrow>
                    (Inl (IoError (err_kind e)
                       (''queue update published but directory durability unconfirmed; intent retained: '' @ err_text e)),
                     s\<lparr>qs_slot := sl, qs_file := next, qs_generation := qs_generation s + 1,
                       qs_saved := qs_generation s + 1, qs_pending := True\<rparr>)
                | (Inr _, sl) \<Rightarrow>
                    (Inr out, s\<lparr>qs_slot := sl, qs_file := next, qs_generation := qs_generation s + 1,
                       qs_saved := qs_generation s + 1, qs_pending := False\<rparr>))))"

definition mutate_durable ::
    "path \<Rightarrow> (queue_file \<Rightarrow> 'a \<times> queue_file) \<Rightarrow> faults \<Rightarrow> store \<Rightarrow> 'a io_result \<times> store" where
  "mutate_durable p g w s =
     try_mutate_durable p (\<lambda>f. let (out, f') = g f in (Inr out, f')) w s"

section \<open>Opening, loading again, claiming\<close>

definition open_queue ::
    "path \<Rightarrow> load_env \<Rightarrow> faults \<Rightarrow> nat \<Rightarrow> queue_file doc slot \<Rightarrow> (string \<rightharpoonup> queue_file doc) \<Rightarrow> store" where
  "open_queue p env w now sl asides =
     (case load env sl asides of ((f, why), sl', asides') \<Rightarrow>
        persist_now p w
          \<lparr>qs_file = f, qs_saved = 0, qs_generation = 1, qs_pending = True, qs_unreadable = why,
           qs_tried_at = now, qs_slot = sl', qs_asides = asides'\<rparr>)"

definition retry_unreadable :: "path \<Rightarrow> load_env \<Rightarrow> faults \<Rightarrow> nat \<Rightarrow> store \<Rightarrow> bool \<times> store" where
  "retry_unreadable p env w now s =
     (if qs_unreadable s = None then (True, s)
      else if now < saturating_add 64 (qs_tried_at s) unreadable_retry_secs then (False, s)
      else case load env (qs_slot s) (qs_asides s) of
        ((_, Some why), sl, asides) \<Rightarrow>
          (False, s\<lparr>qs_tried_at := now, qs_unreadable := Some why, qs_slot := sl, qs_asides := asides\<rparr>)
      | ((f, None), sl, asides) \<Rightarrow>
          (True, persist_now p w (s\<lparr>qs_tried_at := now, qs_slot := sl, qs_asides := asides, qs_file := f,
             qs_generation := qs_generation s + 1, qs_pending := True, qs_unreadable := None\<rparr>)))"

definition claim_next :: "path \<Rightarrow> faults \<Rightarrow> faults \<Rightarrow> nat \<Rightarrow> nat \<Rightarrow> store \<Rightarrow> job option \<times> store" where
  "claim_next p w1 w2 now started s =
     (if qs_unreadable s \<noteq> None then (None, s)
      else let s1 = (if qs_pending s then persist_now p w1 s else s) in
        if qs_pending s1 \<or> qf_paused (qs_file s1) \<or> running (qs_file s1) \<noteq> None
           \<or> next_ready now (qs_file s1) = None then (None, s1)
        else mutate p None (claim (qs_pending s1) now started) w2 s1)"

text \<open>\<open>remove_orphan_partial_with\<close>: whether a partial is removed, given whether it exists, whether
  its lock could be taken and had a file already, and whether the unlink works; and whether
  the lock file goes.\<close>

definition remove_orphan_partial ::
    "path \<Rightarrow> bool \<Rightarrow> bool option \<Rightarrow> bool \<Rightarrow> queue_file \<Rightarrow> bool \<times> bool" where
  "remove_orphan_partial p there lock unlinks f =
     (if \<not> there then (False, False)
      else case (case partial_target p of None \<Rightarrow> None | Some _ \<Rightarrow> lock) of
        None \<Rightarrow> (False, False)
      | Some existed \<Rightarrow>
          let run = list_ex (\<lambda>j. job_state j = JRunning \<and> list_ex (\<lambda>t. partial_path t = p) (output_targets j))
                      (qf_jobs f);
              removed = \<not> run \<and> unlinks
          in (removed, removed \<or> \<not> existed))"


section \<open>What reading and writing do\<close>

lemma read_retrying_cases:
  assumes "read_retrying tries faults target = r"
  shows "r = Inr target \<or> (\<exists>k e. faults k = Some e \<and> (r = Inl e \<or> (err_kind e = NotFound \<and> r = Inr None)))"
  using assms
proof (induction tries faults target arbitrary: r rule: read_retrying.induct)
  case (1 tries faults target)
  show ?case
  proof (cases "faults tries")
    case None
    with 1(2) show ?thesis by (simp add: read_retrying.simps)
  next
    case (Some e)
    from 1(2) have r: "r = (if err_kind e = NotFound then Inr None else if tries \<ge> 2 then Inl e
        else read_retrying (tries + 1) faults target)"
      by (subst (asm) read_retrying.simps) (simp add: Some)
    show ?thesis
    proof (cases "err_kind e = NotFound \<or> tries \<ge> 2")
      case True
      with r Some show ?thesis by (auto split: if_splits)
    next
      case False
      with r 1(1) [OF Some] show ?thesis by simp
    qed
  qed
qed

lemma read_retrying_clear: "(\<forall>k. faults k = None) \<Longrightarrow> read_retrying tries faults target = Inr target"
  by (simp add: read_retrying.simps)

text \<open>Two failed reads are tried again; a third is the answer.\<close>

lemma read_retrying_third:
  "faults 0 = Some e0 \<Longrightarrow> faults 1 = Some e1 \<Longrightarrow> faults 2 = Some e2
   \<Longrightarrow> err_kind e0 \<noteq> NotFound \<Longrightarrow> err_kind e1 \<noteq> NotFound \<Longrightarrow> err_kind e2 \<noteq> NotFound
   \<Longrightarrow> read_retrying 0 faults target = Inl e2"
  by (simp add: read_retrying.simps numeral_2_eq_2)

interpretation restart_job: job_change restart_job
  by unfold_locales (auto simp: restart_job_def job_ok_parts split: if_splits)

lemma restarted_ok: "queue_ok f \<Longrightarrow> queue_ok (restarted f)"
  by (simp add: restarted_def queue_ok_def restart_job.keeps_map)

lemma restarted_not_running: "running (restarted f) = None"
  by (auto simp: restarted_def running_def find_None_iff restart_job_def)

text \<open>A held file stays where it is; a set-aside one is in the folder under a new name.\<close>

lemma load_cases:
  assumes "load env sl asides = ((f, why), sl', asides')"
  shows "(why \<noteq> None \<and> sl' = sl \<and> asides' = asides \<and> f = restarted default_queue_file)
    \<or> (why = None \<and> sl' = sl \<and> asides' = asides \<and> slot_target sl = None \<and> f = restarted default_queue_file)
    \<or> (\<exists>g. why = None \<and> sl' = sl \<and> asides' = asides \<and> slot_target sl = Some (Json g) \<and> f = restarted g)
    \<or> (\<exists>k e. why = None \<and> sl' = sl \<and> asides' = asides \<and> le_reads env k = Some e \<and> err_kind e = NotFound
         \<and> f = restarted default_queue_file)
    \<or> (\<exists>d n. why = None \<and> slot_target sl = Some (Damaged d) \<and> sl' = sl\<lparr>slot_target := None\<rparr>
         \<and> asides (aside_name queue_file_name n) = None
         \<and> asides' = asides(aside_name queue_file_name n \<mapsto> Damaged d) \<and> f = restarted default_queue_file)"
proof -
  let ?r = "read_retrying 0 (le_reads env) (slot_target sl)"
  from read_retrying_cases [of 0 "le_reads env" "slot_target sl" ?r] consider
      (target) "?r = Inr (slot_target sl)"
    | (err) e where "?r = Inl e"
    | (lost) k e where "le_reads env k = Some e" "err_kind e = NotFound" "?r = Inr None" by auto
  then show ?thesis
  proof cases
    case err
    with assms show ?thesis by (auto simp: load_def)
  next
    case lost
    with assms show ?thesis by (auto simp: load_def)
  next
    case target
    show ?thesis
    proof (cases "slot_target sl")
      case None
      with target assms show ?thesis by (simp add: load_def)
    next
      case (Some d)
      show ?thesis
      proof (cases d)
        case (Json g)
        with target assms Some show ?thesis by (simp add: load_def)
      next
        case (Damaged w)
        obtain r as where r: "set_aside queue_file_name (Damaged w) (le_stat env) (le_rename env) asides = (r, as)"
          by fastforce
        from set_aside_from_cases [OF r [unfolded set_aside_def]] show ?thesis
          using target assms Some Damaged r by (auto simp: load_def)
      qed
    qed
  qed
qed

lemma write_queue_cases:
  "write_queue p f w sl = (r, sl') \<Longrightarrow>
     (r = Inr () \<and> slot_target sl' = Some (Json f))
   \<or> (\<exists>e. r = Inl (True, e) \<and> slot_target sl' = Some (Json f))
   \<or> (\<exists>e. r = Inl (False, e) \<and> slot_target sl' = slot_target sl)"
proof -
  assume h: "write_queue p f w sl = (r, sl')"
  obtain r0 s0 where ph: "write_marker_phased p (Json f) w sl = (r0, s0)" by fastforce
  from write_marker_phased_cases [OF ph] show ?thesis
    by (elim disjE exE conjE) (use h ph in \<open>auto simp: write_queue_def\<close>)
qed

lemma persist_snapshot_cases:
  "persist_snapshot p g f w s = s
   \<or> (qs_unreadable s = None \<and> qs_saved s \<le> g \<and>
      ((\<exists>sl pend. slot_target sl = Some (Json f)
          \<and> persist_snapshot p g f w s = s\<lparr>qs_slot := sl, qs_saved := g, qs_pending := pend\<rparr>)
       \<or> (\<exists>sl. slot_target sl = slot_target (qs_slot s)
          \<and> persist_snapshot p g f w s = s\<lparr>qs_slot := sl, qs_pending := True\<rparr>)))"
proof (cases "qs_unreadable s \<noteq> None \<or> g < qs_saved s \<or> (g = qs_saved s \<and> \<not> qs_pending s)")
  case True
  then show ?thesis by (auto simp: persist_snapshot_def)
next
  case False
  obtain r sl where w: "write_queue p f w (qs_slot s) = (r, sl)" by fastforce
  from write_queue_cases [OF w] False show ?thesis
    by (elim disjE exE conjE) (use w in \<open>auto simp: persist_snapshot_def\<close>)
qed

end
