(* ===== verification/Queue_System.thy ===== *)
theory Queue_System
  imports Queue_Store
begin

text \<open>
  The queue under concurrent callers and crashes. A thread's change is two steps, as the
  locks of \<open>library/queue.rs\<close> make it: the change under the gate, then a snapshot and its
  write, between which other threads may change and write. \<open>sys_step\<close> is the relation of
  all interleavings, with a crash between any two system calls of a write followed by
  \<open>open\<close>. Ghost state: the snapshots in flight, what the queue was at each generation, and the
  number of restarts.

  The locale \<open>step_invariant\<close> (Prelude) is what an invariant of a step relation has to provide; its
  theorem covers every reachable state, and it is interpreted on the queue's relation.
\<close>

section \<open>Requests\<close>

text \<open>The changes by \<open>mutate\<close>; \<open>claim\<close>'s closure reads the durability flag.\<close>

datatype request =
    RAdd "new_job list" nat | RAddFresh "new_job list" bool nat | RClaim nat nat
  | RFinish nat job_result nat | RRequeue nat job_note
  | RRetryLater nat failure nat "staged_file option" nat | RRetryNow path | RTakeStaged path bool
  | RAdopt "kept list" nat | RNote nat job_note | RClearFinished
  | RRemoveQueued path "path option" nat | RClearQueued nat | RDrop nat | RPause bool | RDebugLog bool

text \<open>The changes by \<open>mutate_if\<close> and by \<open>mutate_durable\<close>.\<close>

datatype if_request =
    RBegin nat string | RFinishOutput nat string output_state
  | RSetOutputStaged nat string "path option" | RSetStaged nat "staged_file option"

datatype durable_request =
    RFreeze nat remux_plan "path list option" "stamp option" "string \<rightharpoonup> title_identity"
  | RSetOwned nat "owned list" | RLanding nat string stamp | RRetain nat string staged_file

fun apply_request :: "bool \<Rightarrow> request \<Rightarrow> queue_file \<Rightarrow> queue_file" where
  "apply_request pending (RAdd items now) f = snd (add items now f)"
| "apply_request pending (RAddFresh items retire now) f = snd (add_fresh items retire now f)"
| "apply_request pending (RClaim now started) f = snd (claim pending now started f)"
| "apply_request pending (RFinish i r now) f = snd (finish i r now f)"
| "apply_request pending (RRequeue i n) f = snd (requeue i n f)"
| "apply_request pending (RRetryLater i fl nb st now) f = snd (retry_later i fl nb st now f)"
| "apply_request pending (RRetryNow t) f = snd (retry_staged_now t f)"
| "apply_request pending (RTakeStaged t ab) f = snd (take_staged t ab f)"
| "apply_request pending (RAdopt ks now) f = snd (adopt_staged ks now f)"
| "apply_request pending (RNote i n) f = snd (note_running i n f)"
| "apply_request pending RClearFinished f = snd (clear_finished f)"
| "apply_request pending (RRemoveQueued t src now) f = snd (remove_queued t src now f)"
| "apply_request pending (RClearQueued now) f = snd (clear_queued now f)"
| "apply_request pending (RDrop i) f = snd (drop_job i f)"
| "apply_request pending (RPause b) f = snd (set_paused b f)"
| "apply_request pending (RDebugLog b) f = snd (set_debug_log b f)"

fun apply_if :: "if_request \<Rightarrow> queue_file \<Rightarrow> (unit \<times> bool) \<times> queue_file" where
  "apply_if (RBegin i out) f = (let (r, f') = begin_output i out f in (((), snd r), f'))"
| "apply_if (RFinishOutput i out s) f = finish_output i out s f"
| "apply_if (RSetOutputStaged i out p) f = set_output_staged i out p f"
| "apply_if (RSetStaged i st) f = set_staged i st f"

fun apply_durable :: "durable_request \<Rightarrow> queue_file \<Rightarrow> queue_file" where
  "apply_durable (RFreeze i p targets st ids) f = snd (freeze_plan i p targets st ids f)"
| "apply_durable (RSetOwned i ow) f = snd (set_owned i ow f)"
| "apply_durable (RLanding i out l) f = snd (set_output_landing i out l f)"
| "apply_durable (RRetain i out st) f = snd (retain_unproven_output i out st f)"

text \<open>What the callers keep: staged files are adopted at startup, before a job runs, and a plan
  has each output once.\<close>

fun request_allowed :: "request \<Rightarrow> queue_file \<Rightarrow> bool" where
  "request_allowed (RAdopt _ _) f = (running f = None)"
| "request_allowed _ f = True"

fun durable_allowed :: "durable_request \<Rightarrow> bool" where
  "durable_allowed (RFreeze i p targets st ids) = distinct (map po_id (rp_outputs p))"
| "durable_allowed _ = True"

lemma apply_request_ok:
  "queue_ok f \<Longrightarrow> request_allowed r f \<Longrightarrow> queue_ok (apply_request pending r f)"
  by (cases r)
    (simp_all add: add_def add_fresh_def append_jobs_ok claim_ok finish_ok requeue_ok retry_later_ok
      retry_staged_now_ok take_staged_ok adopt_staged_ok note_running_ok clear_finished_ok
      remove_queued_ok clear_queued_ok drop_job_ok set_paused_def set_debug_log_def)

lemma apply_if_ok: "queue_ok f \<Longrightarrow> queue_ok (snd (apply_if r f))"
  by (cases r)
    (simp_all add: begin_output_ok finish_output_ok set_output_staged_ok set_staged_ok case_prod_beta Let_def)

lemma apply_durable_ok: "queue_ok f \<Longrightarrow> durable_allowed r \<Longrightarrow> queue_ok (apply_durable r f)"
  by (cases r) (simp_all add: freeze_plan_ok set_owned_ok set_output_landing_ok retain_unproven_output_ok)

section \<open>The step relation\<close>

record system =
  sy_store :: store
  sy_flight :: "(nat \<times> queue_file) list"
  sy_hist :: "nat \<Rightarrow> queue_file"
  sy_restarts :: nat

text \<open>The store changes to \<open>s'\<close>; the history records the queue at its generation.\<close>

definition moved :: "store \<Rightarrow> system \<Rightarrow> system" where
  "moved s' y = y\<lparr>sy_store := s', sy_hist := (sy_hist y)(qs_generation s' := qs_file s')\<rparr>"

text \<open>What a crash can leave of the queue file: it, or any phase of a write under way.\<close>

inductive crash_slot :: "system \<Rightarrow> queue_file doc slot \<Rightarrow> bool" for y where
  idle: "crash_slot y (qs_slot (sy_store y))"
| writing: "(g, f) \<in> set (sy_flight y) \<Longrightarrow> qs_unreadable (sy_store y) = None \<Longrightarrow>
    qs_saved (sy_store y) < g \<or> (qs_saved (sy_store y) = g \<and> qs_pending (sy_store y)) \<Longrightarrow> sl \<in> set (marker_phases (Json f) (qs_slot (sy_store y))) \<Longrightarrow> crash_slot y sl"
| durable: "durable_allowed d \<Longrightarrow> qs_unreadable (sy_store y) = None \<Longrightarrow>
    sl \<in> set (marker_phases (Json (apply_durable d (qs_file (sy_store y)))) (qs_slot (sy_store y)))
    \<Longrightarrow> crash_slot y sl"

definition fresh_system :: "store \<Rightarrow> nat \<Rightarrow> system" where
  "fresh_system s n = \<lparr>sy_store = s, sy_flight = [], sy_hist = (\<lambda>_. qs_file s), sy_restarts = n\<rparr>"

inductive sys_step :: "path \<Rightarrow> system \<Rightarrow> system \<Rightarrow> bool" for p where
  change: "request_allowed r (qs_file (sy_store y)) \<Longrightarrow>
    sys_step p y (moved (snd (mutate_or () (\<lambda>f. ((), apply_request (qs_pending (sy_store y)) r f)) (sy_store y))) y)"
| change_if: "sys_step p y (moved (snd (mutate_if () (apply_if r) (sy_store y))) y)"
| snapshot: "sys_step p y (y\<lparr>sy_flight := (qs_generation (sy_store y), qs_file (sy_store y)) # sy_flight y\<rparr>)"
| persist: "(g, f) \<in> set (sy_flight y) \<Longrightarrow>
    sys_step p y (y\<lparr>sy_store := persist_snapshot p g f w (sy_store y),
                    sy_flight := filter (\<lambda>x. x \<noteq> (g, f)) (sy_flight y)\<rparr>)"
| durable: "durable_allowed d \<Longrightarrow>
    sys_step p y (moved (snd (mutate_durable p (\<lambda>f. ((), apply_durable d f)) w (sy_store y))) y)"
| reload: "sys_step p y (moved (snd (retry_unreadable p env w now (sy_store y))) y)"
| restart: "crash_slot y sl \<Longrightarrow>
    sys_step p y (fresh_system (open_queue p env w now sl (qs_asides (sy_store y))) (sy_restarts y + 1))"

definition disk_ok :: "queue_file doc slot \<Rightarrow> bool" where
  "disk_ok sl \<longleftrightarrow> (case slot_target sl of Some (Json f) \<Rightarrow> queue_ok f | _ \<Rightarrow> True)"

inductive sys_reachable :: "path \<Rightarrow> system \<Rightarrow> bool" for p where
  init: "disk_ok sl \<Longrightarrow> sys_reachable p (fresh_system (open_queue p env w now sl asides) 0)"
| step: "sys_reachable p y \<Longrightarrow> sys_step p y y' \<Longrightarrow> sys_reachable p y'"

section \<open>The store's invariant\<close>

definition store_ok :: "(nat \<Rightarrow> queue_file) \<Rightarrow> store \<Rightarrow> bool" where
  "store_ok hist s \<longleftrightarrow>
     queue_ok (qs_file s) \<and> disk_ok (qs_slot s) \<and> hist (qs_generation s) = qs_file s
   \<and> qs_saved s \<le> qs_generation s
   \<and> (qs_unreadable s \<noteq> None \<longrightarrow> qs_saved s = 0 \<and> qs_pending s)
   \<and> (\<not> qs_pending s \<longrightarrow> qs_saved s > 0)
   \<and> (qs_saved s > 0 \<longrightarrow> slot_target (qs_slot s) = Some (Json (hist (qs_saved s))))"

definition sys_ok :: "system \<Rightarrow> bool" where
  "sys_ok y \<longleftrightarrow> store_ok (sy_hist y) (sy_store y)
     \<and> (\<forall>(g, f) \<in> set (sy_flight y). 0 < g \<and> g \<le> qs_generation (sy_store y) \<and> f = sy_hist y g \<and> queue_ok f)
     \<and> qs_generation (sy_store y) > 0"

lemma persist_snapshot_ok:
  assumes "store_ok hist s" "g \<le> qs_generation s" "0 < g" "f = hist g" "queue_ok f"
  shows "store_ok hist (persist_snapshot p g f w s)"
  using persist_snapshot_cases [of p g f w s] assms
  by (elim disjE exE conjE) (auto simp: store_ok_def disk_ok_def)

lemma persist_snapshot_sel [simp]:
  "qs_file (persist_snapshot p g f w s) = qs_file s"
  "qs_generation (persist_snapshot p g f w s) = qs_generation s"
  "qs_unreadable (persist_snapshot p g f w s) = qs_unreadable s"
  "qs_asides (persist_snapshot p g f w s) = qs_asides s"
  by (auto simp: persist_snapshot_def split: sum.splits prod.splits)

lemma persist_now_sel [simp]:
  "qs_file (persist_now p w s) = qs_file s"
  "qs_generation (persist_now p w s) = qs_generation s"
  "qs_unreadable (persist_now p w s) = qs_unreadable s"
  "qs_asides (persist_now p w s) = qs_asides s"
  by (simp_all add: persist_now_def)

lemma persist_now_ok:
  assumes "store_ok hist s" "qs_generation s > 0"
  shows "store_ok hist (persist_now p w s)"
proof -
  have "qs_file s = hist (qs_generation s)" "queue_ok (qs_file s)" using assms(1) by (simp_all add: store_ok_def)
  from persist_snapshot_ok [OF assms(1) le_refl assms(2) this] assms(1) show ?thesis
    by (simp add: persist_now_def)
qed

text \<open>A new generation with a new queue, on disk or not yet.\<close>

lemma new_generation_ok:
  assumes "store_ok hist s" "queue_ok f" "qs_unreadable s = None"
  shows "store_ok (hist(Suc (qs_generation s) := f)) (s\<lparr>qs_file := f, qs_generation := Suc (qs_generation s)\<rparr>)"
proof -
  have "hist (qs_saved s) = (hist(Suc (qs_generation s) := f)) (qs_saved s)"
    using assms(1) by (auto simp: store_ok_def)
  with assms show ?thesis by (auto simp: store_ok_def)
qed

lemma mutate_or_ok:
  assumes "store_ok hist s" "queue_ok (snd (g (qs_file s)))"
  shows "store_ok (hist(qs_generation (snd (mutate_or d g s)) := qs_file (snd (mutate_or d g s)))) (snd (mutate_or d g s))"
    and "qs_generation s \<le> qs_generation (snd (mutate_or d g s))"
proof -
  show "store_ok (hist(qs_generation (snd (mutate_or d g s)) := qs_file (snd (mutate_or d g s)))) (snd (mutate_or d g s))"
  proof (cases "qs_unreadable s")
    case None
    from new_generation_ok [OF assms None] show ?thesis by (simp add: mutate_or_def None case_prod_beta Let_def)
  next
    case (Some x)
    with assms(1) show ?thesis by (simp add: mutate_or_def) (metis fun_upd_triv store_ok_def)
  qed
qed (simp add: mutate_or_def case_prod_beta Let_def)

text \<open>A \<open>mutate_if\<close> that reports no change made none.\<close>

lemma update_first_same: "find P xs = Some x \<Longrightarrow> h x = x \<Longrightarrow> update_first P h xs = xs"
  by (induction xs) (auto split: if_splits)

lemma update_job_same: "find_job i f = Some j \<Longrightarrow> h j = j \<Longrightarrow> update_job i h f = f"
  by (simp add: find_job_def update_job_def update_first_same)

lemma update_output_same:
  assumes "find_output i out f = Some x" "h x = x"
  shows "update_output i out h f = f"
proof -
  from assms(1) obtain j where j: "find_job i f = Some j" and x: "find (\<lambda>x. op_id x = out) (job_outputs j) = Some x"
    by (auto simp: find_output_def Option.bind_eq_Some_conv)
  have "job_outputs j = update_first (\<lambda>x. op_id x = out) h (job_outputs j)"
    using update_first_same [OF x, of h] assms(2) by simp
  then show ?thesis unfolding update_output_def by (intro update_job_same [OF j]) simp
qed

lemma apply_if_unchanged: "\<not> snd (fst (apply_if r f)) \<Longrightarrow> snd (apply_if r f) = f"
proof (cases r)
  case (RBegin i out)
  then show "\<not> snd (fst (apply_if r f)) \<Longrightarrow> ?thesis"
    by (auto simp: begin_output_def Let_def intro!: update_output_same split: option.splits if_splits)
next
  case (RFinishOutput i out s)
  then show "\<not> snd (fst (apply_if r f)) \<Longrightarrow> ?thesis"
    by (auto simp: finish_output_def Let_def intro!: update_output_same split: option.splits if_splits)
next
  case (RSetOutputStaged i out p)
  then show "\<not> snd (fst (apply_if r f)) \<Longrightarrow> ?thesis"
    by (auto simp: set_output_staged_def split: option.splits if_splits)
next
  case (RSetStaged i st)
  then show "\<not> snd (fst (apply_if r f)) \<Longrightarrow> ?thesis"
    by (auto simp: set_staged_def intro!: update_job_same split: option.splits)
qed

lemma mutate_if_ok:
  assumes "store_ok hist s" "queue_ok (snd (g (qs_file s)))"
    and "\<not> snd (fst (g (qs_file s))) \<Longrightarrow> snd (g (qs_file s)) = qs_file s"
  shows "store_ok (hist(qs_generation (snd (mutate_if d g s)) := qs_file (snd (mutate_if d g s)))) (snd (mutate_if d g s))"
    and "qs_generation s \<le> qs_generation (snd (mutate_if d g s))"
proof -
  have same: "store_ok (hist(qs_generation s := qs_file s)) s"
    using assms(1) by (metis fun_upd_triv store_ok_def)
  show "store_ok (hist(qs_generation (snd (mutate_if d g s)) := qs_file (snd (mutate_if d g s)))) (snd (mutate_if d g s))"
  proof (cases "qs_unreadable s")
    case None
    show ?thesis
    proof (cases "snd (fst (g (qs_file s)))")
      case True
      with new_generation_ok [OF assms(1,2) None] show ?thesis
        by (simp add: mutate_if_def None case_prod_beta Let_def)
    next
      case False
      with assms(3) have "snd (mutate_if d g s) = s" by (simp add: mutate_if_def None case_prod_beta Let_def)
      with same show ?thesis by simp
    qed
  next
    case (Some x)
    with same show ?thesis by (simp add: mutate_if_def)
  qed
qed (simp add: mutate_if_def case_prod_beta Let_def)

text \<open>How a durable change ends.\<close>

lemma mutate_durable_cases:
  assumes "mutate_durable p g w s = (r, s')" "snd (g (qs_file s)) = f"
  shows "(s' = s \<and> (\<exists>e. r = Inl e))
    \<or> (s' = s \<and> qs_unreadable s = None \<and> r = Inr (fst (g (qs_file s))) \<and> f = qs_file s \<and> \<not> qs_pending s)
    \<or> (\<exists>e sl. qs_unreadable s = None \<and> r = Inl e \<and> slot_target sl = slot_target (qs_slot s) \<and> s' = s\<lparr>qs_slot := sl\<rparr>)
    \<or> (\<exists>sl pend. qs_unreadable s = None \<and> slot_target sl = Some (Json f)
        \<and> (if pend then \<exists>e. r = Inl e else r = Inr (fst (g (qs_file s))))
        \<and> s' = s\<lparr>qs_slot := sl, qs_file := f, qs_generation := Suc (qs_generation s),
               qs_saved := Suc (qs_generation s), qs_pending := pend\<rparr>)"
proof (cases "qs_unreadable s")
  case (Some why)
  with assms show ?thesis by (auto simp: mutate_durable_def try_mutate_durable_def)
next
  case None
  obtain r0 sl where w: "write_queue p f w (qs_slot s) = (r0, sl)" by fastforce
  consider (same) "f = qs_file s" "\<not> qs_pending s"
    | (json) e where "\<not> (f = qs_file s \<and> \<not> qs_pending s)" "ft_json w = Some e"
    | (written) "\<not> (f = qs_file s \<and> \<not> qs_pending s)" "ft_json w = None" by blast
  then show ?thesis
  proof cases
    case same
    with assms None show ?thesis
      by (auto simp: mutate_durable_def try_mutate_durable_def case_prod_beta Let_def)
  next
    case json
    with assms None show ?thesis
      by (auto simp: mutate_durable_def try_mutate_durable_def case_prod_beta Let_def simp del: not_None_eq)
  next
    case written
    then have eq: "mutate_durable p g w s =
        (case (r0, sl) of
           (Inl (False, e), sl) \<Rightarrow> (Inl e, s\<lparr>qs_slot := sl\<rparr>)
         | (Inl (True, e), sl) \<Rightarrow>
             (Inl (IoError (err_kind e)
                (''queue update published but directory durability unconfirmed; intent retained: '' @ err_text e)),
              s\<lparr>qs_slot := sl, qs_file := f, qs_generation := qs_generation s + 1,
                qs_saved := qs_generation s + 1, qs_pending := True\<rparr>)
         | (Inr _, sl) \<Rightarrow>
             (Inr (fst (g (qs_file s))), s\<lparr>qs_slot := sl, qs_file := f, qs_generation := qs_generation s + 1,
                qs_saved := qs_generation s + 1, qs_pending := False\<rparr>))"
      using assms(2) None
      by (simp only: mutate_durable_def try_mutate_durable_def case_prod_beta Let_def option.case sum.case
          fst_conv snd_conv if_False flip: w)
    from write_queue_cases [OF w] assms(1) None show ?thesis
      by (elim disjE exE conjE) (auto simp: eq)
  qed
qed

lemma mutate_durable_ok:
  assumes ok: "store_ok hist s" and q: "queue_ok (snd (g (qs_file s)))"
    and r: "mutate_durable p g w s = (r, s')"
  shows "store_ok (hist(qs_generation s' := qs_file s')) s' \<and> qs_generation s \<le> qs_generation s'"
proof -
  have same: "store_ok (hist(qs_generation s := qs_file s)) s"
    using ok by (metis fun_upd_triv store_ok_def)
  from mutate_durable_cases [OF r refl] consider "s' = s"
    | sl where "slot_target sl = slot_target (qs_slot s)" "s' = s\<lparr>qs_slot := sl\<rparr>"
    | sl pend where "qs_unreadable s = None" "slot_target sl = Some (Json (snd (g (qs_file s))))"
        "s' = s\<lparr>qs_slot := sl, qs_file := snd (g (qs_file s)), qs_generation := Suc (qs_generation s),
               qs_saved := Suc (qs_generation s), qs_pending := pend\<rparr>" by blast
  then show ?thesis
  proof cases
    case 1
    with same show ?thesis by simp
  next
    case 2
    with same show ?thesis by (auto simp: store_ok_def disk_ok_def)
  next
    case 3
    with ok q show ?thesis by (auto simp: store_ok_def disk_ok_def)
  qed
qed


section \<open>Every step keeps the invariant\<close>

lemma sys_ok_moved:
  assumes "sys_ok y" "store_ok ((sy_hist y)(qs_generation s' := qs_file s')) s'"
    and "qs_generation (sy_store y) < qs_generation s'
       \<or> qs_generation (sy_store y) = qs_generation s' \<and> qs_file s' = qs_file (sy_store y)"
  shows "sys_ok (moved s' y)"
proof -
  let ?h = "(sy_hist y)(qs_generation s' := qs_file s')"
  have gen: "qs_generation (sy_store y) \<le> qs_generation s'" using assms(3) by auto
  have "?h g = sy_hist y g" if "g \<le> qs_generation (sy_store y)" for g
    using assms(1,3) that by (auto simp: sys_ok_def store_ok_def)
  with assms(1) gen have "\<forall>(g, f) \<in> set (sy_flight y). 0 < g \<and> g \<le> qs_generation s' \<and> f = ?h g \<and> queue_ok f"
    unfolding sys_ok_def by (fastforce simp del: fun_upd_apply)
  with assms(1,2) gen show ?thesis by (simp add: sys_ok_def moved_def del: fun_upd_apply)
qed

lemma mutate_or_moves:
  "qs_generation s < qs_generation (snd (mutate_or d g s))
   \<or> qs_generation s = qs_generation (snd (mutate_or d g s)) \<and> qs_file (snd (mutate_or d g s)) = qs_file s"
  by (simp add: mutate_or_def case_prod_beta Let_def)

lemma mutate_if_moves:
  "(\<not> snd (fst (g (qs_file s))) \<Longrightarrow> snd (g (qs_file s)) = qs_file s) \<Longrightarrow>
   qs_generation s < qs_generation (snd (mutate_if d g s))
   \<or> qs_generation s = qs_generation (snd (mutate_if d g s)) \<and> qs_file (snd (mutate_if d g s)) = qs_file s"
  by (auto simp: mutate_if_def case_prod_beta Let_def)

lemma mutate_durable_moves:
  assumes "mutate_durable p g w s = (r, s')"
  shows "qs_generation s < qs_generation s' \<or> qs_generation s = qs_generation s' \<and> qs_file s' = qs_file s"
  using mutate_durable_cases [OF assms refl] by auto

lemma load_ok:
  assumes "load env sl asides = ((f, why), sl', asides')" "disk_ok sl"
  shows "queue_ok f \<and> disk_ok sl'"
  using load_cases [OF assms(1)] assms(2)
  by (elim disjE exE conjE) (auto simp: disk_ok_def restarted_ok queue_ok_default)

lemma retry_unreadable_ok:
  assumes ok: "store_ok hist s"
    and r: "retry_unreadable p env w now s = (b, s')"
  shows "store_ok (hist(qs_generation s' := qs_file s')) s' \<and>
    (qs_generation s < qs_generation s' \<or> qs_generation s = qs_generation s' \<and> qs_file s' = qs_file s)"
proof -
  have same: "store_ok (hist(qs_generation s := qs_file s)) s"
    using ok by (metis fun_upd_triv store_ok_def)
  show ?thesis
  proof (cases "qs_unreadable s = None \<or> now < saturating_add 64 (qs_tried_at s) unreadable_retry_secs")
    case True
    with r same show ?thesis by (auto simp: retry_unreadable_def split: if_splits)
  next
    case False
    obtain f why sl asides where l: "load env (qs_slot s) (qs_asides s) = ((f, why), sl, asides)"
      by (metis surj_pair)
    have d: "queue_ok f \<and> disk_ok sl" using load_ok [OF l] ok by (simp add: store_ok_def)
    show ?thesis
    proof (cases why)
      case None
      let ?s = "s\<lparr>qs_tried_at := now, qs_slot := sl, qs_asides := asides, qs_file := f,
             qs_generation := qs_generation s + 1, qs_pending := True, qs_unreadable := None\<rparr>"
      have "store_ok (hist(qs_generation s + 1 := f)) ?s" using ok False d by (auto simp: store_ok_def)
      from persist_now_ok [OF this] r False l None show ?thesis
        by (auto simp: retry_unreadable_def)
    next
      case (Some x)
      with r False l same d show ?thesis by (auto simp: retry_unreadable_def store_ok_def)
    qed
  qed
qed

lemma open_queue_ok:
  assumes "disk_ok sl"
  shows "sys_ok (fresh_system (open_queue p env w now sl asides) n)"
proof -
  obtain f why sl' asides' where l: "load env sl asides = ((f, why), sl', asides')" by (metis surj_pair)
  let ?s = "\<lparr>qs_file = f, qs_saved = 0, qs_generation = 1, qs_pending = True, qs_unreadable = why,
           qs_tried_at = now, qs_slot = sl', qs_asides = asides'\<rparr>"
  have "store_ok (\<lambda>_. f) ?s" using load_ok [OF l assms] by (simp add: store_ok_def)
  from persist_now_ok [OF this] show ?thesis by (simp add: open_queue_def l sys_ok_def fresh_system_def)
qed

lemma marker_phases_ok:
  "disk_ok sl \<Longrightarrow> queue_ok f \<Longrightarrow> sl' \<in> set (marker_phases (Json f) sl) \<Longrightarrow> disk_ok sl'"
  using marker.phases_atomic [of sl' "Json f" sl] by (auto simp: disk_ok_def)

lemma crash_slot_ok:
  assumes "sys_ok y" "crash_slot y sl"
  shows "disk_ok sl"
proof -
  have ok: "disk_ok (qs_slot (sy_store y))" "queue_ok (qs_file (sy_store y))"
    and fl: "\<And>g f. (g, f) \<in> set (sy_flight y) \<Longrightarrow> queue_ok f"
    using assms(1) by (auto simp: sys_ok_def store_ok_def)
  from assms(2) show ?thesis
  proof cases
    case idle
    with ok show ?thesis by simp
  next
    case (writing g f)
    then show ?thesis using marker_phases_ok [OF ok(1) fl] by blast
  next
    case (durable d)
    then show ?thesis using marker_phases_ok [OF ok(1) apply_durable_ok [OF ok(2)]] by blast
  qed
qed

lemma sys_step_ok:
  assumes step: "sys_step p y y'" and ok: "sys_ok y"
  shows "sys_ok y'"
proof -
  have st: "store_ok (sy_hist y) (sy_store y)" using ok by (simp add: sys_ok_def)
  show ?thesis using step
proof (cases rule: sys_step.cases)
  case (change r)
  let ?g = "\<lambda>f. ((), apply_request (qs_pending (sy_store y)) r f)"
  have "queue_ok (snd (?g (qs_file (sy_store y))))"
    using change(2) ok by (simp add: apply_request_ok sys_ok_def store_ok_def)
  from mutate_or_ok(1) [where g = ?g, OF st this] mutate_or_moves show ?thesis
    unfolding change(1) by (rule sys_ok_moved [OF ok])
next
  case (change_if r)
  have "queue_ok (snd (apply_if r (qs_file (sy_store y))))"
    using ok by (simp add: apply_if_ok sys_ok_def store_ok_def)
  from mutate_if_ok(1) [where g = "apply_if r", OF st this apply_if_unchanged]
    mutate_if_moves [where g = "apply_if r", OF apply_if_unchanged]
  show ?thesis unfolding change_if by (rule sys_ok_moved [OF ok])
next
  case snapshot
  with ok show ?thesis by (auto simp: sys_ok_def store_ok_def)
next
  case (persist g f w)
  have "store_ok (sy_hist y) (persist_snapshot p g f w (sy_store y))"
    using persist(2) ok by (intro persist_snapshot_ok) (auto simp: sys_ok_def)
  with ok show ?thesis unfolding persist(1) by (auto simp: sys_ok_def)
next
  case (durable d w)
  let ?g = "\<lambda>f. ((), apply_durable d f)"
  obtain r s' where m: "mutate_durable p ?g w (sy_store y) = (r, s')" by fastforce
  have "queue_ok (snd (?g (qs_file (sy_store y))))"
    using durable(2) ok by (simp add: apply_durable_ok sys_ok_def store_ok_def)
  from mutate_durable_ok [where g = ?g, OF st this m, THEN conjunct1] mutate_durable_moves [OF m]
  show ?thesis unfolding durable(1) m snd_conv by (rule sys_ok_moved [OF ok])
next
  case (reload env w now)
  obtain b s' where m: "retry_unreadable p env w now (sy_store y) = (b, s')" by fastforce
  from retry_unreadable_ok [OF st m, THEN conjunct1] retry_unreadable_ok [OF st m, THEN conjunct2]
  show ?thesis unfolding reload m snd_conv by (rule sys_ok_moved [OF ok])
next
  case (restart sl env w now)
  then show ?thesis using crash_slot_ok [OF ok] open_queue_ok by blast
qed
qed

interpretation queue_sys: step_invariant "sys_step p" "sys_reachable p"
    "\<lambda>y. \<exists>sl env w now asides. disk_ok sl \<and> y = fresh_system (open_queue p env w now sl asides) 0" sys_ok for p
proof unfold_locales
  fix y and Q :: "system \<Rightarrow> bool"
  assume "sys_reachable p y"
    and "\<And>y. \<exists>sl env w now asides. disk_ok sl \<and> y = fresh_system (open_queue p env w now sl asides) 0 \<Longrightarrow> Q y"
    and "\<And>y y'. sys_reachable p y \<Longrightarrow> Q y \<Longrightarrow> sys_step p y y' \<Longrightarrow> Q y'"
  then show "Q y" by (induction rule: sys_reachable.induct) blast+
qed (auto intro: open_queue_ok sys_step_ok)


inductive_cases crash_slotE: "crash_slot y sl"
inductive_cases sys_stepE: "sys_step p y y'"

lemmas reachable_ok = queue_sys.reachable_inv
lemmas sys_ok_defs = sys_ok_def store_ok_def

section \<open>Properties\<close>

text \<open>
  C2: whatever the interleaving of changes, writes, failures and crashes, the queue in memory
  and the queue on disk keep the invariant: unique job numbers and targets, at most one job
  running, kept files and failures recorded in full.
\<close>

theorem reachable_queue_ok:
  assumes "sys_reachable p y"
  shows "queue_ok (qs_file (sy_store y))
    \<and> (case slot_target (qs_slot (sy_store y)) of Some (Json f) \<Rightarrow> queue_ok f | _ \<Rightarrow> True)"
  using reachable_ok [OF assms] by (simp add: sys_ok_defs disk_ok_def)

text \<open>
  C5: once something was saved, the file on disk is the queue of exactly the generation the
  store believes saved; while nothing was, durability is reported as unconfirmed.
\<close>

theorem disk_holds_saved_generation:
  assumes "sys_reachable p y"
  shows "qs_saved (sy_store y) \<le> qs_generation (sy_store y)
    \<and> (if qs_saved (sy_store y) = 0 then qs_pending (sy_store y)
       else slot_target (qs_slot (sy_store y)) = Some (Json (sy_hist y (qs_saved (sy_store y)))))"
  using reachable_ok [OF assms] by (auto simp: sys_ok_defs)

lemma persist_snapshot_saved: "qs_saved s \<le> qs_saved (persist_snapshot p g f w s)"
  using persist_snapshot_cases [of p g f w s] by auto

text \<open>
  Within one run of the server the file on disk never goes back to an older queue: no step
  lowers the saved generation, and the past is not rewritten.
\<close>

theorem disk_never_goes_back:
  assumes reach: "sys_reachable p y" and step: "sys_step p y y'" and run: "sy_restarts y' = sy_restarts y"
  shows "qs_saved (sy_store y) \<le> qs_saved (sy_store y')
    \<and> qs_generation (sy_store y) \<le> qs_generation (sy_store y')
    \<and> sy_hist y' (qs_saved (sy_store y)) = sy_hist y (qs_saved (sy_store y))"
proof -
  have ok: "store_ok (sy_hist y) (sy_store y)" using reachable_ok [OF reach] by (simp add: sys_ok_def)
  have moved: "?thesis" if "y' = moved s' y" "qs_saved (sy_store y) \<le> qs_saved s'"
    "qs_generation (sy_store y) < qs_generation s'
     \<or> qs_generation (sy_store y) = qs_generation s' \<and> qs_file s' = qs_file (sy_store y)" for s'
    using that ok by (auto simp: moved_def store_ok_def)
  from step show ?thesis
  proof (cases rule: sys_step.cases)
    case (change r)
    show ?thesis
      by (rule moved [OF change(1)]) (simp add: mutate_or_def case_prod_beta Let_def, rule mutate_or_moves)
  next
    case (change_if r)
    show ?thesis
      by (rule moved [OF change_if]) (simp add: mutate_if_def case_prod_beta Let_def,
        rule mutate_if_moves, rule apply_if_unchanged)
  next
    case snapshot
    then show ?thesis by simp
  next
    case (persist g f w)
    then show ?thesis by (simp add: persist_snapshot_saved)
  next
    case (durable d w)
    obtain r s' where m: "mutate_durable p (\<lambda>f. ((), apply_durable d f)) w (sy_store y) = (r, s')" by fastforce
    have "qs_saved (sy_store y) \<le> qs_saved s'"
      using mutate_durable_cases [OF m refl] ok by (auto simp: store_ok_def)
    with mutate_durable_moves [OF m] show ?thesis using durable(1) by (intro moved) (simp_all add: m)
  next
    case (reload env w now)
    obtain b s' where m: "retry_unreadable p env w now (sy_store y) = (b, s')" by fastforce
    have "qs_saved (sy_store y) \<le> qs_saved s'"
    proof (cases "qs_unreadable (sy_store y)")
      case None
      with m show ?thesis by (auto simp: retry_unreadable_def)
    next
      case (Some x)
      with ok show ?thesis by (simp add: store_ok_def)
    qed
    then show ?thesis
      by (rule moved [rotated]) (use reload retry_unreadable_ok [OF ok m] in \<open>simp_all add: m\<close>)
  next
    case (restart sl env w now)
    with run show ?thesis by (simp add: fresh_system_def)
  qed
qed

text \<open>
  C12: a queue file that could not be loaded is never written over: until it loads, no step of
  the running server changes it, the queue or the files set aside.
\<close>

theorem held_file_untouched:
  assumes "sys_step p y y'" and "sy_restarts y' = sy_restarts y"
    and "qs_unreadable (sy_store y) \<noteq> None" and "qs_unreadable (sy_store y') \<noteq> None"
  shows "qs_slot (sy_store y') = qs_slot (sy_store y) \<and> qs_asides (sy_store y') = qs_asides (sy_store y)
    \<and> qs_file (sy_store y') = qs_file (sy_store y)"
  using assms(1)
proof (cases rule: sys_step.cases)
  case (reload env w now)
  show ?thesis
  proof (cases "now < saturating_add 64 (qs_tried_at (sy_store y)) unreadable_retry_secs")
    case True
    with reload show ?thesis by (auto simp: retry_unreadable_def moved_def)
  next
    case False
    obtain f why sl asides where l: "load env (qs_slot (sy_store y)) (qs_asides (sy_store y)) = ((f, why), sl, asides)"
      by (metis surj_pair)
    from load_cases [OF l] False l reload assms(3,4) show ?thesis
      by (cases why) (auto simp: retry_unreadable_def moved_def)
  qed
next
  case (restart sl env w now)
  with assms(2) show ?thesis by (simp add: fresh_system_def)
qed (use assms(3) in \<open>auto simp: moved_def mutate_or_def mutate_if_def mutate_durable_def
      try_mutate_durable_def persist_snapshot_def\<close>)

text \<open>
  C13: opening the queue loses nothing: unless a read denies that the file exists, the content
  found is either held where it is, loaded with its running job queued again, or kept
  under a new name in the folder.
\<close>

theorem load_keeps_content:
  assumes "load env sl asides = ((f, why), sl', asides')" and "slot_target sl = Some c"
    and "\<forall>k e. le_reads env k = Some e \<longrightarrow> err_kind e \<noteq> NotFound"
  shows "(why \<noteq> None \<and> sl' = sl)
    \<or> (why = None \<and> sl' = sl \<and> (\<exists>g. c = Json g \<and> f = restarted g \<and> running f = None))
    \<or> (\<exists>n. asides n = None \<and> asides' n = Some c \<and> asides \<subseteq>\<^sub>m asides')"
  using load_cases [OF assms(1)]
proof (elim disjE exE conjE)
  fix g assume "why = None" "sl' = sl" "slot_target sl = Some (Json g)" "f = restarted g"
  with assms(2) show ?thesis by (auto simp: restarted_not_running)
next
  fix k e assume "le_reads env k = Some e" "err_kind e = NotFound"
  with assms(3) show ?thesis by blast
next
  fix d n
  assume "slot_target sl = Some (Damaged d)" "asides (aside_name queue_file_name n) = None"
    and a: "asides' = asides(aside_name queue_file_name n \<mapsto> Damaged d)"
  with assms(2) show ?thesis
    by (intro disjI2 exI [of _ "aside_name queue_file_name n"]) (auto simp: a map_le_def)
qed (use assms(2) in auto)

text \<open>
  C11: after a crash at any point, the file holds the last saved queue, one that was being
  written after it, or a durable change being made; never an older one.
\<close>

theorem crash_keeps_saved:
  assumes "sys_reachable p y" and "crash_slot y sl" and "0 < qs_saved (sy_store y)"
  shows "\<exists>f. slot_target sl = Some (Json f) \<and>
    ((\<exists>g. qs_saved (sy_store y) \<le> g \<and> g \<le> qs_generation (sy_store y) \<and> f = sy_hist y g)
     \<or> (\<exists>d. durable_allowed d \<and> f = apply_durable d (qs_file (sy_store y))))"
proof -
  let ?s = "sy_store y"
  have disk: "slot_target (qs_slot ?s) = Some (Json (sy_hist y (qs_saved ?s)))" "qs_saved ?s \<le> qs_generation ?s"
    and fl: "\<And>g f. (g, f) \<in> set (sy_flight y) \<Longrightarrow> g \<le> qs_generation ?s \<and> f = sy_hist y g"
    using reachable_ok [OF assms(1)] assms(3) by (auto simp: sys_ok_defs)
  from assms(2) show ?thesis
  proof cases
    case idle
    with disk show ?thesis by blast
  next
    case (writing g f)
    with marker.phases_atomic [OF writing(4)] fl [OF writing(1)] disk show ?thesis
      by (elim disjE) (auto intro: exI [of _ g])
  next
    case (durable d)
    with marker.phases_atomic [OF durable(3)] disk show ?thesis by auto
  qed
qed


lemma mutate_claim:
  assumes "mutate p None (claim pend now started) w s = (Some j, s')"
  shows "\<exists>f'. claim pend now started (qs_file s) = (Some j, f') \<and> qs_file s' = f'"
  using assms by (auto simp: mutate_def mutate_or_def case_prod_beta Let_def split: if_splits intro: prod_eqI)

text \<open>
  C14: a job starts only once a write has been confirmed: when none is, the queue is first
  written as it stands, and the job it starts is then the only one running.
\<close>

theorem claim_needs_confirmed_write:
  assumes reach: "sys_reachable p y" and cl: "claim_next p w1 w2 now st (sy_store y) = (Some j, s')"
  defines "s1 \<equiv> (if qs_pending (sy_store y) then persist_now p w1 (sy_store y) else sy_store y)"
  shows "\<not> qs_pending s1 \<and> slot_target (qs_slot s1) = Some (Json (sy_hist y (qs_saved s1)))
    \<and> (qs_pending (sy_store y) \<longrightarrow> qs_saved s1 = qs_generation (sy_store y))
    \<and> filter (\<lambda>j. job_state j = JRunning) (qf_jobs (qs_file s')) = [j]"
proof -
  let ?s = "sy_store y"
  have ok: "store_ok (sy_hist y) ?s" "qs_generation ?s > 0"
    using reachable_ok [OF reach] by (auto simp: sys_ok_def)
  have ok1: "store_ok (sy_hist y) s1" using ok persist_now_ok by (simp add: s1_def)
  from cl have free: "\<not> qs_pending s1" "qs_unreadable ?s = None"
    and m: "mutate p None (claim (qs_pending s1) now st) w2 s1 = (Some j, s')"
    by (auto simp: claim_next_def s1_def Let_def split: if_splits)
  from mutate_claim [OF m] obtain f' where c: "claim (qs_pending s1) now st (qs_file s1) = (Some j, f')"
    and f': "qs_file s' = f'" by blast
  have "filter (\<lambda>j. job_state j = JRunning) (qf_jobs f') = [j]"
    using c by (rule claim_leaves_one_running)
  moreover have "slot_target (qs_slot s1) = Some (Json (sy_hist y (qs_saved s1)))"
    using ok1 free(1) by (simp add: store_ok_def)
  moreover have "qs_saved s1 = qs_generation ?s" if "qs_pending ?s"
    using that free(1) by (auto simp: s1_def persist_now_def persist_snapshot_def split: if_splits sum.splits prod.splits)
  ultimately show ?thesis using free(1) f' by blast
qed

text \<open>
  C15: a durable change that reports success and changed something is on disk and confirmed; one
  that fails before the rename leaves queue and file as they were; one whose folder could
  not be synced is kept, in memory and on disk, and marked unconfirmed.
\<close>

theorem durable_change_follows_disk:
  assumes "mutate_durable p g w s = (r, s')"
  defines "f \<equiv> snd (g (qs_file s))"
  shows "case r of
      Inr out \<Rightarrow> out = fst (g (qs_file s)) \<and> qs_unreadable s = None \<and> qs_file s' = f \<and> \<not> qs_pending s'
        \<and> (s' = s \<or> slot_target (qs_slot s') = Some (Json f) \<and> qs_saved s' = qs_generation s')
    | Inl _ \<Rightarrow> (qs_file s' = qs_file s \<and> qs_generation s' = qs_generation s \<and> qs_saved s' = qs_saved s
          \<and> slot_target (qs_slot s') = slot_target (qs_slot s))
        \<or> (qs_file s' = f \<and> slot_target (qs_slot s') = Some (Json f) \<and> qs_saved s' = qs_generation s' \<and> qs_pending s')"
  using mutate_durable_cases [OF assms(1) refl]
  by (elim disjE exE conjE) (auto simp: f_def split: if_splits)

section \<open>Witnesses\<close>

definition sample_path :: path where
  "sample_path = [Normal ''config'', Normal ''library-queue.json'']"

definition sample_env :: load_env where
  "sample_env = \<lparr>le_reads = (\<lambda>_. None), le_stat = (\<lambda>_. None), le_rename = None\<rparr>"

definition sample_slot :: "queue_file doc slot" where
  "sample_slot = \<lparr>slot_target = Some (Json sample_queue), slot_tmp = None\<rparr>"

definition sample_system :: system where
  "sample_system = fresh_system (open_queue sample_path sample_env no_faults 100 sample_slot Map.empty) 0"

lemma sample_load: "load sample_env sample_slot asides = ((restarted sample_queue, None), sample_slot, asides)"
  by (simp add: load_def sample_env_def sample_slot_def read_retrying_clear)

lemma sample_write: "write_queue sample_path f no_faults sl = (Inr (), sl\<lparr>slot_target := Some (Json f), slot_tmp := None\<rparr>)"
  by (simp add: write_queue_def write_marker_phased_def no_faults_def sample_path_def file_name_def
      path_parent_def Let_def)

lemma sample_restarted: "restarted sample_queue = sample_queue"
  by (simp add: restarted_def restart_job_def queue_schema_def sample_jobs)

lemma no_json_fault [simp]: "ft_json no_faults = None"
  by (simp add: no_faults_def)

lemma sample_store: "sy_store sample_system =
    \<lparr>qs_file = sample_queue, qs_saved = 1, qs_generation = 1, qs_pending = False,
     qs_unreadable = None, qs_tried_at = 100,
     qs_slot = sample_slot, qs_asides = Map.empty\<rparr>"
  by (simp add: sample_system_def fresh_system_def open_queue_def sample_load persist_now_def
      persist_snapshot_def sample_write sample_restarted) (simp add: sample_slot_def)

lemma sample_store_sel [simp]:
  "qs_file (sy_store sample_system) = sample_queue" "qs_saved (sy_store sample_system) = 1"
  "qs_generation (sy_store sample_system) = 1" "\<not> qs_pending (sy_store sample_system)"
  "qs_unreadable (sy_store sample_system) = None" "qs_slot (sy_store sample_system) = sample_slot"
  by (simp_all add: sample_store)

lemma sample_reachable: "sys_reachable sample_path sample_system"
  unfolding sample_system_def
  by (rule sys_reachable.init) (simp add: disk_ok_def sample_slot_def sample_queue_ok)

theorem reachable_queue_ok_witness: "queue_ok (qs_file (sy_store sample_system))"
  using reachable_queue_ok [OF sample_reachable] by blast

theorem disk_holds_saved_generation_witness:
  "slot_target (qs_slot (sy_store sample_system)) = Some (Json (sy_hist sample_system 1))"
  using disk_holds_saved_generation [OF sample_reachable] by simp

theorem disk_never_goes_back_witness:
  "sys_step sample_path sample_system
     (moved (snd (mutate_or () (\<lambda>f. ((), apply_request False (RPause True) f)) (sy_store sample_system))) sample_system)
   \<and> 1 \<le> qs_saved (sy_store (moved (snd (mutate_or () (\<lambda>f. ((), apply_request False (RPause True) f))
        (sy_store sample_system))) sample_system))"
proof -
  have step: "sys_step sample_path sample_system
     (moved (snd (mutate_or () (\<lambda>f. ((), apply_request False (RPause True) f)) (sy_store sample_system))) sample_system)"
    using sys_step.change [of "RPause True" sample_system sample_path] by simp
  then show ?thesis
    using disk_never_goes_back [OF sample_reachable step] by (simp add: moved_def)
qed

definition held_env :: load_env where
  "held_env = \<lparr>le_reads = (\<lambda>_. Some (io_other ''EIO'')), le_stat = (\<lambda>_. None), le_rename = None\<rparr>"

definition held_system :: system where
  "held_system = fresh_system (open_queue sample_path held_env no_faults 100 sample_slot Map.empty) 0"

lemma held_unreadable: "qs_unreadable (sy_store held_system) \<noteq> None"
proof -
  have "read_retrying 0 (\<lambda>_. Some (io_other ''EIO'')) (slot_target sample_slot) = Inl (io_other ''EIO'')"
    by (rule read_retrying_third) (simp_all del: not_None_eq, simp_all)
  then show ?thesis
    by (simp add: held_system_def fresh_system_def open_queue_def load_def held_env_def)
qed

theorem held_file_untouched_witness:
  "qs_slot (sy_store (moved (snd (mutate_or () (\<lambda>f. ((), apply_request (qs_pending (sy_store held_system)) (RDrop 1) f))
     (sy_store held_system))) held_system)) = qs_slot (sy_store held_system)"
proof -
  let ?y = "moved (snd (mutate_or () (\<lambda>f. ((), apply_request (qs_pending (sy_store held_system)) (RDrop 1) f))
     (sy_store held_system))) held_system"
  have step: "sys_step sample_path held_system ?y" by (rule sys_step.change) simp
  have "snd (mutate_or () (\<lambda>f. ((), apply_request (qs_pending (sy_store held_system)) (RDrop 1) f))
     (sy_store held_system)) = sy_store held_system"
    using held_unreadable by (simp add: mutate_or_def)
  then have "qs_unreadable (sy_store ?y) \<noteq> None" "sy_restarts ?y = sy_restarts held_system"
    using held_unreadable by (simp_all add: moved_def)
  with held_file_untouched [OF step _ held_unreadable] show ?thesis by blast
qed

theorem load_keeps_content_witness:
  "\<exists>g. Json sample_queue = Json g \<and> restarted sample_queue = restarted g \<and> running (restarted sample_queue) = None"
proof -
  have "slot_target sample_slot = Some (Json sample_queue)" by (simp add: sample_slot_def)
  moreover have "\<forall>k e. le_reads sample_env k = Some e \<longrightarrow> err_kind e \<noteq> NotFound" by (simp add: sample_env_def)
  ultimately show ?thesis using load_keeps_content [OF sample_load [of Map.empty]] by auto
qed

theorem crash_keeps_saved_witness:
  "\<exists>f. slot_target (qs_slot (sy_store sample_system)) = Some (Json f)"
  using crash_keeps_saved [OF sample_reachable crash_slot.idle] by auto

theorem claim_needs_confirmed_write_witness:
  "\<exists>j s'. claim_next sample_path no_faults no_faults 200 201 (sy_store sample_system) = (Some j, s')
     \<and> filter (\<lambda>j. job_state j = JRunning) (qf_jobs (qs_file s')) = [j]"
proof -
  have free: "\<not> qf_paused sample_queue \<and> running sample_queue = None \<and> next_ready 200 sample_queue \<noteq> None"
    by (simp add: running_def next_ready_def ready_def sample_jobs)
  obtain s' where cl: "claim_next sample_path no_faults no_faults 200 201 (sy_store sample_system)
      = (Some sample_running, s')"
    using free by (simp add: claim_next_def Let_def mutate_def mutate_or_def sample_claim)
  from claim_needs_confirmed_write [OF sample_reachable cl] cl show ?thesis by blast
qed

theorem durable_change_follows_disk_witness:
  "qs_file (snd (mutate_durable sample_path (set_owned 1 []) no_faults (sy_store sample_system)))
     = snd (set_owned 1 [] sample_queue)"
proof -
  obtain r s' where m: "mutate_durable sample_path (set_owned 1 []) no_faults (sy_store sample_system) = (r, s')"
    by fastforce
  then have "\<forall>e. r \<noteq> Inl e"
    by (auto simp: mutate_durable_def try_mutate_durable_def sample_write case_prod_beta Let_def split: if_splits)
  with durable_change_follows_disk [OF m] m show ?thesis by (cases r) auto
qed

end
