(* ===== verification/Staging_State.thy ===== *)
theory Staging_State
  imports Complex_Main Durable Planner
begin

text \<open>
  The per-disc state of the staging area: \<open>state.json\<close> of \<open>src/src/server/ripper/staging.rs\<close>,
  its reading and every transition that rewrites it. A job's file is a slot (Durable) that
  holds a \<open>DiscState\<close> or bytes that do not parse; the fault its read meets and the faults of
  the write are arguments. What runs under the job's state lock is one definition.

  A floating-point field (telemetry carried along, never computed with here) is a \<open>real\<close>.
\<close>

section \<open>Data\<close>

datatype staging_state = Sweeping | Stopped | Ripped | Done | Review | Completed | Failed | AbortedLoss

record user_metadata =
  um_title :: string
  um_year :: nat
  um_media_type :: media_kind
  um_episode_start :: "nat option"
  um_tmdb_id :: nat
  um_poster_url :: string
  um_overview :: string

record disc_output =
  do_filename :: string
  do_title_index :: nat
  do_title_identity :: "title_identity option"
  do_episode :: "nat option"
  do_episode_name :: string
  do_moved :: bool

definition default_output :: disc_output where
  "default_output = \<lparr>do_filename = [], do_title_index = 0, do_title_identity = None,
     do_episode = None, do_episode_name = [], do_moved = False\<rparr>"

record rip_stats =
  rs_elapsed_secs :: real
  rs_errors :: nat
  rs_lost_video_secs :: real
  rs_last_sector :: nat
  rs_sweep_errors :: nat
  rs_sweep_total_lost_ms :: real
  rs_sweep_main_lost_ms :: real
  rs_sweep_num_bad_ranges :: nat
  rs_sweep_largest_gap_ms :: real

definition default_rip_stats :: rip_stats where
  "default_rip_stats = \<lparr>rs_elapsed_secs = 0, rs_errors = 0, rs_lost_video_secs = 0, rs_last_sector = 0,
     rs_sweep_errors = 0, rs_sweep_total_lost_ms = 0, rs_sweep_main_lost_ms = 0,
     rs_sweep_num_bad_ranges = 0, rs_sweep_largest_gap_ms = 0\<rparr>"

definition disc_state_schema :: nat where
  "disc_state_schema = 2"

record disc_state =
  ds_schema :: "nat"
  ds_state :: "staging_state"
  ds_user_metadata :: "user_metadata option"
  ds_disc_identity :: "string"
  ds_metadata_revision :: "nat"
  ds_replan_required :: "bool"
  ds_title_identity_review :: "bool"
  ds_reset_in_progress :: "bool"
  ds_restart_count :: "nat"
  ds_muxing :: "bool"
  ds_accept_loss :: "bool"
  ds_failure_reason :: "string option"
  ds_aborted_loss_attempt :: "nat"
  ds_needs_disc :: "bool"
  ds_disc_label :: "string"
  ds_disc_name :: "string"
  ds_disc_format :: "string"
  ds_title :: "string"
  ds_year :: "nat"
  ds_media_type :: "media_kind"
  ds_tmdb_id :: "nat"
  ds_tmdb_poster :: "string"
  ds_tmdb_overview :: "string"
  ds_season :: "nat option"
  ds_disc_number :: "nat option"
  ds_episode_start :: "nat option"
  ds_title_confident :: "bool"
  ds_tmdb_confident :: "bool"
  ds_iso_path :: "string"
  ds_mapfile_path :: "string"
  ds_max_retries :: "nat"
  ds_abort_on_lost_secs :: "nat"
  ds_origin_device :: "string"
  ds_rip :: "rip_stats"
  ds_output_format :: "string option"
  ds_outputs :: "disc_output list"
  ds_date :: "string"
  ds_resumed :: "bool"

text \<open>\<open>DiscState::new\<close>.\<close>

definition new_state :: "staging_state \<Rightarrow> disc_state" where
  "new_state state =
    \<lparr>ds_schema = disc_state_schema, ds_state = state, ds_user_metadata = None, ds_disc_identity =
     [], ds_metadata_revision = 0, ds_replan_required = False, ds_title_identity_review = False,
     ds_reset_in_progress = False, ds_restart_count = 0, ds_muxing = False, ds_accept_loss =
     False, ds_failure_reason = None, ds_aborted_loss_attempt = 0, ds_needs_disc = False,
     ds_disc_label = [], ds_disc_name = [], ds_disc_format = [], ds_title = [], ds_year = 0,
     ds_media_type = Movie, ds_tmdb_id = 0, ds_tmdb_poster = [], ds_tmdb_overview = [], ds_season
     = None, ds_disc_number = None, ds_episode_start = None, ds_title_confident = False,
     ds_tmdb_confident = False, ds_iso_path = [], ds_mapfile_path = [], ds_max_retries = 0,
     ds_abort_on_lost_secs = 0, ds_origin_device = [], ds_rip = default_rip_stats,
     ds_output_format = None, ds_outputs = [], ds_date = [], ds_resumed = False\<rparr>"

section \<open>Operator metadata\<close>

definition shown_by :: "disc_state \<Rightarrow> user_metadata" where
  "shown_by st = \<lparr>um_title = ds_title st, um_year = ds_year st, um_media_type = ds_media_type st,
     um_episode_start = ds_episode_start st, um_tmdb_id = ds_tmdb_id st,
     um_poster_url = ds_tmdb_poster st, um_overview = ds_tmdb_overview st\<rparr>"

definition apply_metadata :: "user_metadata \<Rightarrow> disc_state \<Rightarrow> disc_state" where
  "apply_metadata m st = st\<lparr>ds_title := um_title m, ds_year := um_year m,
     ds_media_type := um_media_type m, ds_episode_start := um_episode_start m,
     ds_tmdb_id := um_tmdb_id m, ds_tmdb_poster := um_poster_url m,
     ds_tmdb_overview := um_overview m, ds_title_confident := True\<rparr>"

definition metadata_changes_plan :: "disc_state \<Rightarrow> user_metadata \<Rightarrow> bool" where
  "metadata_changes_plan st m \<longleftrightarrow> ds_media_type st \<noteq> um_media_type m
     \<or> (um_media_type m = Tv \<and> ds_tmdb_id st \<noteq> um_tmdb_id m)
     \<or> ds_episode_start st \<noteq> um_episode_start m"

definition reroute_replan :: "disc_state \<Rightarrow> disc_state" where
  "reroute_replan st =
     (if ds_replan_required st \<and> (ds_state st = Done \<or> ds_state st = Completed)
      then st\<lparr>ds_state := Ripped\<rparr> else st)"

definition apply_user_metadata :: "disc_state \<Rightarrow> disc_state" where
  "apply_user_metadata st =
     (if ds_title_identity_review st then st\<lparr>ds_state := Review\<rparr>
      else case ds_user_metadata st of
        None \<Rightarrow> reroute_replan st
      | Some m \<Rightarrow>
          let st1 = (if ds_outputs st \<noteq> [] \<and> metadata_changes_plan st m
                     then st\<lparr>ds_replan_required := True\<rparr> else st);
              st2 = apply_metadata m st1;
              st3 = (if ds_state st2 = Review
                        \<and> (ds_outputs st2 \<noteq> [] \<or> ds_iso_path st2 = [] \<or> ds_replan_required st2)
                     then st2\<lparr>ds_state := Done\<rparr> else st2)
          in reroute_replan st3)"

section \<open>Reading\<close>

text \<open>Why an existing \<open>state.json\<close> cannot be used; transient says a retry may succeed.\<close>

record state_unreadable =
  su_reason :: string
  su_transient :: bool
  su_detail :: string
  su_kind :: io_kind

definition unreadable_io :: "io_error \<Rightarrow> state_unreadable" where
  "unreadable_io e = \<lparr>su_reason = ''state.json could not be read (I/O error)'', su_transient = True,
     su_detail = err_text e, su_kind = err_kind e\<rparr>"

definition unreadable_invalid :: "string \<Rightarrow> state_unreadable" where
  "unreadable_invalid reason = \<lparr>su_reason = reason, su_transient = False, su_detail = [],
     su_kind = InvalidData\<rparr>"

definition log_text :: "state_unreadable \<Rightarrow> string" where
  "log_text u = (if su_detail u = [] then su_reason u else su_reason u @ '' ('' @ su_detail u @ '')'')"

definition state_held_prefix :: string where
  "state_held_prefix = ''Auto-resume held: ''"

definition held_reason :: "state_unreadable \<Rightarrow> string" where
  "held_reason u = state_held_prefix @ su_reason u"

definition to_io_error :: "state_unreadable \<Rightarrow> io_error" where
  "to_io_error u = IoError (su_kind u) (log_text u)"

type_synonym state_slot = "disc_state doc slot"

text \<open>What \<open>std::fs::read\<close> of the file answers.\<close>

definition read_bytes :: "io_error option \<Rightarrow> 'c slot \<Rightarrow> 'c io_result" where
  "read_bytes rd sl = (case rd of Some e \<Rightarrow> Inl e
     | None \<Rightarrow> (case slot_target sl of None \<Rightarrow> Inl (IoError NotFound ''no such file'') | Some c \<Rightarrow> Inr c))"

definition read_state :: "io_error option \<Rightarrow> state_slot \<Rightarrow> disc_state option" where
  "read_state rd sl = (case read_bytes rd sl of
       Inr (Json st) \<Rightarrow> if ds_schema st = disc_state_schema then Some st else None
     | _ \<Rightarrow> None)"

datatype state_read = StateAbsent | StateValid disc_state | StateUnreadable state_unreadable

definition read_state_checked :: "io_error option \<Rightarrow> state_slot \<Rightarrow> state_read" where
  "read_state_checked rd sl = (case read_bytes rd sl of
       Inl e \<Rightarrow> if err_kind e = NotFound then StateAbsent else StateUnreadable (unreadable_io e)
     | Inr (Json st) \<Rightarrow>
         if ds_schema st = disc_state_schema then StateValid st
         else StateUnreadable (unreadable_invalid (''state.json is schema '' @ show_nat (ds_schema st)
                @ '' (expected '' @ show_nat disc_state_schema @ '')''))
     | Inr (Damaged why) \<Rightarrow> StateUnreadable (unreadable_invalid (''state.json is unparseable: '' @ why)))"

definition state_for_write :: "staging_state \<Rightarrow> io_error option \<Rightarrow> state_slot \<Rightarrow> disc_state io_result" where
  "state_for_write d rd sl = (case read_state_checked rd sl of
       StateValid st \<Rightarrow>
         if ds_reset_in_progress st
         then Inl (io_other ''capture reset was interrupted; choose Start over to finish cleanup'')
         else Inr st
     | StateAbsent \<Rightarrow> Inr (new_state d)
     | StateUnreadable u \<Rightarrow> Inl (IoError (su_kind u) (held_reason u)))"

section \<open>Writing\<close>

definition state_file :: string where
  "state_file = ''state.json''"

definition state_path :: "path \<Rightarrow> path" where
  "state_path dir = path_join dir [Normal state_file]"

definition write_state_unlocked :: "path \<Rightarrow> disc_state \<Rightarrow> faults \<Rightarrow> state_slot \<Rightarrow> unit io_result \<times> state_slot" where
  "write_state_unlocked dir st w sl =
     (case ft_json w of
        Some e \<Rightarrow> (Inl (IoError InvalidData (''serialise state.json: '' @ err_text e)), sl)
      | None \<Rightarrow> write_marker_durable (state_path dir) (Json st) w sl)"

text \<open>What a worker's snapshot may not replace, taken from the saved state.\<close>

definition keep_operator_state :: "disc_state \<Rightarrow> disc_state \<Rightarrow> disc_state" where
  "keep_operator_state saved st =
     (let st1 = (if ds_output_format saved \<noteq> None then st\<lparr>ds_output_format := ds_output_format saved\<rparr> else st);
          st2 = st1\<lparr>ds_user_metadata := ds_user_metadata saved,
                    ds_metadata_revision := ds_metadata_revision saved,
                    ds_replan_required := ds_replan_required saved,
                    ds_title_identity_review := ds_title_identity_review saved\<rparr>
      in if ds_disc_identity saved \<noteq> [] then st2\<lparr>ds_disc_identity := ds_disc_identity saved\<rparr> else st2)"

definition try_write_state ::
    "path \<Rightarrow> disc_state \<Rightarrow> io_error option \<Rightarrow> faults \<Rightarrow> state_slot \<Rightarrow> unit io_result \<times> state_slot" where
  "try_write_state dir st rd w sl =
     (case read_state_checked rd sl of
        StateValid saved \<Rightarrow>
          if ds_reset_in_progress saved
          then (Inl (io_other ''capture reset must finish before writing job state''), sl)
          else write_state_unlocked dir (apply_user_metadata (keep_operator_state saved st)) w sl
      | StateUnreadable u \<Rightarrow> (Inl (to_io_error u), sl)
      | StateAbsent \<Rightarrow> write_state_unlocked dir (apply_user_metadata st) w sl)"

definition cancel_held :: "path \<Rightarrow> io_error option \<Rightarrow> faults \<Rightarrow> state_slot \<Rightarrow> bool io_result \<times> state_slot" where
  "cancel_held dir rd w sl =
     (case read_state_checked rd sl of
        StateValid st \<Rightarrow>
          if ds_state st = Review \<and> \<not> ds_reset_in_progress st
          then let st' = apply_user_metadata (st\<lparr>ds_state := Failed,
                     ds_failure_reason := Some ''cancelled by operator'', ds_muxing := False,
                     ds_title_identity_review := False\<rparr>)
               in (case write_state_unlocked dir st' w sl of
                     (Inl e, sl') \<Rightarrow> (Inl e, sl') | (Inr _, sl') \<Rightarrow> (Inr True, sl'))
          else (Inr False, sl)
      | StateAbsent \<Rightarrow> (Inr False, sl)
      | StateUnreadable u \<Rightarrow> (Inl (to_io_error u), sl))"

definition mutate_state ::
    "path \<Rightarrow> staging_state \<Rightarrow> (disc_state \<Rightarrow> disc_state) \<Rightarrow> io_error option \<Rightarrow> faults \<Rightarrow> state_slot
     \<Rightarrow> unit io_result \<times> state_slot" where
  "mutate_state dir d f rd w sl =
     (case state_for_write d rd sl of
        Inl e \<Rightarrow> (Inl e, sl)
      | Inr st \<Rightarrow> write_state_unlocked dir (apply_user_metadata (f st)) w sl)"

definition mutate_state_if_present ::
    "path \<Rightarrow> (disc_state \<Rightarrow> disc_state) \<Rightarrow> io_error option \<Rightarrow> faults \<Rightarrow> state_slot \<Rightarrow> state_slot" where
  "mutate_state_if_present dir f rd w sl =
     (case read_state rd sl of
        None \<Rightarrow> sl
      | Some st \<Rightarrow>
          if ds_reset_in_progress st then sl
          else snd (write_state_unlocked dir (apply_user_metadata (f st)) w sl))"

definition set_needs_disc :: "path \<Rightarrow> bool \<Rightarrow> io_error option \<Rightarrow> faults \<Rightarrow> state_slot \<Rightarrow> state_slot" where
  "set_needs_disc dir b rd w sl =
     (case read_state rd sl of
        Some st \<Rightarrow> if ds_needs_disc st \<noteq> b
          then mutate_state_if_present dir (\<lambda>st. st\<lparr>ds_needs_disc := b\<rparr>) rd w sl else sl
      | None \<Rightarrow> sl)"

definition accept_loss_reopen :: "disc_state \<Rightarrow> disc_state" where
  "accept_loss_reopen s =
     (if ds_state s = AbortedLoss \<or> ds_state s = Failed then s\<lparr>ds_state := Ripped\<rparr> else s)
       \<lparr>ds_failure_reason := None, ds_restart_count := 0\<rparr>"

end
