(* ===== verification/Staging_Metadata.thy ===== *)
theory Staging_Metadata
  imports Staging_State
begin

text \<open>
  The transactions on \<open>state.json\<close> that carry the operator's decisions (a corrected title, a
  confirmed review, a rebuilt plan), the hold for an unproved title, the capture start, and
  the hand-off record of the mux worker (\<open>server/ripper/staging.rs\<close>, \<open>server/muxer.rs\<close>).
  Then what these promise: operator state survives every worker write, an unreadable or half
  reset job is never written over, and a held review stays held.
\<close>

section \<open>Corrections\<close>

record origin =
  or_identity :: string
  or_label :: string
  or_device :: string

text \<open>\<open>saved_image_present\<close>: \<open>is_file\<close> answers for a file of the job, \<open>listed\<close> whether a
  listing finds an image with its map.\<close>

definition saved_image_present :: "(string \<Rightarrow> bool) \<Rightarrow> bool \<Rightarrow> disc_state \<Rightarrow> bool" where
  "saved_image_present is_file listed st = (if ds_iso_path st = [] then listed else is_file (ds_iso_path st))"

definition state_for_correction :: "origin option \<Rightarrow> io_error option \<Rightarrow> state_slot \<Rightarrow> disc_state io_result" where
  "state_for_correction origin rd sl =
     (case read_state_checked rd sl of
        StateValid st \<Rightarrow> Inr st
      | StateAbsent \<Rightarrow> if origin \<noteq> None then Inr (new_state Stopped)
          else Inl (io_other ''staging state unavailable; retry after scan'')
      | StateUnreadable u \<Rightarrow> Inl (to_io_error u))"

text \<open>The checks and changes of a correction, on the state it read.\<close>

definition correct_state ::
    "user_metadata \<Rightarrow> origin option \<Rightarrow> bool \<Rightarrow> (disc_state \<Rightarrow> bool) \<Rightarrow> disc_state \<Rightarrow> disc_state io_result" where
  "correct_state m origin require_review saved st =
     (if ds_reset_in_progress st then Inl (io_other ''capture reset is incomplete; finish Start over before editing metadata'')
      else if require_review \<and> ds_state st \<noteq> Review then Inl (io_other ''not a held rip'')
      else if ds_state st = Done \<or> ds_state st = Completed
      then Inl (io_other ''delivery has started; the staged job can no longer be retitled'')
      else if ds_title_identity_review st \<and> ds_iso_path st = []
      then Inl (io_other ''review needs the retained ISO to rebuild the title plan'')
      else
        let held = ds_title_identity_review st;
            st1 = (if held then st\<lparr>ds_title_identity_review := False, ds_replan_required := True\<rparr> else st);
            plan_changes = metadata_changes_plan st1 m
        in if plan_changes \<and> ds_max_retries st1 = 0 \<and> ds_iso_path st1 = []
              \<and> (ds_state st1 = Sweeping \<or> ds_outputs st1 \<noteq> [])
           then Inl (io_other ''changing the episode plan needs a saved ISO; stop this single-pass rip first'')
           else
             let replan = (plan_changes \<and> ds_outputs st1 \<noteq> [])
                   \<or> (ds_state st1 = Review \<and> ds_outputs st1 = [] \<and> ds_iso_path st1 \<noteq> []);
                 st2 = (if replan then st1\<lparr>ds_replan_required := True\<rparr> else st1)
             in if (held \<or> replan) \<and> \<not> saved st2
                then Inl (io_other ''this rip's saved disc image is no longer in staging (it is removed after muxing unless Keep ISO is on), so its title plan cannot be rebuilt. The correction was not saved; keep the current plan, or rip the disc again to change it'')
                else case checked_add 64 (ds_metadata_revision st2) 1 of
                  None \<Rightarrow> Inl (io_other ''metadata revision exhausted'')
                | Some revision \<Rightarrow>
                  let st3 = st2\<lparr>ds_metadata_revision := revision\<rparr>;
                      st4 = (case origin of None \<Rightarrow> st3
                             | Some g \<Rightarrow> st3\<lparr>ds_disc_identity := or_identity g, ds_disc_label := or_label g,
                                           ds_origin_device := or_device g\<rparr>);
                      st5 = apply_user_metadata (st4\<lparr>ds_user_metadata := Some m\<rparr>)
                  in Inr (if ds_state st5 = Ripped \<and> ds_replan_required st5
                          then st5\<lparr>ds_failure_reason := None, ds_needs_disc := False\<rparr> else st5))"

definition normal_metadata :: "user_metadata \<Rightarrow> user_metadata io_result" where
  "normal_metadata m =
     (if um_media_type m \<noteq> Tv then Inr (m\<lparr>um_episode_start := None\<rparr>)
      else if um_episode_start m = Some 0
      then Inl (io_other ''First episode must be between 1 and 65535'')
      else Inr m)"

definition save_user_metadata ::
    "path \<Rightarrow> user_metadata \<Rightarrow> origin option \<Rightarrow> bool \<Rightarrow> (disc_state \<Rightarrow> bool) \<Rightarrow> io_error option \<Rightarrow> faults
     \<Rightarrow> state_slot \<Rightarrow> nat io_result \<times> state_slot" where
  "save_user_metadata dir metadata origin require_review saved rd w sl =
     (case normal_metadata metadata of Inl e \<Rightarrow> (Inl e, sl)
      | Inr m \<Rightarrow>
        (case state_for_correction origin rd sl of Inl e \<Rightarrow> (Inl e, sl)
         | Inr st \<Rightarrow>
           (case correct_state m origin require_review saved st of Inl e \<Rightarrow> (Inl e, sl)
            | Inr st' \<Rightarrow>
              (case write_state_unlocked dir st' w sl of
                 (Inl e, sl') \<Rightarrow> (Inl e, sl')
               | (Inr _, sl') \<Rightarrow> (Inr (ds_metadata_revision st'), sl')))))"

definition save_replanned_outputs ::
    "path \<Rightarrow> nat \<Rightarrow> disc_output list \<Rightarrow> io_error option \<Rightarrow> faults \<Rightarrow> state_slot \<Rightarrow> unit io_result \<times> state_slot" where
  "save_replanned_outputs dir revision outputs rd w sl =
     (case state_for_write Ripped rd sl of Inl e \<Rightarrow> (Inl e, sl)
      | Inr st \<Rightarrow>
          if ds_metadata_revision st \<noteq> revision
          then (Inl (io_other ''title changed while planning; retrying with the latest selection''), sl)
          else write_state_unlocked dir (st\<lparr>ds_outputs := outputs, ds_replan_required := False\<rparr>) w sl)"

definition hold_title_identity_review ::
    "path \<Rightarrow> string \<Rightarrow> string \<Rightarrow> string \<Rightarrow> io_error option \<Rightarrow> faults \<Rightarrow> state_slot \<Rightarrow> unit io_result \<times> state_slot" where
  "hold_title_identity_review dir image_path mapfile reason rd w sl =
     (case state_for_write Review rd sl of Inl e \<Rightarrow> (Inl e, sl)
      | Inr st \<Rightarrow>
          write_state_unlocked dir
            (st\<lparr>ds_state := Review, ds_title_identity_review := True, ds_failure_reason := Some reason,
               ds_needs_disc := False, ds_iso_path := image_path, ds_mapfile_path := mapfile\<rparr>) w sl)"

section \<open>Capture\<close>

definition start_sweep ::
    "path \<Rightarrow> (disc_state \<Rightarrow> disc_state) \<Rightarrow> io_error option \<Rightarrow> faults \<Rightarrow> state_slot \<Rightarrow> unit io_result \<times> state_slot" where
  "start_sweep dir f = mutate_state dir Sweeping
     (\<lambda>s. f (s\<lparr>ds_state := Sweeping, ds_accept_loss := False, ds_needs_disc := False,
              ds_failure_reason := None\<rparr>))"

definition begin_capture ::
    "path \<Rightarrow> nat \<Rightarrow> string \<Rightarrow> io_error option \<Rightarrow> faults \<Rightarrow> state_slot \<Rightarrow> disc_state io_result \<times> state_slot" where
  "begin_capture dir max_retries identity rd w sl =
     (case state_for_write Sweeping rd sl of Inl e \<Rightarrow> (Inl e, sl)
      | Inr st \<Rightarrow>
          if identity \<noteq> [] \<and> ds_disc_identity st \<noteq> [] \<and> ds_disc_identity st \<noteq> identity
          then (Inl (io_other ''staging identity changed; nothing was captured''), sl)
          else
            let st1 = (if identity \<noteq> [] \<and> ds_disc_identity st = [] then st\<lparr>ds_disc_identity := identity\<rparr> else st);
                st2 = apply_user_metadata (st1\<lparr>ds_state := Sweeping, ds_max_retries := max_retries\<rparr>)
            in (case write_state_unlocked dir st2 w sl of
                  (Inl e, sl') \<Rightarrow> (Inl e, sl') | (Inr _, sl') \<Rightarrow> (Inr st2, sl')))"

definition stamp_capture_label :: "string \<Rightarrow> disc_state \<Rightarrow> disc_state" where
  "stamp_capture_label label st = st\<lparr>ds_disc_label := label, ds_disc_name := label\<rparr>"

definition stamp_capture_plan ::
    "('r plan_error + disc_output list) option \<Rightarrow> disc_state \<Rightarrow> string list \<times> disc_state" where
  "stamp_capture_plan planned st =
     (map do_filename (filter (\<lambda>x. \<not> do_moved x) (ds_outputs st)),
      (case planned of None \<Rightarrow> st | Some (Inr outputs) \<Rightarrow> st\<lparr>ds_outputs := outputs\<rparr>
       | Some (Inl _) \<Rightarrow> st\<lparr>ds_outputs := []\<rparr>))"

section \<open>The hand-off record\<close>

record ripped_marker =
  rm_schema_version :: nat
  rm_iso_path :: string
  rm_mapfile_path :: string
  rm_display_name :: string
  rm_disc_format :: string
  rm_mkv_filename :: string
  rm_tmdb_title :: string
  rm_tmdb_year :: nat
  rm_tmdb_poster :: string
  rm_tmdb_overview :: string
  rm_tmdb_media_type :: media_kind
  rm_max_retries :: nat
  rm_abort_on_lost_secs :: nat
  rm_rip_elapsed_secs :: real
  rm_rip_errors :: nat
  rm_rip_lost_video_secs :: real
  rm_rip_last_sector :: nat
  rm_origin_device :: string
  rm_sweep_errors :: nat
  rm_sweep_total_lost_ms :: real
  rm_sweep_main_lost_ms :: real
  rm_sweep_num_bad_ranges :: nat
  rm_sweep_largest_gap_ms :: real
  rm_title_confident :: bool

definition ripped_marker_schema :: nat where
  "ripped_marker_schema = 1"

definition to_ripped_marker :: "disc_state \<Rightarrow> ripped_marker" where
  "to_ripped_marker s =
    \<lparr>rm_schema_version = ripped_marker_schema, rm_iso_path = ds_iso_path s,
     rm_mapfile_path = ds_mapfile_path s, rm_display_name = ds_title s,
     rm_disc_format = ds_disc_format s,
     rm_mkv_filename = (case ds_outputs s of [] \<Rightarrow> [] | x # _ \<Rightarrow> do_filename x),
     rm_tmdb_title = ds_title s, rm_tmdb_year = ds_year s, rm_tmdb_poster = ds_tmdb_poster s,
     rm_tmdb_overview = ds_tmdb_overview s, rm_tmdb_media_type = ds_media_type s,
     rm_max_retries = ds_max_retries s, rm_abort_on_lost_secs = ds_abort_on_lost_secs s,
     rm_rip_elapsed_secs = rs_elapsed_secs (ds_rip s), rm_rip_errors = rs_errors (ds_rip s),
     rm_rip_lost_video_secs = rs_lost_video_secs (ds_rip s), rm_rip_last_sector = rs_last_sector (ds_rip s),
     rm_origin_device = ds_origin_device s, rm_sweep_errors = rs_sweep_errors (ds_rip s),
     rm_sweep_total_lost_ms = rs_sweep_total_lost_ms (ds_rip s),
     rm_sweep_main_lost_ms = rs_sweep_main_lost_ms (ds_rip s),
     rm_sweep_num_bad_ranges = rs_sweep_num_bad_ranges (ds_rip s),
     rm_sweep_largest_gap_ms = rs_sweep_largest_gap_ms (ds_rip s),
     rm_title_confident = ds_title_confident s\<rparr>"

definition apply_ripped :: "ripped_marker \<Rightarrow> disc_state \<Rightarrow> disc_state" where
  "apply_ripped m s =
    (let s1 = s\<lparr>ds_iso_path := rm_iso_path m, ds_mapfile_path := rm_mapfile_path m,
        ds_disc_format := rm_disc_format m, ds_title := rm_tmdb_title m, ds_year := rm_tmdb_year m,
        ds_tmdb_poster := rm_tmdb_poster m, ds_tmdb_overview := rm_tmdb_overview m,
        ds_media_type := rm_tmdb_media_type m, ds_max_retries := rm_max_retries m,
        ds_abort_on_lost_secs := rm_abort_on_lost_secs m, ds_origin_device := rm_origin_device m,
        ds_title_confident := rm_title_confident m,
        ds_rip := \<lparr>rs_elapsed_secs = rm_rip_elapsed_secs m, rs_errors = rm_rip_errors m,
          rs_lost_video_secs = rm_rip_lost_video_secs m, rs_last_sector = rm_rip_last_sector m,
          rs_sweep_errors = rm_sweep_errors m, rs_sweep_total_lost_ms = rm_sweep_total_lost_ms m,
          rs_sweep_main_lost_ms = rm_sweep_main_lost_ms m,
          rs_sweep_num_bad_ranges = rm_sweep_num_bad_ranges m,
          rs_sweep_largest_gap_ms = rm_sweep_largest_gap_ms m\<rparr>\<rparr>;
         s2 = (if ds_title s1 = [] then s1\<lparr>ds_title := rm_display_name m\<rparr> else s1)
     in if ds_outputs s2 = [] \<and> rm_mkv_filename m \<noteq> []
        then s2\<lparr>ds_outputs := [default_output\<lparr>do_filename := rm_mkv_filename m\<rparr>]\<rparr> else s2)"



section \<open>What the writers promise\<close>

text \<open>Reading back what is there.\<close>

lemma read_state_checked_valid:
  "read_state_checked rd sl = StateValid st \<longleftrightarrow>
     rd = None \<and> slot_target sl = Some (Json st) \<and> ds_schema st = disc_state_schema"
  by (auto simp: read_state_checked_def read_bytes_def split: option.splits doc.splits if_splits)

lemma read_state_valid: "read_state rd sl = Some st \<longleftrightarrow> read_state_checked rd sl = StateValid st"
  by (auto simp: read_state_def read_state_checked_def read_bytes_def split: option.splits doc.splits if_splits)

lemma write_state_unlocked_cases:
  "write_state_unlocked dir st w sl = (r, sl') \<Longrightarrow>
     slot_target sl' = Some (Json st) \<or> (\<exists>e. r = Inl e \<and> slot_target sl' = slot_target sl)"
  by (auto simp: write_state_unlocked_def split: option.splits dest: write_marker_durable_cases)

lemma write_state_unlocked_ok:
  "write_state_unlocked dir st w sl = (Inr u, sl') \<Longrightarrow> slot_target sl' = Some (Json st)"
  by (auto dest: write_state_unlocked_cases)

lemma write_state_unlocked_target:
  "slot_target (snd (write_state_unlocked dir st w sl)) \<in> {slot_target sl, Some (Json st)}"
  using write_state_unlocked_cases [of dir st w sl] by (cases "write_state_unlocked dir st w sl") auto

text \<open>What applying the operator's selection leaves alone.\<close>

lemma reroute_replan_sel [simp]:
  "ds_user_metadata (reroute_replan st) = ds_user_metadata st"
  "ds_metadata_revision (reroute_replan st) = ds_metadata_revision st"
  "ds_title_identity_review (reroute_replan st) = ds_title_identity_review st"
  "ds_replan_required (reroute_replan st) = ds_replan_required st"
  "ds_output_format (reroute_replan st) = ds_output_format st"
  "ds_disc_identity (reroute_replan st) = ds_disc_identity st"
  "ds_schema (reroute_replan st) = ds_schema st"
  "ds_outputs (reroute_replan st) = ds_outputs st"
  "ds_iso_path (reroute_replan st) = ds_iso_path st"
  "ds_reset_in_progress (reroute_replan st) = ds_reset_in_progress st"
  "ds_restart_count (reroute_replan st) = ds_restart_count st"
  "ds_muxing (reroute_replan st) = ds_muxing st"
  "ds_failure_reason (reroute_replan st) = ds_failure_reason st"
  "ds_aborted_loss_attempt (reroute_replan st) = ds_aborted_loss_attempt st"
  "shown_by (reroute_replan st) = shown_by st"
  by (simp_all add: reroute_replan_def shown_by_def)

lemma apply_metadata_sel [simp]:
  "ds_user_metadata (apply_metadata m st) = ds_user_metadata st"
  "ds_metadata_revision (apply_metadata m st) = ds_metadata_revision st"
  "ds_title_identity_review (apply_metadata m st) = ds_title_identity_review st"
  "ds_replan_required (apply_metadata m st) = ds_replan_required st"
  "ds_output_format (apply_metadata m st) = ds_output_format st"
  "ds_disc_identity (apply_metadata m st) = ds_disc_identity st"
  "ds_schema (apply_metadata m st) = ds_schema st"
  "ds_outputs (apply_metadata m st) = ds_outputs st"
  "ds_iso_path (apply_metadata m st) = ds_iso_path st"
  "ds_reset_in_progress (apply_metadata m st) = ds_reset_in_progress st"
  "ds_restart_count (apply_metadata m st) = ds_restart_count st"
  "ds_muxing (apply_metadata m st) = ds_muxing st"
  "ds_failure_reason (apply_metadata m st) = ds_failure_reason st"
  "ds_aborted_loss_attempt (apply_metadata m st) = ds_aborted_loss_attempt st"
  "ds_state (apply_metadata m st) = ds_state st"
  "shown_by (apply_metadata m st) = m"
  by (simp_all add: apply_metadata_def shown_by_def)

lemma apply_user_metadata_sel [simp]:
  "ds_user_metadata (apply_user_metadata st) = ds_user_metadata st"
  "ds_metadata_revision (apply_user_metadata st) = ds_metadata_revision st"
  "ds_title_identity_review (apply_user_metadata st) = ds_title_identity_review st"
  "ds_output_format (apply_user_metadata st) = ds_output_format st"
  "ds_disc_identity (apply_user_metadata st) = ds_disc_identity st"
  "ds_schema (apply_user_metadata st) = ds_schema st"
  "ds_outputs (apply_user_metadata st) = ds_outputs st"
  "ds_iso_path (apply_user_metadata st) = ds_iso_path st"
  "ds_reset_in_progress (apply_user_metadata st) = ds_reset_in_progress st"
  "ds_restart_count (apply_user_metadata st) = ds_restart_count st"
  "ds_muxing (apply_user_metadata st) = ds_muxing st"
  "ds_failure_reason (apply_user_metadata st) = ds_failure_reason st"
  "ds_aborted_loss_attempt (apply_user_metadata st) = ds_aborted_loss_attempt st"
  by (auto simp: apply_user_metadata_def Let_def split: option.split)

lemma apply_user_metadata_replan:
  "ds_replan_required st \<Longrightarrow> ds_replan_required (apply_user_metadata st)"
  by (auto simp: apply_user_metadata_def Let_def split: option.split)

lemma apply_user_metadata_review:
  "ds_title_identity_review st \<Longrightarrow> ds_state (apply_user_metadata st) = Review"
  by (simp add: apply_user_metadata_def)

lemma apply_user_metadata_shown:
  "\<not> ds_title_identity_review st \<Longrightarrow> ds_user_metadata st = Some m \<Longrightarrow> shown_by (apply_user_metadata st) = m"
  by (auto simp: apply_user_metadata_def Let_def) (auto simp: shown_by_def apply_metadata_def)

text \<open>The lifecycle states that only a completed mux or an operator can reach stay untouched
  by the selection, but for a review it settles and a delivery it sends back.\<close>

lemma apply_user_metadata_state:
  "ds_state st \<in> {Sweeping, Stopped, Failed, AbortedLoss, Ripped} \<Longrightarrow> \<not> ds_title_identity_review st
   \<Longrightarrow> ds_state (apply_user_metadata st) = ds_state st"
  by (auto simp: apply_user_metadata_def reroute_replan_def Let_def split: option.split)

definition operator_state_kept :: "disc_state \<Rightarrow> disc_state \<Rightarrow> bool" where
  "operator_state_kept saved st \<longleftrightarrow>
     ds_user_metadata st = ds_user_metadata saved
   \<and> ds_metadata_revision st = ds_metadata_revision saved
   \<and> ds_title_identity_review st = ds_title_identity_review saved
   \<and> (ds_replan_required saved \<longrightarrow> ds_replan_required st)
   \<and> (ds_output_format saved \<noteq> None \<longrightarrow> ds_output_format st = ds_output_format saved)
   \<and> (ds_disc_identity saved \<noteq> [] \<longrightarrow> ds_disc_identity st = ds_disc_identity saved)
   \<and> (ds_title_identity_review saved \<longrightarrow> ds_state st = Review)"

lemma keep_operator_state_kept: "operator_state_kept saved (apply_user_metadata (keep_operator_state saved st))"
proof -
  let ?k = "keep_operator_state saved st"
  have k: "ds_user_metadata ?k = ds_user_metadata saved" "ds_metadata_revision ?k = ds_metadata_revision saved"
    "ds_title_identity_review ?k = ds_title_identity_review saved" "ds_replan_required ?k = ds_replan_required saved"
    "ds_output_format saved \<noteq> None \<Longrightarrow> ds_output_format ?k = ds_output_format saved"
    "ds_disc_identity saved \<noteq> [] \<Longrightarrow> ds_disc_identity ?k = ds_disc_identity saved"
    by (simp_all add: keep_operator_state_def Let_def)
  then show ?thesis
    using apply_user_metadata_replan [of ?k] apply_user_metadata_review [of ?k]
    by (simp add: operator_state_kept_def)
qed

text \<open>
  C35: a worker's snapshot never replaces what the operator decided: whatever it writes over a
  saved state keeps the correction, its revision, a required replan, a review hold, the
  capture's output format and the disc's identity; a write that succeeds is on disk, one
  that fails leaves the old state or that one.
\<close>

theorem worker_write_keeps_operator_state:
  assumes "read_state_checked rd sl = StateValid saved" and "try_write_state dir st rd w sl = (r, sl')"
  shows "slot_target sl' = slot_target sl \<and> r \<noteq> Inr ()
    \<or> (\<exists>st'. slot_target sl' = Some (Json st') \<and> operator_state_kept saved st')"
proof (cases "ds_reset_in_progress saved")
  case True
  with assms show ?thesis by (auto simp: try_write_state_def)
next
  case False
  with assms have "write_state_unlocked dir (apply_user_metadata (keep_operator_state saved st)) w sl = (r, sl')"
    by (simp add: try_write_state_def)
  from write_state_unlocked_cases [OF this] keep_operator_state_kept [of saved st] show ?thesis by auto
qed

section \<open>Every writer at once\<close>

datatype state_op =
    WriteSnapshot disc_state
  | Mutate staging_state "disc_state \<Rightarrow> disc_state"
  | MutateIfPresent "disc_state \<Rightarrow> disc_state"
  | SetNeedsDisc bool
  | Correct user_metadata "origin option" bool "disc_state \<Rightarrow> bool"
  | Replan nat "disc_output list"
  | HoldReview string string string
  | CancelHeld
  | BeginCapture nat string

fun run_state_op :: "path \<Rightarrow> state_op \<Rightarrow> io_error option \<Rightarrow> faults \<Rightarrow> state_slot \<Rightarrow> state_slot" where
  "run_state_op dir (WriteSnapshot st) rd w sl = snd (try_write_state dir st rd w sl)"
| "run_state_op dir (Mutate d f) rd w sl = snd (mutate_state dir d f rd w sl)"
| "run_state_op dir (MutateIfPresent f) rd w sl = mutate_state_if_present dir f rd w sl"
| "run_state_op dir (SetNeedsDisc b) rd w sl = set_needs_disc dir b rd w sl"
| "run_state_op dir (Correct m origin rr saved) rd w sl = snd (save_user_metadata dir m origin rr saved rd w sl)"
| "run_state_op dir (Replan n outs) rd w sl = snd (save_replanned_outputs dir n outs rd w sl)"
| "run_state_op dir (HoldReview i m reason) rd w sl = snd (hold_title_identity_review dir i m reason rd w sl)"
| "run_state_op dir CancelHeld rd w sl = snd (cancel_held dir rd w sl)"
| "run_state_op dir (BeginCapture n i) rd w sl = snd (begin_capture dir n i rd w sl)"

definition state_blocked :: "io_error option \<Rightarrow> state_slot \<Rightarrow> bool" where
  "state_blocked rd sl \<longleftrightarrow> (case read_state_checked rd sl of StateAbsent \<Rightarrow> False
     | StateValid st \<Rightarrow> ds_reset_in_progress st | StateUnreadable _ \<Rightarrow> True)"

lemma blocked_untouched:
  assumes "state_blocked rd sl"
  shows "run_state_op dir opn rd w sl = sl"
proof -
  from assms consider u where "read_state_checked rd sl = StateUnreadable u"
    | st where "read_state_checked rd sl = StateValid st" "ds_reset_in_progress st"
    by (auto simp: state_blocked_def split: state_read.splits)
  then show ?thesis
  proof cases
    case 1
    then have "\<forall>st. read_state rd sl \<noteq> Some st" by (simp add: read_state_valid)
    then have "read_state rd sl = None" by auto
    with 1 show ?thesis
      by (cases opn) (auto simp: try_write_state_def mutate_state_def mutate_state_if_present_def
          set_needs_disc_def save_user_metadata_def save_replanned_outputs_def hold_title_identity_review_def
          cancel_held_def begin_capture_def state_for_write_def state_for_correction_def split: sum.split)
  next
    case 2
    then have "read_state rd sl = Some st" by (simp add: read_state_valid)
    with 2 show ?thesis
      by (cases opn) (auto simp: try_write_state_def mutate_state_def mutate_state_if_present_def
          set_needs_disc_def save_user_metadata_def save_replanned_outputs_def hold_title_identity_review_def
          cancel_held_def begin_capture_def state_for_write_def state_for_correction_def correct_state_def
          split: sum.split)
  qed
qed


text \<open>
  A \<open>state.json\<close> that cannot be read or trusted, or whose Start over was interrupted, is
  never written over by any transition: the plan it holds waits for the operator.
\<close>

theorem blocked_state_untouched:
  assumes "state_blocked rd sl"
  shows "run_state_op dir opn rd w sl = sl"
  using assms by (rule blocked_untouched)

section \<open>A held review\<close>

definition review_held :: "disc_state \<Rightarrow> bool" where
  "review_held st \<longleftrightarrow> ds_title_identity_review st \<and> ds_state st = Review \<and> ds_schema st = disc_state_schema"

text \<open>Closures the worker passes never touch the hold or the schema.\<close>

fun keeps_hold :: "state_op \<Rightarrow> bool" where
  "keeps_hold (WriteSnapshot st) = (ds_schema st = disc_state_schema)"
| "keeps_hold (Mutate d f) = (\<forall>st. ds_title_identity_review (f st) = ds_title_identity_review st \<and> ds_schema (f st) = ds_schema st)"
| "keeps_hold (MutateIfPresent f) = (\<forall>st. ds_title_identity_review (f st) = ds_title_identity_review st \<and> ds_schema (f st) = ds_schema st)"
| "keeps_hold (Correct m origin rr saved) = False"
| "keeps_hold CancelHeld = False"
| "keeps_hold _ = True"

lemma held_after:
  "ds_title_identity_review st \<Longrightarrow> ds_schema st = disc_state_schema \<Longrightarrow> review_held (apply_user_metadata st)"
  by (simp add: review_held_def apply_user_metadata_review)

lemma keep_operator_state_schema [simp]: "ds_schema (keep_operator_state saved st) = ds_schema st"
  by (simp add: keep_operator_state_def Let_def)

lemma keep_operator_state_review [simp]:
  "ds_title_identity_review (keep_operator_state saved st) = ds_title_identity_review saved"
  by (simp add: keep_operator_state_def Let_def)

lemma review_held_replanned [simp]:
  "review_held (st\<lparr>ds_outputs := outs, ds_replan_required := b\<rparr>) = review_held st"
  by (simp add: review_held_def)

lemma review_held_made [simp]:
  "review_held (st\<lparr>ds_state := Review, ds_title_identity_review := True, ds_failure_reason := r,
     ds_needs_disc := b, ds_iso_path := i, ds_mapfile_path := m\<rparr>) \<longleftrightarrow> ds_schema st = disc_state_schema"
  by (simp add: review_held_def)

lemma written_held:
  "slot_target sl = Some (Json st) \<Longrightarrow> review_held st \<Longrightarrow> review_held st2 \<Longrightarrow>
   \<exists>st'. slot_target (snd (write_state_unlocked dir st2 w sl)) = Some (Json st') \<and> review_held st'"
  using write_state_unlocked_target [of dir st2 w sl] by auto

text \<open>
  A job held for its title's identity stays held in Review, whatever worker transition runs
  on it and whatever fails: only the operator's confirmation or cancellation ends the hold.
\<close>

theorem held_review_stays:
  assumes target: "slot_target sl = Some (Json st)" and held: "review_held st" and opn: "keeps_hold opn"
    and honest: "\<forall>e. rd = Some e \<longrightarrow> err_kind e \<noteq> NotFound"
  shows "\<exists>st'. slot_target (run_state_op dir opn rd w sl) = Some (Json st') \<and> review_held st'"
proof (cases "state_blocked rd sl")
  case True
  with target held show ?thesis by (simp add: blocked_untouched)
next
  case False
  have rd: "rd = None"
    using False honest by (cases rd) (auto simp: state_blocked_def read_state_checked_def read_bytes_def)
  have flags: "ds_title_identity_review st" "ds_schema st = disc_state_schema"
    using held by (simp_all add: review_held_def)
  have valid: "read_state_checked rd sl = StateValid st" using target flags rd by (simp add: read_state_checked_valid)
  then have present: "read_state rd sl = Some st" and idle: "\<not> ds_reset_in_progress st"
    using False by (simp_all add: read_state_valid state_blocked_def)
  have for_write: "state_for_write d rd sl = Inr st" for d using valid idle by (simp add: state_for_write_def)
  note put = written_held [OF target held]
  have same: "\<exists>st'. slot_target sl = Some (Json st') \<and> review_held st'" using target held by blast
  show ?thesis
  proof (cases opn)
    case (WriteSnapshot x)
    with opn flags valid idle show ?thesis by (simp add: try_write_state_def put held_after)
  next
    case (Mutate d f)
    with opn flags show ?thesis by (simp add: mutate_state_def for_write put held_after)
  next
    case (MutateIfPresent f)
    with opn flags idle show ?thesis by (simp add: mutate_state_if_present_def present put held_after)
  next
    case (SetNeedsDisc b)
    with flags idle same show ?thesis
      by (simp add: set_needs_disc_def mutate_state_if_present_def present put held_after)
  next
    case (Replan n outs)
    with same held show ?thesis by (simp add: save_replanned_outputs_def for_write put)
  next
    case (HoldReview i m reason)
    with flags show ?thesis by (simp add: hold_title_identity_review_def for_write put)
  next
    case (BeginCapture n i)
    with flags same show ?thesis
      by (auto simp: begin_capture_def for_write case_prod_beta Let_def put held_after split: sum.split)
  qed (use opn in auto)
qed

section \<open>Corrections\<close>

definition settled :: "disc_state \<Rightarrow> disc_state" where
  "settled x = (if ds_state (apply_user_metadata x) = Ripped \<and> ds_replan_required (apply_user_metadata x)
     then (apply_user_metadata x)\<lparr>ds_failure_reason := None, ds_needs_disc := False\<rparr> else apply_user_metadata x)"

lemma correct_state_Inr:
  assumes "correct_state m origin rr saved st = Inr st'"
  shows "\<not> ds_reset_in_progress st \<and> ds_state st \<notin> {Done, Completed} \<and> (rr \<longrightarrow> ds_state st = Review)
    \<and> ds_metadata_revision st' = ds_metadata_revision st + 1 \<and> ds_metadata_revision st' \<le> max_uint 64
    \<and> ds_user_metadata st' = Some m \<and> shown_by st' = m \<and> \<not> ds_title_identity_review st'
    \<and> (ds_title_identity_review st \<longrightarrow> ds_replan_required st') \<and> (\<exists>x. st' = settled x)"
proof -
  define held where "held = ds_title_identity_review st"
  define st1 where "st1 = (if held then st\<lparr>ds_title_identity_review := False, ds_replan_required := True\<rparr> else st)"
  define replan where "replan = ((metadata_changes_plan st1 m \<and> ds_outputs st1 \<noteq> [])
                   \<or> (ds_state st1 = Review \<and> ds_outputs st1 = [] \<and> ds_iso_path st1 \<noteq> []))"
  define st2 where "st2 = (if replan then st1\<lparr>ds_replan_required := True\<rparr> else st1)"
  from assms have pre: "\<not> ds_reset_in_progress st" "ds_state st \<notin> {Done, Completed}" "rr \<longrightarrow> ds_state st = Review"
    by (auto simp: correct_state_def split: if_splits)
  from assms obtain rv where rv: "checked_add 64 (ds_metadata_revision st2) 1 = Some rv"
    and st': "st' = (let st3 = st2\<lparr>ds_metadata_revision := rv\<rparr>;
                      st4 = (case origin of None \<Rightarrow> st3
                             | Some g \<Rightarrow> st3\<lparr>ds_disc_identity := or_identity g, ds_disc_label := or_label g,
                                           ds_origin_device := or_device g\<rparr>);
                      st5 = apply_user_metadata (st4\<lparr>ds_user_metadata := Some m\<rparr>)
                  in if ds_state st5 = Ripped \<and> ds_replan_required st5
                     then st5\<lparr>ds_failure_reason := None, ds_needs_disc := False\<rparr> else st5)"
    unfolding correct_state_def held_def [symmetric] st1_def [symmetric] replan_def [symmetric] st2_def [symmetric] Let_def
    by (auto split: if_splits option.splits)
  have rev2: "ds_metadata_revision st2 = ds_metadata_revision st" "\<not> ds_title_identity_review st2"
    "held \<longrightarrow> ds_replan_required st2"
    by (simp_all add: st2_def st1_def held_def)
  define st4 where "st4 = (case origin of None \<Rightarrow> st2\<lparr>ds_metadata_revision := rv\<rparr>
      | Some g \<Rightarrow> st2\<lparr>ds_metadata_revision := rv\<rparr>\<lparr>ds_disc_identity := or_identity g,
          ds_disc_label := or_label g, ds_origin_device := or_device g\<rparr>)\<lparr>ds_user_metadata := Some m\<rparr>"
  have st4: "ds_metadata_revision st4 = rv" "ds_user_metadata st4 = Some m" "\<not> ds_title_identity_review st4"
    "held \<longrightarrow> ds_replan_required st4"
    using rev2 by (simp_all add: st4_def split: option.split)
  let ?st5 = "apply_user_metadata st4"
  have st5: "st' = (if ds_state ?st5 = Ripped \<and> ds_replan_required ?st5
                     then ?st5\<lparr>ds_failure_reason := None, ds_needs_disc := False\<rparr> else ?st5)"
    unfolding st' Let_def st4_def by simp
  have settled: "\<exists>x. st' = settled x" using st5 unfolding settled_def by blast
  have "shown_by ?st5 = m" by (rule apply_user_metadata_shown [OF st4(3,2)])
  then have "shown_by st' = m" unfolding st5 by (simp add: shown_by_def)
  moreover have "held \<longrightarrow> ds_replan_required st'" using st4(4) apply_user_metadata_replan unfolding st5 by simp
  moreover have "ds_metadata_revision st' = rv" "ds_user_metadata st' = Some m" "\<not> ds_title_identity_review st'"
    using st4 unfolding st5 by simp_all
  moreover have "rv = ds_metadata_revision st + 1" "rv \<le> max_uint 64"
    using rv rev2 by (simp_all add: checked_add_Some_iff)
  ultimately show ?thesis using pre settled by (simp add: held_def)
qed

text \<open>
  C36: a correction is acknowledged only when it is on disk. An accepted one raises the
  revision by exactly one, shows what the operator chose, ends a title hold with a replan,
  and never retitles a delivery; a refused one leaves the state, or, when only the
  folder's sync failed, has already saved it.
\<close>

theorem correction_commits:
  assumes "read_state_checked rd sl = StateValid st"
    and "save_user_metadata dir metadata origin rr saved rd w sl = (r, sl')"
  shows "case r of
      Inr revision \<Rightarrow> ds_state st \<notin> {Done, Completed} \<and> revision = ds_metadata_revision st + 1
        \<and> (\<exists>st' m. normal_metadata metadata = Inr m \<and> slot_target sl' = Some (Json st')
             \<and> ds_metadata_revision st' = revision \<and> ds_user_metadata st' = Some m \<and> shown_by st' = m
             \<and> \<not> ds_title_identity_review st'
             \<and> (ds_title_identity_review st \<longrightarrow> ds_replan_required st'))
    | Inl _ \<Rightarrow> slot_target sl' = slot_target sl
        \<or> (\<exists>st' m. normal_metadata metadata = Inr m \<and> correct_state m origin rr saved st = Inr st'
             \<and> slot_target sl' = Some (Json st'))"
proof (cases "normal_metadata metadata")
  case (Inl e)
  with assms(2) show ?thesis by (auto simp: save_user_metadata_def)
next
  case (Inr m)
  have st: "state_for_correction origin rd sl = Inr st" using assms(1) by (simp add: state_for_correction_def)
  show ?thesis
  proof (cases "correct_state m origin rr saved st")
    case (Inl e)
    with assms(2) Inr st show ?thesis by (auto simp: save_user_metadata_def)
  next
    case ok: (Inr st')
    obtain r' sl1 where w: "write_state_unlocked dir st' w sl = (r', sl1)" by fastforce
    have sl': "sl' = sl1" "r = (case r' of Inl e \<Rightarrow> Inl e | Inr _ \<Rightarrow> Inr (ds_metadata_revision st'))"
      using assms(2) Inr st ok w by (auto simp: save_user_metadata_def split: sum.splits)
    show ?thesis
    proof (cases r')
      case (Inl e)
      with write_state_unlocked_cases [OF w] Inr ok sl' show ?thesis by auto
    next
      case (Inr u)
      from write_state_unlocked_ok [OF w [unfolded Inr]] correct_state_Inr [OF ok] sl' Inr \<open>normal_metadata metadata = Inr m\<close>
      show ?thesis by auto
    qed
  qed
qed

text \<open>
  A rebuilt plan is saved only for the metadata it was built from: a correction made in the
  meantime refuses it and stays.
\<close>

theorem replan_needs_current_revision:
  assumes "read_state_checked rd sl = StateValid st"
    and "save_replanned_outputs dir revision outputs rd w sl = (Inr (), sl')"
  shows "revision = ds_metadata_revision st
    \<and> slot_target sl' = Some (Json (st\<lparr>ds_outputs := outputs, ds_replan_required := False\<rparr>))"
  using assms
  by (auto simp: save_replanned_outputs_def state_for_write_def split: if_splits dest: write_state_unlocked_ok)

section \<open>A job that needs a new plan is not delivered\<close>

definition replan_ok :: "state_slot \<Rightarrow> bool" where
  "replan_ok sl \<longleftrightarrow> (case slot_target sl of
     Some (Json st) \<Rightarrow> \<not> (ds_replan_required st \<and> (ds_state st = Done \<or> ds_state st = Completed)) | _ \<Rightarrow> True)"

lemma apply_user_metadata_ready:
  "\<not> (ds_replan_required (apply_user_metadata st)
      \<and> (ds_state (apply_user_metadata st) = Done \<or> ds_state (apply_user_metadata st) = Completed))"
  by (auto simp: apply_user_metadata_def reroute_replan_def Let_def split: option.splits if_splits)

lemma replan_ok_written:
  "replan_ok sl \<Longrightarrow> \<not> (ds_replan_required st \<and> (ds_state st = Done \<or> ds_state st = Completed))
   \<Longrightarrow> replan_ok (snd (write_state_unlocked dir st w sl))"
  using write_state_unlocked_target [of dir st w sl] by (auto simp: replan_ok_def)

lemma correct_state_ready:
  assumes "correct_state m origin rr saved st = Inr st'"
  shows "\<not> (ds_replan_required st' \<and> (ds_state st' = Done \<or> ds_state st' = Completed))"
proof -
  from correct_state_Inr [OF assms] obtain x where "st' = settled x" by blast
  then show ?thesis using apply_user_metadata_ready [of x] by (auto simp: settled_def)
qed

lemma replan_ok_step: "replan_ok sl \<Longrightarrow> replan_ok (run_state_op dir opn rd w sl)"
proof -
  assume ok: "replan_ok sl"
  note put = replan_ok_written [OF ok apply_user_metadata_ready]
  show ?thesis
  proof (cases opn)
    case (Correct m origin rr saved)
    then show ?thesis
      using ok replan_ok_written [OF ok correct_state_ready]
      by (auto simp: save_user_metadata_def case_prod_beta split: sum.split)
  qed (use ok put in \<open>auto simp: try_write_state_def mutate_state_def mutate_state_if_present_def set_needs_disc_def
      save_replanned_outputs_def hold_title_identity_review_def cancel_held_def begin_capture_def case_prod_beta Let_def
      split: sum.split state_read.split option.split intro: replan_ok_written\<close>)
qed

text \<open>
  C34: a job whose plan must be rebuilt is never handed to delivery: over any sequence of
  transitions, corrections and failures its state on disk is not Done or Completed while a
  replan is required.
\<close>

theorem replan_never_delivered:
  assumes "replan_ok sl"
  shows "replan_ok (fold (\<lambda>(opn, rd, w). run_state_op dir opn rd w) ops sl)"
  using assms by (induction ops arbitrary: sl) (auto simp: replan_ok_step)

section \<open>Concrete runs\<close>

definition sample_dir :: path where
  "sample_dir = [Normal ''staging'', Normal ''disc-1'']"

definition sample_meta :: user_metadata where
  "sample_meta = \<lparr>um_title = ''Alien'', um_year = 1979, um_media_type = Movie,
     um_episode_start = Some 4, um_tmdb_id = 348, um_poster_url = [], um_overview = []\<rparr>"

definition sample_saved :: disc_state where
  "sample_saved = (new_state Ripped)\<lparr>ds_iso_path := ''disc.iso'', ds_disc_identity := ''vol-1'',
     ds_output_format := Some ''mkv'',
     ds_outputs := [default_output\<lparr>do_filename := ''Alien.mkv''\<rparr>], ds_title := ''ALIEN'',
     ds_user_metadata := Some sample_meta, ds_metadata_revision := 3\<rparr>"

definition sample_held :: disc_state where
  "sample_held = (new_state Review)\<lparr>ds_iso_path := ''disc.iso'', ds_title_identity_review := True\<rparr>"

definition state_slot_of :: "disc_state \<Rightarrow> state_slot" where
  "state_slot_of st = \<lparr>slot_target = Some (Json st), slot_tmp = None\<rparr>"

lemmas sample_defs = sample_dir_def sample_meta_def sample_saved_def sample_held_def state_slot_of_def

lemmas write_eval = write_state_unlocked_def write_marker_durable_def write_marker_phased_def no_faults_def
  state_path_def state_file_def file_name_def path_parent_def path_join_def

lemma sample_reads:
  "read_state_checked None (state_slot_of sample_saved) = StateValid sample_saved"
  "read_state_checked None (state_slot_of sample_held) = StateValid sample_held"
  by (simp_all add: read_state_checked_valid sample_defs new_state_def)

lemma write_state_sample:
  "write_state_unlocked sample_dir st no_faults sl = (Inr (), sl\<lparr>slot_target := Some (Json st), slot_tmp := None\<rparr>)"
  by (simp add: write_eval sample_dir_def)

lemma sample_correction:
  "\<exists>st'. correct_state (sample_meta\<lparr>um_episode_start := None\<rparr>) None True (\<lambda>_. True) sample_held = Inr st'
     \<and> ds_metadata_revision st' = 1"
proof -
  have f: "ds_reset_in_progress sample_held = False" "ds_state sample_held = Review" "ds_iso_path sample_held \<noteq> []"
    "ds_title_identity_review sample_held" "ds_outputs sample_held = []" "ds_max_retries sample_held = 0"
    "ds_metadata_revision sample_held = 0"
    by (simp_all add: sample_held_def new_state_def)
  have add: "checked_add 64 0 (Suc 0) = Some (Suc 0)" by (simp add: checked_add_def max_uint_def)
  show ?thesis by (simp add: correct_state_def f add Let_def)
qed


theorem worker_write_keeps_operator_state_witness:
  "\<exists>st'. slot_target (snd (try_write_state sample_dir (new_state Stopped) None no_faults (state_slot_of sample_saved)))
      = Some (Json st') \<and> operator_state_kept sample_saved st'"
proof -
  let ?w = "try_write_state sample_dir (new_state Stopped) None no_faults (state_slot_of sample_saved)"
  have "fst ?w = Inr ()"
    by (simp add: try_write_state_def sample_reads write_eval) (simp add: sample_defs new_state_def)
  then have "?w = (Inr (), snd ?w)" by (metis prod.collapse)
  from worker_write_keeps_operator_state [OF sample_reads(1) this] show ?thesis by blast
qed

theorem blocked_state_untouched_witness:
  "run_state_op sample_dir CancelHeld None no_faults (state_slot_of (sample_held\<lparr>ds_reset_in_progress := True\<rparr>))
     = state_slot_of (sample_held\<lparr>ds_reset_in_progress := True\<rparr>)"
  by (rule blocked_state_untouched)
    (simp add: state_blocked_def read_state_checked_def read_bytes_def sample_defs new_state_def disc_state_schema_def)

theorem held_review_stays_witness:
  "\<exists>st'. slot_target (run_state_op sample_dir (WriteSnapshot (new_state Done)) None no_faults (state_slot_of sample_held))
      = Some (Json st') \<and> review_held st'"
  by (rule held_review_stays [of _ sample_held])
    (simp_all add: review_held_def sample_defs new_state_def)

theorem correction_commits_witness:
  "fst (save_user_metadata sample_dir sample_meta None True (\<lambda>_. True) None no_faults (state_slot_of sample_held)) = Inr 1
   \<and> (\<exists>st'. slot_target (snd (save_user_metadata sample_dir sample_meta None True (\<lambda>_. True) None no_faults
         (state_slot_of sample_held))) = Some (Json st') \<and> ds_replan_required st' \<and> ds_metadata_revision st' = 1)"
proof -
  let ?w = "save_user_metadata sample_dir sample_meta None True (\<lambda>_. True) None no_faults (state_slot_of sample_held)"
  have "fst ?w = Inr 1"
    using sample_correction
    by (auto simp: save_user_metadata_def state_for_correction_def sample_reads write_state_sample normal_metadata_def
        sample_meta_def)
  then have "?w = (Inr 1, snd ?w)" by (metis prod.collapse)
  from correction_commits [OF sample_reads(2) this] \<open>fst ?w = Inr 1\<close> show ?thesis
    by (auto simp: sample_held_def new_state_def)
qed

theorem replan_needs_current_revision_witness:
  "slot_target (snd (save_replanned_outputs sample_dir 3 [] None no_faults (state_slot_of sample_saved)))
     = Some (Json (sample_saved\<lparr>ds_outputs := [], ds_replan_required := False\<rparr>))"
proof -
  let ?w = "save_replanned_outputs sample_dir 3 [] None no_faults (state_slot_of sample_saved)"
  have "fst ?w = Inr ()"
    by (simp add: save_replanned_outputs_def state_for_write_def sample_reads write_eval)
      (simp add: sample_defs new_state_def)
  with replan_needs_current_revision [OF sample_reads(1), of sample_dir 3 "[]" no_faults "snd ?w"]
  show ?thesis by (metis prod.collapse)
qed

theorem replan_never_delivered_witness:
  "replan_ok (fold (\<lambda>(opn, rd, w). run_state_op sample_dir opn rd w)
     [(Correct sample_meta None False (\<lambda>_. True), None, no_faults), (WriteSnapshot (new_state Done), None, no_faults)]
     (state_slot_of sample_saved))"
  by (rule replan_never_delivered) (simp add: replan_ok_def state_slot_of_def sample_saved_def new_state_def)

end
