(* ===== verification/Staging_Job.thy ===== *)
theory Staging_Job
  imports Staging_Metadata
begin

text \<open>
  A job's folder in staging and the transitions that close a capture or a mux on it
  (\<open>src/src/server/ripper/staging.rs\<close>): the restart counter, the terminal and resumable
  failure states, the accept-loss override, the mux and sweep ownership, completion and
  hand-off, with the marker files of earlier releases they fall back to and clean up.

  A folder is its \<open>state.json\<close> slot and its other files by name. The answers of the file
  system are an environment: for each operation the fault of its k-th read of \<open>state.json\<close>,
  the faults of its k-th write, its k-th directory listing, and the faults met by name. The
  JSON crate, the record codec and \<open>MediaKind::parse\<close> (crate \<open>freemkv_engine\<close>) are a parameter.
\<close>

section \<open>Values of the JSON crate\<close>

datatype json = JNull | JBool bool | JNat nat | JNumber string | JString string
  | JArray "json list" | JObject "(string \<times> json) list"

record codec =
  cd_value :: "string \<Rightarrow> json option"             \<comment> \<open>\<open>serde_json::from_str::<Value>\<close>\<close>
  cd_ripped :: "string \<Rightarrow> string + ripped_marker" \<comment> \<open>\<open>from_slice::<RippedMarker>\<close>\<close>
  cd_media :: "string \<Rightarrow> media_kind"              \<comment> \<open>\<open>MediaKind::parse\<close>\<close>

fun json_get :: "string \<Rightarrow> json \<Rightarrow> json option" where
  "json_get k (JObject kvs) = map_of kvs k"
| "json_get k _ = None"

fun json_str :: "json \<Rightarrow> string option" where
  "json_str (JString s) = Some s"
| "json_str _ = None"

fun json_u64 :: "json \<Rightarrow> nat option" where
  "json_u64 (JNat n) = (if n \<le> max_uint 64 then Some n else None)"
| "json_u64 _ = None"

definition field_str :: "json \<Rightarrow> string \<Rightarrow> string option" where
  "field_str v k = Option.bind (json_get k v) json_str"

definition field_u64 :: "json \<Rightarrow> string \<Rightarrow> nat option" where
  "field_u64 v k = Option.bind (json_get k v) json_u64"

text \<open>Rust's \<open>trim\<close> and \<open>parse::<u64>\<close>.\<close>

definition trim :: "string \<Rightarrow> string" where
  "trim s = rev (dropWhile is_white (rev (dropWhile is_white s)))"

definition parse_u64 :: "string \<Rightarrow> nat option" where
  "parse_u64 s =
     (let d = (case s of [] \<Rightarrow> [] | c # r \<Rightarrow> if c = CHR ''+'' then r else s)
      in if d \<noteq> [] \<and> list_all is_digit_char d \<and> digits_value d \<le> max_uint 64
         then Some (digits_value d) else None)"

section \<open>The folder\<close>

datatype node = FileNode string | FolderNode

datatype presence = Absent | Folder | NotFolder

record job_dir =
  jd_kind :: presence
  jd_slot :: state_slot
  jd_files :: "(string \<times> node) list"   \<comment> \<open>everything but \<open>state.json\<close> and its \<open>.tmp\<close>, by name\<close>

type_synonym listing = "io_error + (io_error + string) list"

record env =
  en_read :: "nat \<Rightarrow> io_error option"
  en_write :: "nat \<Rightarrow> faults"
  en_list :: "nat \<Rightarrow> listing"
  en_text :: "string \<Rightarrow> io_error option"
  en_probe :: "string \<Rightarrow> io_error option"
  en_unlink :: "string \<Rightarrow> io_error option"
  en_rename :: "string \<Rightarrow> io_error option"
  en_rmdir :: "io_error option"
  en_leased :: bool                       \<comment> \<open>another owner holds the job's lease\<close>

text \<open>The environment of what runs after \<open>r\<close> reads and \<open>w\<close> writes.\<close>

definition later :: "nat \<Rightarrow> nat \<Rightarrow> env \<Rightarrow> env" where
  "later r w v = v\<lparr>en_read := \<lambda>k. en_read v (r + k), en_write := \<lambda>k. en_write v (w + k)\<rparr>"

definition calm :: env where
  "calm = \<lparr>en_read = (\<lambda>_. None), en_write = (\<lambda>_. no_faults), en_list = (\<lambda>_. Inr []),
     en_text = (\<lambda>_. None), en_probe = (\<lambda>_. None), en_unlink = (\<lambda>_. None), en_rename = (\<lambda>_. None),
     en_rmdir = None, en_leased = False\<rparr>"

definition state_tmp :: string where
  "state_tmp = state_file @ ''.tmp''"

definition file_at :: "job_dir \<Rightarrow> string \<Rightarrow> node option" where
  "file_at jd n = map_of (jd_files jd) n"

definition set_file :: "string \<Rightarrow> node option \<Rightarrow> job_dir \<Rightarrow> job_dir" where
  "set_file n x jd = (let rest = filter (\<lambda>f. fst f \<noteq> n) (jd_files jd)
     in jd\<lparr>jd_files := (case x of None \<Rightarrow> rest | Some y \<Rightarrow> (n, y) # rest)\<rparr>)"

lemma map_of_filter_key: "map_of (filter (\<lambda>f. fst f \<noteq> n) xs) m = (if m = n then None else map_of xs m)"
  by (induction xs) auto

lemma file_at_set_file [simp]: "file_at (set_file n x jd) m = (if m = n then x else file_at jd m)"
  by (simp add: file_at_def set_file_def Let_def map_of_filter_key split: option.split)

lemma set_file_sel [simp]:
  "jd_slot (set_file n x jd) = jd_slot jd" "jd_kind (set_file n x jd) = jd_kind jd"
  by (simp_all add: set_file_def Let_def)

lemma file_at_slot [simp]: "file_at (jd\<lparr>jd_slot := s\<rparr>) n = file_at jd n"
  by (simp add: file_at_def)

definition node_at :: "job_dir \<Rightarrow> string \<Rightarrow> node option" where
  "node_at jd n = (if n = state_file then (case slot_target (jd_slot jd) of None \<Rightarrow> None | Some _ \<Rightarrow> Some (FileNode []))
     else if n = state_tmp then (case slot_tmp (jd_slot jd) of None \<Rightarrow> None | Some _ \<Rightarrow> Some (FileNode []))
     else file_at jd n)"

definition drop_node :: "string \<Rightarrow> job_dir \<Rightarrow> job_dir" where
  "drop_node n jd = (if n = state_file then jd\<lparr>jd_slot := (jd_slot jd)\<lparr>slot_target := None\<rparr>\<rparr>
     else if n = state_tmp then jd\<lparr>jd_slot := (jd_slot jd)\<lparr>slot_tmp := None\<rparr>\<rparr>
     else set_file n None jd)"

text \<open>\<open>std::fs::read_to_string\<close>, \<open>remove_file\<close>, \<open>symlink_metadata\<close> of a file of the folder.\<close>

definition read_text :: "env \<Rightarrow> job_dir \<Rightarrow> string \<Rightarrow> string io_result" where
  "read_text v jd n = (case en_text v n of Some e \<Rightarrow> Inl e
     | None \<Rightarrow> (case file_at jd n of None \<Rightarrow> Inl (IoError NotFound ''no such file'')
         | Some FolderNode \<Rightarrow> Inl (io_other ''is a directory'') | Some (FileNode c) \<Rightarrow> Inr c))"

definition text_ok :: "env \<Rightarrow> job_dir \<Rightarrow> string \<Rightarrow> string option" where
  "text_ok v jd n = (case read_text v jd n of Inl _ \<Rightarrow> None | Inr c \<Rightarrow> Some c)"

definition remove_file :: "env \<Rightarrow> string \<Rightarrow> job_dir \<Rightarrow> unit io_result \<times> job_dir" where
  "remove_file v n jd = (case en_unlink v n of Some e \<Rightarrow> (Inl e, jd)
     | None \<Rightarrow> (case node_at jd n of None \<Rightarrow> (Inl (IoError NotFound ''no such file''), jd)
         | Some FolderNode \<Rightarrow> (Inl (io_other ''is a directory''), jd)
         | Some (FileNode _) \<Rightarrow> (Inr (), drop_node n jd)))"

definition probe :: "env \<Rightarrow> job_dir \<Rightarrow> string \<Rightarrow> unit io_result" where
  "probe v jd n = (case en_probe v n of Some e \<Rightarrow> Inl e
     | None \<Rightarrow> (case node_at jd n of None \<Rightarrow> Inl (IoError NotFound ''no such file'') | Some _ \<Rightarrow> Inr ()))"

definition landed :: "'a io_result \<Rightarrow> bool" where
  "landed r = (case r of Inl _ \<Rightarrow> False | Inr _ \<Rightarrow> True)"

definition on_slot :: "(state_slot \<Rightarrow> 'a \<times> state_slot) \<Rightarrow> job_dir \<Rightarrow> 'a \<times> job_dir" where
  "on_slot f jd = (let p = f (jd_slot jd) in (fst p, jd\<lparr>jd_slot := snd p\<rparr>))"

text \<open>A small file of the folder written through a \<open>.tmp\<close> sibling.\<close>

definition put_file :: "path \<Rightarrow> string \<Rightarrow> string \<Rightarrow> faults \<Rightarrow> job_dir \<Rightarrow> unit io_result \<times> job_dir" where
  "put_file dir n c w jd =
     (if file_at jd n = Some FolderNode then (Inl (io_other ''is a directory''), jd)
      else
        let old = (case file_at jd n of Some (FileNode b) \<Rightarrow> Some b | _ \<Rightarrow> None);
            p = write_marker_durable (path_join dir [Normal n]) c w \<lparr>slot_target = old, slot_tmp = None\<rparr>
        in (fst p, set_file (n @ ''.tmp'') None (set_file n (map_option FileNode (slot_target (snd p))) jd)))"

section \<open>Marker files of earlier releases\<close>

definition done_marker :: string where "done_marker = ''.done''"
definition review_marker :: string where "review_marker = ''.review''"
definition completed_marker :: string where "completed_marker = ''.completed''"
definition failed_marker :: string where "failed_marker = ''.failed''"
definition aborted_loss_marker :: string where "aborted_loss_marker = ''.aborted-loss''"
definition ripped_marker_name :: string where "ripped_marker_name = ''.ripped''"
definition sweeping_marker :: string where "sweeping_marker = ''.sweeping''"
definition muxing_marker :: string where "muxing_marker = ''.muxing''"
definition accept_loss_marker :: string where "accept_loss_marker = ''.accept-loss''"
definition restart_count_file :: string where "restart_count_file = ''.restart_count''"
definition disc_label_file :: string where "disc_label_file = ''.disc-label''"
definition unreadable_state_aside :: string where "unreadable_state_aside = ''state.json.unreadable''"
definition delivery_journal :: string where "delivery_journal = ''.delivery.json''"

lemmas marker_names = done_marker_def review_marker_def completed_marker_def failed_marker_def
  aborted_loss_marker_def ripped_marker_name_def sweeping_marker_def muxing_marker_def
  accept_loss_marker_def restart_count_file_def disc_label_file_def unreadable_state_aside_def
  delivery_journal_def state_file_def state_tmp_def

definition remove_legacy_marker :: "env \<Rightarrow> string \<Rightarrow> job_dir \<Rightarrow> job_dir" where
  "remove_legacy_marker v n jd = snd (remove_file v n jd)"

section \<open>The restart counter\<close>

definition restart_limit :: nat where
  "restart_limit = 3"

definition legacy_restart_count :: "env \<Rightarrow> job_dir \<Rightarrow> nat" where
  "legacy_restart_count v jd = (case text_ok v jd restart_count_file of None \<Rightarrow> 0
     | Some s \<Rightarrow> (case parse_u64 (trim s) of None \<Rightarrow> 0 | Some n \<Rightarrow> n))"

definition restart_count :: "env \<Rightarrow> job_dir \<Rightarrow> nat" where
  "restart_count v jd = (case read_state (en_read v 0) (jd_slot jd) of
       Some st \<Rightarrow> ds_restart_count st | None \<Rightarrow> legacy_restart_count v jd)"

definition increment_restart_count :: "path \<Rightarrow> env \<Rightarrow> job_dir \<Rightarrow> nat io_result \<times> job_dir" where
  "increment_restart_count dir v jd =
     (case read_state (en_read v 0) (jd_slot jd) of
        Some st \<Rightarrow>
          let st' = st\<lparr>ds_restart_count := saturating_add 64 (ds_restart_count st) 1\<rparr>
          in (case on_slot (try_write_state dir st' (en_read v 1) (en_write v 0)) jd of
                (Inl e, jd') \<Rightarrow> (Inl e, jd') | (Inr _, jd') \<Rightarrow> (Inr (ds_restart_count st'), jd'))
      | None \<Rightarrow>
          let n = saturating_add 64 (restart_count (later 1 0 v) jd) 1
          in (case put_file dir restart_count_file (show_nat n @ [CHR 0x0A]) ((en_write v 0)\<lparr>ft_dirsync := None\<rparr>) jd of
                (Inl e, jd') \<Rightarrow> (Inl e, jd') | (Inr _, jd') \<Rightarrow> (Inr n, jd')))"

definition clear_restart_count :: "path \<Rightarrow> env \<Rightarrow> job_dir \<Rightarrow> job_dir" where
  "clear_restart_count dir v jd =
     remove_legacy_marker v restart_count_file
       (jd\<lparr>jd_slot := mutate_state_if_present dir (\<lambda>s. s\<lparr>ds_restart_count := 0\<rparr>) (en_read v 0) (en_write v 0) (jd_slot jd)\<rparr>)"

section \<open>Closing transitions\<close>

text \<open>Reads: the transition's own, then the one of the write.\<close>

definition close_job ::
    "path \<Rightarrow> staging_state \<Rightarrow> (disc_state \<Rightarrow> disc_state) \<Rightarrow> env \<Rightarrow> job_dir \<Rightarrow> bool \<times> job_dir" where
  "close_job dir d f v jd =
     (case state_for_write d (en_read v 0) (jd_slot jd) of Inl _ \<Rightarrow> (False, jd)
      | Inr st \<Rightarrow>
          let p = on_slot (try_write_state dir (f st) (en_read v 1) (en_write v 0)) jd
          in (landed (fst p), remove_legacy_marker v muxing_marker (remove_legacy_marker v sweeping_marker (snd p))))"

definition write_failed_marker :: "path \<Rightarrow> string \<Rightarrow> env \<Rightarrow> job_dir \<Rightarrow> bool \<times> job_dir" where
  "write_failed_marker dir reason = close_job dir Failed
     (\<lambda>st. st\<lparr>ds_state := Failed, ds_failure_reason := Some reason, ds_muxing := False\<rparr>)"

definition read_legacy_failed_reason :: "codec \<Rightarrow> env \<Rightarrow> job_dir \<Rightarrow> string option" where
  "read_legacy_failed_reason c v jd =
     Option.bind (text_ok v jd failed_marker) (\<lambda>b. Option.bind (cd_value c b) (\<lambda>x. field_str x ''reason''))"

definition read_failed_reason :: "codec \<Rightarrow> env \<Rightarrow> job_dir \<Rightarrow> string option" where
  "read_failed_reason c v jd = (case read_state (en_read v 0) (jd_slot jd) of
       Some st \<Rightarrow> ds_failure_reason st
     | None \<Rightarrow> Option.bind (text_ok v jd failed_marker)
         (\<lambda>b. Option.bind (cd_value c b) (\<lambda>x. field_str x ''reason'')))"

definition write_aborted_loss_marker :: "path \<Rightarrow> string \<Rightarrow> nat \<Rightarrow> env \<Rightarrow> job_dir \<Rightarrow> bool \<times> job_dir" where
  "write_aborted_loss_marker dir reason attempt = close_job dir AbortedLoss
     (\<lambda>st. st\<lparr>ds_state := AbortedLoss, ds_failure_reason := Some reason,
        ds_aborted_loss_attempt := attempt, ds_muxing := False\<rparr>)"

definition clear_aborted_loss_marker :: "env \<Rightarrow> job_dir \<Rightarrow> job_dir" where
  "clear_aborted_loss_marker v = remove_legacy_marker v aborted_loss_marker"

definition write_accept_loss_marker :: "path \<Rightarrow> env \<Rightarrow> job_dir \<Rightarrow> job_dir" where
  "write_accept_loss_marker dir v jd =
     (if read_state (en_read v 0) (jd_slot jd) \<noteq> None
      then jd\<lparr>jd_slot := mutate_state_if_present dir (\<lambda>s. s\<lparr>ds_accept_loss := True\<rparr>) (en_read v 1) (en_write v 0) (jd_slot jd)\<rparr>
      else snd (put_file dir accept_loss_marker ''{}'' (en_write v 0) jd))"

definition clear_accept_loss_marker :: "path \<Rightarrow> env \<Rightarrow> job_dir \<Rightarrow> job_dir" where
  "clear_accept_loss_marker dir v jd =
     remove_legacy_marker v accept_loss_marker
       (jd\<lparr>jd_slot := mutate_state_if_present dir (\<lambda>s. s\<lparr>ds_accept_loss := False\<rparr>) (en_read v 0) (en_write v 0) (jd_slot jd)\<rparr>)"

text \<open>\<open>Path::exists\<close>: a probe that fails says no.\<close>

definition accept_loss_requested :: "env \<Rightarrow> job_dir \<Rightarrow> bool" where
  "accept_loss_requested v jd = (case read_state (en_read v 0) (jd_slot jd) of
       Some st \<Rightarrow> ds_accept_loss st | None \<Rightarrow> landed (probe v jd accept_loss_marker))"

definition read_legacy_aborted_loss :: "codec \<Rightarrow> env \<Rightarrow> job_dir \<Rightarrow> (string \<times> nat) option" where
  "read_legacy_aborted_loss c v jd =
     map_option (\<lambda>x. (case field_str x ''reason'' of None \<Rightarrow> ''aborted on loss'' | Some r \<Rightarrow> r,
                       case field_u64 x ''attempt'' of None \<Rightarrow> 0 | Some n \<Rightarrow> n))
       (Option.bind (text_ok v jd aborted_loss_marker) (cd_value c))"

definition read_aborted_loss :: "codec \<Rightarrow> env \<Rightarrow> job_dir \<Rightarrow> (string \<times> nat) option" where
  "read_aborted_loss c v jd = (case read_state (en_read v 0) (jd_slot jd) of
       Some st \<Rightarrow>
         if ds_state st \<noteq> AbortedLoss then None
         else Some (case ds_failure_reason st of None \<Rightarrow> ''aborted on loss''
                    | Some r \<Rightarrow> if r = [] then ''aborted on loss'' else r,
                    ds_aborted_loss_attempt st)
     | None \<Rightarrow> map_option (\<lambda>x. (case field_str x ''reason'' of None \<Rightarrow> ''aborted on loss'' | Some r \<Rightarrow> r,
                       case field_u64 x ''attempt'' of None \<Rightarrow> 0 | Some n \<Rightarrow> n))
         (Option.bind (text_ok v jd aborted_loss_marker) (cd_value c)))"

definition prior_aborted_loss_attempt :: "codec \<Rightarrow> env \<Rightarrow> job_dir \<Rightarrow> nat" where
  "prior_aborted_loss_attempt c v jd = (case read_state (en_read v 0) (jd_slot jd) of
       Some st \<Rightarrow> ds_aborted_loss_attempt st
     | None \<Rightarrow> (case read_aborted_loss c (later 1 0 v) jd of None \<Rightarrow> 0 | Some (_, a) \<Rightarrow> a))"

text \<open>Its two reads first, then those of the count it clears and of the write.\<close>

definition mark_aborted_on_loss_reporting_landed ::
    "codec \<Rightarrow> path \<Rightarrow> string \<Rightarrow> env \<Rightarrow> job_dir \<Rightarrow> bool \<times> job_dir" where
  "mark_aborted_on_loss_reporting_landed c dir reason v jd =
     (let attempt = saturating_add 64 (prior_aborted_loss_attempt c v jd) 1
      in write_aborted_loss_marker dir reason attempt (later 3 1 v) (clear_restart_count dir (later 2 0 v) jd))"

definition mark_aborted_on_loss :: "codec \<Rightarrow> path \<Rightarrow> string \<Rightarrow> env \<Rightarrow> job_dir \<Rightarrow> bool \<times> job_dir" where
  "mark_aborted_on_loss c dir reason v jd =
     (False, snd (mark_aborted_on_loss_reporting_landed c dir reason v jd))"

section \<open>Ownership\<close>

definition write_muxing_marker :: "path \<Rightarrow> env \<Rightarrow> job_dir \<Rightarrow> job_dir" where
  "write_muxing_marker dir v jd =
     jd\<lparr>jd_slot := mutate_state_if_present dir (\<lambda>s. s\<lparr>ds_muxing := True\<rparr>) (en_read v 0) (en_write v 0) (jd_slot jd)\<rparr>"

definition muxing_status :: "env \<Rightarrow> job_dir \<Rightarrow> bool io_result" where
  "muxing_status v jd = (case read_bytes (en_read v 0) (jd_slot jd) of
       Inr (Json st) \<Rightarrow>
         if ds_schema st = disc_state_schema then Inr (ds_muxing st)
         else Inl (IoError InvalidData ''state.json is unparseable or of another schema'')
     | Inr (Damaged _) \<Rightarrow> Inl (IoError InvalidData ''state.json is unparseable or of another schema'')
     | Inl e \<Rightarrow>
         if err_kind e = NotFound
         then (case probe v jd muxing_marker of Inr _ \<Rightarrow> Inr True
               | Inl e' \<Rightarrow> if err_kind e' = NotFound then Inr False else Inl e')
         else Inl e)"

definition clear_muxing_marker :: "path \<Rightarrow> env \<Rightarrow> job_dir \<Rightarrow> job_dir" where
  "clear_muxing_marker dir v jd =
     remove_legacy_marker v muxing_marker
       (jd\<lparr>jd_slot := mutate_state_if_present dir (\<lambda>s. s\<lparr>ds_muxing := False\<rparr>) (en_read v 0) (en_write v 0) (jd_slot jd)\<rparr>)"

definition clear_sweeping_marker :: "path \<Rightarrow> env \<Rightarrow> job_dir \<Rightarrow> job_dir" where
  "clear_sweeping_marker dir v jd =
     remove_legacy_marker v sweeping_marker
       (jd\<lparr>jd_slot := mutate_state_if_present dir
          (\<lambda>s. if ds_state s = Sweeping then s\<lparr>ds_state := Stopped\<rparr> else s) (en_read v 0) (en_write v 0) (jd_slot jd)\<rparr>)"

text \<open>One folder of the walk \<open>clear_inprogress_markers\<close> makes at a graceful shutdown.\<close>

definition clear_inprogress_markers :: "path \<Rightarrow> env \<Rightarrow> job_dir \<Rightarrow> job_dir" where
  "clear_inprogress_markers dir v jd =
     (if jd_kind jd = Folder then clear_muxing_marker dir (later 1 1 v) (clear_sweeping_marker dir v jd) else jd)"

section \<open>Completion and hand-off\<close>

definition write_completed_marker :: "path \<Rightarrow> env \<Rightarrow> job_dir \<Rightarrow> job_dir" where
  "write_completed_marker dir v jd =
     (case on_slot (mutate_state dir Completed
             (\<lambda>s. (if ds_state s = Done \<or> ds_state s = Review then s else s\<lparr>ds_state := Completed\<rparr>)\<lparr>ds_muxing := False\<rparr>)
             (en_read v 0) (en_write v 0)) jd of
        (Inl _, jd') \<Rightarrow> jd'
      | (Inr _, jd') \<Rightarrow> remove_legacy_marker v muxing_marker (remove_legacy_marker v sweeping_marker jd'))"

text \<open>\<open>today\<close> is \<open>format_date\<close>, the clock; \<open>f\<close> fills in what the mover needs.\<close>

definition handoff_state :: "string \<Rightarrow> bool \<Rightarrow> disc_state \<Rightarrow> disc_state" where
  "handoff_state today title_confident st =
     (let st1 = st\<lparr>ds_state := (if title_confident then Done else Review),
                  ds_title_confident := title_confident, ds_failure_reason := None\<rparr>
      in if ds_date st1 = [] then st1\<lparr>ds_date := today\<rparr> else st1)"

definition mark_handoff ::
    "path \<Rightarrow> string \<Rightarrow> bool \<Rightarrow> (disc_state \<Rightarrow> disc_state) \<Rightarrow> env \<Rightarrow> job_dir \<Rightarrow> unit io_result \<times> job_dir" where
  "mark_handoff dir today title_confident f v jd =
     (case state_for_write (if title_confident then Done else Review) (en_read v 0) (jd_slot jd) of Inl e \<Rightarrow> (Inl e, jd)
      | Inr st \<Rightarrow>
          (case on_slot (try_write_state dir (f (handoff_state today title_confident st)) (en_read v 1) (en_write v 0)) jd of
             (Inl e, jd') \<Rightarrow> (Inl e, jd')
           | (Inr _, jd') \<Rightarrow>
               (Inr (), remove_legacy_marker v muxing_marker (remove_legacy_marker v sweeping_marker jd'))))"

definition handoff_label :: "bool \<Rightarrow> string" where
  "handoff_label title_confident = (if title_confident then done_marker else review_marker)"

definition is_network_output :: "string \<Rightarrow> string \<Rightarrow> bool" where
  "is_network_output fmt target \<longleftrightarrow> fmt = ''network'' \<and> target \<noteq> []"

definition durability_gate_passes :: "bool \<Rightarrow> bool \<Rightarrow> bool" where
  "durability_gate_passes network synced \<longleftrightarrow> (if network then True else synced)"

text \<open>\<open>write_marker\<close> and \<open>read_marker\<close> of \<open>muxer.rs\<close>: the hand-off from capture to mux.\<close>

definition write_marker :: "path \<Rightarrow> ripped_marker \<Rightarrow> env \<Rightarrow> job_dir \<Rightarrow> unit io_result \<times> job_dir" where
  "write_marker dir m v jd =
     (case state_for_write Ripped (en_read v 0) (jd_slot jd) of Inl e \<Rightarrow> (Inl e, jd)
      | Inr st \<Rightarrow>
          (case on_slot (try_write_state dir (apply_ripped m (st\<lparr>ds_state := Ripped\<rparr>)) (en_read v 1) (en_write v 0)) jd of
             (Inl e, jd') \<Rightarrow> (Inl e, jd')
           | (Inr _, jd') \<Rightarrow> (Inr (), clear_sweeping_marker dir (later 2 1 v) jd')))"

definition read_marker :: "codec \<Rightarrow> env \<Rightarrow> job_dir \<Rightarrow> ripped_marker io_result" where
  "read_marker c v jd =
     (case read_state (en_read v 0) (jd_slot jd) of Some st \<Rightarrow> Inr (to_ripped_marker st)
      | None \<Rightarrow>
        (case read_text v jd ripped_marker_name of Inl e \<Rightarrow> Inl e
         | Inr b \<Rightarrow>
           (case cd_ripped c b of Inl why \<Rightarrow> Inl (IoError InvalidData why)
            | Inr m \<Rightarrow>
              if rm_schema_version m \<noteq> ripped_marker_schema
              then Inl (IoError InvalidData (''unsupported .ripped schema_version '' @ show_nat (rm_schema_version m)
                     @ '' (expected '' @ show_nat ripped_marker_schema @ '')''))
              else Inr m)))"

definition delete_marker :: "env \<Rightarrow> job_dir \<Rightarrow> unit io_result \<times> job_dir" where
  "delete_marker v jd = (case remove_file v ripped_marker_name jd of
       (Inr _, jd') \<Rightarrow> (Inr (), jd')
     | (Inl e, jd') \<Rightarrow> (if err_kind e = NotFound then Inr () else Inl e, jd'))"

end
