(* ===== verification/Staging_Reset.thy ===== *)
theory Staging_Reset
  imports Staging_Job "HOL-Library.List_Lexorder" "HOL-Library.Char_ord"
begin

text \<open>
  What may delete a capture's files while its job lives on (\<open>server/ripper/staging.rs\<close>): Start
  over (\<open>reset_capture_with\<close> and the recovery of an interrupted one), the prune of a muxed
  image, and the partial outputs a new capture supersedes. Start over first marks the state,
  then deletes by name, then clears the mark: the walks finish what a crash cut.
\<close>

section \<open>Directory calls\<close>

text \<open>\<open>remove_file\<close> or \<open>remove_dir_all\<close> by the entry's type; \<open>remove_dir\<close>.\<close>

definition remove_entry :: "env \<Rightarrow> string \<Rightarrow> job_dir \<Rightarrow> unit io_result \<times> job_dir" where
  "remove_entry v n jd = (case en_probe v n of Some e \<Rightarrow> (Inl e, jd)
     | None \<Rightarrow> (case en_unlink v n of Some e \<Rightarrow> (Inl e, jd)
     | None \<Rightarrow> (case node_at jd n of None \<Rightarrow> (Inl (IoError NotFound ''no such file''), jd)
     | Some _ \<Rightarrow> (Inr (), drop_node n jd))))"

definition nothing_left :: "job_dir \<Rightarrow> bool" where
  "nothing_left jd \<longleftrightarrow> jd_files jd = [] \<and> slot_target (jd_slot jd) = None \<and> slot_tmp (jd_slot jd) = None"

definition remove_dir :: "env \<Rightarrow> job_dir \<Rightarrow> unit io_result \<times> job_dir" where
  "remove_dir v jd = (case en_rmdir v of Some e \<Rightarrow> (Inl e, jd)
     | None \<Rightarrow> if nothing_left jd then (Inr (), jd\<lparr>jd_kind := Absent\<rparr>)
               else (Inl (io_other ''directory not empty''), jd))"

definition delivery_journal_absent :: "env \<Rightarrow> job_dir \<Rightarrow> bool" where
  "delivery_journal_absent v jd = (case probe v jd delivery_journal of
     Inr _ \<Rightarrow> False | Inl e \<Rightarrow> err_kind e = NotFound)"

section \<open>Start over\<close>

fun reset_entries :: "env \<Rightarrow> (io_error + string) list \<Rightarrow> job_dir \<Rightarrow> unit io_result \<times> job_dir" where
  "reset_entries v [] jd = (Inr (), jd)"
| "reset_entries v (Inl e # es) jd = (Inl e, jd)"
| "reset_entries v (Inr n # es) jd =
     (if n = state_file then reset_entries v es jd
      else case remove_entry v n jd of (Inl e, jd') \<Rightarrow> (Inl e, jd') | (Inr _, jd') \<Rightarrow> reset_entries v es jd')"

definition complete_reset :: "path \<Rightarrow> disc_state \<Rightarrow> bool \<Rightarrow> env \<Rightarrow> job_dir \<Rightarrow> unit io_result \<times> job_dir" where
  "complete_reset dir fresh keep v jd =
     (case en_list v 0 of Inl e \<Rightarrow> (Inl e, jd)
      | Inr es \<Rightarrow>
        (case reset_entries v es jd of (Inl e, jd') \<Rightarrow> (Inl e, jd')
         | (Inr _, jd') \<Rightarrow>
            let fresh' = fresh\<lparr>ds_reset_in_progress := False\<rparr>
            in if keep then on_slot (write_state_unlocked dir fresh' (en_write v 0)) jd'
               else (case remove_file v state_file jd' of (Inl e, jd'') \<Rightarrow> (Inl e, jd'')
                     | (Inr _, jd'') \<Rightarrow> remove_dir v jd'')))"

definition keeps_job :: "disc_state \<Rightarrow> bool" where
  "keeps_job s \<longleftrightarrow> ds_disc_identity s \<noteq> [] \<or> ds_user_metadata s \<noteq> None \<or> ds_title s \<noteq> []"

definition fresh_capture :: "string \<Rightarrow> disc_state \<Rightarrow> disc_state" where
  "fresh_capture identity old =
     (let fresh = apply_metadata (shown_by old) (new_state Stopped) in
      fresh\<lparr>ds_title_confident := ds_title_confident old, ds_tmdb_confident := ds_tmdb_confident old,
        ds_user_metadata := ds_user_metadata old, ds_metadata_revision := ds_metadata_revision old,
        ds_disc_identity := (if identity = [] then ds_disc_identity old else identity),
        ds_disc_label := ds_disc_label old, ds_disc_name := ds_disc_name old,
        ds_disc_format := ds_disc_format old, ds_origin_device := ds_origin_device old,
        ds_season := ds_season old, ds_disc_number := ds_disc_number old,
        ds_reset_in_progress := True\<rparr>)"

text \<open>The first half, under the state lock: what is to be completed, or nothing.\<close>

definition prepare_reset ::
    "path \<Rightarrow> string \<Rightarrow> env \<Rightarrow> job_dir \<Rightarrow> (disc_state \<times> bool) option io_result \<times> job_dir" where
  "prepare_reset dir identity v jd =
     (case en_probe v [] of Some e \<Rightarrow> (if err_kind e = NotFound then Inr None else Inl e, jd)
      | None \<Rightarrow>
      (if jd_kind jd = Absent then (Inr None, jd)
       else if jd_kind jd = NotFolder then (Inl (io_other ''staging reset requires a real directory''), jd)
       else if \<not> delivery_journal_absent v jd
       then (Inl (io_other ''a delivery of this job is in progress or held; finish or resolve it before starting over''), jd)
       else
         let go = (\<lambda>old0.
           let keep = (identity \<noteq> [] \<or> (case old0 of None \<Rightarrow> False | Some s \<Rightarrow> keeps_job s));
               old = (case old0 of None \<Rightarrow> new_state Stopped | Some s \<Rightarrow> s)
           in if identity \<noteq> [] \<and> ds_disc_identity old \<noteq> [] \<and> ds_disc_identity old \<noteq> identity
              then (Inl (io_other ''staging identity changed; nothing was reset''), jd)
              else let fresh = fresh_capture identity old
                   in case on_slot (write_state_unlocked dir fresh (en_write v 0)) jd of
                        (Inl e, jd') \<Rightarrow> (Inl e, jd') | (Inr _, jd') \<Rightarrow> (Inr (Some (fresh, keep)), jd'))
         in case read_state_checked (en_read v 0) (jd_slot jd) of
              StateValid st \<Rightarrow> go (Some st)
            | StateAbsent \<Rightarrow> go None
            | StateUnreadable u \<Rightarrow>
                (Inl (IoError (su_kind u) (''cannot reset unreadable staging metadata: '' @ log_text u)), jd)))"

definition reset_capture_with ::
    "path \<Rightarrow> string \<Rightarrow> unit io_result \<Rightarrow> env \<Rightarrow> job_dir \<Rightarrow> unit io_result \<times> job_dir" where
  "reset_capture_with dir identity after_prepare v jd =
     (case prepare_reset dir identity v jd of
        (Inl e, jd') \<Rightarrow> (Inl e, jd')
      | (Inr None, jd') \<Rightarrow> (Inr (), jd')
      | (Inr (Some (fresh, keep)), jd') \<Rightarrow>
          (case after_prepare of Inl e \<Rightarrow> (Inl e, jd')
           | Inr _ \<Rightarrow> complete_reset dir fresh keep (later 1 1 v) jd'))"

definition reset_capture_preserving_metadata ::
    "path \<Rightarrow> string \<Rightarrow> env \<Rightarrow> job_dir \<Rightarrow> unit io_result \<times> job_dir" where
  "reset_capture_preserving_metadata dir identity = reset_capture_with dir identity (Inr ())"

definition finish_interrupted_reset_owned :: "path \<Rightarrow> env \<Rightarrow> job_dir \<Rightarrow> bool io_result \<times> job_dir" where
  "finish_interrupted_reset_owned dir v jd =
     (case read_state_checked (en_read v 0) (jd_slot jd) of
        StateValid st \<Rightarrow>
          if ds_reset_in_progress st
          then (case complete_reset dir st (keeps_job st) (later 1 0 v) jd of
                  (Inl e, jd') \<Rightarrow> (Inl e, jd') | (Inr _, jd') \<Rightarrow> (Inr True, jd'))
          else (Inr False, jd)
      | StateAbsent \<Rightarrow> (Inr False, jd)
      | StateUnreadable _ \<Rightarrow> (Inr False, jd))"

definition finish_interrupted_reset :: "path \<Rightarrow> env \<Rightarrow> job_dir \<Rightarrow> bool io_result \<times> job_dir" where
  "finish_interrupted_reset dir v jd =
     (if en_leased v then (Inr False, jd) else finish_interrupted_reset_owned dir v jd)"

section \<open>Pruning a muxed image\<close>

definition rename_file :: "env \<Rightarrow> string \<Rightarrow> string \<Rightarrow> job_dir \<Rightarrow> unit io_result \<times> job_dir" where
  "rename_file v n n' jd = (case en_rename v n of Some e \<Rightarrow> (Inl e, jd)
     | None \<Rightarrow> (case file_at jd n of None \<Rightarrow> (Inl (IoError NotFound ''no such file''), jd)
         | Some x \<Rightarrow> (Inr (), set_file n' (Some x) (set_file n None jd))))"

fun mark_pruned :: "env \<Rightarrow> string list \<Rightarrow> job_dir \<Rightarrow> (string \<times> string io_result) list \<times> job_dir" where
  "mark_pruned v [] jd = ([], jd)"
| "mark_pruned v (f # fs) jd =
     (let aside = f @ ''.pruning'';
          p = rename_file v f aside jd;
          q = mark_pruned v fs (snd p)
      in ((f, case fst p of Inl e \<Rightarrow> Inl e | Inr _ \<Rightarrow> Inr aside) # fst q, snd q))"

fun unlink_pruned ::
    "env \<Rightarrow> (string \<times> string io_result) list \<Rightarrow> job_dir \<Rightarrow> (string \<times> unit io_result) list \<times> job_dir" where
  "unlink_pruned v [] jd = ([], jd)"
| "unlink_pruned v ((f, Inl e) # ms) jd = (let q = unlink_pruned v ms jd in ((f, Inl e) # fst q, snd q))"
| "unlink_pruned v ((f, Inr aside) # ms) jd =
     (let p = remove_file v aside jd; q = unlink_pruned v ms (snd p) in ((f, fst p) # fst q, snd q))"

definition prune_with ::
    "env \<Rightarrow> string list \<Rightarrow> job_dir \<Rightarrow> (string \<times> unit io_result) list option \<times> job_dir" where
  "prune_with v files jd =
     (case read_state_checked (en_read v 0) (jd_slot jd) of
        StateValid st \<Rightarrow>
          if ds_replan_required st then (None, jd)
          else let m = mark_pruned v files jd; q = unlink_pruned v (fst m) (snd m)
               in (Some (fst q), snd q)
      | StateAbsent \<Rightarrow> (None, jd)
      | StateUnreadable _ \<Rightarrow> (None, jd))"

definition prune_unless_replan_required ::
    "env \<Rightarrow> string list \<Rightarrow> job_dir \<Rightarrow> (string \<times> unit io_result) list option \<times> job_dir" where
  "prune_unless_replan_required = prune_with"

definition pruning_suffixes :: "string list" where
  "pruning_suffixes = [''.iso.pruning'', ''.mapfile.pruning'']"

fun prune_leftover_entries :: "env \<Rightarrow> (io_error + string) list \<Rightarrow> nat \<Rightarrow> job_dir \<Rightarrow> nat io_result \<times> job_dir" where
  "prune_leftover_entries v [] k jd = (Inr k, jd)"
| "prune_leftover_entries v (Inl e # es) k jd = (Inl e, jd)"
| "prune_leftover_entries v (Inr n # es) k jd =
     (if list_ex (ends_with n) pruning_suffixes
      then (case en_probe v n of Some e \<Rightarrow> (Inl e, jd)
            | None \<Rightarrow>
              (case node_at jd n of
                 Some FolderNode \<Rightarrow> prune_leftover_entries v es k jd
               | _ \<Rightarrow>
                   (case remove_file v n jd of (Inl e, jd') \<Rightarrow> (Inl e, jd')
                    | (Inr _, jd') \<Rightarrow> prune_leftover_entries v es (k + 1) jd')))
      else prune_leftover_entries v es k jd)"

definition remove_prune_leftovers_owned :: "env \<Rightarrow> job_dir \<Rightarrow> nat io_result \<times> job_dir" where
  "remove_prune_leftovers_owned v jd =
     (case en_list v 0 of Inl e \<Rightarrow> (Inl e, jd) | Inr es \<Rightarrow> prune_leftover_entries v es 0 jd)"

definition remove_prune_leftovers :: "env \<Rightarrow> job_dir \<Rightarrow> job_dir" where
  "remove_prune_leftovers v jd = (if en_leased v then jd else snd (remove_prune_leftovers_owned v jd))"

section \<open>Superseded outputs\<close>

definition is_muxed :: "string \<Rightarrow> bool" where
  "is_muxed leaf \<longleftrightarrow> (case extension (path_of leaf) of None \<Rightarrow> False
     | Some x \<Rightarrow> map ascii_lower x \<in> {''mkv'', ''mk3d'', ''m2ts''})"

definition is_file :: "job_dir \<Rightarrow> string \<Rightarrow> bool" where
  "is_file jd n \<longleftrightarrow> (case node_at jd n of Some (FileNode _) \<Rightarrow> True | _ \<Rightarrow> False)"

definition listed_names :: "listing \<Rightarrow> string list" where
  "listed_names l = (case l of Inl _ \<Rightarrow> [] | Inr es \<Rightarrow> List.map_filter (\<lambda>x. case x of Inl _ \<Rightarrow> None | Inr n \<Rightarrow> Some n) es)"

definition superseded_partials :: "env \<Rightarrow> job_dir \<Rightarrow> string list \<Rightarrow> string list \<Rightarrow> string list \<Rightarrow> string list" where
  "superseded_partials v jd previous keep sources =
     (if \<not> delivery_journal_absent v jd then []
      else
        let leaves = previous @ filter is_muxed (filter (is_file jd) (listed_names (en_list v 0)))
        in filter (is_file jd)
             (filter (\<lambda>l. l \<notin> set keep \<and> l \<notin> set sources)
               (filter (\<lambda>l. file_name (path_of l) = Some l) (remdups (sort leaves)))))"

section \<open>What a walk over the folder leaves alone\<close>

lemma drop_node_keeps [simp]:
  "n \<noteq> state_file \<Longrightarrow> slot_target (jd_slot (drop_node n jd)) = slot_target (jd_slot jd)"
  "jd_kind (drop_node n jd) = jd_kind jd"
  by (simp_all add: drop_node_def)

lemma remove_entry_keeps:
  "n \<noteq> state_file \<Longrightarrow> slot_target (jd_slot (snd (remove_entry v n jd))) = slot_target (jd_slot jd)"
  "jd_kind (snd (remove_entry v n jd)) = jd_kind jd"
  by (simp_all add: remove_entry_def split: option.split)

lemma reset_entries_keeps:
  "reset_entries v es jd = (r, jd') \<Longrightarrow>
     slot_target (jd_slot jd') = slot_target (jd_slot jd) \<and> jd_kind jd' = jd_kind jd"
proof (induction v es jd rule: reset_entries.induct)
  case (3 v n es jd)
  show ?case
  proof (cases "n = state_file")
    case True
    with 3 show ?thesis by simp
  next
    case False
    obtain r0 jd0 where e: "remove_entry v n jd = (r0, jd0)" by fastforce
    have k: "slot_target (jd_slot jd0) = slot_target (jd_slot jd) \<and> jd_kind jd0 = jd_kind jd"
      using remove_entry_keeps(1) [of n v jd] remove_entry_keeps(2) [of v n jd] False e by simp
    show ?thesis
    proof (cases r0)
      case (Inl x)
      with 3(3) False e k show ?thesis by simp
    next
      case (Inr u)
      with 3(3) False e have "reset_entries v es jd0 = (r, jd')" by simp
      with 3(2) [OF False e [symmetric] Inr] k show ?thesis by simp
    qed
  qed
qed simp_all

text \<open>A walk that saw every file and failed on none leaves none.\<close>

lemma node_at_drop_node [simp]: "node_at (drop_node m jd) n = (if n = m then None else node_at jd n)"
  by (auto simp: node_at_def drop_node_def state_tmp_def state_file_def split: option.split)

lemma file_at_drop_node: "file_at jd n = None \<Longrightarrow> file_at (drop_node m jd) n = None"
  by (simp add: drop_node_def)

lemma reset_entries_all:
  "reset_entries v es jd = (Inr u, jd') \<Longrightarrow>
     (\<forall>n. node_at jd' n \<noteq> None \<and> n \<noteq> state_file \<longrightarrow> node_at jd n \<noteq> None \<and> Inr n \<notin> set es)
   \<and> (\<forall>n. file_at jd n = None \<longrightarrow> file_at jd' n = None)"
proof (induction v es jd rule: reset_entries.induct)
  case (3 v m es jd)
  show ?case
  proof (cases "m = state_file")
    case True
    with 3 show ?thesis by auto
  next
    case False
    obtain r0 jd0 where e: "remove_entry v m jd = (r0, jd0)" by fastforce
    from 3(3) False e obtain x where r0: "r0 = Inr x" and rest: "reset_entries v es jd0 = (Inr u, jd')"
      by (cases r0) auto
    from e r0 have jd0: "jd0 = drop_node m jd" by (auto simp: remove_entry_def split: option.splits)
    note IH = 3(2) [OF False e [symmetric] r0 rest]
    show ?thesis
    proof (intro conjI allI impI)
      fix n assume "node_at jd' n \<noteq> None \<and> n \<noteq> state_file"
      with IH have "node_at jd0 n \<noteq> None" "Inr n \<notin> set es" by blast+
      then show "node_at jd n \<noteq> None" "Inr n \<notin> set (Inr m # es)" by (simp_all add: jd0 split: if_splits)
    next
      fix n assume "file_at jd n = None"
      then have "file_at jd0 n = None" unfolding jd0 by (rule file_at_drop_node)
      with IH show "file_at jd' n = None" by blast
    qed
  qed
qed simp_all

lemma reset_entries_runs:
  "distinct ns \<Longrightarrow> \<forall>n \<in> set ns. n \<noteq> state_file \<longrightarrow> node_at jd n \<noteq> None \<and> en_probe v n = None \<and> en_unlink v n = None
   \<Longrightarrow> \<exists>jd'. reset_entries v (map Inr ns) jd = (Inr (), jd')"
proof (induction ns arbitrary: jd)
  case (Cons m ns)
  show ?case
  proof (cases "m = state_file")
    case True
    with Cons show ?thesis by simp
  next
    case False
    with Cons.prems have "remove_entry v m jd = (Inr (), drop_node m jd)" by (auto simp: remove_entry_def)
    moreover have "\<exists>jd'. reset_entries v (map Inr ns) (drop_node m jd) = (Inr (), jd')"
      by (rule Cons.IH) (use Cons.prems in auto)
    ultimately show ?thesis using False by simp
  qed
qed simp

lemma nothing_leftI:
  "\<forall>n. node_at jd n = None \<Longrightarrow> file_at jd state_file = None \<Longrightarrow> file_at jd state_tmp = None \<Longrightarrow> nothing_left jd"
proof -
  assume n: "\<forall>n. node_at jd n = None" and f: "file_at jd state_file = None" "file_at jd state_tmp = None"
  have "\<And>n. n \<noteq> state_file \<Longrightarrow> n \<noteq> state_tmp \<Longrightarrow> file_at jd n = None"
    using n unfolding node_at_def by metis
  with f have "\<And>n. map_of (jd_files jd) n = None" by (metis file_at_def)
  then have "jd_files jd = []" by (metis map_of_eq_empty_iff ext)
  moreover have "slot_target (jd_slot jd) = None" using n [rule_format, of state_file] by (auto simp: node_at_def split: option.splits)
  moreover have "slot_tmp (jd_slot jd) = None"
    using n [rule_format, of state_tmp] by (auto simp: node_at_def state_tmp_def state_file_def split: option.splits)
  ultimately show ?thesis by (simp add: nothing_left_def)
qed

section \<open>Start over keeps what the operator decided\<close>

definition carried :: "disc_state \<Rightarrow> disc_state \<Rightarrow> bool" where
  "carried old st \<longleftrightarrow> ds_state st = Stopped \<and> ds_schema st = disc_state_schema
     \<and> ds_user_metadata st = ds_user_metadata old \<and> ds_metadata_revision st = ds_metadata_revision old
     \<and> shown_by st = shown_by old \<and> ds_outputs st = [] \<and> ds_iso_path st = []
     \<and> \<not> ds_replan_required st \<and> \<not> ds_title_identity_review st \<and> \<not> ds_muxing st"

lemma fresh_capture_carried:
  "carried old (fresh_capture identity old)" "ds_reset_in_progress (fresh_capture identity old)"
  "ds_disc_identity (fresh_capture identity old) = (if identity = [] then ds_disc_identity old else identity)"
  by (simp_all add: carried_def fresh_capture_def Let_def apply_metadata_def new_state_def shown_by_def)

lemma carried_done [simp]: "carried old (st\<lparr>ds_reset_in_progress := b\<rparr>) = carried old st"
  by (simp add: carried_def shown_by_def)

lemma on_slot_eq: "on_slot f jd = (r, jd') \<longleftrightarrow> (\<exists>sl. f (jd_slot jd) = (r, sl) \<and> jd' = jd\<lparr>jd_slot := sl\<rparr>)"
  by (cases "f (jd_slot jd)") (auto simp: on_slot_def Let_def)

text \<open>What completing a marked reset leaves, whatever fails.\<close>

lemma complete_reset_outcome:
  assumes fin: "complete_reset dir fresh keep v jd = (r, jd')"
    and marked: "slot_target (jd_slot jd) = Some (Json fresh)"
  shows "slot_target (jd_slot jd') = Some (Json fresh) \<and> landed r = False
    \<or> slot_target (jd_slot jd') = Some (Json (fresh\<lparr>ds_reset_in_progress := False\<rparr>)) \<and> keep
    \<or> slot_target (jd_slot jd') = None \<and> \<not> keep \<and> (landed r \<longrightarrow> jd_kind jd' = Absent)"
proof (cases "en_list v 0")
  case (Inl e)
  with fin marked show ?thesis by (auto simp: complete_reset_def landed_def)
next
  case (Inr es)
  obtain r1 jd1 where w: "reset_entries v es jd = (r1, jd1)" by fastforce
  have t1: "slot_target (jd_slot jd1) = Some (Json fresh)" using reset_entries_keeps [OF w] marked by simp
  show ?thesis
  proof (cases r1)
    case (Inl e)
    with fin t1 w \<open>en_list v 0 = Inr es\<close> show ?thesis by (auto simp: complete_reset_def landed_def)
  next
    case walked: (Inr u)
    show ?thesis
    proof (cases keep)
      case True
      with fin w Inr walked obtain sl
        where sl: "write_state_unlocked dir (fresh\<lparr>ds_reset_in_progress := False\<rparr>) (en_write v 0) (jd_slot jd1) = (r, sl)"
          and jd': "jd' = jd1\<lparr>jd_slot := sl\<rparr>"
        by (auto simp: complete_reset_def Let_def on_slot_eq)
      from write_state_unlocked_cases [OF sl] t1 True jd' show ?thesis by (auto simp: landed_def)
    next
      case False
      obtain r2 jd2 where d: "remove_file v state_file jd1 = (r2, jd2)" by fastforce
      show ?thesis
      proof (cases r2)
        case (Inl e)
        then have "jd2 = jd1" using d by (auto simp: remove_file_def split: option.splits node.splits)
        with Inl fin w Inr walked False d t1 show ?thesis
          by (auto simp: complete_reset_def Let_def landed_def)
      next
        case (Inr x)
        then have "slot_target (jd_slot jd2) = None"
          using d by (auto simp: remove_file_def drop_node_def split: option.splits node.splits)
        moreover have "remove_dir v jd2 = (r, jd')"
          using Inr fin w \<open>en_list v 0 = _\<close> walked False d by (auto simp: complete_reset_def Let_def)
        ultimately show ?thesis using False
          by (auto simp: remove_dir_def landed_def split: option.splits if_splits)
      qed
    qed
  qed
qed


section \<open>An interrupted Start over is finished\<close>

text \<open>The file system answers: a listing that shows each entry once, and no fault.\<close>

definition honest :: "env \<Rightarrow> string list \<Rightarrow> job_dir \<Rightarrow> bool" where
  "honest v ns jd \<longleftrightarrow> en_list v 0 = Inr (map Inr ns) \<and> distinct ns \<and> (\<forall>n. n \<in> set ns \<longleftrightarrow> node_at jd n \<noteq> None)
     \<and> (\<forall>n. en_probe v n = None \<and> en_unlink v n = None) \<and> en_rmdir v = None
     \<and> (\<forall>k. en_read v k = None \<and> en_write v k = no_faults)
     \<and> file_at jd state_file = None \<and> file_at jd state_tmp = None"

lemma complete_reset_honest:
  assumes h: "honest v ns jd" and st: "slot_target (jd_slot jd) = Some (Json fresh)" and dir: "file_name (state_path dir) \<noteq> None"
  shows "\<exists>jd'. complete_reset dir fresh keep v jd = (Inr (), jd') \<and> jd_files jd' = []
    \<and> (if keep then slot_target (jd_slot jd') = Some (Json (fresh\<lparr>ds_reset_in_progress := False\<rparr>)) \<and> jd_kind jd' = jd_kind jd
       else jd_kind jd' = Absent)"
proof -
  from h have l: "en_list v 0 = Inr (map Inr ns)" and d: "distinct ns" and ns: "\<And>n. n \<in> set ns \<longleftrightarrow> node_at jd n \<noteq> None"
    and f: "\<And>n. en_probe v n = None" "\<And>n. en_unlink v n = None" "en_rmdir v = None" "en_write v 0 = no_faults"
    and w: "file_at jd state_file = None" "file_at jd state_tmp = None"
    by (auto simp: honest_def)
  from reset_entries_runs [OF d, of jd v] ns f obtain jd1 where r: "reset_entries v (map Inr ns) jd = (Inr (), jd1)" by auto
  note all = reset_entries_all [OF r] and keeps = reset_entries_keeps [OF r]
  have none: "node_at jd1 n = None" if "n \<noteq> state_file" for n using all ns that by (metis image_eqI set_map)
  have w1: "file_at jd1 state_file = None" "file_at jd1 state_tmp = None" using all w by auto
  define jd2 where "jd2 = drop_node state_file jd1"
  have left2: "nothing_left jd2"
    by (rule nothing_leftI) (use none w1 in \<open>auto simp: jd2_def file_at_drop_node\<close>)
  have files: "jd_files jd1 = []" using left2 by (simp add: nothing_left_def jd2_def drop_node_def)
  have t1: "slot_target (jd_slot jd1) = Some (Json fresh)" using keeps st by simp
  show ?thesis
  proof (cases keep)
    case True
    have "write_state_unlocked dir x no_faults sl = (Inr (), sl\<lparr>slot_target := Some (Json x), slot_tmp := None\<rparr>)" for x sl
      using dir by (auto simp: write_state_unlocked_def write_marker_durable_def write_marker_phased_def no_faults_def Let_def)
    with True l r f files keeps show ?thesis by (simp add: complete_reset_def on_slot_def Let_def)
  next
    case False
    have "remove_file v state_file jd1 = (Inr (), jd2)"
      using f t1 by (simp add: remove_file_def node_at_def jd2_def)
    with False l r f left2 show ?thesis
      by (auto simp: complete_reset_def remove_dir_def nothing_left_def)
  qed
qed

text \<open>
  C33: a Start over cut at any point is finished by the next walk: on a share that answers, the
  recovery deletes every old file and leaves the marked state, no longer marked, or no
  folder when the state carried nothing worth keeping.
\<close>

theorem interrupted_reset_finishes:
  assumes "slot_target (jd_slot jd) = Some (Json st)" "ds_schema st = disc_state_schema" "ds_reset_in_progress st"
    and "honest v ns jd" "\<not> en_leased v" "file_name (state_path dir) \<noteq> None"
  shows "\<exists>jd'. finish_interrupted_reset dir v jd = (Inr True, jd') \<and> jd_files jd' = []
    \<and> (if keeps_job st then slot_target (jd_slot jd') = Some (Json (st\<lparr>ds_reset_in_progress := False\<rparr>)) \<and> jd_kind jd' = jd_kind jd
       else jd_kind jd' = Absent)"
proof -
  have h: "honest (later 1 0 v) ns jd" using assms(4) by (simp add: honest_def later_def)
  have "read_state_checked (en_read v 0) (jd_slot jd) = StateValid st"
    using assms by (simp add: read_state_checked_valid honest_def)
  moreover from complete_reset_honest [OF h assms(1,6), of "keeps_job st"]
  obtain jd' where "complete_reset dir st (keeps_job st) (later 1 0 v) jd = (Inr (), jd') \<and> jd_files jd' = []
    \<and> (if keeps_job st then slot_target (jd_slot jd') = Some (Json (st\<lparr>ds_reset_in_progress := False\<rparr>)) \<and> jd_kind jd' = jd_kind jd
       else jd_kind jd' = Absent)"
    by blast
  ultimately show ?thesis
    using assms(3,5) by (simp add: finish_interrupted_reset_def finish_interrupted_reset_owned_def)
qed

section \<open>A prune spares what a correction needs\<close>

definition aside_of :: "string \<Rightarrow> string" where
  "aside_of f = f @ ''.pruning''"

lemma aside_not_state [simp]: "aside_of f \<noteq> state_file" "aside_of f \<noteq> state_tmp"
proof -
  have "last (aside_of f) = CHR ''g''" "last state_file = CHR ''n''" "last state_tmp = CHR ''p''"
    by (simp_all add: aside_of_def state_tmp_def state_file_def)
  then show "aside_of f \<noteq> state_file" "aside_of f \<noteq> state_tmp" by auto
qed

lemma mark_pruned_keeps:
  "mark_pruned v fs jd = (ms, jd') \<Longrightarrow> jd_slot jd' = jd_slot jd
    \<and> (\<forall>n. n \<notin> set fs \<longrightarrow> n \<notin> aside_of ` set fs \<longrightarrow> file_at jd' n = file_at jd n)
    \<and> (\<forall>f a. (f, Inr a) \<in> set ms \<longrightarrow> f \<in> set fs \<and> a = aside_of f)"
proof (induction fs arbitrary: jd ms jd')
  case (Cons f fs)
  obtain r1 jd1 where p: "rename_file v f (f @ ''.pruning'') jd = (r1, jd1)" by fastforce
  obtain ms2 jd2 where q: "mark_pruned v fs jd1 = (ms2, jd2)" by fastforce
  have one: "jd_slot jd1 = jd_slot jd" "\<And>n. n \<noteq> f \<Longrightarrow> n \<noteq> aside_of f \<Longrightarrow> file_at jd1 n = file_at jd n"
    using p by (auto simp: rename_file_def aside_of_def split: option.splits)
  from Cons.prems p q have eqs: "jd' = jd2" "ms = (f, case r1 of Inl e \<Rightarrow> Inl e | Inr _ \<Rightarrow> Inr (aside_of f)) # ms2"
    by (auto simp: Let_def aside_of_def split: sum.splits)
  note IH = Cons.IH [OF q]
  show ?case
  proof (intro conjI allI impI)
    show "jd_slot jd' = jd_slot jd" using IH one eqs by simp
    fix n assume "n \<notin> set (f # fs)" "n \<notin> aside_of ` set (f # fs)"
    then show "file_at jd' n = file_at jd n" using IH one(2) [of n] eqs by simp
  next
    fix g a assume "(g, Inr a) \<in> set ms"
    then show "g \<in> set (f # fs)" "a = aside_of g" using IH eqs by (auto split: sum.splits)
  qed
qed simp

lemma remove_file_keeps:
  "remove_file v m jd = (r, jd') \<Longrightarrow> m \<noteq> state_file \<Longrightarrow> m \<noteq> state_tmp \<Longrightarrow>
   jd_slot jd' = jd_slot jd \<and> (\<forall>n. n \<noteq> m \<longrightarrow> file_at jd' n = file_at jd n)"
  by (auto simp: remove_file_def drop_node_def split: option.splits node.splits)

lemma unlink_pruned_keeps:
  "unlink_pruned v ms jd = (rs, jd') \<Longrightarrow> (\<forall>f a. (f, Inr a) \<in> set ms \<longrightarrow> f \<in> F \<and> a = aside_of f) \<Longrightarrow>
   jd_slot jd' = jd_slot jd \<and> (\<forall>n. n \<notin> aside_of ` F \<longrightarrow> file_at jd' n = file_at jd n)"
proof (induction v ms jd arbitrary: rs jd' rule: unlink_pruned.induct)
  case (2 v f e ms jd)
  obtain rs2 jd2 where q: "unlink_pruned v ms jd = (rs2, jd2)" by fastforce
  with 2(2) have "jd' = jd2" by (auto simp: Let_def)
  with 2(1) [OF q] 2(3) show ?case by auto
next
  case (3 v f aside ms jd)
  obtain r1 jd1 where p: "remove_file v aside jd = (r1, jd1)" by fastforce
  obtain rs2 jd2 where q: "unlink_pruned v ms jd1 = (rs2, jd2)" by fastforce
  from 3(3) have a: "aside = aside_of f" "f \<in> F" by auto
  have jd': "jd' = jd2" using 3(2) p q by (auto simp: Let_def)
  from remove_file_keeps [OF p] a have one: "jd_slot jd1 = jd_slot jd" "\<And>n. n \<noteq> aside_of f \<Longrightarrow> file_at jd1 n = file_at jd n"
    by auto
  have sub: "\<forall>f a. (f, Inr a) \<in> set ms \<longrightarrow> f \<in> F \<and> a = aside_of f" using 3(3) by auto
  have "jd1 = snd (remove_file v aside jd)" using p by simp
  from 3(1) [OF p [symmetric] _ sub, of rs2 jd2] q have
    "jd_slot jd2 = jd_slot jd1 \<and> (\<forall>n. n \<notin> aside_of ` F \<longrightarrow> file_at jd2 n = file_at jd1 n)" by simp
  with one a jd' show ?case by (auto simp: image_iff)
qed simp

text \<open>
  Pruning a muxed image deletes it only under a readable state that asks for no replan, and
  then touches the named files and their renamed copies alone: a correction that needs the
  image either finds it or was saved after it was gone.
\<close>

theorem prune_keeps_needed_image:
  assumes "prune_with v files jd = (r, jd')"
  shows "jd_slot jd' = jd_slot jd
    \<and> (r \<noteq> None \<longleftrightarrow> (\<exists>st. read_state_checked (en_read v 0) (jd_slot jd) = StateValid st \<and> \<not> ds_replan_required st))
    \<and> (r = None \<longrightarrow> jd' = jd)
    \<and> (\<forall>n. n \<notin> set files \<longrightarrow> n \<notin> aside_of ` set files \<longrightarrow> file_at jd' n = file_at jd n)"
proof (cases "\<exists>st. read_state_checked (en_read v 0) (jd_slot jd) = StateValid st \<and> \<not> ds_replan_required st")
  case False
  with assms show ?thesis by (auto simp: prune_with_def split: state_read.splits if_splits)
next
  case True
  then obtain st where st: "read_state_checked (en_read v 0) (jd_slot jd) = StateValid st" "\<not> ds_replan_required st" by blast
  obtain ms jd1 where m: "mark_pruned v files jd = (ms, jd1)" by fastforce
  obtain rs jd2 where u: "unlink_pruned v ms jd1 = (rs, jd2)" by fastforce
  from assms st m u have r: "r = Some rs" "jd' = jd2" by (auto simp: prune_with_def Let_def)
  note k1 = mark_pruned_keeps [OF m]
  then have "\<forall>f a. (f, Inr a) \<in> set ms \<longrightarrow> f \<in> set files \<and> a = aside_of f" by blast
  note k2 = unlink_pruned_keeps [OF u this]
  show ?thesis using k1 k2 r True by simp
qed

section \<open>Concrete runs\<close>

definition sample_codec :: codec where
  "sample_codec = \<lparr>cd_value = (\<lambda>_. None), cd_ripped = (\<lambda>_. Inl ''no marker''), cd_media = (\<lambda>_. Movie)\<rparr>"

definition sample_job_dir :: "disc_state \<Rightarrow> job_dir" where
  "sample_job_dir st = \<lparr>jd_kind = Folder, jd_slot = state_slot_of st,
     jd_files = [(''disc.iso'', FileNode ''image''), (''disc.mapfile'', FileNode ''map'')]\<rparr>"

definition listing_of :: "string list \<Rightarrow> env" where
  "listing_of ns = calm\<lparr>en_list := \<lambda>_. Inr (map Inr ns)\<rparr>"

lemmas sample_dir_defs = sample_job_dir_def listing_of_def calm_def file_at_def node_at_def


theorem interrupted_reset_finishes_witness:
  "\<exists>jd'. finish_interrupted_reset sample_dir (listing_of [''disc.iso'', ''state.json'', ''disc.mapfile''])
      (sample_job_dir (fresh_capture [] sample_saved)) = (Inr True, jd') \<and> jd_files jd' = []"
proof -
  let ?st = "fresh_capture [] sample_saved"
  have "\<exists>jd'. finish_interrupted_reset sample_dir (listing_of [''disc.iso'', ''state.json'', ''disc.mapfile''])
      (sample_job_dir ?st) = (Inr True, jd') \<and> jd_files jd' = []
    \<and> (if keeps_job ?st then slot_target (jd_slot jd') = Some (Json (?st\<lparr>ds_reset_in_progress := False\<rparr>))
          \<and> jd_kind jd' = jd_kind (sample_job_dir ?st)
       else jd_kind jd' = Absent)"
  proof (rule interrupted_reset_finishes)
    show "honest (listing_of [''disc.iso'', ''state.json'', ''disc.mapfile'']) [''disc.iso'', ''state.json'', ''disc.mapfile'']
        (sample_job_dir ?st)"
      by (auto simp: honest_def sample_dir_defs state_slot_of_def marker_names)
  qed (simp_all add: sample_job_dir_def state_slot_of_def listing_of_def calm_def fresh_capture_carried(2)
      fresh_capture_carried(1) [of sample_saved "[]", unfolded carried_def] sample_dir_def state_path_def
      path_join_def file_name_def is_absolute_def)
  then show ?thesis by blast
qed

theorem prune_keeps_needed_image_witness:
  "fst (prune_with calm [''disc.iso''] (sample_job_dir sample_saved)) \<noteq> None
   \<and> file_at (snd (prune_with calm [''disc.iso''] (sample_job_dir sample_saved))) ''disc.mapfile'' = Some (FileNode ''map'')"
proof -
  let ?w = "prune_with calm [''disc.iso''] (sample_job_dir sample_saved)"
  note p = prune_keeps_needed_image [of calm "[''disc.iso'']" "sample_job_dir sample_saved" "fst ?w" "snd ?w"]
  have "read_state_checked (en_read calm 0) (jd_slot (sample_job_dir sample_saved)) = StateValid sample_saved"
    by (simp add: sample_dir_defs sample_reads)
  moreover have "\<not> ds_replan_required sample_saved" by (simp add: sample_saved_def new_state_def)
  moreover have "file_at (sample_job_dir sample_saved) ''disc.mapfile'' = Some (FileNode ''map'')"
    by (simp add: sample_dir_defs)
  ultimately show ?thesis using p by (auto simp: aside_of_def)
qed

end
