(* ===== verification/Staging_Scan.thy ===== *)
theory Staging_Scan
  imports Staging_Reset
begin

text \<open>
  What the server makes of a job's folder it finds (\<open>server/ripper/staging.rs\<close>): the scan of
  its entries, the lifecycle its \<open>state.json\<close> or, before that file existed, its marker files
  say, the upgrade of such a folder, the decision at startup
  (\<open>resume_or_quarantine_staging\<close>) and the clearing of abandoned jobs. A listing is what one
  \<open>read_dir\<close> answered, whether or not it saw everything.
\<close>

section \<open>Scanning\<close>

record scan =
  sc_state_file :: bool
  sc_done :: bool
  sc_review :: bool
  sc_ripped :: bool
  sc_sweeping :: bool
  sc_muxing :: bool
  sc_completed :: bool
  sc_failed :: bool
  sc_aborted_loss :: bool
  sc_iso :: bool
  sc_mapfile :: bool
  sc_mkv :: bool
  sc_read_ok :: bool
  sc_any_entries :: bool
  sc_entry_error :: bool

definition no_scan :: scan where
  "no_scan = \<lparr>sc_state_file = False, sc_done = False, sc_review = False, sc_ripped = False, sc_sweeping = False,
     sc_muxing = False, sc_completed = False, sc_failed = False, sc_aborted_loss = False, sc_iso = False,
     sc_mapfile = False, sc_mkv = False, sc_read_ok = False, sc_any_entries = False, sc_entry_error = False\<rparr>"

definition observed_nothing :: "scan \<Rightarrow> bool" where
  "observed_nothing s \<longleftrightarrow> \<not> sc_state_file s \<and> \<not> sc_done s \<and> \<not> sc_review s \<and> \<not> sc_ripped s \<and> \<not> sc_sweeping s
     \<and> \<not> sc_muxing s \<and> \<not> sc_completed s \<and> \<not> sc_failed s \<and> \<not> sc_aborted_loss s \<and> \<not> sc_iso s
     \<and> \<not> sc_mapfile s \<and> \<not> sc_mkv s"

definition contents_unknown :: "scan \<Rightarrow> bool" where
  "contents_unknown s \<longleftrightarrow> \<not> sc_read_ok s \<or> (sc_entry_error s \<and> observed_nothing s)"

definition has_any_lifecycle_marker :: "scan \<Rightarrow> bool" where
  "has_any_lifecycle_marker s \<longleftrightarrow> sc_done s \<or> sc_review s \<or> sc_ripped s \<or> sc_sweeping s \<or> sc_muxing s
     \<or> sc_completed s \<or> sc_failed s \<or> sc_aborted_loss s"

definition observe_name :: "string \<Rightarrow> scan \<Rightarrow> scan" where
  "observe_name n s0 =
     (let s = s0\<lparr>sc_any_entries := True\<rparr> in
      if n = state_file then s\<lparr>sc_state_file := True\<rparr>
      else if n = done_marker then s\<lparr>sc_done := True\<rparr>
      else if n = review_marker then s\<lparr>sc_review := True\<rparr>
      else if n = ripped_marker_name then s\<lparr>sc_ripped := True\<rparr>
      else if n = sweeping_marker then s\<lparr>sc_sweeping := True\<rparr>
      else if n = muxing_marker then s\<lparr>sc_muxing := True\<rparr>
      else if n = completed_marker then s\<lparr>sc_completed := True\<rparr>
      else if n = failed_marker then s\<lparr>sc_failed := True\<rparr>
      else if n = aborted_loss_marker then s\<lparr>sc_aborted_loss := True\<rparr>
      else if ends_with n ''.iso'' then s\<lparr>sc_iso := True\<rparr>
      else if ends_with n ''.mapfile'' then s\<lparr>sc_mapfile := True\<rparr>
      else if ends_with n ''.mkv'' \<or> ends_with n ''.m2ts'' then s\<lparr>sc_mkv := True\<rparr>
      else s)"

fun observe_entries :: "(io_error + string) list \<Rightarrow> scan \<Rightarrow> scan" where
  "observe_entries [] s = s"
| "observe_entries (Inl e # es) s = observe_entries es (s\<lparr>sc_entry_error := True\<rparr>)"
| "observe_entries (Inr n # es) s = observe_entries es (observe_name n s)"

text \<open>Up to three listings, until one yields an entry.\<close>

fun scan_listings :: "listing list \<Rightarrow> scan \<Rightarrow> scan" where
  "scan_listings [] s = s"
| "scan_listings (Inl e # ls) s = scan_listings ls s"
| "scan_listings (Inr es # ls) s =
     (let s' = observe_entries es (s\<lparr>sc_read_ok := True\<rparr>)
      in if list_ex (\<lambda>x. case x of Inl _ \<Rightarrow> False | Inr _ \<Rightarrow> True) es then s' else scan_listings ls s')"

definition scan_dir :: "env \<Rightarrow> scan" where
  "scan_dir v = scan_listings [en_list v 0, en_list v 1, en_list v 2] no_scan"

section \<open>The lifecycle of a job\<close>

record lifecycle =
  li_completed :: bool
  li_failed :: bool
  li_failed_reason :: "string option"
  li_aborted_loss :: bool
  li_aborted_loss_reason :: "string option"
  li_aborted_loss_attempt :: nat
  li_done :: bool
  li_review :: bool
  li_ripped :: bool
  li_sweeping :: bool
  li_muxing :: bool
  li_needs_disc :: bool

definition default_lifecycle :: lifecycle where
  "default_lifecycle = \<lparr>li_completed = False, li_failed = False, li_failed_reason = None, li_aborted_loss = False,
     li_aborted_loss_reason = None, li_aborted_loss_attempt = 0, li_done = False, li_review = False,
     li_ripped = False, li_sweeping = False, li_muxing = False, li_needs_disc = False\<rparr>"

definition from_state :: "disc_state \<Rightarrow> lifecycle" where
  "from_state st =
     (let is_failed = (ds_state st = Failed); is_aborted = (ds_state st = AbortedLoss) in
      \<lparr>li_completed = (ds_state st \<in> {Done, Review, Completed}), li_failed = is_failed,
       li_failed_reason = (if is_failed then ds_failure_reason st else None), li_aborted_loss = is_aborted,
       li_aborted_loss_reason = (if is_aborted then ds_failure_reason st else None),
       li_aborted_loss_attempt = (if is_aborted then ds_aborted_loss_attempt st else 0),
       li_done = (ds_state st = Done), li_review = (ds_state st = Review), li_ripped = (ds_state st = Ripped),
       li_sweeping = (ds_state st = Sweeping), li_muxing = ds_muxing st,
       li_needs_disc = (ds_state st = Ripped \<and> ds_needs_disc st)\<rparr>)"

definition from_legacy :: "codec \<Rightarrow> env \<Rightarrow> scan \<Rightarrow> job_dir \<Rightarrow> lifecycle" where
  "from_legacy c v s jd =
     (let aborted = (if sc_aborted_loss s then read_legacy_aborted_loss c v jd else None) in
      \<lparr>li_completed = sc_completed s, li_failed = sc_failed s,
       li_failed_reason = (if sc_failed s then read_legacy_failed_reason c v jd else None),
       li_aborted_loss = sc_aborted_loss s,
       li_aborted_loss_reason = map_option fst aborted,
       li_aborted_loss_attempt = (case aborted of None \<Rightarrow> 0 | Some (_, a) \<Rightarrow> a),
       li_done = sc_done s, li_review = sc_review s, li_ripped = sc_ripped s, li_sweeping = sc_sweeping s,
       li_muxing = sc_muxing s, li_needs_disc = False\<rparr>)"

definition legacy_state :: "scan \<Rightarrow> staging_state option" where
  "legacy_state s =
     (if sc_failed s then Some Failed else if sc_done s then Some Done else if sc_review s then Some Review
      else if sc_aborted_loss s then Some AbortedLoss else if sc_ripped s then Some Ripped
      else if sc_sweeping s then Some Sweeping else if sc_completed s then Some Completed else None)"

definition read_disc_label :: "env \<Rightarrow> job_dir \<Rightarrow> string option" where
  "read_disc_label v jd = (case text_ok v jd disc_label_file of None \<Rightarrow> None
     | Some s \<Rightarrow> if trim s = [] then None else Some (trim s))"

definition when_some :: "'a option \<Rightarrow> ('a \<Rightarrow> disc_state \<Rightarrow> disc_state) \<Rightarrow> disc_state \<Rightarrow> disc_state" where
  "when_some x f st = (case x of None \<Rightarrow> st | Some y \<Rightarrow> f y st)"

definition non_empty :: "string option \<Rightarrow> string option" where
  "non_empty x = (case x of None \<Rightarrow> None | Some s \<Rightarrow> if s = [] then None else Some s)"

definition u16_field :: "json \<Rightarrow> string \<Rightarrow> nat option" where
  "u16_field x k = (case field_u64 x k of None \<Rightarrow> None | Some n \<Rightarrow> if n \<le> max_uint 16 then Some n else None)"

definition apply_legacy_handoff_body :: "codec \<Rightarrow> env \<Rightarrow> job_dir \<Rightarrow> disc_state \<Rightarrow> disc_state" where
  "apply_legacy_handoff_body c v jd st =
     (case (case text_ok v jd done_marker of Some b \<Rightarrow> Some b | None \<Rightarrow> text_ok v jd review_marker) of
        None \<Rightarrow> st
      | Some body \<Rightarrow>
        (case cd_value c body of None \<Rightarrow> st
         | Some x \<Rightarrow>
           (when_some (field_u64 x ''tmdb_id'') (\<lambda>n s. s\<lparr>ds_tmdb_id := n\<rparr>)
           (when_some (field_u64 x ''year'') (\<lambda>n s. s\<lparr>ds_year := min n 9999\<rparr>)
           (when_some (field_str x ''date'') (\<lambda>d s. s\<lparr>ds_date := d\<rparr>)
           (when_some (field_str x ''overview'') (\<lambda>d s. s\<lparr>ds_tmdb_overview := d\<rparr>)
           (when_some (field_str x ''poster_url'') (\<lambda>d s. s\<lparr>ds_tmdb_poster := d\<rparr>)
           (when_some (non_empty (field_str x ''media_type'')) (\<lambda>m s. s\<lparr>ds_media_type := cd_media c m\<rparr>)
           (when_some (non_empty (field_str x ''format'')) (\<lambda>d s. s\<lparr>ds_disc_format := d\<rparr>)
           (when_some (field_str x ''disc_name'') (\<lambda>d s. s\<lparr>ds_disc_name := d\<rparr>)
           (when_some (non_empty (field_str x ''title'')) (\<lambda>d s. s\<lparr>ds_title := d\<rparr>) st)))))))))
             \<lparr>ds_season := u16_field x ''season'', ds_disc_number := u16_field x ''disc''\<rparr>))"

definition legacy_names :: "string list" where
  "legacy_names = [done_marker, review_marker, completed_marker, failed_marker, aborted_loss_marker,
     ripped_marker_name, sweeping_marker, muxing_marker, accept_loss_marker, restart_count_file]"

text \<open>The state built from the marker files; reads: one of \<open>read_marker\<close>, one of the write.\<close>

definition legacy_disc_state :: "codec \<Rightarrow> staging_state \<Rightarrow> scan \<Rightarrow> env \<Rightarrow> job_dir \<Rightarrow> disc_state" where
  "legacy_disc_state c state s v jd =
     (let st0 = (new_state state)\<lparr>ds_muxing := sc_muxing s, ds_accept_loss := landed (probe v jd accept_loss_marker),
            ds_restart_count := legacy_restart_count v jd\<rparr>;
          st1 = (if state = Failed then st0\<lparr>ds_failure_reason := read_legacy_failed_reason c v jd\<rparr> else st0);
          st2 = (if state = AbortedLoss
                 then (case read_legacy_aborted_loss c v jd of None \<Rightarrow> st1
                       | Some (reason, attempt) \<Rightarrow>
                           st1\<lparr>ds_failure_reason := Some reason, ds_aborted_loss_attempt := attempt\<rparr>)
                 else st1);
          st3 = (case read_marker c v jd of Inl _ \<Rightarrow> st2 | Inr m \<Rightarrow> apply_ripped m st2);
          st4 = apply_legacy_handoff_body c v jd st3
      in when_some (read_disc_label v jd) (\<lambda>l x. x\<lparr>ds_disc_label := l\<rparr>) st4)"

definition upgrade_legacy_to_state :: "codec \<Rightarrow> path \<Rightarrow> scan \<Rightarrow> env \<Rightarrow> job_dir \<Rightarrow> job_dir" where
  "upgrade_legacy_to_state c dir s v jd =
     (case legacy_state s of None \<Rightarrow> jd
      | Some state \<Rightarrow>
          (case on_slot (try_write_state dir (legacy_disc_state c state s v jd) (en_read v 1) (en_write v 0)) jd of
             (Inl _, jd') \<Rightarrow> jd'
           | (Inr _, jd') \<Rightarrow> foldl (\<lambda>x n. remove_legacy_marker v n x) jd' legacy_names))"

section \<open>The snapshot\<close>

record snapshot =
  sn_life :: lifecycle
  sn_iso :: bool
  sn_mapfile :: bool
  sn_mkv :: bool
  sn_entry_error :: bool
  sn_saw_no_entries :: bool
  sn_unreadable :: "state_unreadable option"

definition has_partial_state :: "snapshot \<Rightarrow> bool" where
  "has_partial_state s \<longleftrightarrow> sn_iso s \<or> sn_mapfile s \<or> sn_mkv s \<or> sn_entry_error s"

definition snapshot_of :: "scan \<Rightarrow> lifecycle \<Rightarrow> state_unreadable option \<Rightarrow> snapshot" where
  "snapshot_of s life u = \<lparr>sn_life = life, sn_iso = sc_iso s, sn_mapfile = sc_mapfile s, sn_mkv = sc_mkv s,
     sn_entry_error = sc_entry_error s, sn_saw_no_entries = (\<not> sc_any_entries s), sn_unreadable = u\<rparr>"

definition snapshot_staging_disc :: "codec \<Rightarrow> path \<Rightarrow> env \<Rightarrow> job_dir \<Rightarrow> snapshot option \<times> job_dir" where
  "snapshot_staging_disc c dir v jd =
     (if jd_kind jd \<noteq> Folder then (None, jd)
      else
        let s = scan_dir v in
        if contents_unknown s then (None, jd)
        else if sc_state_file s
        then (case read_state_checked (en_read v 0) (jd_slot jd) of
                StateValid st \<Rightarrow>
                  if ds_reset_in_progress st then (None, jd) else (Some (snapshot_of s (from_state st) None), jd)
              | StateAbsent \<Rightarrow> (Some (snapshot_of s (from_legacy c v s jd) None), jd)
              | StateUnreadable u \<Rightarrow> (Some (snapshot_of s (from_legacy c v s jd) (Some u)), jd))
        else if has_any_lifecycle_marker s
        then (Some (snapshot_of s (from_legacy c v s jd) None), upgrade_legacy_to_state c dir s v jd)
        else (Some (snapshot_of s default_lifecycle None), jd))"

end
