(* ===== verification/Mux_Cards.thy ===== *)
theory Mux_Cards
  imports Complex_Main Prelude "HOL-Library.Mapping"
begin

text \<open>
  The error cards of the mux worker (\<open>server/muxer.rs\<close>, \<open>MUX_ERRORS\<close> and \<open>MUX_DISMISSED\<close>):
  one card per staging folder, with what the operator dismissed. The locks the code holds
  around each change make it one step; the syslog line a new card writes is not modelled,
  but whether it is written is what \<open>announces\<close> says.
\<close>

record mux_error =
  me_path :: string
  me_reason :: string
  me_hint :: string

record cards =
  mc_errors :: "(string, mux_error) mapping"
  mc_dismissed :: "string set"

definition no_cards :: cards where
  "no_cards = \<lparr>mc_errors = Mapping.empty, mc_dismissed = {}\<rparr>"

definition record_error_announced :: "string \<Rightarrow> string \<Rightarrow> string \<Rightarrow> bool \<Rightarrow> cards \<Rightarrow> bool \<times> cards" where
  "record_error_announced p reason hint announce m =
     (if p \<in> mc_dismissed m then (False, m)
      else let same_reason = (case Mapping.lookup (mc_errors m) p of None \<Rightarrow> False | Some e \<Rightarrow> me_reason e = reason)
           in (announce \<and> \<not> same_reason,
               m\<lparr>mc_errors := Mapping.update p \<lparr>me_path = p, me_reason = reason, me_hint = hint\<rparr> (mc_errors m)\<rparr>))"

definition record_error :: "string \<Rightarrow> string \<Rightarrow> string \<Rightarrow> cards \<Rightarrow> cards" where
  "record_error p reason hint m = snd (record_error_announced p reason hint True m)"

definition announces :: "string \<Rightarrow> string \<Rightarrow> string \<Rightarrow> cards \<Rightarrow> bool" where
  "announces p reason hint m = fst (record_error_announced p reason hint True m)"

definition error_hint_is :: "string \<Rightarrow> string \<Rightarrow> cards \<Rightarrow> bool" where
  "error_hint_is p hint m = (case Mapping.lookup (mc_errors m) p of None \<Rightarrow> False | Some e \<Rightarrow> me_hint e = hint)"

definition clear_error :: "string \<Rightarrow> cards \<Rightarrow> cards" where
  "clear_error p m = m\<lparr>mc_errors := Mapping.delete p (mc_errors m)\<rparr>"

definition clear_error_with_prefix :: "string \<Rightarrow> string \<Rightarrow> cards \<Rightarrow> cards" where
  "clear_error_with_prefix p prefix m =
     (case Mapping.lookup (mc_errors m) p of
        Some e \<Rightarrow> if starts_with (me_reason e) prefix then clear_error p m else m
      | None \<Rightarrow> m)"

definition clear_mux_error :: "string \<Rightarrow> cards \<Rightarrow> cards" where
  "clear_mux_error p m =
     (case Mapping.lookup (mc_errors m) p of None \<Rightarrow> m
      | Some _ \<Rightarrow> (clear_error p m)\<lparr>mc_dismissed := insert p (mc_dismissed m)\<rparr>)"

definition clear_all_mux_errors :: "cards \<Rightarrow> cards" where
  "clear_all_mux_errors m = \<lparr>mc_errors = Mapping.empty, mc_dismissed = mc_dismissed m \<union> Mapping.keys (mc_errors m)\<rparr>"

definition undismiss :: "string \<Rightarrow> cards \<Rightarrow> cards" where
  "undismiss p m = m\<lparr>mc_dismissed := mc_dismissed m - {p}\<rparr>"

text \<open>\<open>absent\<close> answers for each path whether its folder is certainly gone.\<close>

definition definitely_absent :: "unit io_result \<Rightarrow> bool" where
  "definitely_absent r = (case r of Inl e \<Rightarrow> err_kind e = NotFound | Inr _ \<Rightarrow> False)"

definition prune_stale_errors_with :: "(string \<Rightarrow> bool) \<Rightarrow> cards \<Rightarrow> cards" where
  "prune_stale_errors_with absent m =
     m\<lparr>mc_errors := Mapping.filter (\<lambda>p _. \<not> absent p) (mc_errors m),
       mc_dismissed := {p \<in> mc_dismissed m. \<not> absent p}\<rparr>"

section \<open>What is shown\<close>

definition shown_card :: "cards \<Rightarrow> string \<Rightarrow> mux_error option" where
  "shown_card m p = Mapping.lookup (mc_errors m) p"

lemma shown_card_record [simp]:
  "shown_card (record_error p reason hint m) q =
     (if q = p \<and> p \<notin> mc_dismissed m then Some \<lparr>me_path = p, me_reason = reason, me_hint = hint\<rparr> else shown_card m q)"
  by (auto simp: shown_card_def record_error_def record_error_announced_def Let_def lookup_update')

lemma shown_card_announced [simp]:
  "shown_card (snd (record_error_announced p reason hint b m)) q =
     (if q = p \<and> p \<notin> mc_dismissed m then Some \<lparr>me_path = p, me_reason = reason, me_hint = hint\<rparr> else shown_card m q)"
  by (auto simp: shown_card_def record_error_announced_def Let_def lookup_update')

lemma shown_card_clear [simp]: "shown_card (clear_error p m) q = (if q = p then None else shown_card m q)"
  by (simp add: shown_card_def clear_error_def lookup_delete)

lemma dismissed_simps [simp]:
  "mc_dismissed (record_error p reason hint m) = mc_dismissed m"
  "mc_dismissed (snd (record_error_announced p reason hint b m)) = mc_dismissed m"
  "mc_dismissed (clear_error p m) = mc_dismissed m"
  "mc_dismissed (undismiss p m) = mc_dismissed m - {p}"
  "mc_dismissed (clear_error_with_prefix p pre m) = mc_dismissed m"
  by (auto simp: record_error_def record_error_announced_def Let_def clear_error_def undismiss_def
      clear_error_with_prefix_def split: option.split)

lemma shown_card_undismiss [simp]: "shown_card (undismiss p m) = shown_card m"
  by (rule ext) (simp add: shown_card_def undismiss_def)

lemma shown_card_prefix [simp]:
  "shown_card (clear_error_with_prefix p pre m) q =
     (if q = p \<and> (\<exists>e. shown_card m p = Some e \<and> starts_with (me_reason e) pre) then None else shown_card m q)"
  by (auto simp: clear_error_with_prefix_def shown_card_def clear_error_def lookup_delete split: option.split)

lemma shown_card_dismiss [simp]: "shown_card (clear_mux_error p m) q = (if q = p then None else shown_card m q)"
  by (auto simp: clear_mux_error_def shown_card_def clear_error_def lookup_delete split: option.split)

lemma dismissed_dismiss [simp]:
  "mc_dismissed (clear_mux_error p m) = (if shown_card m p = None then mc_dismissed m else insert p (mc_dismissed m))"
  by (auto simp: clear_mux_error_def shown_card_def clear_error_def split: option.split)

section \<open>Sequences of card operations\<close>

datatype card_op = Record string string string bool | Clear string | ClearPrefix string string
  | Dismiss string | DismissAll | Undismiss string | Prune "string \<Rightarrow> bool"

fun run_card_op :: "card_op \<Rightarrow> cards \<Rightarrow> cards" where
  "run_card_op (Record p r h b) m = snd (record_error_announced p r h b m)"
| "run_card_op (Clear p) m = clear_error p m"
| "run_card_op (ClearPrefix p pre) m = clear_error_with_prefix p pre m"
| "run_card_op (Dismiss p) m = clear_mux_error p m"
| "run_card_op DismissAll m = clear_all_mux_errors m"
| "run_card_op (Undismiss p) m = undismiss p m"
| "run_card_op (Prune absent) m = prune_stale_errors_with absent m"

definition no_dismissed_card :: "cards \<Rightarrow> bool" where
  "no_dismissed_card m \<longleftrightarrow> (\<forall>p \<in> mc_dismissed m. shown_card m p = None)
     \<and> (\<forall>p e. shown_card m p = Some e \<longrightarrow> me_path e = p)"

lemma shown_card_all: "shown_card (clear_all_mux_errors m) p = None"
  by (simp add: shown_card_def clear_all_mux_errors_def)

lemma shown_card_prune:
  "shown_card (prune_stale_errors_with absent m) p = (if absent p then None else shown_card m p)"
  by (simp add: shown_card_def prune_stale_errors_with_def lookup_filter split: option.split)

lemma dismissed_prune: "mc_dismissed (prune_stale_errors_with absent m) = {p \<in> mc_dismissed m. \<not> absent p}"
  by (simp add: prune_stale_errors_with_def)

lemma card_step: "no_dismissed_card m \<Longrightarrow> no_dismissed_card (run_card_op opn m)"
proof (cases opn)
  case DismissAll
  then show ?thesis by (simp add: no_dismissed_card_def shown_card_all)
next
  case (Prune absent)
  assume "no_dismissed_card m"
  with Prune show ?thesis by (auto simp: no_dismissed_card_def shown_card_prune dismissed_prune)
qed (auto simp: no_dismissed_card_def)

fun undismisses :: "string \<Rightarrow> card_op \<Rightarrow> bool" where
  "undismisses p (Undismiss q) = (p = q)"
| "undismisses p (Prune absent) = absent p"
| "undismisses p _ = False"

lemma card_keeps_dismissed:
  "p \<in> mc_dismissed m \<Longrightarrow> \<not> undismisses p opn \<Longrightarrow> p \<in> mc_dismissed (run_card_op opn m)"
  by (cases opn) (auto simp: clear_all_mux_errors_def dismissed_prune)

text \<open>
  A card the operator dismissed stays away: over any sequence of reports, clears, dismissals
  and prunes, no card shows for the path until a fresh dispatch lifts the dismissal or the
  folder is certainly gone; and every card shown is filed under the path it names.
\<close>

theorem dismissed_card_stays_away:
  assumes "no_dismissed_card m" "p \<in> mc_dismissed m" "list_all (\<lambda>x. \<not> undismisses p x) ops"
  shows "no_dismissed_card (fold run_card_op ops m) \<and> shown_card (fold run_card_op ops m) p = None"
proof -
  have "no_dismissed_card (fold run_card_op ops m) \<and> p \<in> mc_dismissed (fold run_card_op ops m)"
    using assms
  proof (induction ops arbitrary: m)
    case (Cons x ops)
    then show ?case by (simp add: card_step card_keeps_dismissed)
  qed simp
  then show ?thesis by (simp add: no_dismissed_card_def)
qed

theorem dismissed_card_stays_away_witness:
  "shown_card (fold run_card_op [Record ''/s/d'' ''r'' ''h'' True, Clear ''/s/e''] \<lparr>mc_errors = Mapping.empty, mc_dismissed = {''/s/d''}\<rparr>) ''/s/d'' = None"
  by (rule conjunct2 [OF dismissed_card_stays_away]) (simp_all add: no_dismissed_card_def shown_card_def)

end
