(* ===== verification/Staging_Resume.thy ===== *)
theory Staging_Resume
  imports Staging_Scan Mux_Cards
begin

text \<open>
  The two walks over the staging root that may delete or close a job: the startup walk
  (\<open>resume_or_quarantine_staging\<close>) and Clear staging (\<open>clear_abandoned_staging\<close>), of
  \<open>server/ripper/staging.rs\<close>. Each call a walk makes on one folder has an environment of
  its own, numbered in the order of the code, so a listing may show a file to one call and
  hide it from the next, as a cold network share does.
\<close>

section \<open>Names\<close>


definition ripper_bookkeeping :: "string list" where
  "ripper_bookkeeping = [state_file, unreadable_state_aside, done_marker, review_marker, completed_marker,
     failed_marker, aborted_loss_marker, ripped_marker_name, sweeping_marker, muxing_marker,
     accept_loss_marker, restart_count_file, disc_label_file]"

definition is_ripper_bookkeeping :: "string \<Rightarrow> bool" where
  "is_ripper_bookkeeping n \<longleftrightarrow>
     (case strip_suffix n ''.tmp'' of None \<Rightarrow> n | Some m \<Rightarrow> m) \<in> set ripper_bookkeeping"

definition holds_only_ripper_bookkeeping :: "listing \<Rightarrow> bool" where
  "holds_only_ripper_bookkeeping l = (case l of Inl _ \<Rightarrow> False
     | Inr es \<Rightarrow> list_all (\<lambda>x. case x of Inl _ \<Rightarrow> False | Inr n \<Rightarrow> is_ripper_bookkeeping n) es)"

definition is_system_folder :: "string \<Rightarrow> bool" where
  "is_system_folder n = (case n of [] \<Rightarrow> False | c # _ \<Rightarrow> c \<in> {CHR ''.'', CHR ''@'', CHR ''#''})"

definition unverified_job_prefix :: string where
  "unverified_job_prefix = ''unverified-''"

definition is_unverified :: "path \<Rightarrow> bool" where
  "is_unverified dir \<longleftrightarrow> (case file_name dir of None \<Rightarrow> False | Some n \<Rightarrow> starts_with n unverified_job_prefix)"

text \<open>\<open>shown\<close>: the job ids of the drives' rows.\<close>

definition unadoptable_unverified :: "string set \<Rightarrow> path \<Rightarrow> bool" where
  "unadoptable_unverified shown dir \<longleftrightarrow>
     (case file_name dir of None \<Rightarrow> False | Some n \<Rightarrow> starts_with n unverified_job_prefix \<and> n \<notin> shown)"

section \<open>Deleting a folder\<close>

text \<open>\<open>remove_dir_all\<close>: everything goes, or the call fails having deleted some of it.\<close>

definition remove_dir_all :: "env \<Rightarrow> job_dir \<Rightarrow> unit io_result \<times> job_dir" where
  "remove_dir_all v jd =
     (case en_rmdir v of
        None \<Rightarrow> (Inr (), jd\<lparr>jd_kind := Absent, jd_slot := \<lparr>slot_target = None, slot_tmp = None\<rparr>, jd_files := []\<rparr>)
      | Some e \<Rightarrow>
          (Inl e, jd\<lparr>jd_slot := \<lparr>slot_target = (if en_unlink v state_file = None then None else slot_target (jd_slot jd)),
                               slot_tmp = (if en_unlink v state_tmp = None then None else slot_tmp (jd_slot jd))\<rparr>,
                    jd_files := filter (\<lambda>f. en_unlink v (fst f) \<noteq> None) (jd_files jd)\<rparr>))"

section \<open>The startup walk\<close>

definition stop_orphaned_unverified :: "path \<Rightarrow> env \<Rightarrow> job_dir \<Rightarrow> job_dir" where
  "stop_orphaned_unverified dir v jd =
     (if en_leased v then jd
      else if is_unverified dir
              \<and> (case read_state (en_read v 0) (jd_slot jd) of None \<Rightarrow> False
                 | Some s \<Rightarrow> ds_state s = Sweeping \<and> \<not> ds_muxing s)
      then clear_sweeping_marker dir (later 1 0 v) jd
      else jd)"

definition quarantine_restart_loop :: "path \<Rightarrow> string \<Rightarrow> env \<Rightarrow> job_dir \<Rightarrow> cards \<Rightarrow> job_dir \<times> cards" where
  "quarantine_restart_loop dir reason v jd m =
     (case write_failed_marker dir reason v jd of
        (True, jd') \<Rightarrow> (clear_restart_count dir (later 2 1 v) jd', m)
      | (False, jd') \<Rightarrow>
          (jd', record_error (path_text dir) reason
             ''the restart-loop quarantine (.failed) could not be written to state.json; check the staging mount. The restart count is kept, so it is retried on the next start'' m))"

definition surface_interrupted_reset :: "path \<Rightarrow> bool io_result \<Rightarrow> cards \<Rightarrow> cards" where
  "surface_interrupted_reset dir finished m = (case finished of Inr _ \<Rightarrow> m
     | Inl e \<Rightarrow> record_error (path_text dir)
         (''an interrupted Start over could not finish deleting the old capture: '' @ err_text e)
         ''fix the staging share (permissions, a busy or stale file), then restart the server or choose Start over on this disc'' m)"

datatype resume_action =
    AlreadyCompleted
  | InProgress
  | AlreadyFailed string
  | RestartLoopFailed string
  | HeldUnreadableState string
  | ResumePreserved nat bool bool bool
  | ResumeAbortedLoss nat string bool bool bool

text \<open>\<open>hint\<close> is \<open>StateUnreadable::hint\<close>, a localised text.\<close>

definition resume_owned ::
    "path \<Rightarrow> snapshot \<Rightarrow> (nat \<Rightarrow> env) \<Rightarrow> job_dir \<Rightarrow> cards \<Rightarrow> resume_action \<times> job_dir \<times> cards" where
  "resume_owned dir snap ve jd m =
     (let rc = restart_count (ve 5) jd in
      if rc \<ge> restart_limit
      then let reason = ''restart loop detected ('' @ show_nat rc @ '' attempts) on owned/in-progress dir (''
                 @ (if li_muxing (sn_life snap) then ''.muxing'' else ''.sweeping'') @ ''); state preserved at '' @ path_text dir
           in (RestartLoopFailed reason, quarantine_restart_loop dir reason (ve 6) jd m)
      else (InProgress, snd (increment_restart_count dir (ve 6) jd), m))"

definition resume_partial ::
    "path \<Rightarrow> snapshot \<Rightarrow> (nat \<Rightarrow> env) \<Rightarrow> job_dir \<Rightarrow> cards \<Rightarrow> resume_action \<times> job_dir \<times> cards" where
  "resume_partial dir snap ve jd m =
     (let rc = restart_count (ve 5) jd in
      if rc \<ge> restart_limit
      then let reason = ''restart loop detected ('' @ show_nat rc @ '' attempts); partial state preserved at '' @ path_text dir
           in (RestartLoopFailed reason, quarantine_restart_loop dir reason (ve 6) jd m)
      else (ResumePreserved rc (sn_iso snap) (sn_mapfile snap) (sn_mkv snap), jd, m))"

definition resume_snapshot ::
    "(state_unreadable \<Rightarrow> string) \<Rightarrow> path \<Rightarrow> snapshot \<Rightarrow> (nat \<Rightarrow> env) \<Rightarrow> job_dir \<Rightarrow> cards
     \<Rightarrow> resume_action option \<times> job_dir \<times> cards" where
  "resume_snapshot hint dir snap ve jd m =
     (let life = sn_life snap in
      if \<not> sn_iso snap \<and> (case read_state (en_read (ve 4) 0) (jd_slot jd) of None \<Rightarrow> False | Some s \<Rightarrow> ds_state s = Stopped)
      then (None, jd, m)
      else if li_completed life then (Some AlreadyCompleted, jd, m)
      else if li_failed life
      then (Some (AlreadyFailed (case li_failed_reason life of Some r \<Rightarrow> r
              | None \<Rightarrow> ''failed (no machine-readable reason recorded)'')), jd, m)
      else if li_aborted_loss life
      then (Some (ResumeAbortedLoss (li_aborted_loss_attempt life)
              (case li_aborted_loss_reason life of Some r \<Rightarrow> r | None \<Rightarrow> ''aborted: loss exceeded threshold'')
              (sn_iso snap) (sn_mapfile snap) (sn_mkv snap)), jd, m)
      else if li_done life then (Some AlreadyCompleted, jd, m)
      else if li_review life then (Some AlreadyCompleted, jd, m)
      else case sn_unreadable snap of
        Some u \<Rightarrow> (Some (HeldUnreadableState (held_reason u)), jd, record_error (path_text dir) (held_reason u) (hint u) m)
      | None \<Rightarrow>
          if li_sweeping life \<or> li_muxing life
          then (case resume_owned dir snap ve jd m of (a, jd', m') \<Rightarrow> (Some a, jd', m'))
          else if \<not> has_partial_state snap
          then (if \<not> holds_only_ripper_bookkeeping (en_list (ve 5) 0) then (None, jd, m)
                else (None, snd (remove_dir_all (ve 6) jd), m))
          else (case resume_partial dir snap ve jd m of (a, jd', m') \<Rightarrow> (Some a, jd', m')))"

definition resume_entry ::
    "codec \<Rightarrow> (state_unreadable \<Rightarrow> string) \<Rightarrow> path \<Rightarrow> (nat \<Rightarrow> env) \<Rightarrow> job_dir \<Rightarrow> cards
     \<Rightarrow> resume_action option \<times> job_dir \<times> cards" where
  "resume_entry c hint dir ve jd m =
     (case finish_interrupted_reset dir (ve 0) jd of (finished, jd1) \<Rightarrow>
      let m1 = surface_interrupted_reset dir finished m;
          jd2 = (if jd_kind jd1 = Folder
                 then stop_orphaned_unverified dir (ve 2) (remove_prune_leftovers (ve 1) jd1) else jd1)
      in case snapshot_staging_disc c dir (ve 3) jd2 of
           (None, jd3) \<Rightarrow> (None, jd3, m1)
         | (Some snap, jd3) \<Rightarrow> resume_snapshot hint dir snap ve jd3 m1)"

text \<open>The walk: an entry the listing could not name is skipped; a listing that fails ends it.\<close>

fun resume_entries ::
    "codec \<Rightarrow> (state_unreadable \<Rightarrow> string) \<Rightarrow> (io_error + path \<times> (nat \<Rightarrow> env) \<times> job_dir) list \<Rightarrow> cards
     \<Rightarrow> (path \<times> resume_action) list \<times> (path \<times> job_dir) list \<times> cards" where
  "resume_entries c hint [] m = ([], [], m)"
| "resume_entries c hint (Inl e # es) m = resume_entries c hint es m"
| "resume_entries c hint (Inr (dir, ve, jd) # es) m =
     (let (a, jd', m') = resume_entry c hint dir ve jd m;
          (hints, dirs, m'') = resume_entries c hint es m'
      in ((case a of None \<Rightarrow> [] | Some x \<Rightarrow> [(dir, x)]) @ hints, (dir, jd') # dirs, m''))"

definition resume_or_quarantine_staging ::
    "codec \<Rightarrow> (state_unreadable \<Rightarrow> string) \<Rightarrow> (io_error + (io_error + path \<times> (nat \<Rightarrow> env) \<times> job_dir) list) \<Rightarrow> cards
     \<Rightarrow> (path \<times> resume_action) list \<times> (path \<times> job_dir) list \<times> cards" where
  "resume_or_quarantine_staging c hint walk m =
     (case walk of Inl _ \<Rightarrow> ([], [], m) | Inr es \<Rightarrow> resume_entries c hint es m)"

section \<open>Clear staging\<close>

text \<open>The deletion by name, state last; then the folder, which must be empty.\<close>

fun clear_names :: "env \<Rightarrow> string list \<Rightarrow> job_dir \<Rightarrow> bool io_result \<times> job_dir" where
  "clear_names v [] jd = (case remove_dir v jd of (Inl e, jd') \<Rightarrow> (Inl e, jd') | (Inr _, jd') \<Rightarrow> (Inr True, jd'))"
| "clear_names v (n # ns) jd =
     (if \<not> is_ripper_bookkeeping n then (Inl (io_other ''staging entry changed while clearing''), jd)
      else case remove_file v n jd of (Inl e, jd') \<Rightarrow> (Inl e, jd') | (Inr _, jd') \<Rightarrow> clear_names v ns jd')"

fun all_names :: "(io_error + string) list \<Rightarrow> string list io_result" where
  "all_names [] = Inr []"
| "all_names (Inl e # es) = Inl e"
| "all_names (Inr n # es) = (case all_names es of Inl e \<Rightarrow> Inl e | Inr ns \<Rightarrow> Inr (n # ns))"

definition state_last :: "string list \<Rightarrow> string list" where
  "state_last ns = filter (\<lambda>n. n \<noteq> state_file) ns @ filter (\<lambda>n. n = state_file) ns"

definition clear_bookkeeping :: "env \<Rightarrow> job_dir \<Rightarrow> bool io_result \<times> job_dir" where
  "clear_bookkeeping v jd =
     (case en_list v 1 of Inl e \<Rightarrow> (Inl e, jd)
      | Inr es \<Rightarrow> (case all_names es of Inl e \<Rightarrow> (Inl e, jd) | Inr ns \<Rightarrow> clear_names v (state_last ns) jd))"

definition abandoned_idle :: "disc_state option \<Rightarrow> bool" where
  "abandoned_idle st = (case st of None \<Rightarrow> True
     | Some s \<Rightarrow> (ds_state s = Stopped \<or> ds_state s = Completed) \<and> ds_user_metadata s = None)"

definition clear_if_abandoned ::
    "codec \<Rightarrow> string set \<Rightarrow> path \<Rightarrow> env \<Rightarrow> env \<Rightarrow> job_dir \<Rightarrow> bool io_result \<times> job_dir" where
  "clear_if_abandoned c shown dir v0 v jd =
     (case snapshot_staging_disc c dir v0 jd of (None, jd1) \<Rightarrow> (Inr False, jd1)
      | (Some snap, jd1) \<Rightarrow>
        if sn_entry_error snap \<or> sn_unreadable snap \<noteq> None \<or> \<not> delivery_journal_absent v jd1 then (Inr False, jd1)
        else
          let go = (\<lambda>st.
            if (case st of None \<Rightarrow> False
                | Some s \<Rightarrow> ds_state s = Failed \<or> (ds_state s = Stopped \<and> unadoptable_unverified shown dir))
            then (case remove_dir_all v jd1 of (Inl e, jd2) \<Rightarrow> (Inl e, jd2) | (Inr _, jd2) \<Rightarrow> (Inr True, jd2))
            else if \<not> abandoned_idle st \<or> has_partial_state snap \<or> \<not> holds_only_ripper_bookkeeping (en_list v 0)
            then (Inr False, jd1)
            else clear_bookkeeping v jd1)
          in case read_state_checked (en_read v 0) (jd_slot jd1) of
               StateValid st \<Rightarrow> if ds_reset_in_progress st \<or> ds_muxing st then (Inr False, jd1) else go (Some st)
             | StateAbsent \<Rightarrow> go None
             | StateUnreadable _ \<Rightarrow> (Inr False, jd1))"

text \<open>One folder of \<open>clear_abandoned_staging\<close>: how many were removed, how many failed.\<close>

definition clear_entry ::
    "codec \<Rightarrow> string set \<Rightarrow> path \<Rightarrow> (nat \<Rightarrow> env) \<Rightarrow> job_dir \<Rightarrow> cards \<Rightarrow> (nat \<times> nat) \<times> job_dir \<times> cards" where
  "clear_entry c shown dir ve jd m =
     (if jd_kind jd \<noteq> Folder \<or> en_leased (ve 0) then ((0, 0), jd, m)
      else
        case finish_interrupted_reset_owned dir (ve 0) jd of (finished, jd1) \<Rightarrow>
        let m1 = surface_interrupted_reset dir finished m in
        if jd_kind jd1 = Absent then ((1, 0), jd1, m1)
        else
          let jd2 = snd (remove_prune_leftovers_owned (ve 1) jd1)
          in case clear_if_abandoned c shown dir (ve 2) (ve 3) jd2 of
               (Inr True, jd3) \<Rightarrow> ((1, 0), jd3, m1)
             | (Inr False, jd3) \<Rightarrow> ((0, 0), jd3, m1)
             | (Inl _, jd3) \<Rightarrow> ((0, 1), jd3, m1))"

fun clear_entries ::
    "codec \<Rightarrow> string set \<Rightarrow> (io_error + path \<times> (nat \<Rightarrow> env) \<times> job_dir) list \<Rightarrow> nat \<times> nat \<Rightarrow> cards
     \<Rightarrow> (nat \<times> nat) \<times> (path \<times> job_dir) list \<times> cards" where
  "clear_entries c shown [] n m = (n, [], m)"
| "clear_entries c shown (Inl e # es) (removed, failed) m = clear_entries c shown es (removed, failed + 1) m"
| "clear_entries c shown (Inr (dir, ve, jd) # es) (removed, failed) m =
     (let ((r, f), jd', m') = clear_entry c shown dir ve jd m;
          (n, dirs, m'') = clear_entries c shown es (removed + r, failed + f) m'
      in (n, (dir, jd') # dirs, m''))"

definition clear_abandoned_staging ::
    "codec \<Rightarrow> string set \<Rightarrow> (io_error + (io_error + path \<times> (nat \<Rightarrow> env) \<times> job_dir) list) \<Rightarrow> cards
     \<Rightarrow> (nat \<times> nat) \<times> (path \<times> job_dir) list \<times> cards" where
  "clear_abandoned_staging c shown walk m =
     (case walk of Inl _ \<Rightarrow> ((0, 1), [], m) | Inr es \<Rightarrow> clear_entries c shown es (0, 0) m)"

definition inert_legacy :: "env \<Rightarrow> job_dir \<Rightarrow> bool" where
  "inert_legacy v jd \<longleftrightarrow> \<not> en_leased v
     \<and> \<not> (case read_state (en_read v 0) (jd_slot jd) of None \<Rightarrow> False
          | Some s \<Rightarrow> ds_muxing s \<or> ds_state s \<in> {Ripped, Done, Review})
     \<and> delivery_journal_absent v jd
     \<and> list_all (\<lambda>n. case probe v jd n of Inl e \<Rightarrow> err_kind e = NotFound | Inr _ \<Rightarrow> False)
         [done_marker, review_marker, ripped_marker_name]"

end
