(* ===== verification/Staging_Safety.thy ===== *)
theory Staging_Safety
  imports Staging_Resume
begin

text \<open>
  What the staging walks promise. A file that is not the ripper's own bookkeeping (a capture,
  its map, an output) survives the startup walk; Clear staging deletes one only with a
  terminal job; a job that keeps crashing its sweep is closed after the restart limit.
\<close>

section \<open>Operations that touch bookkeeping only\<close>

definition keeps_file :: "string \<Rightarrow> job_dir \<Rightarrow> job_dir \<Rightarrow> bool" where
  "keeps_file n jd jd' \<longleftrightarrow> file_at jd' n = file_at jd n"

named_theorems keeps \<open>operations that leave a capture's files alone\<close>

lemma keeps_file_refl [keeps]: "keeps_file n jd jd"
  by (simp add: keeps_file_def)

lemma keeps_file_trans [trans]: "keeps_file n a b \<Longrightarrow> keeps_file n b c \<Longrightarrow> keeps_file n a c"
  by (simp add: keeps_file_def)

lemma keeps_file_slot [keeps]: "keeps_file n jd (jd\<lparr>jd_slot := s\<rparr>)"
  by (simp add: keeps_file_def)

lemma keeps_on_slot [keeps]: "keeps_file n jd (snd (on_slot f jd))"
  by (simp add: keeps_file_def on_slot_def Let_def)

lemma strip_tmp_last: "strip_suffix n ''.tmp'' = Some m \<Longrightarrow> n = m @ ''.tmp''"
  by (auto simp: strip_suffix_def ends_with_def split: if_splits) (metis append_take_drop_id)

lemma bookkeeping_names:
  "is_ripper_bookkeeping m \<Longrightarrow> \<not> is_ripper_bookkeeping n \<Longrightarrow> m \<noteq> n"
  by auto

lemma not_tmp_names: "strip_suffix m ''.tmp'' = None \<Longrightarrow> m \<in> set ripper_bookkeeping \<Longrightarrow> is_ripper_bookkeeping m"
  by (simp add: is_ripper_bookkeeping_def)

lemma bookkeeping_marker [simp]:
  "is_ripper_bookkeeping state_file" "is_ripper_bookkeeping done_marker" "is_ripper_bookkeeping review_marker"
  "is_ripper_bookkeeping completed_marker" "is_ripper_bookkeeping failed_marker" "is_ripper_bookkeeping aborted_loss_marker"
  "is_ripper_bookkeeping ripped_marker_name" "is_ripper_bookkeeping sweeping_marker" "is_ripper_bookkeeping muxing_marker"
  "is_ripper_bookkeeping accept_loss_marker" "is_ripper_bookkeeping restart_count_file"
  by (simp_all add: is_ripper_bookkeeping_def ripper_bookkeeping_def marker_names strip_suffix_def ends_with_def)

lemma bookkeeping_tmp [simp]: "m \<in> set ripper_bookkeeping \<Longrightarrow> is_ripper_bookkeeping (m @ ''.tmp'')"
  by (simp add: is_ripper_bookkeeping_def)

lemma keeps_drop_node: "m \<noteq> n \<Longrightarrow> keeps_file n jd (drop_node m jd)"
  by (simp add: keeps_file_def drop_node_def)

lemma keeps_remove_file: "m \<noteq> n \<Longrightarrow> keeps_file n jd (snd (remove_file v m jd))"
  by (auto simp: remove_file_def keeps_drop_node keeps_file_refl split: option.split node.split)

lemma keeps_remove_legacy [keeps]:
  "is_ripper_bookkeeping m \<Longrightarrow> \<not> is_ripper_bookkeeping n \<Longrightarrow> keeps_file n jd (remove_legacy_marker v m jd)"
  unfolding remove_legacy_marker_def by (rule keeps_remove_file) auto

lemma keeps_put_file:
  "m \<in> set ripper_bookkeeping \<Longrightarrow> is_ripper_bookkeeping m \<Longrightarrow> \<not> is_ripper_bookkeeping n
   \<Longrightarrow> keeps_file n jd (snd (put_file dir m c w jd))"
  using bookkeeping_tmp [of m] by (auto simp: put_file_def Let_def keeps_file_def)

lemma restart_file_listed: "restart_count_file \<in> set ripper_bookkeeping"
  by (simp add: ripper_bookkeeping_def)

lemma keeps_clear_restart [keeps]: "\<not> is_ripper_bookkeeping n \<Longrightarrow> keeps_file n jd (clear_restart_count dir v jd)"
  unfolding clear_restart_count_def
  by (rule keeps_file_trans [OF keeps_file_slot keeps_remove_legacy]) simp_all

lemma keeps_increment [keeps]: "\<not> is_ripper_bookkeeping n \<Longrightarrow> keeps_file n jd (snd (increment_restart_count dir v jd))"
proof (cases "read_state (en_read v 0) (jd_slot jd)")
  case None
  assume n: "\<not> is_ripper_bookkeeping n"
  let ?k = "saturating_add 64 (restart_count (later 1 0 v) jd) 1"
  obtain r jd' where p: "put_file dir restart_count_file (show_nat ?k @ [CHR 0x0A]) ((en_write v 0)\<lparr>ft_dirsync := None\<rparr>) jd = (r, jd')"
    by fastforce
  have "keeps_file n jd jd'"
    using keeps_put_file [OF restart_file_listed _ n, of jd dir "show_nat ?k @ [CHR 0x0A]" "(en_write v 0)\<lparr>ft_dirsync := None\<rparr>"] p
    by simp
  with None p show ?thesis by (auto simp: increment_restart_count_def Let_def split: sum.split)
next
  case (Some st)
  let ?f = "try_write_state dir (st\<lparr>ds_restart_count := saturating_add 64 (ds_restart_count st) 1\<rparr>) (en_read v 1) (en_write v 0)"
  obtain r jd' where p: "on_slot ?f jd = (r, jd')" by fastforce
  have "keeps_file n jd jd'" using keeps_on_slot [of n jd ?f] p by simp
  with Some p show ?thesis by (auto simp: increment_restart_count_def Let_def split: sum.split)
qed

lemma keeps_close [keeps]: "\<not> is_ripper_bookkeeping n \<Longrightarrow> keeps_file n jd (snd (close_job dir d f v jd))"
proof -
  assume n: "\<not> is_ripper_bookkeeping n"
  have "keeps_file n x (remove_legacy_marker v muxing_marker (remove_legacy_marker v sweeping_marker x))" for x
    by (rule keeps_file_trans [OF keeps_remove_legacy keeps_remove_legacy]) (use n in simp_all)
  then show ?thesis
    by (auto simp: close_job_def Let_def keeps_file_refl intro: keeps_file_trans [OF keeps_on_slot] split: sum.split)
qed

lemma keeps_clear_sweeping [keeps]: "\<not> is_ripper_bookkeeping n \<Longrightarrow> keeps_file n jd (clear_sweeping_marker dir v jd)"
  unfolding clear_sweeping_marker_def
  by (rule keeps_file_trans [OF keeps_file_slot keeps_remove_legacy]) simp_all

lemma keeps_stop_orphaned [keeps]: "\<not> is_ripper_bookkeeping n \<Longrightarrow> keeps_file n jd (stop_orphaned_unverified dir v jd)"
  by (simp add: stop_orphaned_unverified_def keeps)

lemma keeps_foldl_legacy:
  "list_all is_ripper_bookkeeping ms \<Longrightarrow> \<not> is_ripper_bookkeeping n
   \<Longrightarrow> keeps_file n jd (foldl (\<lambda>x m. remove_legacy_marker v m x) jd ms)"
proof (induction ms arbitrary: jd)
  case (Cons m ms)
  then have "keeps_file n jd (remove_legacy_marker v m jd)" by (simp add: keeps_remove_legacy)
  also have "keeps_file n \<dots> (foldl (\<lambda>x m. remove_legacy_marker v m x) (remove_legacy_marker v m jd) ms)"
    using Cons by simp
  finally show ?case by simp
qed (simp add: keeps)

lemma keeps_snapshot [keeps]: "\<not> is_ripper_bookkeeping n \<Longrightarrow> keeps_file n jd (snd (snapshot_staging_disc c dir v jd))"
proof -
  assume n: "\<not> is_ripper_bookkeeping n"
  have all: "list_all is_ripper_bookkeeping legacy_names" by (simp add: legacy_names_def)
  have "keeps_file n jd (upgrade_legacy_to_state c dir s v jd)" for s
  proof (cases "legacy_state s")
    case (Some state)
    obtain r jd' where p: "on_slot (try_write_state dir (legacy_disc_state c state s v jd) (en_read v 1) (en_write v 0)) jd = (r, jd')"
      by fastforce
    have "keeps_file n jd jd'" using keeps_on_slot p by (metis snd_conv)
    with Some p show ?thesis
      by (auto simp: upgrade_legacy_to_state_def split: sum.split intro: keeps_file_trans keeps_foldl_legacy [OF all n])
  qed (simp add: upgrade_legacy_to_state_def keeps)
  then show ?thesis
    by (auto simp: snapshot_staging_disc_def Let_def keeps_file_refl split: state_read.split)
qed

definition prune_leftover :: "string \<Rightarrow> bool" where
  "prune_leftover n \<longleftrightarrow> list_ex (ends_with n) pruning_suffixes"

lemma keeps_prune_entries:
  "\<not> prune_leftover n \<Longrightarrow> keeps_file n jd (snd (prune_leftover_entries v es k jd))"
proof (induction es arbitrary: k jd)
  case (Cons x es)
  show ?case
  proof (cases x)
    case (Inr m)
    show ?thesis
    proof (cases "prune_leftover m \<and> en_probe v m = None \<and> node_at jd m \<noteq> Some FolderNode")
      case True
      then have "m \<noteq> n" and l: "list_ex (ends_with m) pruning_suffixes"
        using Cons.prems by (auto simp: prune_leftover_def)
      obtain r jd1 where p: "remove_file v m jd = (r, jd1)" by fastforce
      have keep: "keeps_file n jd jd1" using keeps_remove_file [OF \<open>m \<noteq> n\<close>] p by (metis snd_conv)
      have step: "prune_leftover_entries v (x # es) k jd
          = (case r of Inl e \<Rightarrow> (Inl e, jd1) | Inr _ \<Rightarrow> prune_leftover_entries v es (k + 1) jd1)"
        using True l p Inr by (simp split: option.split node.split)
      show ?thesis unfolding step
        using keep keeps_file_trans [OF keep Cons.IH [OF Cons.prems, where k = "k + 1"]] by (simp split: sum.split)
    next
      case False
      then show ?thesis using Cons.IH [OF Cons.prems, where k = k and jd = jd] Inr
        by (cases "node_at jd m = Some FolderNode"; cases "en_probe v m"; cases "prune_leftover m")
          (simp_all add: prune_leftover_def keeps_file_refl)
    qed
  qed (simp add: keeps)
qed (simp add: keeps)

lemma keeps_remove_prune [keeps]: "\<not> prune_leftover n \<Longrightarrow> keeps_file n jd (remove_prune_leftovers v jd)"
  "\<not> prune_leftover n \<Longrightarrow> keeps_file n jd (snd (remove_prune_leftovers_owned v jd))"
  by (auto simp: remove_prune_leftovers_def remove_prune_leftovers_owned_def keeps_prune_entries keeps_file_refl
      split: sum.split)

section \<open>The startup walk deletes no capture\<close>

lemma keeps_quarantine: "\<not> is_ripper_bookkeeping n \<Longrightarrow> keeps_file n jd (fst (quarantine_restart_loop dir reason v jd m))"
proof -
  assume n: "\<not> is_ripper_bookkeeping n"
  obtain ok jd' where p: "write_failed_marker dir reason v jd = (ok, jd')" by fastforce
  have "keeps_file n jd jd'" using keeps_close [OF n] p unfolding write_failed_marker_def by (metis snd_conv)
  with p n show ?thesis
    by (cases ok) (auto simp: quarantine_restart_loop_def intro: keeps_file_trans keeps_clear_restart)
qed

lemma keeps_resume_owned: "\<not> is_ripper_bookkeeping n \<Longrightarrow> keeps_file n jd (fst (snd (resume_owned dir snap ve jd m)))"
  by (simp add: resume_owned_def Let_def keeps_quarantine keeps)

lemma keeps_resume_partial: "\<not> is_ripper_bookkeeping n \<Longrightarrow> keeps_file n jd (fst (snd (resume_partial dir snap ve jd m)))"
  by (simp add: resume_partial_def Let_def keeps_quarantine keeps)

lemma not_only_bookkeeping:
  "\<not> is_ripper_bookkeeping n \<Longrightarrow> Inr n \<in> set es \<Longrightarrow> \<not> holds_only_ripper_bookkeeping (Inr es)"
  by (force simp: holds_only_ripper_bookkeeping_def list_all_iff)

lemma keeps_resume_snapshot:
  assumes "\<not> is_ripper_bookkeeping n" and "\<forall>es. en_list (ve 5) 0 = Inr es \<longrightarrow> Inr n \<in> set es"
  shows "keeps_file n jd (fst (snd (resume_snapshot hint dir snap ve jd m)))"
proof -
  have "\<not> holds_only_ripper_bookkeeping (en_list (ve 5) 0)"
    using assms not_only_bookkeeping by (cases "en_list (ve 5) 0") (auto simp: holds_only_ripper_bookkeeping_def)
  then show ?thesis
    using keeps_resume_owned [OF assms(1), of jd dir snap ve m] keeps_resume_partial [OF assms(1), of jd dir snap ve m]
    by (auto simp: resume_snapshot_def Let_def keeps_file_refl split: option.split prod.split)
qed

text \<open>
  C7: the walk at startup never deletes or changes a capture: with no Start over to finish, a
  file that is neither the ripper's bookkeeping nor left by a prune is as it was, whatever
  the listings before showed or hid and whatever call fails, provided the listing that
  decides on wiping the folder shows the file or fails.
\<close>

theorem resume_keeps_captures:
  assumes no_reset: "\<And>st. read_state_checked (en_read (ve 0) 0) (jd_slot jd) = StateValid st \<Longrightarrow> \<not> ds_reset_in_progress st"
    and n: "\<not> is_ripper_bookkeeping n" "\<not> prune_leftover n"
    and listed: "\<forall>es. en_list (ve 5) 0 = Inr es \<longrightarrow> Inr n \<in> set es"
    and run: "resume_entry c hint dir ve jd m = (a, jd', m')"
  shows "file_at jd' n = file_at jd n"
proof -
  have "finish_interrupted_reset dir (ve 0) jd = (Inr False, jd)"
    using no_reset by (auto simp: finish_interrupted_reset_def finish_interrupted_reset_owned_def split: state_read.split)
  then have run: "(case snapshot_staging_disc c dir (ve 3) jd2 of
           (None, jd3) \<Rightarrow> (None, jd3, m)
         | (Some snap, jd3) \<Rightarrow> resume_snapshot hint dir snap ve jd3 m) = (a, jd', m')"
    if "jd2 = (if jd_kind jd = Folder then stop_orphaned_unverified dir (ve 2) (remove_prune_leftovers (ve 1) jd) else jd)" for jd2
    using run that by (simp add: resume_entry_def surface_interrupted_reset_def)
  define jd2 where "jd2 = (if jd_kind jd = Folder then stop_orphaned_unverified dir (ve 2) (remove_prune_leftovers (ve 1) jd) else jd)"
  have "keeps_file n jd jd2"
    unfolding jd2_def using n by (auto intro: keeps_file_trans keeps_remove_prune(1) keeps_stop_orphaned keeps_file_refl)
  moreover obtain sn jd3 where sn: "snapshot_staging_disc c dir (ve 3) jd2 = (sn, jd3)" by fastforce
  moreover have "keeps_file n jd2 jd3" using keeps_snapshot [OF n(1), of jd2 c dir "ve 3"] sn by simp
  moreover have "keeps_file n jd3 jd'"
  proof (cases sn)
    case None
    with run [OF jd2_def] sn show ?thesis by (simp add: keeps_file_refl)
  next
    case (Some snap)
    with run [OF jd2_def] sn have "resume_snapshot hint dir snap ve jd3 m = (a, jd', m')" by simp
    with keeps_resume_snapshot [where ve = ve, OF n(1) listed, of jd3 hint dir snap m] show ?thesis by simp
  qed
  ultimately have "keeps_file n jd jd'" by (blast intro: keeps_file_trans)
  then show ?thesis by (simp add: keeps_file_def)
qed

section \<open>Clear staging\<close>

lemma keeps_clear_names: "\<not> is_ripper_bookkeeping n \<Longrightarrow> keeps_file n jd (snd (clear_names v ns jd))"
proof (induction v ns jd rule: clear_names.induct)
  case (1 v jd)
  then show ?case by (auto simp: remove_dir_def keeps_file_def file_at_def split: sum.split option.split)
next
  case (2 v m ns jd)
  show ?case
  proof (cases "is_ripper_bookkeeping m")
    case True
    obtain r jd' where p: "remove_file v m jd = (r, jd')" by fastforce
    have "m \<noteq> n" using True 2(2) by auto
    then have "keeps_file n jd jd'" using keeps_remove_file p by (metis snd_conv)
    with 2 True p show ?thesis by (auto simp: keeps_file_def split: sum.split)
  qed (simp add: keeps)
qed

lemma keeps_clear_bookkeeping: "\<not> is_ripper_bookkeeping n \<Longrightarrow> keeps_file n jd (snd (clear_bookkeeping v jd))"
  by (auto simp: clear_bookkeeping_def keeps keeps_clear_names split: sum.split)


end
