(* ===== verification/Staging_Loops.thy ===== *)
theory Staging_Loops
  imports Staging_Safety
begin

text \<open>
  What a job comes to: one that crashes its sweep or mux on every start is closed after the
  restart limit, a loss abort stays resumable, a hand-off waits for a required replan.
\<close>

section \<open>Closing transitions on a readable state\<close>

definition in_state :: "staging_state \<Rightarrow> disc_state \<Rightarrow> bool" where
  "in_state s st \<longleftrightarrow> ds_state st = s \<and> ds_schema st = disc_state_schema \<and> \<not> ds_title_identity_review st
     \<and> \<not> ds_reset_in_progress st"

definition holds_state :: "job_dir \<Rightarrow> disc_state \<Rightarrow> bool" where
  "holds_state jd st \<longleftrightarrow> slot_target (jd_slot jd) = Some (Json st)"

definition dir_ok :: "path \<Rightarrow> bool" where
  "dir_ok dir \<longleftrightarrow> file_name (state_path dir) \<noteq> None"

lemma keep_operator_state_sel [simp]:
  "ds_state (keep_operator_state saved st) = ds_state st"
  "ds_reset_in_progress (keep_operator_state saved st) = ds_reset_in_progress st"
  "ds_restart_count (keep_operator_state saved st) = ds_restart_count st"
  "ds_failure_reason (keep_operator_state saved st) = ds_failure_reason st"
  "ds_muxing (keep_operator_state saved st) = ds_muxing st"
  "ds_aborted_loss_attempt (keep_operator_state saved st) = ds_aborted_loss_attempt st"
  by (simp_all add: keep_operator_state_def Let_def)

lemma write_state_calm:
  "dir_ok dir \<Longrightarrow> write_state_unlocked dir st no_faults sl = (Inr (), sl\<lparr>slot_target := Some (Json st), slot_tmp := None\<rparr>)"
  by (auto simp: dir_ok_def write_state_unlocked_def write_marker_durable_def write_marker_phased_def no_faults_def Let_def)

lemma holds_valid: "holds_state jd st \<Longrightarrow> ds_schema st = disc_state_schema \<Longrightarrow> read_state_checked None (jd_slot jd) = StateValid st"
  by (simp add: holds_state_def read_state_checked_valid)

lemma holds_read: "holds_state jd st \<Longrightarrow> ds_schema st = disc_state_schema \<Longrightarrow> read_state None (jd_slot jd) = Some st"
  by (simp add: read_state_valid holds_valid)

lemma holds_remove_legacy [simp]:
  "m \<noteq> state_file \<Longrightarrow> holds_state (remove_legacy_marker v m jd) st = holds_state jd st"
  by (auto simp: holds_state_def remove_legacy_marker_def remove_file_def split: option.split node.split)

lemma kind_remove_legacy [simp]: "jd_kind (remove_legacy_marker v m jd) = jd_kind jd"
  by (auto simp: remove_legacy_marker_def remove_file_def split: option.split node.split)

lemma markers_not_state [simp]:
  "sweeping_marker \<noteq> state_file" "muxing_marker \<noteq> state_file" "restart_count_file \<noteq> state_file"
  by (simp_all add: marker_names)

lemma try_write_calm:
  assumes "holds_state jd st" "in_state s st" "dir_ok dir"
  shows "try_write_state dir x None no_faults (jd_slot jd)
    = (Inr (), (jd_slot jd)\<lparr>slot_target := Some (Json (apply_user_metadata (keep_operator_state st x))), slot_tmp := None\<rparr>)"
  using assms by (simp add: try_write_state_def holds_valid in_state_def write_state_calm)

definition steady :: "env \<Rightarrow> bool" where
  "steady v \<longleftrightarrow> (\<forall>k. en_read v k = None \<and> en_write v k = no_faults) \<and> \<not> en_leased v
     \<and> (\<forall>k. \<exists>es. en_list v k = Inr es \<and> Inr state_file \<in> set es)"

lemma steady_later [simp]: "steady v \<Longrightarrow> steady (later r w v)"
  by (auto simp: steady_def later_def)

lemma close_job_calm:
  assumes "holds_state jd st" "in_state s st" "dir_ok dir" "steady v"
  shows "\<exists>jd'. close_job dir d f v jd = (True, jd')
    \<and> holds_state jd' (apply_user_metadata (keep_operator_state st (f st))) \<and> jd_kind jd' = jd_kind jd"
proof -
  have "state_for_write d None (jd_slot jd) = Inr st"
    using assms(1,2) by (simp add: state_for_write_def holds_valid in_state_def)
  then show ?thesis
    using assms try_write_calm [OF assms(1-3), of "f st"]
    by (simp add: close_job_def steady_def on_slot_def landed_def Let_def) (simp add: holds_state_def)
qed

lemma clear_restart_calm:
  assumes "holds_state jd st" "in_state s st" "dir_ok dir" "steady v"
  shows "holds_state (clear_restart_count dir v jd) (apply_user_metadata (st\<lparr>ds_restart_count := 0\<rparr>))"
    "jd_kind (clear_restart_count dir v jd) = jd_kind jd"
  using assms
  by (simp_all add: clear_restart_count_def mutate_state_if_present_def steady_def holds_read in_state_def write_state_calm)
    (simp add: holds_state_def)

section \<open>The restart loop\<close>

lemma prune_names_not_state: "list_ex (ends_with n) pruning_suffixes \<Longrightarrow> n \<noteq> state_file \<and> n \<noteq> state_tmp"
  by (auto simp: pruning_suffixes_def ends_with_def state_file_def state_tmp_def)

lemma prune_entries_slot:
  "jd_slot (snd (prune_leftover_entries v es k jd)) = jd_slot jd \<and> jd_kind (snd (prune_leftover_entries v es k jd)) = jd_kind jd"
proof (induction es arbitrary: k jd)
  case (Cons x es)
  have "list_ex (ends_with n) pruning_suffixes \<Longrightarrow> jd_slot (snd (remove_file v n jd)) = jd_slot jd
      \<and> jd_kind (snd (remove_file v n jd)) = jd_kind jd" for n
    using prune_names_not_state [of n]
    by (auto simp: remove_file_def drop_node_def split: option.split node.split)
  then show ?case using Cons
    by (cases x) (auto simp: case_prod_beta split: option.split node.split sum.split)
qed simp

lemma remove_prune_slot [simp]:
  "jd_slot (remove_prune_leftovers v jd) = jd_slot jd" "jd_kind (remove_prune_leftovers v jd) = jd_kind jd"
  by (simp_all add: remove_prune_leftovers_def remove_prune_leftovers_owned_def prune_entries_slot split: sum.split)

lemma observe_state_file:
  "sc_state_file (observe_entries es s) \<longleftrightarrow> sc_state_file s \<or> Inr state_file \<in> set es"
  "sc_read_ok (observe_entries es s) = sc_read_ok s"
proof (induction es s rule: observe_entries.induct)
  case (3 n es s)
  have "sc_state_file (observe_name n s) \<longleftrightarrow> sc_state_file s \<or> n = state_file" "sc_read_ok (observe_name n s) = sc_read_ok s"
    by (simp_all add: observe_name_def Let_def)
  with 3 show "sc_state_file (observe_entries (Inr n # es) s) \<longleftrightarrow> sc_state_file s \<or> Inr state_file \<in> set (Inr n # es)"
    "sc_read_ok (observe_entries (Inr n # es) s) = sc_read_ok s" by auto
qed simp_all

lemma snapshot_steady:
  assumes "holds_state jd st" "ds_schema st = disc_state_schema" "\<not> ds_reset_in_progress st" "steady v" "jd_kind jd = Folder"
  shows "\<exists>snap. snapshot_staging_disc c dir v jd = (Some snap, jd) \<and> sn_life snap = from_state st \<and> sn_unreadable snap = None"
proof -
  obtain es where es: "en_list v 0 = Inr es" "Inr state_file \<in> set es" using assms(4) by (auto simp: steady_def)
  have "list_ex (\<lambda>x. case x of Inl _ \<Rightarrow> False | Inr _ \<Rightarrow> True) es" using es(2) by (force simp: list_ex_iff)
  then have scan: "scan_dir v = observe_entries es (no_scan\<lparr>sc_read_ok := True\<rparr>)"
    by (simp add: scan_dir_def es(1) Let_def)
  have "sc_state_file (scan_dir v)" "sc_read_ok (scan_dir v)" using es(2) by (simp_all add: scan observe_state_file)
  then show ?thesis
    using assms by (simp add: snapshot_staging_disc_def Let_def contents_unknown_def observed_nothing_def steady_def
        holds_valid snapshot_of_def)
qed

lemma from_state_life [simp]:
  "li_completed (from_state st) \<longleftrightarrow> ds_state st \<in> {Done, Review, Completed}" "li_failed (from_state st) \<longleftrightarrow> ds_state st = Failed"
  "li_aborted_loss (from_state st) \<longleftrightarrow> ds_state st = AbortedLoss" "li_done (from_state st) \<longleftrightarrow> ds_state st = Done"
  "li_review (from_state st) \<longleftrightarrow> ds_state st = Review" "li_ripped (from_state st) \<longleftrightarrow> ds_state st = Ripped"
  "li_sweeping (from_state st) \<longleftrightarrow> ds_state st = Sweeping" "li_muxing (from_state st) = ds_muxing st"
  "li_needs_disc (from_state st) \<longleftrightarrow> ds_state st = Ripped \<and> ds_needs_disc st"
  "li_aborted_loss_reason (from_state st) = (if ds_state st = AbortedLoss then ds_failure_reason st else None)"
  by (simp_all add: from_state_def Let_def)

text \<open>One start on a job cut off in its sweep.\<close>

lemma resume_sweeping:
  assumes h: "holds_state jd st" and st: "in_state Sweeping st" and k: "jd_kind jd = Folder"
    and dir: "dir_ok dir" "\<not> is_unverified dir" and v: "steady v"
  shows "\<exists>a jd' m'. resume_entry c hint dir (\<lambda>_. v) jd m = (a, jd', m') \<and> jd_kind jd' = Folder
    \<and> (\<exists>st'. holds_state jd' st'
        \<and> (if ds_restart_count st < restart_limit
           then in_state Sweeping st' \<and> ds_restart_count st' = ds_restart_count st + 1
           else in_state Failed st' \<and> ds_restart_count st' = 0 \<and> \<not> ds_muxing st' \<and> ds_failure_reason st' \<noteq> None))"
proof -
  have rd: "en_read v k = None" "en_write v k = no_faults" for k using v by (simp_all add: steady_def)
  have schema: "ds_schema st = disc_state_schema" "\<not> ds_reset_in_progress st" "\<not> ds_title_identity_review st" "ds_state st = Sweeping"
    using st by (simp_all add: in_state_def)
  define jd2 where "jd2 = remove_prune_leftovers v jd"
  have h2: "holds_state jd2 st" "jd_kind jd2 = Folder" using h k by (simp_all add: jd2_def holds_state_def)
  have fin: "finish_interrupted_reset dir v jd = (Inr False, jd)"
    using v schema h by (simp add: finish_interrupted_reset_def finish_interrupted_reset_owned_def rd holds_valid)
  have stop: "stop_orphaned_unverified dir v jd2 = jd2" using dir(2) by (simp add: stop_orphaned_unverified_def)
  obtain snap where sn: "snapshot_staging_disc c dir v jd2 = (Some snap, jd2)" "sn_life snap = from_state st" "sn_unreadable snap = None"
    using snapshot_steady [OF h2(1) schema(1,2) v h2(2)] by blast
  have entry: "resume_entry c hint dir (\<lambda>_. v) jd m
      = (case resume_owned dir snap (\<lambda>_. v) jd2 m of (a, x) \<Rightarrow> (Some a, x))"
    using fin k stop sn schema h2 by (simp add: resume_entry_def surface_interrupted_reset_def jd2_def [symmetric]
        resume_snapshot_def Let_def rd holds_read case_prod_beta)
  have rc: "restart_count v jd2 = ds_restart_count st" using h2 schema by (simp add: restart_count_def rd holds_read)
  show ?thesis
  proof (cases "ds_restart_count st < restart_limit")
    case True
    let ?n = "st\<lparr>ds_restart_count := saturating_add 64 (ds_restart_count st) 1\<rparr>"
    let ?st' = "apply_user_metadata (keep_operator_state st ?n)"
    have "saturating_add 64 (ds_restart_count st) 1 = ds_restart_count st + 1"
      using True by (intro saturating_add_small) (simp add: restart_limit_def max_uint_def)
    then have new: "in_state Sweeping ?st'" "ds_restart_count ?st' = ds_restart_count st + 1"
      using schema apply_user_metadata_state [of "keep_operator_state st ?n"] by (simp_all add: in_state_def)
    have "snd (increment_restart_count dir v jd2)
        = jd2\<lparr>jd_slot := (jd_slot jd2)\<lparr>slot_target := Some (Json ?st'), slot_tmp := None\<rparr>\<rparr>"
      using h2 schema try_write_calm [OF h2(1) st dir(1), of ?n]
      by (simp add: increment_restart_count_def rd holds_read on_slot_def Let_def)
    with True entry rc new h2 show ?thesis by (auto simp: resume_owned_def Let_def holds_state_def)
  next
    case False
    let ?reason = "''restart loop detected ('' @ show_nat (ds_restart_count st) @ '' attempts) on owned/in-progress dir (''
        @ (if ds_muxing st then ''.muxing'' else ''.sweeping'') @ ''); state preserved at '' @ path_text dir"
    let ?f = "\<lambda>x. x\<lparr>ds_state := Failed, ds_failure_reason := Some ?reason, ds_muxing := False\<rparr>"
    let ?st1 = "apply_user_metadata (keep_operator_state st (?f st))"
    have f1: "in_state Failed ?st1" "\<not> ds_muxing ?st1" "ds_failure_reason ?st1 = Some ?reason"
      using schema apply_user_metadata_state [of "keep_operator_state st (?f st)"] by (simp_all add: in_state_def)
    obtain jd3 where c: "write_failed_marker dir ?reason v jd2 = (True, jd3)" and h3: "holds_state jd3 ?st1" "jd_kind jd3 = Folder"
      using close_job_calm [OF h2(1) st dir(1) v, of Failed ?f] h2 unfolding write_failed_marker_def by auto
    let ?st2 = "apply_user_metadata (?st1\<lparr>ds_restart_count := 0\<rparr>)"
    have f2: "in_state Failed ?st2" "ds_restart_count ?st2 = 0" "\<not> ds_muxing ?st2" "ds_failure_reason ?st2 \<noteq> None"
      using f1 apply_user_metadata_state [of "?st1\<lparr>ds_restart_count := 0\<rparr>"] by (simp_all add: in_state_def)
    have h4: "holds_state (clear_restart_count dir (later 2 1 v) jd3) ?st2" "jd_kind (clear_restart_count dir (later 2 1 v) jd3) = Folder"
      using clear_restart_calm [OF h3(1) f1(1) dir(1) steady_later [OF v]] h3 by simp_all
    have "resume_owned dir snap (\<lambda>_. v) jd2 m = (RestartLoopFailed ?reason, clear_restart_count dir (later 2 1 v) jd3, m)"
      using False rc c sn(2) by (simp add: resume_owned_def Let_def quarantine_restart_loop_def)
    with entry False f2 h4 show ?thesis by auto
  qed
qed

definition server_start ::
    "codec \<Rightarrow> (state_unreadable \<Rightarrow> string) \<Rightarrow> path \<Rightarrow> env \<Rightarrow> job_dir \<times> cards \<Rightarrow> job_dir \<times> cards" where
  "server_start c hint dir v x = snd (resume_entry c hint dir (\<lambda>_. v) (fst x) (snd x))"

text \<open>
  C22: a job that is cut off in its sweep on every start is not retried for ever: on a share that
  answers, the start after its third counted restart closes it as Failed with the reason, its
  count reset and its mux lock released.
\<close>

theorem restart_loop_closes:
  assumes "holds_state jd st" "in_state Sweeping st" "jd_kind jd = Folder" "dir_ok dir" "\<not> is_unverified dir" "steady v"
    and "ds_restart_count st \<le> restart_limit"
  shows "\<exists>st'. holds_state (fst ((server_start c hint dir v ^^ Suc (restart_limit - ds_restart_count st)) (jd, m))) st'
    \<and> ds_state st' = Failed \<and> ds_restart_count st' = 0 \<and> \<not> ds_muxing st' \<and> ds_failure_reason st' \<noteq> None"
  using assms
proof (induction "restart_limit - ds_restart_count st" arbitrary: jd st m)
  case 0
  from resume_sweeping [OF 0(2-7), of c hint m] obtain a jd' m' st'
    where r: "resume_entry c hint dir (\<lambda>_. v) jd m = (a, jd', m')" and h: "holds_state jd' st'"
      and f: "in_state Failed st' \<and> ds_restart_count st' = 0 \<and> \<not> ds_muxing st' \<and> ds_failure_reason st' \<noteq> None"
    using 0(1) by (metis diff_is_0_eq leD)
  have eq: "(server_start c hint dir v ^^ Suc (restart_limit - ds_restart_count st)) (jd, m) = (jd', m')"
    unfolding 0(1) [symmetric] by (simp add: server_start_def r)
  show ?case unfolding eq using h f by (auto simp: in_state_def)
next
  case (Suc k)
  from resume_sweeping [OF Suc(3-8), of c hint m] obtain a jd' m' st'
    where r: "resume_entry c hint dir (\<lambda>_. v) jd m = (a, jd', m')" and k: "jd_kind jd' = Folder" and h: "holds_state jd' st'"
      and f: "in_state Sweeping st'" "ds_restart_count st' = ds_restart_count st + 1"
    using Suc(2) by (metis zero_less_Suc zero_less_diff)
  have n: "k = restart_limit - ds_restart_count st'" "ds_restart_count st' \<le> restart_limit" using Suc(2) f by auto
  have eq: "(server_start c hint dir v ^^ Suc (restart_limit - ds_restart_count st)) (jd, m)
      = (server_start c hint dir v ^^ Suc (restart_limit - ds_restart_count st')) (jd', m')"
    unfolding Suc(2) [symmetric] n(1) [symmetric] by (simp add: server_start_def r del: funpow.simps add: funpow_Suc_right)
  show ?case unfolding eq by (rule Suc(1) [OF n(1) h f(1) k Suc(6-8) n(2)])
qed

section \<open>A loss abort\<close>

lemma apply_user_metadata_not_failed: "ds_state (apply_user_metadata st) = Failed \<Longrightarrow> ds_state st = Failed"
  by (auto simp: apply_user_metadata_def reroute_replan_def apply_metadata_def Let_def split: option.splits if_splits)

lemma clear_restart_target:
  assumes "holds_state jd st" "ds_schema st = disc_state_schema" "en_read v 0 = None"
  shows "holds_state (clear_restart_count dir v jd) st
    \<or> holds_state (clear_restart_count dir v jd) (apply_user_metadata (st\<lparr>ds_restart_count := 0\<rparr>))"
  using assms write_state_unlocked_target [of dir "apply_user_metadata (st\<lparr>ds_restart_count := 0\<rparr>)" "en_write v 0" "jd_slot jd"]
  by (auto simp: clear_restart_count_def mutate_state_if_present_def holds_read) (auto simp: holds_state_def)

lemma close_job_target:
  assumes "holds_state jd st" "ds_schema st = disc_state_schema" "\<not> ds_reset_in_progress st"
    and "en_read v 0 = None" "en_read v 1 = None" and "close_job dir d f v jd = (ok, jd')"
  shows "holds_state jd' (apply_user_metadata (keep_operator_state st (f st))) \<or> (\<not> ok \<and> holds_state jd' st)"
proof -
  let ?x = "apply_user_metadata (keep_operator_state st (f st))"
  obtain r sl where w: "write_state_unlocked dir ?x (en_write v 0) (jd_slot jd) = (r, sl)" by fastforce
  have t: "try_write_state dir (f st) (en_read v 1) (en_write v 0) (jd_slot jd) = (r, sl)"
    using assms(1-3,5) w by (simp add: try_write_state_def holds_valid)
  have "state_for_write d (en_read v 0) (jd_slot jd) = Inr st"
    using assms(1-4) by (simp add: state_for_write_def holds_valid)
  with assms(6) t have "ok = landed r"
    "jd' = remove_legacy_marker v muxing_marker (remove_legacy_marker v sweeping_marker (jd\<lparr>jd_slot := sl\<rparr>))"
    by (simp_all add: close_job_def on_slot_def Let_def)
  then show ?thesis using write_state_unlocked_cases [OF w] assms(1)
    by (auto simp: landed_def) (auto simp: holds_state_def)
qed

text \<open>
  A loss abort stays resumable: it never turns a job Failed, whatever write fails, and one
  that reports it landed has recorded the reason and one more attempt (at most the largest
  64-bit number) and has released the mux lock.
\<close>

theorem loss_abort_resumable:
  assumes h: "holds_state jd st" "ds_schema st = disc_state_schema" "\<not> ds_reset_in_progress st" "ds_state st \<noteq> Failed"
    and reads: "\<And>k. en_read v k = None"
    and run: "mark_aborted_on_loss_reporting_landed c dir reason v jd = (ok, jd')"
  shows "\<exists>st'. holds_state jd' st' \<and> ds_state st' \<noteq> Failed
    \<and> (ok \<longrightarrow> ds_state st' \<in> {AbortedLoss, Review} \<and> ds_failure_reason st' = Some reason \<and> \<not> ds_muxing st'
        \<and> ds_aborted_loss_attempt st' = min (ds_aborted_loss_attempt st + 1) (max_uint 64))"
proof -
  let ?n = "saturating_add 64 (ds_aborted_loss_attempt st) 1"
  let ?f = "\<lambda>x. x\<lparr>ds_state := AbortedLoss, ds_failure_reason := Some reason, ds_aborted_loss_attempt := ?n, ds_muxing := False\<rparr>"
  let ?jd1 = "clear_restart_count dir (later 2 0 v) jd"
  have attempt: "prior_aborted_loss_attempt c v jd = ds_aborted_loss_attempt st"
    using h reads by (simp add: prior_aborted_loss_attempt_def holds_read)
  let ?z = "apply_user_metadata (st\<lparr>ds_restart_count := 0\<rparr>)"
  have z: "ds_schema ?z = disc_state_schema" "\<not> ds_reset_in_progress ?z" "ds_state ?z \<noteq> Failed"
    "ds_aborted_loss_attempt ?z = ds_aborted_loss_attempt st"
    using h apply_user_metadata_not_failed [of "st\<lparr>ds_restart_count := 0\<rparr>"] by auto
  have "en_read (later 2 0 v) 0 = None" using reads by (simp add: later_def)
  from clear_restart_target [OF h(1,2) this, of dir]
  obtain st1 where h1: "holds_state ?jd1 st1" "ds_schema st1 = disc_state_schema" "\<not> ds_reset_in_progress st1" "ds_state st1 \<noteq> Failed"
    using z h by blast
  have "close_job dir AbortedLoss ?f (later 3 1 v) ?jd1 = (ok, jd')"
    using run attempt by (simp add: mark_aborted_on_loss_reporting_landed_def write_aborted_loss_marker_def Let_def)
  from close_job_target [OF h1(1-3) _ _ this] reads
  consider "holds_state jd' (apply_user_metadata (keep_operator_state st1 (?f st1)))" | "\<not> ok" "holds_state jd' st1"
    by (auto simp: later_def)
  then show ?thesis
  proof cases
    case 1
    let ?y = "keep_operator_state st1 (?f st1)"
    have "ds_state (apply_user_metadata ?y) \<in> {AbortedLoss, Review}"
      using apply_user_metadata_state [of ?y] apply_user_metadata_review [of ?y] by (cases "ds_title_identity_review ?y") simp_all
    with 1 show ?thesis by (intro exI [of _ "apply_user_metadata ?y"]) (auto simp: saturating_add_def)
  qed (use h1 in auto)
qed

section \<open>The hand-off\<close>

lemma reroute_required:
  "ds_replan_required x \<Longrightarrow> \<not> ds_title_identity_review x \<Longrightarrow> ds_user_metadata x \<noteq> None \<Longrightarrow> ds_state x \<in> {Done, Review}
   \<Longrightarrow> ds_state (apply_user_metadata x) = Ripped"
  by (auto simp: apply_user_metadata_def reroute_replan_def apply_metadata_def Let_def)

lemma apply_plain:
  "\<not> ds_title_identity_review x \<Longrightarrow> ds_user_metadata x = None \<Longrightarrow> \<not> ds_replan_required x \<Longrightarrow> apply_user_metadata x = x"
  by (simp add: apply_user_metadata_def reroute_replan_def)

lemma mark_handoff_target:
  assumes "holds_state jd st" "ds_schema st = disc_state_schema" "\<And>k. en_read v k = None"
    and run: "mark_handoff dir today conf f v jd = (Inr (), jd')"
  shows "\<exists>x. holds_state jd' (apply_user_metadata (keep_operator_state st (f x)))
    \<and> ds_state x = (if conf then Done else Review)"
proof -
  let ?s = "if conf then Done else Review"
  define st2 where "st2 = handoff_state today conf st"
  have live: "\<not> ds_reset_in_progress st" and sw: "state_for_write ?s None (jd_slot jd) = Inr st"
    using run assms(1-3) by (auto simp: mark_handoff_def state_for_write_def holds_valid Let_def split: if_splits)
  obtain r sl where w: "write_state_unlocked dir (apply_user_metadata (keep_operator_state st (f st2))) (en_write v 0) (jd_slot jd) = (r, sl)"
    by fastforce
  then have "try_write_state dir (f st2) None (en_write v 0) (jd_slot jd) = (r, sl)"
    using assms(1,2) live by (simp add: try_write_state_def holds_valid)
  then have r: "r = Inr ()" "jd' = remove_legacy_marker v muxing_marker (remove_legacy_marker v sweeping_marker (jd\<lparr>jd_slot := sl\<rparr>))"
    using run sw assms(3) unfolding mark_handoff_def
    by (auto simp: on_slot_def Let_def st2_def [symmetric] split: sum.splits)
  from write_state_unlocked_ok [OF w [unfolded r(1)]] r(2)
  have "holds_state jd' (apply_user_metadata (keep_operator_state st (f st2)))" by simp (simp add: holds_state_def)
  moreover have "ds_state st2 = ?s" by (simp add: st2_def handoff_state_def Let_def)
  ultimately show ?thesis by blast
qed

text \<open>
  A finished mux is not handed to delivery with a stale plan: when the operator's correction
  asked for a replan meanwhile, a successful hand-off leaves the job Ripped with the replan
  still required; without one it is Done, or Review when the title is not trusted.
\<close>

theorem handoff_waits_for_replan:
  assumes "holds_state jd st" "ds_schema st = disc_state_schema" "\<And>k. en_read v k = None"
    and "\<And>x. ds_state (f x) = ds_state x" "\<not> ds_title_identity_review st"
    and "mark_handoff dir today conf f v jd = (Inr (), jd')"
  shows "\<exists>st'. holds_state jd' st'
    \<and> (if ds_user_metadata st \<noteq> None
       then ds_replan_required st \<longrightarrow> ds_state st' = Ripped \<and> ds_replan_required st'
       else \<not> ds_replan_required st \<longrightarrow> ds_state st' = (if conf then Done else Review))"
proof -
  obtain x where h: "holds_state jd' (apply_user_metadata (keep_operator_state st (f x)))"
    and x: "ds_state x = (if conf then Done else Review)"
    using mark_handoff_target [OF assms(1-3,6)] by blast
  let ?k = "keep_operator_state st (f x)"
  have k: "ds_user_metadata ?k = ds_user_metadata st" "ds_replan_required ?k = ds_replan_required st"
    "\<not> ds_title_identity_review ?k" "ds_state ?k = (if conf then Done else Review)"
    using assms(4,5) x by (simp_all add: keep_operator_state_def Let_def)
  show ?thesis
    using h k reroute_required [of ?k] apply_user_metadata_replan [of ?k] apply_plain [of ?k] by (cases conf) auto
qed

section \<open>Concrete runs\<close>

definition sample_swept :: disc_state where
  "sample_swept = (new_state Sweeping)\<lparr>ds_restart_count := 1\<rparr>"

lemma sample_steady: "steady (listing_of [''state.json''])"
  by (auto simp: steady_def listing_of_def calm_def state_file_def)

lemma sample_dir_ok: "dir_ok sample_dir" "\<not> is_unverified sample_dir"
  by (simp_all add: dir_ok_def is_unverified_def sample_dir_def state_path_def path_join_def file_name_def
      is_absolute_def starts_with_def unverified_job_prefix_def)

lemma sample_holds: "holds_state (sample_job_dir st) st" "jd_kind (sample_job_dir st) = Folder"
  by (simp_all add: holds_state_def sample_job_dir_def state_slot_of_def)

theorem restart_loop_closes_witness:
  "\<exists>st'. holds_state (fst ((server_start sample_codec (\<lambda>_. ''hint'') sample_dir (listing_of [''state.json'']) ^^ 3) (sample_job_dir sample_swept, no_cards))) st'
    \<and> ds_state st' = Failed"
proof -
  have in_s: "in_state Sweeping sample_swept" by (simp add: in_state_def sample_swept_def new_state_def)
  have rc: "ds_restart_count sample_swept = 1" by (simp add: sample_swept_def)
  have "Suc (restart_limit - ds_restart_count sample_swept) = 3" "ds_restart_count sample_swept \<le> restart_limit"
    by (simp_all add: rc restart_limit_def)
  with restart_loop_closes [OF sample_holds(1) in_s sample_holds(2) sample_dir_ok sample_steady, of sample_codec "\<lambda>_. ''hint''" no_cards]
  show ?thesis by auto
qed

theorem loss_abort_resumable_witness:
  "\<exists>st'. holds_state (snd (mark_aborted_on_loss_reporting_landed sample_codec sample_dir ''12 s lost'' calm (sample_job_dir sample_swept))) st'
    \<and> ds_state st' \<noteq> Failed"
proof -
  let ?w = "mark_aborted_on_loss_reporting_landed sample_codec sample_dir ''12 s lost'' calm (sample_job_dir sample_swept)"
  have st: "ds_schema sample_swept = disc_state_schema" "\<not> ds_reset_in_progress sample_swept" "ds_state sample_swept \<noteq> Failed"
    by (simp_all add: sample_swept_def new_state_def)
  have "en_read calm k = None" for k by (simp add: calm_def)
  from loss_abort_resumable [OF sample_holds(1) st this, of sample_codec sample_dir "''12 s lost''" "fst ?w" "snd ?w"]
  show ?thesis by auto
qed

definition sample_replan :: disc_state where
  "sample_replan = sample_saved\<lparr>ds_replan_required := True\<rparr>"

theorem handoff_waits_for_replan_witness:
  "\<exists>st'. holds_state (snd (mark_handoff sample_dir ''2026-01-01'' True id calm (sample_job_dir sample_replan))) st'
    \<and> ds_state st' = Ripped"
proof -
  let ?w = "mark_handoff sample_dir ''2026-01-01'' True id calm (sample_job_dir sample_replan)"
  have st: "ds_schema sample_replan = disc_state_schema" "\<not> ds_title_identity_review sample_replan"
    "ds_user_metadata sample_replan \<noteq> None" "ds_replan_required sample_replan" "\<not> ds_reset_in_progress sample_replan"
    by (simp_all add: sample_replan_def sample_saved_def new_state_def)
  have reads: "en_read calm k = None" for k by (simp add: calm_def)
  have sl: "jd_slot (sample_job_dir sample_replan) = state_slot_of sample_replan" by (simp add: sample_job_dir_def)
  have rd: "read_state_checked None (state_slot_of sample_replan) = StateValid sample_replan"
    using st by (simp add: read_state_checked_valid state_slot_of_def)
  have "en_write calm 0 = no_faults" by (simp add: calm_def)
  with st rd have ok: "fst ?w = Inr ()"
    by (simp add: mark_handoff_def state_for_write_def reads sl on_slot_def try_write_state_def write_state_sample Let_def)
  then have "?w = (Inr (), snd ?w)" by (metis prod.collapse)
  from handoff_waits_for_replan [OF sample_holds(1) st(1) reads _ st(2) this] st show ?thesis by auto
qed

definition sample_failed :: disc_state where
  "sample_failed = new_state Failed"

theorem resume_keeps_captures_witness:
  "file_at (fst (snd (resume_entry sample_codec (\<lambda>_. ''hint'') sample_dir (\<lambda>_. listing_of [''disc.iso'', ''state.json'']) (sample_job_dir sample_saved) no_cards)))
     ''disc.iso'' = Some (FileNode ''image'')"
proof -
  let ?v = "listing_of [''disc.iso'', ''state.json'']" and ?jd = "sample_job_dir sample_saved"
  obtain a jd' m' where run: "resume_entry sample_codec (\<lambda>_. ''hint'') sample_dir (\<lambda>_. ?v) ?jd no_cards = (a, jd', m')" by (metis prod_cases3)
  have rd: "read_state_checked (en_read ?v 0) (jd_slot ?jd) = StateValid sample_saved"
    by (simp add: sample_dir_defs sample_reads)
  have "file_at jd' ''disc.iso'' = file_at ?jd ''disc.iso''"
  proof (rule resume_keeps_captures [OF _ _ _ _ run])
    fix st assume "read_state_checked (en_read ?v 0) (jd_slot ?jd) = StateValid st"
    with rd have "st = sample_saved" by simp
    then show "\<not> ds_reset_in_progress st" by (simp only:) (simp add: sample_saved_def new_state_def)
  qed (auto simp: is_ripper_bookkeeping_def ripper_bookkeeping_def marker_names strip_suffix_def ends_with_def
      prune_leftover_def pruning_suffixes_def listing_of_def)
  with run show ?thesis by (simp add: sample_dir_defs)
qed


end
