(* ===== verification/Rip_State.thy ===== *)
theory Rip_State
  imports Staging_State
begin

text \<open>
  The row a drive shows on the dashboard and the claims on it (\<open>server/ripper/state.rs\<close>,
  the staging hold of \<open>ripper/mod.rs\<close>). The global maps are one record, the \<open>desk\<close>; each
  definition is what runs under one lock. Floats are reals; the clock, the crate's damage
  classification and whether a worker thread still runs are arguments.
\<close>

section \<open>Rows\<close>

record bad_range =
  br_lba :: nat
  br_count :: nat
  br_duration_ms :: real
  br_chapter :: "nat option"
  br_time_offset_secs :: "real option"

datatype resumable = Remux | Sweep

record rip_state =
  ri_device :: string
  ri_status :: string
  ri_disc_present :: bool
  ri_disc_name :: string
  ri_disc_label :: string
  ri_job_id :: string
  ri_episode_start :: "nat option"
  ri_disc_identity :: string
  ri_user_metadata :: "user_metadata option"
  ri_metadata_revision :: nat
  ri_failure_deferred :: bool
  ri_failure_finalize :: bool
  ri_failure_space :: bool
  ri_disc_format :: string
  ri_progress_pct :: nat
  ri_progress_gb :: real
  ri_speed_mbs :: real
  ri_eta :: string
  ri_errors :: nat
  ri_lost_video_secs :: real
  ri_last_sector :: nat
  ri_current_batch :: nat
  ri_preferred_batch :: nat
  ri_pass :: nat
  ri_total_passes :: nat
  ri_bytes_good :: nat
  ri_bytes_maybe :: nat
  ri_bytes_lost :: nat
  ri_bytes_total_disc :: nat
  ri_bad_ranges :: "bad_range list"
  ri_num_bad_ranges :: nat
  ri_bad_ranges_truncated :: nat
  ri_total_lost_ms :: real
  ri_main_lost_ms :: real
  ri_main_at_risk_ms :: real
  ri_largest_gap_ms :: real
  ri_loss_aborted :: bool
  ri_last_error :: string
  ri_notice :: string
  ri_output_file :: string
  ri_tmdb_title :: string
  ri_tmdb_year :: nat
  ri_tmdb_poster :: string
  ri_tmdb_overview :: string
  ri_tmdb_media_type :: "media_kind option"
  ri_duration :: string
  ri_codecs :: string
  ri_pass_progress_pct :: nat
  ri_pass_eta :: string
  ri_total_progress_pct :: nat
  ri_total_eta :: string
  ri_damage_severity :: string
  ri_failure_reason :: "string option"
  ri_started_epoch_secs :: nat
  ri_key_status :: string
  ri_resumable :: "resumable option"
  ri_claim_gen :: nat

definition default_rip_state :: rip_state where
  "default_rip_state =
    \<lparr>ri_device = [], ri_status = ''idle'', ri_disc_present = False, ri_disc_name = [],
     ri_disc_label = [], ri_job_id = [], ri_episode_start = None, ri_disc_identity = [],
     ri_user_metadata = None, ri_metadata_revision = 0, ri_failure_deferred = False,
     ri_failure_finalize = False, ri_failure_space = False, ri_disc_format = [],
     ri_progress_pct = 0, ri_progress_gb = 0, ri_speed_mbs = 0, ri_eta = [], ri_errors = 0,
     ri_lost_video_secs = 0, ri_last_sector = 0, ri_current_batch = 0, ri_preferred_batch = 0,
     ri_pass = 0, ri_total_passes = 0, ri_bytes_good = 0, ri_bytes_maybe = 0, ri_bytes_lost = 0,
     ri_bytes_total_disc = 0, ri_bad_ranges = [], ri_num_bad_ranges = 0,
     ri_bad_ranges_truncated = 0, ri_total_lost_ms = 0, ri_main_lost_ms = 0,
     ri_main_at_risk_ms = 0, ri_largest_gap_ms = 0, ri_loss_aborted = False, ri_last_error = [],
     ri_notice = [], ri_output_file = [], ri_tmdb_title = [], ri_tmdb_year = 0,
     ri_tmdb_poster = [], ri_tmdb_overview = [], ri_tmdb_media_type = None, ri_duration = [],
     ri_codecs = [], ri_pass_progress_pct = 0, ri_pass_eta = [], ri_total_progress_pct = 0,
     ri_total_eta = [], ri_damage_severity = [], ri_failure_reason = None,
     ri_started_epoch_secs = 0, ri_key_status = [], ri_resumable = None, ri_claim_gen = 0\<rparr>"

definition restore_job_metadata ::
    "string \<Rightarrow> string \<Rightarrow> user_metadata option \<Rightarrow> nat \<Rightarrow> rip_state \<Rightarrow> rip_state" where
  "restore_job_metadata job identity metadata revision r =
     (let r1 = (if ri_job_id r \<noteq> job \<or> revision \<ge> ri_metadata_revision r
                then r\<lparr>ri_user_metadata := metadata, ri_metadata_revision := revision\<rparr> else r)
      in r1\<lparr>ri_job_id := job, ri_disc_identity := identity,
           ri_episode_start := Option.bind (ri_user_metadata r1) um_episode_start\<rparr>)"

definition show_user_metadata :: "user_metadata \<Rightarrow> rip_state \<Rightarrow> rip_state" where
  "show_user_metadata m r = r\<lparr>ri_disc_name := um_title m, ri_tmdb_title := um_title m, ri_tmdb_year := um_year m,
     ri_tmdb_poster := um_poster_url m, ri_tmdb_overview := um_overview m,
     ri_tmdb_media_type := Some (um_media_type m)\<rparr>"

definition publish_user_metadata :: "string \<Rightarrow> nat \<Rightarrow> user_metadata \<Rightarrow> rip_state \<Rightarrow> rip_state" where
  "publish_user_metadata expected_job revision m r =
     (if ri_job_id r \<noteq> expected_job \<or> revision \<le> ri_metadata_revision r then r
      else (show_user_metadata m (r\<lparr>ri_metadata_revision := revision\<rparr>))
             \<lparr>ri_episode_start := um_episode_start m, ri_user_metadata := Some m\<rparr>)"

text \<open>\<open>classify_damage\<close> is the engine crate's.\<close>

datatype damage_severity = DamageClean | DamageCosmetic | DamageModerate | DamageSerious

definition damage_severity_for :: "(nat \<Rightarrow> real \<Rightarrow> damage_severity) \<Rightarrow> nat \<Rightarrow> real \<Rightarrow> string" where
  "damage_severity_for classify errors lost =
     (case classify errors lost of DamageClean \<Rightarrow> ''clean'' | DamageCosmetic \<Rightarrow> ''cosmetic''
      | DamageModerate \<Rightarrow> ''moderate'' | DamageSerious \<Rightarrow> ''serious'')"

definition is_active_status :: "string \<Rightarrow> bool" where
  "is_active_status s \<longleftrightarrow> s = ''scanning'' \<or> s = ''ripping''"

definition row_is_busy :: "rip_state \<Rightarrow> bool" where
  "row_is_busy r \<longleftrightarrow> ri_status r = ''scanning'' \<or> ri_status r = ''ripping''"

section \<open>The desk\<close>

record desk =
  dk_rows :: "string \<Rightarrow> rip_state option"     \<comment> \<open>\<open>STATE\<close>\<close>
  dk_stopped :: "string \<Rightarrow> bool option"      \<comment> \<open>\<open>STOPPED_INSERTIONS\<close>\<close>
  dk_changed :: "string set"                \<comment> \<open>\<open>MEDIUM_CHANGED\<close>\<close>
  dk_finished :: "string set"               \<comment> \<open>\<open>FINISHED_INSERTIONS\<close>\<close>
  dk_cooldown :: "string \<Rightarrow> nat option"      \<comment> \<open>\<open>STOP_COOLDOWNS\<close>, in milliseconds\<close>
  dk_held :: "string \<Rightarrow> nat option"         \<comment> \<open>\<open>STAGING_HELD\<close>: when last looked for\<close>

definition hold_stopped_disc :: "string \<Rightarrow> desk \<Rightarrow> desk" where
  "hold_stopped_disc d k = k\<lparr>dk_stopped := (dk_stopped k)(d := Some False)\<rparr>"

definition release_stopped_disc :: "string \<Rightarrow> desk \<Rightarrow> desk" where
  "release_stopped_disc d k = k\<lparr>dk_stopped := (dk_stopped k)(d := None)\<rparr>"

definition clear_finished_insertion :: "string \<Rightarrow> desk \<Rightarrow> desk" where
  "clear_finished_insertion d k = k\<lparr>dk_finished := dk_finished k - {d}\<rparr>"

definition note_medium_changed :: "string \<Rightarrow> desk \<Rightarrow> desk" where
  "note_medium_changed d k =
     (let k1 = clear_finished_insertion d (release_stopped_disc d k) in k1\<lparr>dk_changed := insert d (dk_changed k1)\<rparr>)"

definition take_medium_changed :: "string \<Rightarrow> desk \<Rightarrow> bool \<times> desk" where
  "take_medium_changed d k = (d \<in> dk_changed k, k\<lparr>dk_changed := dk_changed k - {d}\<rparr>)"

definition latch_finished :: "string \<Rightarrow> rip_state \<Rightarrow> desk \<Rightarrow> desk" where
  "latch_finished d row k = (if ri_status row = ''done'' then k\<lparr>dk_finished := insert d (dk_finished k)\<rparr> else k)"

definition rip_finished :: "string \<Rightarrow> desk \<Rightarrow> bool" where
  "rip_finished d k \<longleftrightarrow> (case dk_rows k d of None \<Rightarrow> False | Some row \<Rightarrow> ri_status row = ''done'') \<or> d \<in> dk_finished k"

datatype presence_report = DiscPresent | DiscAbsent | DiscSettling

definition stopped_disc_presence :: "string \<Rightarrow> presence_report \<Rightarrow> desk \<Rightarrow> presence_report \<times> desk" where
  "stopped_disc_presence d p k =
     (case dk_stopped k d of None \<Rightarrow> (p, k)
      | Some absent \<Rightarrow>
          if p = DiscAbsent
          then if absent then (DiscAbsent, release_stopped_disc d k)
               else (DiscSettling, k\<lparr>dk_stopped := (dk_stopped k)(d := Some True)\<rparr>)
          else (p, k\<lparr>dk_stopped := (dk_stopped k)(d := Some False)\<rparr>))"

definition stop_cooldown :: nat where
  "stop_cooldown = 5000"

definition set_stop_cooldown :: "nat \<Rightarrow> string \<Rightarrow> desk \<Rightarrow> desk" where
  "set_stop_cooldown now d k = k\<lparr>dk_cooldown := (dk_cooldown k)(d := Some (now + stop_cooldown))\<rparr>"

definition is_in_cooldown :: "nat \<Rightarrow> string \<Rightarrow> desk \<Rightarrow> bool" where
  "is_in_cooldown now d k \<longleftrightarrow> (case dk_cooldown k d of None \<Rightarrow> False | Some expires \<Rightarrow> now < expires)"

definition forget_staging_hold :: "string \<Rightarrow> desk \<Rightarrow> desk" where
  "forget_staging_hold d k = k\<lparr>dk_held := (dk_held k)(d := None)\<rparr>"

definition staging_held :: "string \<Rightarrow> desk \<Rightarrow> bool" where
  "staging_held d k \<longleftrightarrow> dk_held k d \<noteq> None"

definition staging_hold_recheck_secs :: nat where
  "staging_hold_recheck_secs = 10"

text \<open>\<open>ready\<close>: what the bounded probe of the staging folder answers.\<close>

definition staging_hold_lifted :: "bool \<Rightarrow> nat \<Rightarrow> string \<Rightarrow> desk \<Rightarrow> bool \<times> desk" where
  "staging_hold_lifted ready now d k =
     (case dk_held k d of None \<Rightarrow> (False, k)
      | Some seen \<Rightarrow>
          if now < saturating_add 64 seen staging_hold_recheck_secs then (False, k)
          else let k1 = k\<lparr>dk_held := (dk_held k)(d := Some now)\<rparr>
               in if ready then (True, forget_staging_hold d k1) else (False, k1))"

text \<open>But for the session's own state (Rip_Session).\<close>

definition forget_device_state :: "string \<Rightarrow> desk \<Rightarrow> desk" where
  "forget_device_state d k =
     (let k1 = snd (take_medium_changed d (clear_finished_insertion d (release_stopped_disc d k)));
          k2 = forget_staging_hold d k1
      in k2\<lparr>dk_cooldown := (dk_cooldown k2)(d := None)\<rparr>)"

definition device_known :: "string \<Rightarrow> desk \<Rightarrow> bool" where
  "device_known d k \<longleftrightarrow> dk_rows k d \<noteq> None"

definition is_busy :: "string \<Rightarrow> desk \<Rightarrow> bool" where
  "is_busy d k \<longleftrightarrow> (case dk_rows k d of None \<Rightarrow> False | Some row \<Rightarrow> row_is_busy row)"

section \<open>Pushes\<close>

text \<open>\<open>update_state\<close> merges a fresh row with the one it replaces, in four steps.\<close>

definition keep_claim :: "rip_state option \<Rightarrow> rip_state \<Rightarrow> rip_state" where
  "keep_claim prev r =
     (if ri_claim_gen r = 0 then r\<lparr>ri_claim_gen := (case prev of None \<Rightarrow> 0 | Some p \<Rightarrow> ri_claim_gen p)\<rparr> else r)"

definition keep_label :: "rip_state option \<Rightarrow> rip_state \<Rightarrow> rip_state" where
  "keep_label prev r = (case prev of None \<Rightarrow> r
     | Some p \<Rightarrow> if ri_disc_label r = [] \<and> ri_disc_name r \<noteq> [] \<and> ri_disc_name p = ri_disc_name r
                 then r\<lparr>ri_disc_label := ri_disc_label p\<rparr> else r)"

definition keep_job :: "rip_state option \<Rightarrow> rip_state \<Rightarrow> rip_state" where
  "keep_job prev r = (case prev of None \<Rightarrow> r
     | Some p \<Rightarrow>
         if \<not> ri_disc_present r then r
         else
           let r1 = (if ri_job_id r = [] \<and> (ri_disc_label r = [] \<or> ri_disc_label r = ri_disc_label p)
                     then r\<lparr>ri_job_id := ri_job_id p, ri_disc_identity := ri_disc_identity p\<rparr> else r)
           in if ri_job_id r1 = ri_job_id p \<and> ri_job_id r1 \<noteq> [] \<and> ri_metadata_revision r1 \<le> ri_metadata_revision p
              then let r2 = r1\<lparr>ri_user_metadata := ri_user_metadata p, ri_metadata_revision := ri_metadata_revision p,
                              ri_episode_start := ri_episode_start p\<rparr>
                   in (case ri_user_metadata r2 of None \<Rightarrow> r2
                       | Some m \<Rightarrow> show_user_metadata m (r2\<lparr>ri_disc_label := ri_disc_label p\<rparr>))
              else r1)"

definition keep_started :: "nat \<Rightarrow> rip_state option \<Rightarrow> rip_state \<Rightarrow> rip_state" where
  "keep_started now prev r =
     (let prev_started = (case prev of None \<Rightarrow> 0 | Some p \<Rightarrow> ri_started_epoch_secs p);
          was_active = (case prev of None \<Rightarrow> False | Some p \<Rightarrow> is_active_status (ri_status p));
          now_active = is_active_status (ri_status r)
      in if ri_started_epoch_secs r = 0
         then if now_active \<and> was_active \<and> prev_started > 0 then r\<lparr>ri_started_epoch_secs := prev_started\<rparr>
              else if now_active then r\<lparr>ri_started_epoch_secs := now\<rparr> else r
         else r)"

type_synonym classify = "nat \<Rightarrow> real \<Rightarrow> damage_severity"

definition update_state :: "classify \<Rightarrow> nat \<Rightarrow> string \<Rightarrow> rip_state \<Rightarrow> desk \<Rightarrow> desk" where
  "update_state classify now d r k =
     (let prev = dk_rows k d;
          r0 = r\<lparr>ri_damage_severity := damage_severity_for classify (ri_errors r) (ri_total_lost_ms r)\<rparr>;
          r1 = keep_started now prev (keep_job prev (keep_label prev (keep_claim prev r0)));
          k1 = latch_finished d r1 k
      in k1\<lparr>dk_rows := (dk_rows k1)(d := Some r1)\<rparr>)"

definition update_state_with :: "classify \<Rightarrow> string \<Rightarrow> (rip_state \<Rightarrow> rip_state) \<Rightarrow> desk \<Rightarrow> desk" where
  "update_state_with classify d f k =
     (let r = f (case dk_rows k d of None \<Rightarrow> default_rip_state\<lparr>ri_device := d\<rparr> | Some p \<Rightarrow> p);
          k1 = latch_finished d r k;
          r1 = r\<lparr>ri_damage_severity := damage_severity_for classify (ri_errors r) (ri_total_lost_ms r)\<rparr>
      in k1\<lparr>dk_rows := (dk_rows k1)(d := Some r1)\<rparr>)"

definition hold_for_staging :: "classify \<Rightarrow> string \<Rightarrow> string \<Rightarrow> nat \<Rightarrow> bool \<Rightarrow> desk \<Rightarrow> desk" where
  "hold_for_staging classify d problem now inserted k =
     (let k1 = (if inserted then k\<lparr>dk_held := (dk_held k)(d := Some now)\<rparr> else k)
      in update_state_with classify d (\<lambda>r. r\<lparr>ri_status := ''error'', ri_last_error := problem\<rparr>) k1)"

section \<open>Claims\<close>

text \<open>\<open>running\<close>: the device's worker thread has not exited.\<close>

definition try_claim_active_checked :: "bool \<Rightarrow> string \<Rightarrow> bool \<Rightarrow> desk \<Rightarrow> nat option \<times> desk" where
  "try_claim_active_checked running d known k =
     (if running then (None, k)
      else if is_busy d k then (None, k)
      else if \<not> known \<and> dk_rows k d = None then (None, k)
      else
        let r = (case dk_rows k d of None \<Rightarrow> default_rip_state\<lparr>ri_device := d\<rparr> | Some p \<Rightarrow> p);
            g = saturating_add 64 (ri_claim_gen r) 1;
            r1 = r\<lparr>ri_status := ''scanning'', ri_disc_present := True, ri_claim_gen := g\<rparr>;
            k1 = clear_finished_insertion d (k\<lparr>dk_rows := (dk_rows k)(d := Some r1)\<rparr>)
        in (Some g, forget_staging_hold d k1))"

definition try_claim_active :: "bool \<Rightarrow> string \<Rightarrow> desk \<Rightarrow> nat option \<times> desk" where
  "try_claim_active running d k = try_claim_active_checked running d True k"

definition try_claim_insert :: "bool \<Rightarrow> string \<Rightarrow> desk \<Rightarrow> nat option \<times> desk" where
  "try_claim_insert running d k = (if dk_stopped k d \<noteq> None then (None, k) else try_claim_active running d k)"

end
