(* ===== verification/Rip_Session.thy ===== *)
theory Rip_Session
  imports Rip_State Staging_Job
begin

text \<open>
  Worker threads, stop tokens and drive sessions (\<open>server/ripper/session.rs\<close>). A thread is a
  number with its device and phase: at the gate of \<open>spawn_rip_thread\<close>, working, or exited (what
  \<open>is_finished\<close> answers). A token is a number; the cancelled ones form a set, so that clones of
  a token share its flag. Of the crate's drive handle only what this file reads is kept.
\<close>

section \<open>Threads\<close>

datatype phase = AtGate | Working | Exited

record drive_session =
  dv_volume_id :: "string option"   \<comment> \<open>of the scanned disc, if one was\<close>
  dv_scanned :: bool
  dv_probed :: bool

record session =
  se_threads :: "string \<Rightarrow> nat option"            \<comment> \<open>\<open>RIP_THREADS\<close>\<close>
  se_workers :: "nat \<Rightarrow> (string \<times> phase) option"
  se_next :: nat
  se_halts :: "string \<Rightarrow> nat option"              \<comment> \<open>\<open>HALTS\<close>\<close>
  se_cancelled :: "nat set"
  se_identity :: "string \<Rightarrow> string option"        \<comment> \<open>\<open>DISC_IDENTITY\<close>\<close>
  se_sessions :: "string \<Rightarrow> drive_session option" \<comment> \<open>\<open>SESSIONS\<close>\<close>

definition no_sessions :: session where
  "no_sessions = \<lparr>se_threads = (\<lambda>_. None), se_workers = (\<lambda>_. None), se_next = 0, se_halts = (\<lambda>_. None),
     se_cancelled = {}, se_identity = (\<lambda>_. None), se_sessions = (\<lambda>_. None)\<rparr>"

definition is_finished :: "session \<Rightarrow> nat \<Rightarrow> bool" where
  "is_finished s w \<longleftrightarrow> (case se_workers s w of Some (_, p) \<Rightarrow> p = Exited | None \<Rightarrow> True)"

definition set_phase :: "nat \<Rightarrow> phase \<Rightarrow> session \<Rightarrow> session" where
  "set_phase w p s = s\<lparr>se_workers := (se_workers s)(w := map_option (\<lambda>(d, _). (d, p)) (se_workers s w))\<rparr>"

definition rip_thread_running :: "string \<Rightarrow> session \<Rightarrow> bool" where
  "rip_thread_running d s \<longleftrightarrow> (case se_threads s d of None \<Rightarrow> False | Some w \<Rightarrow> \<not> is_finished s w)"

datatype register_error = PriorThreadRunning nat

definition register_rip_thread :: "string \<Rightarrow> nat \<Rightarrow> session \<Rightarrow> (register_error + unit) \<times> session" where
  "register_rip_thread d w s =
     (if rip_thread_running d s then (Inl (PriorThreadRunning w), s)
      else (Inr (), s\<lparr>se_threads := (se_threads s)(d := Some w)\<rparr>))"

definition take_rip_thread :: "string \<Rightarrow> session \<Rightarrow> nat option \<times> session" where
  "take_rip_thread d s = (se_threads s d, s\<lparr>se_threads := (se_threads s)(d := None)\<rparr>)"

text \<open>The builder's thread waits at the gate until its handle is registered.\<close>

definition start_thread :: "string \<Rightarrow> session \<Rightarrow> nat \<times> session" where
  "start_thread d s = (se_next s, s\<lparr>se_workers := (se_workers s)(se_next s := Some (d, AtGate)), se_next := Suc (se_next s)\<rparr>)"

definition spawn_rip_thread :: "bool \<Rightarrow> io_error option \<Rightarrow> string \<Rightarrow> session \<Rightarrow> unit io_result \<times> session" where
  "spawn_rip_thread stopping refused d s =
     (if stopping then (Inl (IoError Interrupted ''the server is stopping''), s)
      else case refused of Some e \<Rightarrow> (Inl e, s)
      | None \<Rightarrow>
          (let (w, s1) = start_thread d s in
           case register_rip_thread d w s1 of
             (Inr _, s2) \<Rightarrow> (Inr (), set_phase w Working s2)
           | (Inl (PriorThreadRunning w'), s2) \<Rightarrow>
               (Inl (IoError AlreadyExists ''a rip thread is already running for this device''), set_phase w' Exited s2)))"

section \<open>Drains\<close>

datatype observed = NoThread | SelfJoin | Finished nat | StillRunning

definition poll_thread :: "nat option \<Rightarrow> string \<Rightarrow> session \<Rightarrow> observed \<times> session" where
  "poll_thread self d s =
     (case se_threads s d of None \<Rightarrow> (NoThread, s)
      | Some w \<Rightarrow>
          if self = Some w then (SelfJoin, s)
          else if is_finished s w then (Finished w, s\<lparr>se_threads := (se_threads s)(d := None)\<rparr>)
          else (StillRunning, s))"

text \<open>\<open>naps\<close>: what the other threads do during each nap before the deadline.\<close>

fun join_rip_thread :: "nat option \<Rightarrow> string \<Rightarrow> (session \<Rightarrow> session) list \<Rightarrow> session \<Rightarrow> bool \<times> session" where
  "join_rip_thread self d [] s =
     (case poll_thread self d s of (StillRunning, s') \<Rightarrow> (False, s') | (_, s') \<Rightarrow> (True, s'))"
| "join_rip_thread self d (nap # naps) s =
     (case poll_thread self d s of (StillRunning, s') \<Rightarrow> join_rip_thread self d naps (nap s') | (_, s') \<Rightarrow> (True, s'))"

section \<open>Stop tokens\<close>

definition register_halt :: "string \<Rightarrow> nat \<Rightarrow> session \<Rightarrow> session" where
  "register_halt d h s = s\<lparr>se_halts := (se_halts s)(d := Some h)\<rparr>"

definition device_halt :: "string \<Rightarrow> session \<Rightarrow> nat option" where
  "device_halt d s = se_halts s d"

definition cancel_halt :: "nat \<Rightarrow> session \<Rightarrow> session" where
  "cancel_halt h s = s\<lparr>se_cancelled := insert h (se_cancelled s)\<rparr>"

definition cancel_device :: "string \<Rightarrow> session \<Rightarrow> session" where
  "cancel_device d s = (case device_halt d s of None \<Rightarrow> s | Some h \<Rightarrow> cancel_halt h s)"

definition stop_and_drain :: "nat option \<Rightarrow> string \<Rightarrow> (session \<Rightarrow> session) list \<Rightarrow> session \<Rightarrow> bool \<times> session" where
  "stop_and_drain self d naps s = join_rip_thread self d naps (cancel_device d s)"

definition swap_halt_carrying_cancel :: "string \<Rightarrow> nat \<Rightarrow> session \<Rightarrow> session" where
  "swap_halt_carrying_cancel d h s =
     (let prior = (case se_halts s d of None \<Rightarrow> False | Some old \<Rightarrow> old \<in> se_cancelled s);
          s1 = (if prior then cancel_halt h s else s)
      in s1\<lparr>se_halts := (se_halts s1)(d := Some h)\<rparr>)"

definition unregister_halt :: "string \<Rightarrow> session \<Rightarrow> session" where
  "unregister_halt d s = s\<lparr>se_halts := (se_halts s)(d := None)\<rparr>"

text \<open>\<open>devices\<close>: the map's keys, each with the naps its share of the one deadline allows.\<close>

fun join_each :: "nat option \<Rightarrow> (string \<times> (session \<Rightarrow> session) list) list \<Rightarrow> session \<Rightarrow> bool \<times> session" where
  "join_each self [] s = (True, s)"
| "join_each self ((d, naps) # rest) s =
     (let (b, s1) = join_rip_thread self d naps s; (bs, s2) = join_each self rest s1 in (b \<and> bs, s2))"

definition join_all_rip_threads ::
    "nat option \<Rightarrow> (string \<times> (session \<Rightarrow> session) list) list \<Rightarrow> session \<Rightarrow> bool \<times> session" where
  "join_all_rip_threads self devices s = join_each self devices (fold (\<lambda>(d, _). cancel_device d) devices s)"

section \<open>Drive sessions\<close>

definition take_session :: "string \<Rightarrow> session \<Rightarrow> drive_session option \<times> session" where
  "take_session d s = (se_sessions s d, s\<lparr>se_sessions := (se_sessions s)(d := None)\<rparr>)"

definition cache_disc_identity :: "string \<Rightarrow> string \<Rightarrow> session \<Rightarrow> session" where
  "cache_disc_identity d volume s =
     (let vid = trim volume
      in if vid = [] then s\<lparr>se_identity := (se_identity s)(d := None)\<rparr>
         else s\<lparr>se_identity := (se_identity s)(d := Some vid)\<rparr>)"

definition store_session :: "string \<Rightarrow> drive_session \<Rightarrow> session \<Rightarrow> session" where
  "store_session d v s =
     (let s1 = cache_disc_identity d (case dv_volume_id v of None \<Rightarrow> [] | Some x \<Rightarrow> x) s
      in s1\<lparr>se_sessions := (se_sessions s1)(d := Some v)\<rparr>)"

datatype drive_status = StatusDiscPresent | StatusNoDisc | StatusTrayOpen | StatusNotReady | StatusUnknown

fun presence_from_status :: "drive_status \<Rightarrow> presence_report" where
  "presence_from_status StatusDiscPresent = DiscPresent"
| "presence_from_status StatusNoDisc = DiscAbsent"
| "presence_from_status StatusTrayOpen = DiscAbsent"
| "presence_from_status StatusNotReady = DiscSettling"
| "presence_from_status StatusUnknown = DiscSettling"

text \<open>\<open>status\<close>: what the held drive answers.\<close>

definition held_drive_presence :: "bool \<Rightarrow> drive_status \<Rightarrow> string \<Rightarrow> session \<Rightarrow> presence_report option" where
  "held_drive_presence macos status d s =
     (if \<not> macos then None else case se_sessions s d of None \<Rightarrow> None | Some _ \<Rightarrow> Some (presence_from_status status))"

definition expected_volume_id :: "string \<Rightarrow> session \<Rightarrow> string option" where
  "expected_volume_id d s = se_identity s d"

definition session_is_scanned :: "string \<Rightarrow> session \<Rightarrow> bool" where
  "session_is_scanned d s \<longleftrightarrow> (case se_sessions s d of None \<Rightarrow> False | Some v \<Rightarrow> dv_scanned v)"

definition drop_session :: "string \<Rightarrow> session \<Rightarrow> session" where
  "drop_session d s = s\<lparr>se_sessions := (se_sessions s)(d := None)\<rparr>"

definition release_stopped_drive :: "string \<Rightarrow> nat option \<Rightarrow> desk \<Rightarrow> session \<Rightarrow> session" where
  "release_stopped_drive d entry_gen k s =
     (if map_option ri_claim_gen (dk_rows k d) = entry_gen then drop_session d s else s)"

definition forget_device_session_state :: "string \<Rightarrow> session \<Rightarrow> bool \<times> session" where
  "forget_device_session_state d s =
     (let s1 = s\<lparr>se_identity := (se_identity s)(d := None)\<rparr>
      in case se_threads s1 d of None \<Rightarrow> (False, s1)
         | Some w \<Rightarrow>
             if is_finished s1 w then (True, unregister_halt d (s1\<lparr>se_threads := (se_threads s1)(d := None)\<rparr>))
             else (False, s1))"

section \<open>Both halves\<close>

definition rollback_failed_spawn :: "classify \<Rightarrow> nat \<Rightarrow> string \<Rightarrow> nat \<Rightarrow> desk \<times> session \<Rightarrow> desk \<times> session" where
  "rollback_failed_spawn classify now d g ks =
     (case ks of (k, s) \<Rightarrow>
        if map_option ri_claim_gen (dk_rows k d) \<noteq> Some g then (k, s)
        else (update_state classify now d
                (default_rip_state\<lparr>ri_device := d, ri_status := ''idle'', ri_disc_present := True\<rparr>) k,
              unregister_halt d s))"

text \<open>The teardown of a drive that left the enumeration; whether it went through.\<close>

definition forget_removed_device :: "string \<Rightarrow> desk \<times> session \<Rightarrow> bool \<times> desk \<times> session" where
  "forget_removed_device d ks =
     (case ks of (k, s) \<Rightarrow>
        if is_busy d k \<or> rip_thread_running d s then (False, k, s)
        else (let k1 = k\<lparr>dk_rows := (dk_rows k)(d := None)\<rparr>
              in (True, forget_device_state d k1, snd (forget_device_session_state d (drop_session d s)))))"

end
