(* ===== verification/Rediscover.thy ===== *)
theory Rediscover
  imports Rip_Session
begin

text \<open>
  Finding a drive again after a USB re-enumeration (\<open>rediscover_drive_with\<close> of
  \<open>server/ripper/session.rs\<close>): its node and the neighbouring ones are probed in a fixed order. The
  injected probes act on a world \<open>'w\<close>; a failed presence probe is \<open>None\<close>.
\<close>

section \<open>The code\<close>

definition settle_retries :: nat where
  "settle_retries = 10"

definition path_unchanged :: "int \<Rightarrow> bool" where
  "path_unchanged delta \<longleftrightarrow> delta = 0"

definition candidate_identity_confirmed :: "string option \<Rightarrow> string \<Rightarrow> bool" where
  "candidate_identity_confirmed probed expected \<longleftrightarrow> probed = Some expected"

definition after_slash :: "string \<Rightarrow> string" where
  "after_slash s = rev (takeWhile (\<lambda>c. c \<noteq> CHR ''/'') (rev s))"

definition wrap_i32 :: "int \<Rightarrow> int" where
  "wrap_i32 x = (x + 2147483648) mod 4294967296 - 2147483648"

definition parse_i32 :: "string \<Rightarrow> int option" where
  "parse_i32 s =
     (let neg = (case s of c # r \<Rightarrow> c = CHR ''-'' | [] \<Rightarrow> False);
          d = (case s of c # r \<Rightarrow> if c = CHR ''-'' \<or> c = CHR ''+'' then r else s | [] \<Rightarrow> []);
          n = (if neg then - int (digits_value d) else int (digits_value d))
      in if d \<noteq> [] \<and> list_all is_digit_char d \<and> - 2147483648 \<le> n \<and> n \<le> 2147483647 then Some n else None)"

definition sg_number :: "string \<Rightarrow> int option" where
  "sg_number original =
     (let leaf = after_slash original
      in if starts_with leaf ''sg'' then parse_i32 (drop 2 leaf) else None)"

definition sg_path :: "int \<Rightarrow> string" where
  "sg_path n = ''/dev/sg'' @ show_nat (nat n)"

record 'w probes =
  pb_presence :: "string \<Rightarrow> 'w \<Rightarrow> presence_report option \<times> 'w"
  pb_volume_id :: "string \<Rightarrow> 'w \<Rightarrow> string option \<times> 'w"
  pb_pause :: "'w \<Rightarrow> bool \<times> 'w"

text \<open>A settling neighbour is probed again while retries are left; \<open>None\<close>: halted.\<close>

fun settle :: "'w probes \<Rightarrow> string \<Rightarrow> nat \<Rightarrow> presence_report option \<Rightarrow> 'w \<Rightarrow> presence_report option option \<times> 'w" where
  "settle pb path 0 answer w = (Some answer, w)"
| "settle pb path (Suc n) answer w =
     (if answer = Some DiscSettling
      then (case pb_pause pb w of (False, w1) \<Rightarrow> (None, w1)
            | (True, w1) \<Rightarrow> (case pb_presence pb path w1 of (a, w2) \<Rightarrow> settle pb path n a w2))
      else (Some answer, w))"

definition accepts :: "int \<Rightarrow> presence_report option \<Rightarrow> bool" where
  "accepts delta answer \<longleftrightarrow>
     (case answer of Some DiscPresent \<Rightarrow> True | Some DiscSettling \<Rightarrow> path_unchanged delta | _ \<Rightarrow> False)"

fun try_deltas :: "'w probes \<Rightarrow> string option \<Rightarrow> int \<Rightarrow> int list \<Rightarrow> 'w \<Rightarrow> string option \<times> 'w" where
  "try_deltas pb expected sg [] w = (None, w)"
| "try_deltas pb expected sg (delta # rest) w =
     (let num = wrap_i32 (sg + delta) in
      if num < 0 then try_deltas pb expected sg rest w
      else let path = sg_path num in
        (case pb_presence pb path w of (answer, w1) \<Rightarrow>
         (case settle pb path (if path_unchanged delta then 0 else settle_retries) answer w1 of
            (None, w2) \<Rightarrow> (None, w2)
          | (Some answer', w2) \<Rightarrow>
              if \<not> accepts delta answer' then try_deltas pb expected sg rest w2
              else if path_unchanged delta then (Some path, w2)
              else (case expected of None \<Rightarrow> (Some path, w2)
                    | Some vid \<Rightarrow>
                        (case pb_volume_id pb path w2 of (probed, w3) \<Rightarrow>
                           if candidate_identity_confirmed probed vid then (Some path, w3)
                           else try_deltas pb expected sg rest w3)))))"

definition rediscover_drive_with :: "'w probes \<Rightarrow> string option \<Rightarrow> string \<Rightarrow> 'w \<Rightarrow> string option \<times> 'w" where
  "rediscover_drive_with pb expected original w =
     (case sg_number original of None \<Rightarrow> (None, w)
      | Some sg \<Rightarrow> try_deltas pb expected sg [0, -1, 1, -2, 2, -3, 3] w)"

section \<open>The disc it latches\<close>

lemma try_deltas_latches:
  assumes "try_deltas pb (Some vid) sg ds w = (Some path, w')"
  shows "path = sg_path (wrap_i32 sg) \<or> (\<exists>u u'. pb_volume_id pb path u = (Some vid, u'))"
  using assms
proof (induction ds arbitrary: w)
  case (Cons delta rest)
  then show ?case
    by (auto simp: Let_def path_unchanged_def candidate_identity_confirmed_def
        split: if_splits prod.splits option.splits)
qed simp

text \<open>
  With a known disc identity, the drive is only found again at its own node, or at a
  neighbouring one whose disc was read and carries that identity: a stranger's disc in a
  neighbouring drive is never latched.
\<close>

theorem rediscovery_latches_own_disc:
  assumes "rediscover_drive_with pb (Some vid) original w = (Some path, w')"
  shows "\<exists>sg. sg_number original = Some sg
     \<and> (path = sg_path (wrap_i32 sg) \<or> (\<exists>u u'. pb_volume_id pb path u = (Some vid, u')))"
  using assms try_deltas_latches [of pb vid] by (auto simp: rediscover_drive_with_def simp del: try_deltas.simps split: option.splits)

definition sample_probes :: "nat probes" where
  "sample_probes = \<lparr>pb_presence = (\<lambda>p w. (if p = ''/dev/sg4'' then None else Some DiscPresent, Suc w)),
     pb_volume_id = (\<lambda>p w. (if p = ''/dev/sg5'' then Some ''MOVIE'' else Some ''OTHER'', w)),
     pb_pause = (\<lambda>w. (True, w))\<rparr>"

lemma sample_rediscovery:
  "rediscover_drive_with sample_probes (Some ''MOVIE'') ''/dev/sg4'' 0 = (Some ''/dev/sg5'', 3)"
  by code_simp

theorem rediscovery_latches_own_disc_witness:
  "sg_number ''/dev/sg4'' = Some 4 \<and> ''/dev/sg5'' \<noteq> sg_path 4
     \<and> fst (pb_volume_id sample_probes ''/dev/sg5'' 0) = Some ''MOVIE''
     \<and> (\<exists>sg. sg_number ''/dev/sg4'' = Some sg \<and> (''/dev/sg5'' = sg_path (wrap_i32 sg)
          \<or> (\<exists>u u'. pb_volume_id sample_probes ''/dev/sg5'' u = (Some ''MOVIE'', u'))))"
proof (intro conjI)
  show "\<exists>sg. sg_number ''/dev/sg4'' = Some sg \<and> (''/dev/sg5'' = sg_path (wrap_i32 sg)
          \<or> (\<exists>u u'. pb_volume_id sample_probes ''/dev/sg5'' u = (Some ''MOVIE'', u')))"
    by (rule rediscovery_latches_own_disc [OF sample_rediscovery])
qed (code_simp+)

section \<open>How long it may take\<close>

lemma settle_cost:
  assumes "\<And>p u. c (snd (pb_presence pb p u)) \<le> c u + (1::nat)" "\<And>u. c (snd (pb_pause pb u)) \<le> c u"
  shows "c (snd (settle pb path n answer w)) \<le> c w + n"
proof (induction n arbitrary: answer w)
  case (Suc n)
  have step: "c (snd (settle pb path n a w2)) \<le> c w + Suc n" if "pb_pause pb w = (b, w1)" "pb_presence pb path w1 = (a, w2)" for b w1 a w2
    using Suc [of a w2] assms(1) [of path w1] assms(2) [of w] that by simp
  then show ?case using assms(2) [of w] by (auto split: prod.splits bool.splits)
qed simp

lemma try_deltas_cost:
  assumes p: "\<And>q u. c (snd (pb_presence pb q u)) \<le> c u + (1::nat)" and z: "\<And>u. c (snd (pb_pause pb u)) \<le> c u"
    and v: "\<And>q u. c (snd (pb_volume_id pb q u)) \<le> c u"
  shows "c (snd (try_deltas pb expected sg ds w)) \<le> c w + (\<Sum>delta \<leftarrow> ds. if delta = 0 then 1 else 11)"
proof (induction ds arbitrary: w)
  case (Cons delta rest)
  let ?path = "sg_path (wrap_i32 (sg + delta))" and ?k = "if delta = 0 then 0 else settle_retries"
  obtain a w1 where 1: "pb_presence pb ?path w = (a, w1)" by fastforce
  obtain r w2 where 2: "settle pb ?path ?k a w1 = (r, w2)" by fastforce
  obtain x w3 where 3: "pb_volume_id pb ?path w2 = (x, w3)" by fastforce
  have 12: "c w2 \<le> c w + (if delta = 0 then 1 else 11)"
    using p [of ?path w] settle_cost [of c pb ?path ?k a w1, OF p z] 1 2 by (auto simp: settle_retries_def split: if_splits)
  moreover have "c w3 \<le> c w2" using v [of ?path w2] 3 by simp
  ultimately show ?case using Cons [of w2] Cons [of w3] Cons [of w] 1 2 3
    by (auto simp: Let_def path_unchanged_def split: option.splits)
qed simp

text \<open>
  A rediscovery probes for a disc at most 67 times: once per node, and ten times more at each
  of the six neighbours while its drive settles.
\<close>

theorem rediscovery_probes_bounded:
  assumes "\<And>q u. c (snd (pb_presence pb q u)) \<le> c u + (1::nat)" "\<And>u. c (snd (pb_pause pb u)) \<le> c u"
    and "\<And>q u. c (snd (pb_volume_id pb q u)) \<le> c u"
  shows "c (snd (rediscover_drive_with pb expected original w)) \<le> c w + 67"
  using try_deltas_cost [of c pb expected _ "[0, -1, 1, -2, 2, -3, 3]" w, OF assms]
  by (auto simp: rediscover_drive_with_def split: option.split)

theorem rediscovery_probes_bounded_witness:
  "snd (rediscover_drive_with sample_probes None ''/dev/sg4'' 0) \<le> 0 + 67"
  by (rule rediscovery_probes_bounded [of "\<lambda>w. w"]) (simp_all add: sample_probes_def)

end
