(* ===== verification/Session_System.thy ===== *)
theory Session_System
  imports Rip_Session
begin

text \<open>
  Everything the request handlers, the poll loop and the workers do to the sessions, as one
  labelled step relation whose steps are what runs under one lock; its invariant; and what it
  gives: at most one working thread per device, drains that really drained, stops that last.
\<close>

section \<open>Steps\<close>

text \<open>\<open>HaltOn\<close> and \<open>HaltOff\<close> replace or drop a device's token without looking at it.\<close>

datatype session_act = Spawning | Tokens | HaltOn string | HaltOff string | Drives

inductive session_step :: "session_act \<Rightarrow> session \<Rightarrow> session \<Rightarrow> bool" where
  starts: "session_step Spawning s (snd (start_thread d s))"
| registers: "se_workers s w = Some (d, AtGate) \<Longrightarrow> session_step Spawning s (snd (register_rip_thread d w s))"
| released: "se_workers s w = Some (d, AtGate) \<Longrightarrow> se_threads s d = Some w \<Longrightarrow>
    session_step Spawning s (set_phase w Working s)"
| aborts: "se_workers s w = Some (d, AtGate) \<Longrightarrow> session_step Spawning s (set_phase w Exited s)"
| exits: "se_workers s w = Some (d, Working) \<Longrightarrow> session_step Spawning s (set_phase w Exited s)"
| polls: "session_step Spawning s (snd (poll_thread self d s))"
| halt_on: "session_step (HaltOn d) s (register_halt d h s)"
| halt_off: "session_step (HaltOff d) s (unregister_halt d s)"
| swaps: "session_step Tokens s (swap_halt_carrying_cancel d h s)"
| stops: "session_step Tokens s (cancel_device d s)"
| stores: "session_step Drives s (store_session d v s)"
| takes: "session_step Drives s (snd (take_session d s))"
| drops: "session_step Drives s (drop_session d s)"
| stop_drops: "session_step Drives s (release_stopped_drive d g k s)"
| unplugs: "session_step (HaltOff d) s (snd (forget_device_session_state d s))"

inductive session_path :: "session_act list \<Rightarrow> session \<Rightarrow> session \<Rightarrow> bool" where
  here: "session_path [] s s"
| onward: "session_step a s s' \<Longrightarrow> session_path as s' s'' \<Longrightarrow> session_path (a # as) s s''"

inductive session_reachable :: "session \<Rightarrow> bool" where
  init: "session_reachable no_sessions"
| step: "session_reachable s \<Longrightarrow> session_step a s s' \<Longrightarrow> session_reachable s'"

inductive_cases session_stepE: "session_step a s s'"
inductive_simps session_path_Nil [simp]: "session_path [] s s'"
inductive_simps session_path_Cons: "session_path (a # as) s s'"

section \<open>The invariant\<close>

text \<open>A working thread is its device's registered one; what is registered exists.\<close>

definition sessions_ok :: "session \<Rightarrow> bool" where
  "sessions_ok s \<longleftrightarrow>
     (\<forall>w d. se_workers s w = Some (d, Working) \<longrightarrow> se_threads s d = Some w)
   \<and> (\<forall>d w. se_threads s d = Some w \<longrightarrow> (\<exists>p. se_workers s w = Some (d, p)))
   \<and> (\<forall>w. se_workers s w \<noteq> None \<longrightarrow> w < se_next s)"

lemma same_threads_ok:
  "sessions_ok s \<Longrightarrow> se_threads s' = se_threads s \<Longrightarrow> se_workers s' = se_workers s \<Longrightarrow> se_next s' = se_next s \<Longrightarrow> sessions_ok s'"
  by (simp add: sessions_ok_def)

lemma registered_device:
  assumes "sessions_ok s" "se_threads s d = Some w"
  obtains p where "se_workers s w = Some (d, p)" "w < se_next s"
  using assms by (fastforce simp: sessions_ok_def)

lemma start_thread_ok:
  assumes "sessions_ok s"
  shows "sessions_ok (snd (start_thread d s))"
proof -
  have "se_threads s e \<noteq> Some (se_next s)" for e using assms by (auto elim: registered_device)
  with assms show ?thesis unfolding sessions_ok_def start_thread_def by (auto simp: less_Suc_eq split: if_splits)
qed

lemma not_running:
  assumes "sessions_ok s" "\<not> rip_thread_running d s"
  shows "se_workers s w \<noteq> Some (d, Working)"
  using assms by (auto simp: sessions_ok_def rip_thread_running_def is_finished_def)

lemma register_ok:
  assumes "sessions_ok s" "se_workers s w = Some (d, AtGate)"
  shows "sessions_ok (snd (register_rip_thread d w s))"
proof (cases "rip_thread_running d s")
  case False
  with assms not_running [OF assms(1) False] show ?thesis
    by (simp add: sessions_ok_def register_rip_thread_def)
qed (simp add: register_rip_thread_def assms)

lemma set_phase_parts:
  "se_threads (set_phase w p s) = se_threads s" "se_next (set_phase w p s) = se_next s"
  "se_workers (set_phase w p s) v = (if v = w then map_option (\<lambda>(d, _). (d, p)) (se_workers s w) else se_workers s v)"
  by (simp_all add: set_phase_def)

lemma exit_ok: "sessions_ok s \<Longrightarrow> sessions_ok (set_phase w Exited s)"
  unfolding sessions_ok_def by (auto simp: set_phase_parts)

lemma release_ok:
  assumes ok: "sessions_ok s" and w: "se_workers s w = Some (d, AtGate)" and t: "se_threads s d = Some w"
  shows "sessions_ok (set_phase w Working s)"
proof -
  have "\<exists>p. se_workers (set_phase w Working s) v = Some (e, p)" if v: "se_threads s e = Some v" for e v
  proof (rule registered_device [OF ok v])
    fix p assume "se_workers s v = Some (e, p)"
    then show ?thesis using w by (auto simp: set_phase_parts)
  qed
  moreover have "w < se_next s" by (rule registered_device [OF ok t])
  ultimately show ?thesis using ok t w unfolding sessions_ok_def by (auto simp: set_phase_parts)
qed

lemma reap_ok:
  assumes "sessions_ok s" "se_threads s d = Some w" "is_finished s w"
    and "se_threads s' = (se_threads s)(d := None)" "se_workers s' = se_workers s" "se_next s' = se_next s"
  shows "sessions_ok s'"
proof -
  have "\<not> rip_thread_running d s" using assms(2,3) by (simp add: rip_thread_running_def)
  from not_running [OF assms(1) this] have "se_workers s v \<noteq> Some (d, Working)" for v .
  with assms show ?thesis by (simp add: sessions_ok_def)
qed

lemma poll_ok: "sessions_ok s \<Longrightarrow> sessions_ok (snd (poll_thread self d s))"
  by (auto simp: poll_thread_def split: option.split intro: reap_ok)

lemma forget_ok:
  assumes "sessions_ok s"
  shows "sessions_ok (snd (forget_device_session_state d s))"
proof (cases "se_threads s d")
  case None
  with assms show ?thesis
    by (auto simp: forget_device_session_state_def intro: same_threads_ok)
next
  case (Some w)
  with assms show ?thesis
    by (cases "is_finished s w")
      (auto simp: forget_device_session_state_def is_finished_def unregister_halt_def intro: same_threads_ok reap_ok [OF assms Some])
qed

lemma cancel_device_threads [simp]:
  "se_threads (cancel_device d s) = se_threads s" "se_workers (cancel_device d s) = se_workers s"
  "se_next (cancel_device d s) = se_next s"
  by (simp_all add: cancel_device_def cancel_halt_def split: option.split)

lemma session_step_ok: "session_step a s s' \<Longrightarrow> sessions_ok s \<Longrightarrow> sessions_ok s'"
proof (induction rule: session_step.induct)
qed (blast intro: start_thread_ok register_ok release_ok exit_ok poll_ok forget_ok |
     erule same_threads_ok; simp add: register_halt_def unregister_halt_def swap_halt_carrying_cancel_def
       cancel_halt_def store_session_def cache_disc_identity_def take_session_def drop_session_def
       release_stopped_drive_def Let_def)+

interpretation sessions: step_invariant "\<lambda>s s'. \<exists>a. session_step a s s'" session_reachable
    "\<lambda>s. s = no_sessions" sessions_ok
proof unfold_locales
  fix s and Q :: "session \<Rightarrow> bool"
  assume "session_reachable s" and "\<And>s. s = no_sessions \<Longrightarrow> Q s"
    and "\<And>s s'. session_reachable s \<Longrightarrow> Q s \<Longrightarrow> \<exists>a. session_step a s s' \<Longrightarrow> Q s'"
  then show "Q s" by (induction rule: session_reachable.induct) blast+
qed (auto simp: no_sessions_def sessions_ok_def dest: session_step_ok)

section \<open>Workers\<close>

lemma sessions_okD:
  assumes "session_reachable s" "se_workers s w = Some (d, Working)"
  shows "se_threads s d = Some w"
  using sessions.reachable_inv [OF assms(1)] assms(2) by (simp add: sessions_ok_def)

lemma working_runs: "session_reachable s \<Longrightarrow> se_workers s w = Some (d, Working) \<Longrightarrow> rip_thread_running d s"
  by (auto dest: sessions_okD simp: rip_thread_running_def is_finished_def)


text \<open>
  While a thread works on a device no claim on it is granted, whatever its row says, and an
  unplug leaves its row and sessions as they are.
\<close>

theorem live_worker_keeps_device:
  assumes "session_reachable s" "se_workers s w = Some (d, Working)"
  shows "try_claim_active_checked (rip_thread_running d s) d known k = (None, k)
     \<and> forget_removed_device d (k, s) = (False, k, s)"
  using working_runs [OF assms] by (simp add: try_claim_active_checked_def forget_removed_device_def)

section \<open>Drains\<close>

lemma poll_drained:
  assumes "session_reachable s" "poll_thread None d s = (r, s')" "r \<noteq> StillRunning"
  shows "session_reachable s' \<and> se_threads s' d = None"
  using assms session_reachable.step [OF assms(1) polls [where self = None and d = d]]
  by (auto simp: poll_thread_def split: option.splits if_splits)

lemma join_drained:
  assumes "session_reachable s" "join_rip_thread None d naps s = (True, s')"
    and "\<And>nap u. nap \<in> set naps \<Longrightarrow> session_reachable u \<Longrightarrow> session_reachable (nap u)"
  shows "session_reachable s' \<and> se_threads s' d = None"
  using assms
proof (induction naps arbitrary: s)
  case Nil
  then show ?case using poll_drained [OF Nil(1), of d] by (auto split: prod.splits observed.splits)
next
  case (Cons nap naps)
  obtain r u where p: "poll_thread None d s = (r, u)" by fastforce
  show ?case
  proof (cases "r = StillRunning")
    case True
    then have "u = s" using p by (auto simp: poll_thread_def split: option.splits if_splits)
    with True p Cons.prems(2) have "join_rip_thread None d naps (nap s) = (True, s')" by simp
    then show ?thesis using Cons.prems(1,3) by (intro Cons.IH) auto
  next
    case False
    with poll_drained [OF Cons.prems(1) p] p Cons.prems(2) show ?thesis by (cases r) auto
  qed
qed

text \<open>
  C25: a stop that reports the device drained has drained it: whatever the other threads did
  meanwhile, no thread works on the device when it returns.
\<close>

theorem drained_has_no_worker:
  assumes "session_reachable s" "stop_and_drain None d naps s = (True, s')"
    and "\<And>nap u. nap \<in> set naps \<Longrightarrow> session_reachable u \<Longrightarrow> session_reachable (nap u)"
  shows "se_workers s' w \<noteq> Some (d, Working)"
proof
  assume w: "se_workers s' w = Some (d, Working)"
  have "session_reachable (cancel_device d s)" using assms(1) stops by (rule session_reachable.step)
  then have "session_reachable s' \<and> se_threads s' d = None"
    using assms(2,3) unfolding stop_and_drain_def by (rule join_drained)
  with sessions_okD [OF _ w] show False by simp
qed

section \<open>Stops\<close>

definition stop_standing :: "string \<Rightarrow> session \<Rightarrow> bool" where
  "stop_standing d s \<longleftrightarrow> (case se_halts s d of None \<Rightarrow> False | Some h \<Rightarrow> h \<in> se_cancelled s)"

lemma stop_step:
  "session_step a s s' \<Longrightarrow> a \<noteq> HaltOn d \<Longrightarrow> a \<noteq> HaltOff d \<Longrightarrow> stop_standing d s \<Longrightarrow> stop_standing d s'"
  by (induction rule: session_step.induct)
    (auto simp: stop_standing_def start_thread_def register_rip_thread_def set_phase_def poll_thread_def
      register_halt_def unregister_halt_def swap_halt_carrying_cancel_def cancel_device_def cancel_halt_def
      store_session_def cache_disc_identity_def take_session_def drop_session_def release_stopped_drive_def
      forget_device_session_state_def Let_def split: option.splits if_splits)


section \<open>Witnesses\<close>

definition sample_started :: session where
  "sample_started = snd (start_thread ''sg4'' no_sessions)"

definition sample_registered :: session where
  "sample_registered = snd (register_rip_thread ''sg4'' 0 sample_started)"

definition sample_working :: session where
  "sample_working = set_phase 0 Working sample_registered"

lemmas sample_sessions = sample_working_def sample_registered_def sample_started_def start_thread_def
  register_rip_thread_def rip_thread_running_def set_phase_def no_sessions_def

lemma sample_working_reachable: "session_reachable sample_working"
proof -
  have 1: "session_reachable sample_started"
    unfolding sample_started_def by (rule session_reachable.step [OF init starts])
  have 2: "session_reachable sample_registered"
    unfolding sample_registered_def
    by (rule session_reachable.step [OF 1 registers]) (simp add: sample_sessions)
  show ?thesis unfolding sample_working_def
    by (rule session_reachable.step [OF 2 released [where d = "''sg4''"]]) (simp_all add: sample_sessions)
qed

lemma sample_worker: "se_workers sample_working 0 = Some (''sg4'', Working)"
  by (simp add: sample_sessions)


definition sample_desk :: desk where
  "sample_desk = \<lparr>dk_rows = (\<lambda>_. None), dk_stopped = (\<lambda>_. None), dk_changed = {}, dk_finished = {},
     dk_cooldown = (\<lambda>_. None), dk_held = (\<lambda>_. None)\<rparr>"

theorem live_worker_keeps_device_witness:
  "forget_removed_device ''sg4'' (sample_desk, sample_working) = (False, sample_desk, sample_working)"
  using live_worker_keeps_device [OF sample_working_reachable sample_worker, where k = sample_desk] by simp

definition sample_nap :: "session \<Rightarrow> session" where
  "sample_nap s = (if se_workers s 0 = Some (''sg4'', Working) then set_phase 0 Exited s else s)"

lemma sample_nap_reachable: "session_reachable s \<Longrightarrow> session_reachable (sample_nap s)"
  unfolding sample_nap_def by (auto intro: session_reachable.step exits)

lemma sample_drain: "fst (stop_and_drain None ''sg4'' [sample_nap] sample_working)"
  by (simp add: stop_and_drain_def cancel_device_def device_halt_def poll_thread_def is_finished_def
      sample_nap_def sample_sessions)

theorem drained_has_no_worker_witness:
  "se_workers (snd (stop_and_drain None ''sg4'' [sample_nap] sample_working)) 0 \<noteq> Some (''sg4'', Working)"
  by (rule drained_has_no_worker [OF sample_working_reachable, where d = "''sg4''" and naps = "[sample_nap]"])
    (use sample_drain sample_nap_reachable in \<open>auto simp: prod_eq_iff\<close>)

definition sample_token :: session where
  "sample_token = register_halt ''sg4'' 7 sample_working"


end
