(* ===== verification/Rip_Claims.thy ===== *)
theory Rip_Claims
  imports Rip_Session
begin

text \<open>
  What writes a drive's row beside its worker: the poll loop, Stop and Eject
  (\<open>server/ripper/mod.rs\<close>, \<open>server/web.rs\<close>); and what claims and pushes promise together: a claim's
  generation is its own, undoing an old one never touches a newer one, a published correction
  stays on the row.
\<close>

section \<open>Poll rows\<close>

definition publish_poll_row :: "classify \<Rightarrow> string \<Rightarrow> rip_state \<Rightarrow> desk \<Rightarrow> bool \<times> desk" where
  "publish_poll_row classify d row k =
     (let cur = (case dk_rows k d of None \<Rightarrow> default_rip_state\<lparr>ri_device := d\<rparr> | Some p \<Rightarrow> p)
      in (\<not> row_is_busy cur,
          update_state_with classify d
            (\<lambda>r. if row_is_busy r then r else row\<lparr>ri_claim_gen := ri_claim_gen r\<rparr>) k))"

definition probe_error_prefix :: string where
  "probe_error_prefix = ''Drive communication failed repeatedly (''"

definition clear_probe_error :: "presence_report \<Rightarrow> rip_state \<Rightarrow> rip_state" where
  "clear_probe_error p r =
     (if ri_status r = ''error'' \<and> starts_with (ri_last_error r) probe_error_prefix
      then let r1 = r\<lparr>ri_last_error := [], ri_status := ''idle''\<rparr>
           in (case p of DiscPresent \<Rightarrow> r1\<lparr>ri_disc_present := True\<rparr>
               | DiscAbsent \<Rightarrow> r1\<lparr>ri_disc_present := False\<rparr> | DiscSettling \<Rightarrow> r1)
      else r)"

section \<open>Stop\<close>

definition prepare_stop :: "nat \<Rightarrow> string \<Rightarrow> desk \<Rightarrow> nat option \<times> desk" where
  "prepare_stop now d k =
     (let entry_gen = map_option ri_claim_gen (dk_rows k d)
      in (entry_gen, if entry_gen \<noteq> None then set_stop_cooldown now d (hold_stopped_disc d k) else k))"

record stop_report_row =
  sr_status :: string
  sr_last_error :: string
  sr_ok :: bool   \<comment> \<open>the answer's \<open>ok\<close> field\<close>

definition stop_report :: "bool \<Rightarrow> stop_report_row" where
  "stop_report drained =
     (if drained then \<lparr>sr_status = ''idle'', sr_last_error = [], sr_ok = True\<rparr>
      else \<lparr>sr_status = ''error'',
            sr_last_error = ''Stop timed out: the rip thread is still running; the drive stays busy until it exits'',
            sr_ok = False\<rparr>)"

definition apply_stop_to_state :: "string \<Rightarrow> nat option \<Rightarrow> stop_report_row \<Rightarrow> desk \<Rightarrow> bool \<times> desk" where
  "apply_stop_to_state d entry_gen report k =
     (case dk_rows k d of None \<Rightarrow> (False, k)
      | Some r \<Rightarrow>
          if (case entry_gen of None \<Rightarrow> False | Some g \<Rightarrow> ri_claim_gen r \<noteq> g) then (True, k)
          else (True, k\<lparr>dk_rows := (dk_rows k)(d := Some
                 (default_rip_state\<lparr>ri_device := d, ri_status := sr_status report,
                    ri_disc_present := ri_disc_present r, ri_last_error := sr_last_error report,
                    ri_claim_gen := ri_claim_gen r\<rparr>))\<rparr>))"

text \<open>The whole handler; \<open>now\<close> and \<open>now'\<close> before and after the drain. The answer's code and \<open>ok\<close>.\<close>

definition handle_stop ::
    "nat \<Rightarrow> nat \<Rightarrow> string \<Rightarrow> (desk \<times> session \<Rightarrow> desk) \<Rightarrow> (session \<Rightarrow> session) list \<Rightarrow> desk \<times> session
       \<Rightarrow> (nat \<times> bool) \<times> desk \<times> session" where
  "handle_stop now now' d meanwhile naps ks =
     (case ks of (k, s) \<Rightarrow>
      let (entry_gen, k1) = prepare_stop now d k;
          (drained, s1) = stop_and_drain None d naps s;
          k2 = meanwhile (k1, s1);
          report = stop_report drained;
          (found, k3) = apply_stop_to_state d entry_gen report k2
      in if \<not> found then ((404, False), k3, s1)
         else ((200, sr_ok report), set_stop_cooldown now' d k3,
               if drained then release_stopped_drive d entry_gen k3 s1 else s1))"

section \<open>Eject\<close>

definition should_auto_eject :: "bool \<Rightarrow> string \<Rightarrow> bool" where
  "should_auto_eject auto_eject d \<longleftrightarrow> auto_eject \<and> \<not> starts_with d ''_''"

definition eject_verdict :: "('e \<Rightarrow> bool) \<Rightarrow> bool \<Rightarrow> 'e + unit \<Rightarrow> 'e + unit" where
  "eject_verdict no_medium first_failed second =
     (case second of Inl e \<Rightarrow> if first_failed \<and> no_medium e then Inr () else second | Inr _ \<Rightarrow> second)"

text \<open>\<open>first\<close>: what the held handle answers; \<open>second\<close>: what opening the drive again does.\<close>

definition eject_drive ::
    "('e \<Rightarrow> bool) \<Rightarrow> nat option \<Rightarrow> (session \<Rightarrow> session) list \<Rightarrow> 'e + unit \<Rightarrow> 'e + ('e + unit) \<Rightarrow> string \<Rightarrow> session
       \<Rightarrow> ('e + unit) \<times> session" where
  "eject_drive no_medium self naps first second d s =
     (let (_, s1) = stop_and_drain self d naps s;
          (held, s2) = take_session d s1;
          s3 = unregister_halt d s2;
          first_failed = (held \<noteq> None)
      in if held \<noteq> None \<and> first = Inr () then (Inr (), s3)
         else (case second of Inl e \<Rightarrow> (Inl e, s3)
               | Inr answer \<Rightarrow> (eject_verdict no_medium first_failed answer, s3)))"

definition operator_eject ::
    "('e \<Rightarrow> bool) \<Rightarrow> nat option \<Rightarrow> (session \<Rightarrow> session) list \<Rightarrow> 'e + unit \<Rightarrow> 'e + ('e + unit) \<Rightarrow> string \<Rightarrow> desk \<times> session
       \<Rightarrow> ('e + unit) \<times> desk \<times> session" where
  "operator_eject no_medium self naps first second d ks =
     (case ks of (k, s) \<Rightarrow>
        case eject_drive no_medium self naps first second d s of
          (Inl e, s1) \<Rightarrow> (Inl e, k, s1)
        | (Inr _, s1) \<Rightarrow> (Inr (), note_medium_changed d k, s1))"

definition eject_outcome :: "classify \<Rightarrow> nat \<Rightarrow> string \<Rightarrow> 'e + unit \<Rightarrow> desk \<Rightarrow> nat \<times> desk" where
  "eject_outcome classify now d result k =
     ((case result of Inr _ \<Rightarrow> 200 | Inl _ \<Rightarrow> 409),
      update_state classify now d
        (default_rip_state\<lparr>ri_device := d, ri_status := ''idle'',
           ri_disc_present := (case result of Inl _ \<Rightarrow> True | Inr _ \<Rightarrow> False)\<rparr>) k)"

section \<open>Sequences of writes\<close>

datatype desk_op =
    Push nat rip_state
  | Mutate "rip_state \<Rightarrow> rip_state"
  | Claim bool bool
  | ClaimInsert bool
  | PollRow rip_state
  | StopBegin nat
  | StopEnd "nat option" stop_report_row
  | Rollback nat nat
  | NewMedium
  | Look presence_report

fun desk_step :: "classify \<Rightarrow> string \<times> desk_op \<Rightarrow> desk \<Rightarrow> nat option \<times> desk" where
  "desk_step cl (d, Push now r) k = (None, update_state cl now d r k)"
| "desk_step cl (d, Mutate f) k = (None, update_state_with cl d f k)"
| "desk_step cl (d, Claim running known) k = try_claim_active_checked running d known k"
| "desk_step cl (d, ClaimInsert running) k = try_claim_insert running d k"
| "desk_step cl (d, PollRow r) k = (None, snd (publish_poll_row cl d r k))"
| "desk_step cl (d, StopBegin now) k = (None, snd (prepare_stop now d k))"
| "desk_step cl (d, StopEnd g report) k = (None, snd (apply_stop_to_state d g report k))"
| "desk_step cl (d, Rollback now g) k = (None, fst (rollback_failed_spawn cl now d g (k, no_sessions)))"
| "desk_step cl (d, NewMedium) k = (None, note_medium_changed d k)"
| "desk_step cl (d, Look p) k = (None, snd (stopped_disc_presence d p k))"

text \<open>The claims granted, in order, and the desk they leave.\<close>

fun run_desk :: "classify \<Rightarrow> (string \<times> desk_op) list \<Rightarrow> desk \<Rightarrow> (string \<times> nat) list \<times> desk" where
  "run_desk cl [] k = ([], k)"
| "run_desk cl (x # xs) k =
     (let (g, k1) = desk_step cl x k; (gs, k2) = run_desk cl xs k1
      in (case g of None \<Rightarrow> gs | Some n \<Rightarrow> (fst x, n) # gs, k2))"

text \<open>What the code pushes: fresh rows without a generation, changes that leave it alone.\<close>

definition plain_op :: "desk_op \<Rightarrow> bool" where
  "plain_op x \<longleftrightarrow> (case x of Push now r \<Rightarrow> ri_claim_gen r = 0
     | Mutate f \<Rightarrow> (\<forall>r. ri_claim_gen (f r) = ri_claim_gen r) | _ \<Rightarrow> True)"

definition gen_of :: "string \<Rightarrow> desk \<Rightarrow> nat" where
  "gen_of d k = (case dk_rows k d of None \<Rightarrow> 0 | Some r \<Rightarrow> ri_claim_gen r)"

section \<open>Generations\<close>

lemma gen_keep [simp]:
  "ri_claim_gen (keep_label prev r) = ri_claim_gen r"
  "ri_claim_gen (keep_job prev r) = ri_claim_gen r"
  "ri_claim_gen (keep_started now prev r) = ri_claim_gen r"
  by (auto simp: keep_label_def keep_job_def keep_started_def show_user_metadata_def Let_def split: option.split)

lemma rows_helpers [simp]:
  "dk_rows (latch_finished d r k) = dk_rows k" "dk_rows (clear_finished_insertion d k) = dk_rows k"
  "dk_rows (forget_staging_hold d k) = dk_rows k" "dk_rows (hold_stopped_disc d k) = dk_rows k"
  "dk_rows (release_stopped_disc d k) = dk_rows k" "dk_rows (set_stop_cooldown now d k) = dk_rows k"
  "dk_rows (note_medium_changed d k) = dk_rows k" "dk_rows (snd (stopped_disc_presence d p k)) = dk_rows k"
  by (simp_all add: latch_finished_def clear_finished_insertion_def forget_staging_hold_def hold_stopped_disc_def
      release_stopped_disc_def set_stop_cooldown_def note_medium_changed_def stopped_disc_presence_def Let_def
      split: option.split)

lemma gen_update_state [simp]:
  "gen_of e (update_state cl now d r k) =
     (if e = d then if ri_claim_gen r = 0 then gen_of d k else ri_claim_gen r else gen_of e k)"
  by (simp add: gen_of_def update_state_def Let_def keep_claim_def split: option.split)

lemma gen_update_state_with:
  assumes "\<And>r. ri_claim_gen (f r) = ri_claim_gen r"
  shows "gen_of e (update_state_with cl d f k) = gen_of e k"
  by (simp add: gen_of_def update_state_with_def Let_def assms default_rip_state_def split: option.split)

lemma gen_publish [simp]: "gen_of e (snd (publish_poll_row cl d row k)) = gen_of e k"
  by (simp add: publish_poll_row_def Let_def gen_update_state_with)

lemma default_gen [simp]: "ri_claim_gen default_rip_state = 0"
  by (simp add: default_rip_state_def)

lemma gen_rows: "dk_rows k' = dk_rows k \<Longrightarrow> gen_of e k' = gen_of e k"
  by (simp add: gen_of_def)

lemma gen_stop_begin [simp]: "gen_of e (snd (prepare_stop now d k)) = gen_of e k"
  by (rule gen_rows) (simp add: prepare_stop_def Let_def)

lemma gen_stop_end [simp]: "gen_of e (snd (apply_stop_to_state d g report k)) = gen_of e k"
  by (auto simp: apply_stop_to_state_def gen_of_def split: option.split)

lemma gen_rollback [simp]: "gen_of e (fst (rollback_failed_spawn cl now d g (k, s))) = gen_of e k"
  by (simp add: rollback_failed_spawn_def)

lemma gen_medium [simp]: "gen_of e (note_medium_changed d k) = gen_of e k"
  "gen_of e (snd (stopped_disc_presence d p k)) = gen_of e k"
  by (rule gen_rows, simp)+

lemma gen_claim:
  assumes "try_claim_active_checked running d known k = (g, k')"
  shows "gen_of e k' = (if e = d \<and> g \<noteq> None then saturating_add 64 (gen_of d k) 1 else gen_of e k)
     \<and> (\<forall>n. g = Some n \<longrightarrow> n = saturating_add 64 (gen_of d k) 1)"
  using assms by (auto simp: try_claim_active_checked_def gen_of_def Let_def default_rip_state_def
      split: if_splits option.splits)

lemma gen_desk_step:
  assumes "plain_op (snd x)" "desk_step cl x k = (g, k')"
  shows "gen_of e k' = (if e = fst x \<and> g \<noteq> None then saturating_add 64 (gen_of e k) 1 else gen_of e k)
     \<and> (\<forall>n. g = Some n \<longrightarrow> n = saturating_add 64 (gen_of (fst x) k) 1)"
proof (cases x)
  case (Pair d y)
  show ?thesis
  proof (cases y)
    case (Claim running known)
    with Pair assms(2) gen_claim [of running d known k g k' e] show ?thesis by auto
  next
    case (ClaimInsert running)
    with Pair assms(2) gen_claim [of running d True k g k' e] show ?thesis
      by (auto simp: try_claim_insert_def try_claim_active_def split: if_splits)
  next
    case (Mutate f)
    with Pair assms gen_update_state_with [of f] show ?thesis by (auto simp: plain_op_def)
  qed (use Pair assms in \<open>auto simp: plain_op_def\<close>)
qed

lemma run_desk_generations:
  assumes "list_all (\<lambda>x. plain_op (snd x)) xs" "gen_of d k + length xs \<le> max_uint 64" "run_desk cl xs k = (gs, k')"
  shows "map snd (filter (\<lambda>x. fst x = d) gs) = [Suc (gen_of d k) ..< Suc (gen_of d k')] \<and> gen_of d k \<le> gen_of d k'"
  using assms
proof (induction xs arbitrary: k gs)
  case (Cons x xs)
  obtain g k1 where 1: "desk_step cl x k = (g, k1)" by fastforce
  obtain gs' k2 where 2: "run_desk cl xs k1 = (gs', k2)" by fastforce
  have gs: "k2 = k'" "gs = (case g of None \<Rightarrow> gs' | Some n \<Rightarrow> (fst x, n) # gs')" using Cons.prems(3) 1 2 by auto
  have st: "gen_of d k1 = (if d = fst x \<and> g \<noteq> None then Suc (gen_of d k) else gen_of d k)"
    "\<forall>n. d = fst x \<and> g = Some n \<longrightarrow> n = Suc (gen_of d k)"
  proof -
    have "gen_of d k + 1 \<le> max_uint 64" using Cons.prems(2) by simp
    then have sat: "saturating_add 64 (gen_of d k) (Suc 0) = Suc (gen_of d k)" by (simp add: saturating_add_small)
    have "plain_op (snd x)" using Cons.prems(1) by simp
    from gen_desk_step [OF this 1, of d]
    show "gen_of d k1 = (if d = fst x \<and> g \<noteq> None then Suc (gen_of d k) else gen_of d k)"
      and "\<forall>n. d = fst x \<and> g = Some n \<longrightarrow> n = Suc (gen_of d k)" using sat by auto
  qed
  have "gen_of d k1 + length xs \<le> max_uint 64" using st(1) Cons.prems(2) by (cases "d = fst x \<and> g \<noteq> None") auto
  with Cons.IH [OF _ _ 2 [unfolded gs(1)]] Cons.prems(1)
  have ih: "map snd (filter (\<lambda>x. fst x = d) gs') = [Suc (gen_of d k1) ..< Suc (gen_of d k')]" "gen_of d k1 \<le> gen_of d k'"
    by auto
  show ?case
  proof (cases "d = fst x \<and> g \<noteq> None")
    case True
    with st ih gs show ?thesis by (auto simp: upt_conv_Cons)
  next
    case False
    with st ih gs show ?thesis by (auto split: option.splits)
  qed
qed simp

text \<open>
  C9: over any run of claims, pushes, poll rows, stops and rollbacks, the claims granted on a
  device are numbered one after the other: no two share a generation, and nothing but a granted
  claim moves the generation on.
\<close>

theorem claims_numbered:
  assumes "list_all (\<lambda>x. plain_op (snd x)) xs" "gen_of d k + length xs \<le> max_uint 64" "run_desk cl xs k = (gs, k')"
  shows "map snd (filter (\<lambda>x. fst x = d) gs) = [Suc (gen_of d k) ..< Suc (gen_of d k')]"
  using run_desk_generations [OF assms] by simp


section \<open>Claims exclude each other\<close>

lemma claim_busies:
  "try_claim_active_checked running d known k = (Some g, k') \<Longrightarrow> is_busy d k' \<and> \<not> is_busy d k \<and> \<not> running"
  by (auto simp: try_claim_active_checked_def is_busy_def row_is_busy_def Let_def split: if_splits option.splits)

text \<open>
  A claim is exclusive: it marks the device busy, so that no other claim, whether an operator's
  or an insert's, and no row of the poll loop gets through while it lasts.
\<close>

theorem claim_excludes:
  assumes "try_claim_active_checked running d known k = (Some g, k')"
  shows "\<not> is_busy d k \<and> fst (try_claim_active_checked r d b k') = None \<and> fst (try_claim_insert r d k') = None
     \<and> fst (publish_poll_row cl d row k') = False \<and> \<not> fst (forget_removed_device d (k', s))"
  using claim_busies [OF assms]
  by (auto simp: try_claim_active_checked_def try_claim_insert_def try_claim_active_def publish_poll_row_def
      is_busy_def forget_removed_device_def Let_def split: option.splits)

section \<open>Witnesses\<close>

definition empty_desk :: desk where
  "empty_desk = \<lparr>dk_rows = (\<lambda>_. None), dk_stopped = (\<lambda>_. None), dk_changed = {}, dk_finished = {},
     dk_cooldown = (\<lambda>_. None), dk_held = (\<lambda>_. None)\<rparr>"

definition sample_classify :: classify where
  "sample_classify n x = DamageClean"

definition sample_run :: "(string \<times> desk_op) list" where
  "sample_run = [(''sg4'', Claim False True), (''sg4'', Claim False True), (''sg4'', StopBegin 0),
     (''sg4'', StopEnd (Some 1) (stop_report True)), (''sg5'', ClaimInsert False), (''sg4'', Claim False False)]"

lemmas run_eval = sample_run_def empty_desk_def try_claim_active_checked_def try_claim_active_def try_claim_insert_def
  is_busy_def row_is_busy_def default_rip_state_def clear_finished_insertion_def forget_staging_hold_def
  prepare_stop_def hold_stopped_disc_def set_stop_cooldown_def apply_stop_to_state_def stop_report_def
  saturating_add_def max_uint_def Let_def

lemma sample_run_grants: "fst (run_desk sample_classify sample_run empty_desk) = [(''sg4'', 1), (''sg5'', 1), (''sg4'', 2)]"
  by (simp add: run_eval)

lemma sample_run_plain: "list_all (\<lambda>x. plain_op (snd x)) sample_run"
  by (simp add: sample_run_def plain_op_def)

lemma sample_run_small: "gen_of d empty_desk + length sample_run \<le> max_uint 64"
  by (simp add: gen_of_def empty_desk_def sample_run_def max_uint_def)

definition claimed_desk :: desk where
  "claimed_desk = snd (try_claim_active_checked False ''sg4'' True empty_desk)"

lemma claimed_run_grants: "fst (run_desk sample_classify (tl sample_run) claimed_desk) = [(''sg5'', 1), (''sg4'', 2)]"
  by (simp add: claimed_desk_def run_eval)

lemma claimed_run_small: "gen_of ''sg4'' claimed_desk = 1"
  by (simp add: gen_of_def claimed_desk_def run_eval)

theorem claims_numbered_witness:
  "map snd (filter (\<lambda>x. fst x = ''sg4'') [(''sg4'', 1), (''sg5'', 1), (''sg4'', 2)])
     = [Suc (gen_of ''sg4'' empty_desk) ..< Suc (gen_of ''sg4'' (snd (run_desk sample_classify sample_run empty_desk)))]"
  by (rule claims_numbered [OF sample_run_plain sample_run_small, where cl = sample_classify])
    (simp add: prod_eq_iff sample_run_grants)


theorem claim_excludes_witness:
  "fst (try_claim_insert False ''sg4'' (snd (try_claim_active_checked False ''sg4'' True empty_desk))) = None"
  using claim_excludes [where running = False and d = "''sg4''" and known = True and k = empty_desk and g = 1
      and k' = "snd (try_claim_active_checked False ''sg4'' True empty_desk)"]
  by (simp add: run_eval)

end
