(* ===== verification/Rip_Progress.thy ===== *)
theory Rip_Progress
  imports Rip_State
begin

text \<open>
  The progress a multi-pass rip shows (\<open>push_pass_state\<close>, \<open>set_pass_progress\<close> of
  \<open>server/ripper/state.rs\<close>, the sink of \<open>server/ripper/passes.rs\<close>). The engine's speed estimator is
  a parameter with its three calls; log lines are left out. Unsigned products wrap at 64 bits.
\<close>

section \<open>Numbers\<close>

definition sector_bytes :: nat where "sector_bytes = 2048"
definition bytes_per_mib :: real where "bytes_per_mib = 1048576"
definition bytes_per_gib :: real where "bytes_per_gib = 1073741824"
definition millis_per_sec :: real where "millis_per_sec = 1000"

definition saturating_mul :: "nat \<Rightarrow> nat \<Rightarrow> nat \<Rightarrow> nat" where
  "saturating_mul w a b = min (a * b) (max_uint w)"

definition real_as_u64 :: "real \<Rightarrow> nat" where
  "real_as_u64 x = min (nat \<lfloor>x\<rfloor>) (max_uint 64)"

text \<open>\<open>(part * 100).checked_div(whole)\<close>, at most 100.\<close>

definition percent_of :: "nat \<Rightarrow> nat \<Rightarrow> nat" where
  "percent_of part whole = (if whole = 0 then 0 else min 100 ((part * 100) mod 2 ^ 64 div whole))"

definition eta_cap_secs :: nat where
  "eta_cap_secs = 6 * 3600"

definition capped_eta :: "nat \<Rightarrow> string" where
  "capped_eta secs =
     (if secs > eta_cap_secs then ''>'' @ show_nat (eta_cap_secs div 3600) @ ''h''
      else if secs < 60 then show_nat secs @ ''s''
      else if secs < 3600 then show_nat (secs div 60) @ '':'' @ pad2 (show_nat (secs mod 60))
      else show_nat (secs div 3600) @ '':'' @ pad2 (show_nat (secs mod 3600 div 60)) @ '':''
             @ pad2 (show_nat (secs mod 60)))"

section \<open>Contexts and samples\<close>

record pass_context =
  px_device :: string
  px_display_name :: string
  px_disc_format :: string
  px_tmdb_title :: string
  px_tmdb_year :: nat
  px_tmdb_poster :: string
  px_tmdb_overview :: string
  px_tmdb_media_type :: "media_kind option"
  px_duration :: string
  px_codecs :: string
  px_filename :: string
  px_bytes_total_disc :: nat
  px_bytes_sweep :: nat
  px_batch :: nat
  px_max_retries :: nat

text \<open>What the crate reports of a pass.\<close>

record pass_sample =
  sa_work_done :: nat
  sa_work_total :: nat
  sa_bytes_good :: nat
  sa_bytes_retryable :: nat
  sa_bytes_unreadable :: nat
  sa_ranges :: "bad_range list"
  sa_num_ranges :: nat
  sa_truncated :: nat
  sa_main_at_risk_ms :: real
  sa_largest_gap_ms :: real

record 's speed_ops =
  sp_new :: 's
  sp_set_responsive :: "bool \<Rightarrow> 's \<Rightarrow> 's"
  sp_observe :: "nat \<Rightarrow> nat \<Rightarrow> 's \<Rightarrow> real \<times> 's"
  sp_eta_speed :: "nat \<Rightarrow> real \<Rightarrow> 's \<Rightarrow> real"

record 's pass_state =
  pa_speed :: 's
  pa_last_update :: nat
  pa_last_log :: nat
  pa_last_work_done :: nat
  pa_last_work_total :: nat
  pa_frozen_lost :: "nat option"

definition new_pass_state :: "'s speed_ops \<Rightarrow> nat \<Rightarrow> 's pass_state" where
  "new_pass_state sp now = \<lparr>pa_speed = sp_new sp, pa_last_update = now, pa_last_log = now,
     pa_last_work_done = 0, pa_last_work_total = 0, pa_frozen_lost = None\<rparr>"

section \<open>Bars\<close>

definition map_head_bytes :: "pass_context \<Rightarrow> nat \<Rightarrow> nat" where
  "map_head_bytes ctx swept =
     (if px_bytes_sweep ctx = 0 \<or> px_bytes_sweep ctx = px_bytes_total_disc ctx then swept
      else min (min (swept * px_bytes_total_disc ctx div px_bytes_sweep ctx) (max_uint 64)) (px_bytes_total_disc ctx))"

definition total_work :: "pass_context \<Rightarrow> nat \<Rightarrow> nat" where
  "total_work ctx lost =
     saturating_add 64 (saturating_add 64 (px_bytes_sweep ctx) (saturating_mul 64 (px_max_retries ctx) lost))
       (if px_max_retries ctx > 0 then px_bytes_sweep ctx else 0)"

definition total_done :: "pass_context \<Rightarrow> nat \<Rightarrow> nat \<Rightarrow> nat \<Rightarrow> nat" where
  "total_done ctx pass lost pos =
     (if pass \<le> 1 then pos
      else saturating_add 64 (saturating_add 64 (px_bytes_sweep ctx) (saturating_mul 64 (pass - 2) lost)) pos)"

definition eta_text :: "real \<Rightarrow> nat \<Rightarrow> nat \<Rightarrow> string" where
  "eta_text speed whole part =
     (if speed > 1 / 10000 \<and> whole > part
      then capped_eta (real_as_u64 ((real (whole - part) / bytes_per_mib) / speed)) else [])"

definition total_lost_ms :: "real \<Rightarrow> nat \<Rightarrow> real" where
  "total_lost_ms bps lost = (if bps > 0 then real lost * millis_per_sec / bps else 0)"

text \<open>The row one sample makes, of the position, the frozen loss and the two speeds.\<close>

definition pass_row ::
    "pass_context \<Rightarrow> pass_sample \<Rightarrow> real \<Rightarrow> nat \<Rightarrow> nat \<Rightarrow> nat \<Rightarrow> nat \<Rightarrow> nat \<Rightarrow> real \<Rightarrow> real \<Rightarrow> rip_state" where
  "pass_row ctx p bps pass total_passes pos whole frozen speed eta_speed =
     (let lost = sa_bytes_unreadable p;
          pct = percent_of pos whole;
          work = total_work ctx frozen;
          so_far = total_done ctx pass frozen pos;
          eta = eta_text eta_speed whole pos
      in default_rip_state\<lparr>
           ri_device := px_device ctx, ri_status := ''ripping'', ri_disc_present := True,
           ri_disc_name := px_display_name ctx, ri_disc_format := px_disc_format ctx,
           ri_progress_pct := pct, ri_progress_gb := real pos / bytes_per_gib,
           ri_last_sector := map_head_bytes ctx pos div sector_bytes,
           ri_speed_mbs := speed, ri_eta := eta, ri_errors := lost div sector_bytes mod 2 ^ 32,
           ri_lost_video_secs := total_lost_ms bps lost / millis_per_sec,
           ri_output_file := px_filename ctx, ri_tmdb_title := px_tmdb_title ctx,
           ri_tmdb_year := px_tmdb_year ctx, ri_tmdb_poster := px_tmdb_poster ctx,
           ri_tmdb_overview := px_tmdb_overview ctx, ri_tmdb_media_type := px_tmdb_media_type ctx,
           ri_duration := px_duration ctx, ri_codecs := px_codecs ctx, ri_pass := pass,
           ri_total_passes := total_passes, ri_bytes_good := sa_bytes_good p,
           ri_bytes_maybe := sa_bytes_retryable p, ri_bytes_lost := lost,
           ri_bytes_total_disc := px_bytes_total_disc ctx, ri_bad_ranges := sa_ranges p,
           ri_num_bad_ranges := sa_num_ranges p, ri_bad_ranges_truncated := sa_truncated p,
           ri_total_lost_ms := total_lost_ms bps lost, ri_main_lost_ms := 0,
           ri_main_at_risk_ms := sa_main_at_risk_ms p, ri_largest_gap_ms := sa_largest_gap_ms p,
           ri_preferred_batch := px_batch ctx, ri_current_batch := px_batch ctx,
           ri_pass_progress_pct := pct, ri_pass_eta := eta,
           ri_total_progress_pct := percent_of so_far work,
           ri_total_eta := eta_text eta_speed work so_far\<rparr>)"

text \<open>\<open>now\<close> in milliseconds, \<open>secs\<close> the wall clock's.\<close>

definition push_pass_state ::
    "classify \<Rightarrow> 's speed_ops \<Rightarrow> nat \<Rightarrow> nat \<Rightarrow> pass_context \<Rightarrow> pass_sample \<Rightarrow> real \<Rightarrow> nat \<Rightarrow> nat
       \<Rightarrow> desk \<times> 's pass_state \<Rightarrow> desk \<times> 's pass_state" where
  "push_pass_state classify sp now secs ctx p bps pass total_passes ks =
     (case ks of (k, s) \<Rightarrow>
        let frozen = (case pa_frozen_lost s of None \<Rightarrow> sa_bytes_unreadable p | Some b \<Rightarrow> b);
            pos = pa_last_work_done s;
            sp0 = sp_set_responsive sp (pass > 1) (pa_speed s);
            (display, sp1) = sp_observe sp now pos sp0;
            eta_speed = sp_eta_speed sp now display sp1;
            s1 = s\<lparr>pa_frozen_lost := Some frozen, pa_speed := sp1, pa_last_update := now,
                   pa_last_log := (if (now - pa_last_log s) div 1000 \<ge> 60 then now else pa_last_log s)\<rparr>
        in (update_state classify secs (px_device ctx)
              (pass_row ctx p bps pass total_passes pos (pa_last_work_total s) frozen display eta_speed) k, s1))"

definition pass_fields :: "pass_context \<Rightarrow> nat \<Rightarrow> nat \<Rightarrow> nat \<Rightarrow> nat \<Rightarrow> nat \<Rightarrow> rip_state \<Rightarrow> rip_state" where
  "pass_fields ctx pass total_passes good maybe lost r =
     (let r1 = r\<lparr>ri_status := ''ripping'', ri_disc_present := True, ri_disc_name := px_display_name ctx,
                 ri_disc_format := px_disc_format ctx, ri_progress_pct := percent_of good (px_bytes_sweep ctx),
                 ri_progress_gb := real good / bytes_per_gib, ri_output_file := px_filename ctx,
                 ri_tmdb_title := px_tmdb_title ctx, ri_tmdb_year := px_tmdb_year ctx,
                 ri_tmdb_poster := px_tmdb_poster ctx, ri_tmdb_overview := px_tmdb_overview ctx,
                 ri_tmdb_media_type := px_tmdb_media_type ctx, ri_duration := px_duration ctx,
                 ri_codecs := px_codecs ctx, ri_pass := pass, ri_total_passes := total_passes,
                 ri_bytes_good := good, ri_bytes_maybe := maybe, ri_bytes_lost := lost,
                 ri_bytes_total_disc := px_bytes_total_disc ctx, ri_preferred_batch := px_batch ctx,
                 ri_current_batch := px_batch ctx, ri_pass_progress_pct := 0, ri_pass_eta := [],
                 ri_eta := [], ri_speed_mbs := 0\<rparr>
      in case ri_user_metadata r1 of None \<Rightarrow> r1 | Some m \<Rightarrow> show_user_metadata m r1)"

definition set_pass_progress ::
    "classify \<Rightarrow> pass_context \<Rightarrow> nat \<Rightarrow> nat \<Rightarrow> nat \<Rightarrow> nat \<Rightarrow> nat \<Rightarrow> desk \<Rightarrow> desk" where
  "set_pass_progress classify ctx pass total_passes good maybe lost k =
     update_state_with classify (px_device ctx) (pass_fields ctx pass total_passes good maybe lost) k"

section \<open>The sink\<close>

record 's pass_sink =
  pk_bps :: real
  pk_total_passes :: nat
  pk_pass :: nat
  pk_state :: "'s pass_state"

definition reset_pass :: "'s speed_ops \<Rightarrow> nat \<Rightarrow> nat \<Rightarrow> 's pass_sink \<Rightarrow> 's pass_sink" where
  "reset_pass sp now pass q = q\<lparr>pk_pass := min pass (max_uint 8), pk_state := new_pass_state sp now\<rparr>"

definition sink_progress ::
    "classify \<Rightarrow> 's speed_ops \<Rightarrow> nat \<Rightarrow> nat \<Rightarrow> pass_context \<Rightarrow> pass_sample \<Rightarrow> desk \<times> 's pass_sink \<Rightarrow> desk \<times> 's pass_sink" where
  "sink_progress classify sp now secs ctx p kq =
     (case kq of (k, q) \<Rightarrow>
        let s = (pk_state q)\<lparr>pa_last_work_done := sa_work_done p, pa_last_work_total := sa_work_total p\<rparr>
        in if now - pa_last_update s < 250 then (k, q\<lparr>pk_state := s\<rparr>)
           else (case push_pass_state classify sp now secs ctx p (pk_bps q) (pk_pass q) (pk_total_passes q) (k, s)
                 of (k1, s1) \<Rightarrow> (k1, q\<lparr>pk_state := s1\<rparr>)))"

text \<open>The start of a pass; \<open>snap\<close>: the snapshot the engine builds from the mapfile.\<close>

definition sink_pass_start ::
    "classify \<Rightarrow> 's speed_ops \<Rightarrow> nat \<Rightarrow> nat \<Rightarrow> pass_context \<Rightarrow> pass_sample option \<Rightarrow> nat \<Rightarrow> nat \<Rightarrow> nat \<Rightarrow> nat
       \<Rightarrow> desk \<times> 's pass_sink \<Rightarrow> desk \<times> 's pass_sink" where
  "sink_pass_start classify sp now secs ctx snap pass good pending unreadable kq =
     (case kq of (k, q) \<Rightarrow>
        if pass = 1 then (set_pass_progress classify ctx 1 (pk_total_passes q) 0 0 0 k, reset_pass sp now 1 q)
        else
          let p = min pass (max_uint 8);
              k1 = set_pass_progress classify ctx p (pk_total_passes q) good pending unreadable k;
              q1 = reset_pass sp now pass q
          in (case snap of None \<Rightarrow> (k1, q1)
              | Some x \<Rightarrow> (case push_pass_state classify sp now secs ctx x (pk_bps q1) p (pk_total_passes q1) (k1, pk_state q1)
                           of (k2, s2) \<Rightarrow> (k2, q1\<lparr>pk_state := s2\<rparr>))))"

section \<open>Bars stay in bounds\<close>

lemma percent_of_le [simp]: "percent_of a b \<le> 100"
  by (simp add: percent_of_def)

lemma percent_of_mono: "a \<le> b \<Longrightarrow> b * 100 < 2 ^ 64 \<Longrightarrow> percent_of a w \<le> percent_of b w"
proof -
  assume "a \<le> b" "b * 100 < 2 ^ 64"
  then have "a * 100 < 2 ^ 64" "a * 100 div w \<le> b * 100 div w" by (auto intro: div_le_mono)
  then show ?thesis using \<open>b * 100 < 2 ^ 64\<close> by (simp add: percent_of_def min_le_iff_disj)
qed

lemma percent_of_full: "0 < w \<Longrightarrow> w * 100 < 2 ^ 64 \<Longrightarrow> percent_of w w = 100"
  by (simp add: percent_of_def)

lemma map_head_le:
  assumes "swept \<le> px_bytes_sweep ctx"
  shows "map_head_bytes ctx swept \<le> px_bytes_total_disc ctx"
  using assms by (auto simp: map_head_bytes_def)

lemma map_head_mono: "a \<le> b \<Longrightarrow> map_head_bytes ctx a \<le> map_head_bytes ctx b"
proof -
  assume "a \<le> b"
  then have "a * px_bytes_total_disc ctx div px_bytes_sweep ctx \<le> b * px_bytes_total_disc ctx div px_bytes_sweep ctx"
    by (simp add: div_le_mono)
  then show ?thesis using \<open>a \<le> b\<close> by (auto simp: map_head_bytes_def min_le_iff_disj)
qed

lemma total_done_mono: "a \<le> b \<Longrightarrow> total_done ctx pass lost a \<le> total_done ctx pass lost b"
  by (auto simp: total_done_def saturating_add_def)

lemma pass_row_bars:
  "ri_progress_pct (pass_row ctx p bps pass n pos whole frozen sp es) = percent_of pos whole"
  "ri_pass_progress_pct (pass_row ctx p bps pass n pos whole frozen sp es) = percent_of pos whole"
  "ri_total_progress_pct (pass_row ctx p bps pass n pos whole frozen sp es) = percent_of (total_done ctx pass frozen pos) (total_work ctx frozen)"
  "ri_last_sector (pass_row ctx p bps pass n pos whole frozen sp es) = map_head_bytes ctx pos div sector_bytes"
  by (simp_all add: pass_row_def Let_def)

text \<open>
  Whatever the crate reports, the bars of a pass lie between 0 and 100, the read head stays on
  the disc while the sweep is inside its scope, and within a pass, for the loss frozen at its
  start, no bar and no head ever moves back as the work proceeds; finished work reads 100.
\<close>

theorem pass_bars_bounded:
  fixes ctx p bps pass n frozen
  defines "row pos whole sp es \<equiv> pass_row ctx p bps pass n pos whole frozen sp es"
  assumes "pos \<le> pos'" "pos' * 100 < 2 ^ 64" "total_done ctx pass frozen pos' * 100 < 2 ^ 64" "pos' \<le> px_bytes_sweep ctx"
    and "0 < whole"
  shows "ri_progress_pct (row pos whole sp es) \<le> ri_progress_pct (row pos' whole sp' es')
     \<and> ri_total_progress_pct (row pos whole sp es) \<le> ri_total_progress_pct (row pos' whole sp' es')
     \<and> ri_last_sector (row pos whole sp es) \<le> ri_last_sector (row pos' whole sp' es')
     \<and> ri_progress_pct (row pos' whole sp' es') \<le> 100 \<and> ri_total_progress_pct (row pos' whole sp' es') \<le> 100
     \<and> ri_last_sector (row pos' whole sp' es') * sector_bytes \<le> px_bytes_total_disc ctx
     \<and> (pos' = whole \<longrightarrow> ri_progress_pct (row pos' whole sp' es') = 100)"
proof (intro conjI impI)
  have "map_head_bytes ctx pos' div sector_bytes * sector_bytes \<le> map_head_bytes ctx pos'" by simp
  also have "\<dots> \<le> px_bytes_total_disc ctx" using assms(5) map_head_le [of pos' ctx] by simp
  finally show "ri_last_sector (row pos' whole sp' es') * sector_bytes \<le> px_bytes_total_disc ctx"
    by (simp add: row_def pass_row_bars)
qed (use assms in \<open>simp_all add: row_def pass_row_bars percent_of_mono percent_of_full total_done_mono map_head_mono div_le_mono\<close>)

definition sample_ctx :: pass_context where
  "sample_ctx = \<lparr>px_device = ''sg4'', px_display_name = ''Movie'', px_disc_format = ''bluray'', px_tmdb_title = ''Movie'',
     px_tmdb_year = 2001, px_tmdb_poster = [], px_tmdb_overview = [], px_tmdb_media_type = None, px_duration = [],
     px_codecs = [], px_filename = ''Movie.mkv'', px_bytes_total_disc = 50000, px_bytes_sweep = 40000, px_batch = 60,
     px_max_retries = 3\<rparr>"

definition sample_sample :: pass_sample where
  "sample_sample = \<lparr>sa_work_done = 20000, sa_work_total = 40000, sa_bytes_good = 20000, sa_bytes_retryable = 0,
     sa_bytes_unreadable = 0, sa_ranges = [], sa_num_ranges = 0, sa_truncated = 0, sa_main_at_risk_ms = 0,
     sa_largest_gap_ms = 0\<rparr>"

theorem pass_bars_bounded_witness:
  "ri_progress_pct (pass_row sample_ctx sample_sample 0 1 5 20000 40000 0 1 1) = 50
     \<and> ri_progress_pct (pass_row sample_ctx sample_sample 0 1 5 40000 40000 0 1 1) = 100"
  using pass_bars_bounded [where ctx = sample_ctx and p = sample_sample and bps = 0 and pass = 1 and n = 5
      and pos = 20000 and pos' = 40000 and whole = 40000 and frozen = 0 and sp = 1 and sp' = 1 and es = 1 and es' = 1]
  by (simp add: pass_row_bars percent_of_def total_done_def sample_ctx_def)

section \<open>A published correction stays\<close>

lemma show_idem [simp]: "show_user_metadata m (show_user_metadata m r) = show_user_metadata m r"
  by (simp add: show_user_metadata_def)

text \<open>The row shows the correction \<open>m\<close> of job \<open>j\<close> at revision \<open>v\<close>, under the disc's label.\<close>

definition corrected :: "string \<Rightarrow> nat \<Rightarrow> user_metadata \<Rightarrow> string \<Rightarrow> rip_state \<Rightarrow> bool" where
  "corrected j v m label r \<longleftrightarrow> ri_job_id r = j \<and> ri_metadata_revision r = v \<and> ri_user_metadata r = Some m
     \<and> ri_disc_label r = label \<and> show_user_metadata m r = r"

definition row_corrected :: "string \<Rightarrow> string \<Rightarrow> nat \<Rightarrow> user_metadata \<Rightarrow> string \<Rightarrow> desk \<Rightarrow> bool" where
  "row_corrected d j v m label k \<longleftrightarrow> (case dk_rows k d of None \<Rightarrow> False | Some r \<Rightarrow> corrected j v m label r)"

text \<open>What a progress row is to the merge: a disc in the drive, no job or label of its own.\<close>

definition anonymous :: "rip_state \<Rightarrow> bool" where
  "anonymous r \<longleftrightarrow> ri_disc_present r \<and> ri_job_id r = [] \<and> ri_disc_label r = [] \<and> ri_metadata_revision r = 0"

lemma corrected_started: "corrected j v m label r \<Longrightarrow> corrected j v m label (keep_started now prev r)"
  unfolding corrected_def keep_started_def Let_def show_user_metadata_def by (cases r) (auto split: if_splits)

lemma keep_label_job: "anonymous r \<Longrightarrow> corrected j v m label p \<Longrightarrow> j \<noteq> [] \<Longrightarrow> corrected j v m label (keep_job (Some p) (keep_label (Some p) (keep_claim (Some p) r)))"
  unfolding corrected_def anonymous_def keep_label_def keep_job_def keep_claim_def Let_def show_user_metadata_def
  by auto

lemma update_state_corrected:
  assumes "row_corrected d j v m label k" "j \<noteq> []" "anonymous r"
  shows "row_corrected d j v m label (update_state cl now d r k)"
proof -
  obtain p where p: "dk_rows k d = Some p" "corrected j v m label p"
    using assms(1) by (auto simp: row_corrected_def split: option.splits)
  have "anonymous (r\<lparr>ri_damage_severity := x\<rparr>)" for x using assms(3) by (simp add: anonymous_def)
  from corrected_started [OF keep_label_job [OF this p(2) assms(2)]]
  show ?thesis by (simp add: row_corrected_def update_state_def Let_def p(1))
qed

lemma update_state_with_corrected:
  assumes "row_corrected d j v m label k" "\<And>r. corrected j v m label r \<Longrightarrow> corrected j v m label (f r)"
  shows "row_corrected d j v m label (update_state_with cl d f k)"
proof -
  obtain p where p: "dk_rows k d = Some p" "corrected j v m label p"
    using assms(1) by (auto simp: row_corrected_def split: option.splits)
  have "corrected j v m label (q\<lparr>ri_damage_severity := x\<rparr>)" if "corrected j v m label q" for q x
    using that by (cases q) (simp add: corrected_def show_user_metadata_def)
  then show ?thesis using assms(2) [OF p(2)] p(1) by (simp add: row_corrected_def update_state_with_def Let_def)
qed

lemma pass_fields_corrected: "corrected j v m label r \<Longrightarrow> corrected j v m label (pass_fields ctx pass n a b c r)"
  unfolding corrected_def pass_fields_def Let_def by (auto simp: show_user_metadata_def)

lemma publish_older_corrected:
  "corrected j v m label r \<Longrightarrow> v' \<le> v \<Longrightarrow> corrected j v m label (publish_user_metadata j' v' m' r)"
  by (simp add: publish_user_metadata_def corrected_def)

lemma pass_row_anonymous: "anonymous (pass_row ctx p bps pass n pos whole frozen sp es)"
  by (simp add: anonymous_def pass_row_def default_rip_state_def Let_def)

text \<open>The rip's events, and what the metadata dialogue publishes meanwhile.\<close>

datatype rip_event =
    Sampled nat nat pass_sample
  | PassStarted nat nat "pass_sample option" nat nat nat nat
  | Published string nat user_metadata

fun rip_step :: "classify \<Rightarrow> 's speed_ops \<Rightarrow> pass_context \<Rightarrow> rip_event \<Rightarrow> desk \<times> 's pass_sink \<Rightarrow> desk \<times> 's pass_sink" where
  "rip_step cl sp ctx (Sampled now secs p) kq = sink_progress cl sp now secs ctx p kq"
| "rip_step cl sp ctx (PassStarted now secs snap pass a b c) kq = sink_pass_start cl sp now secs ctx snap pass a b c kq"
| "rip_step cl sp ctx (Published j v m) kq =
     (update_state_with cl (px_device ctx) (publish_user_metadata j v m) (fst kq), snd kq)"

fun not_newer :: "nat \<Rightarrow> rip_event \<Rightarrow> bool" where
  "not_newer v (Published j v' m) \<longleftrightarrow> v' \<le> v"
| "not_newer v _ \<longleftrightarrow> True"

lemma push_pass_corrected:
  assumes "push_pass_state cl sp now secs ctx p bps pass n (k, s) = (k', s')"
    and "row_corrected (px_device ctx) j v m label k" "j \<noteq> []"
  shows "row_corrected (px_device ctx) j v m label k'"
  using update_state_corrected [OF assms(2,3) pass_row_anonymous] assms(1)
  by (auto simp: push_pass_state_def Let_def split: prod.splits)

lemma set_pass_corrected:
  assumes "row_corrected (px_device ctx) j v m label k"
  shows "row_corrected (px_device ctx) j v m label (set_pass_progress cl ctx pass n a b c k)"
  unfolding set_pass_progress_def by (rule update_state_with_corrected [OF assms pass_fields_corrected])

lemma rip_step_corrected:
  assumes k: "row_corrected (px_device ctx) j v m label (fst kq)" and j: "j \<noteq> []" and x: "not_newer v x"
  shows "row_corrected (px_device ctx) j v m label (fst (rip_step cl sp ctx x kq))"
proof (cases x)
  case (Sampled now secs p)
  with k show ?thesis
    by (auto simp: sink_progress_def Let_def split: prod.split intro: push_pass_corrected [OF _ _ j])
next
  case (PassStarted now secs snap pass a b c)
  with k show ?thesis
    by (auto simp: sink_pass_start_def Let_def split: prod.split option.split
        intro: push_pass_corrected [OF _ set_pass_corrected j] set_pass_corrected)
next
  case (Published j' v' m')
  with x have "v' \<le> v" by simp
  with update_state_with_corrected [OF k publish_older_corrected] Published show ?thesis by simp
qed

text \<open>
  C37: a correction the operator publishes during a rip stays on the drive's row: over any samples,
  pass starts and older corrections the row keeps its job, revision and label and shows the
  corrected title, year, poster, overview and kind instead of what the rip started with.
\<close>

theorem correction_survives_rip:
  assumes "row_corrected (px_device ctx) j v m label k" "j \<noteq> []" "list_all (not_newer v) xs"
  shows "row_corrected (px_device ctx) j v m label (fst (fold (rip_step cl sp ctx) xs (k, q)))"
proof -
  have "row_corrected (px_device ctx) j v m label (fst kq) \<Longrightarrow> row_corrected (px_device ctx) j v m label (fst (fold (rip_step cl sp ctx) xs kq))" for kq
    using assms(3)
  proof (induction xs arbitrary: kq)
    case (Cons x xs)
    from Cons.prems have "row_corrected (px_device ctx) j v m label (fst (rip_step cl sp ctx x kq))"
      by (intro rip_step_corrected) (use assms(2) in simp_all)
    with Cons show ?case by simp
  qed simp
  from this [of "(k, q)"] assms(1) show ?thesis by simp
qed

definition sample_correction :: user_metadata where
  "sample_correction = \<lparr>um_title = ''Right'', um_year = 1999, um_media_type = Movie, um_episode_start = None, um_tmdb_id = 7,
     um_poster_url = [], um_overview = []\<rparr>"

definition corrected_desk :: desk where
  "corrected_desk = \<lparr>dk_rows = [''sg4'' \<mapsto> show_user_metadata sample_correction (default_rip_state\<lparr>ri_device := ''sg4'',
       ri_job_id := ''job'', ri_metadata_revision := 2, ri_user_metadata := Some sample_correction, ri_disc_label := ''DISC''\<rparr>)],
     dk_stopped = (\<lambda>_. None), dk_changed = {}, dk_finished = {}, dk_cooldown = (\<lambda>_. None), dk_held = (\<lambda>_. None)\<rparr>"

definition sample_speed :: "unit speed_ops" where
  "sample_speed = \<lparr>sp_new = (), sp_set_responsive = (\<lambda>_ s. s), sp_observe = (\<lambda>_ _ s. (1, s)), sp_eta_speed = (\<lambda>_ _ _. 1)\<rparr>"

definition sample_sink :: "unit pass_sink" where
  "sample_sink = \<lparr>pk_bps = 0, pk_total_passes = 5, pk_pass = 1, pk_state = new_pass_state sample_speed 0\<rparr>"

theorem correction_survives_rip_witness:
  "row_corrected ''sg4'' ''job'' 2 sample_correction ''DISC''
     (fst (fold (rip_step (\<lambda>_ _. DamageClean) sample_speed sample_ctx)
       [PassStarted 0 0 None 1 0 0 0, Sampled 400 1 sample_sample, Published ''job'' 1 sample_correction] (corrected_desk, sample_sink)))"
proof -
  have "px_device sample_ctx = ''sg4''" by (simp add: sample_ctx_def)
  moreover have "row_corrected (px_device sample_ctx) ''job'' 2 sample_correction ''DISC''
     (fst (fold (rip_step (\<lambda>_ _. DamageClean) sample_speed sample_ctx)
       [PassStarted 0 0 None 1 0 0 0, Sampled 400 1 sample_sample, Published ''job'' 1 sample_correction] (corrected_desk, sample_sink)))"
  proof (rule correction_survives_rip)
    show "row_corrected (px_device sample_ctx) ''job'' 2 sample_correction ''DISC'' corrected_desk"
      by (simp add: sample_ctx_def row_corrected_def corrected_def corrected_desk_def show_user_metadata_def)
  qed simp_all
  ultimately show ?thesis by simp
qed

end
