(* ===== verification/Drive_Poll.thy ===== *)
theory Drive_Poll
  imports Rip_Claims
begin

text \<open>
  The drive poll loop of \<open>server/ripper/mod.rs\<close>: what one tick makes of one drive's answer, the
  book it keeps of failing probes, and the claim and worker it starts for a disc put in. The
  clocks, the drive's answers, the enumeration, the staging folder's readiness, the fresh stop
  token and the spawn's outcome are inputs.
\<close>

section \<open>Failing probes\<close>

definition device_key :: "string \<Rightarrow> string" where
  "device_key path = rev (takeWhile (\<lambda>c. c \<noteq> CHR ''/'' \<and> c \<noteq> CHR 0x5C) (rev path))"

datatype probe_failure = Pending | HotUnplug | NewWedge | KnownWedge

record probe_fail_tracker =
  pf_failures :: "string \<Rightarrow> nat"        \<comment> \<open>0 for a drive not in the map\<close>
  pf_wedged :: "string set"
  pf_unplug_suspect :: "string set"
  pf_tick_enum :: "string list option"

definition no_probe_failures :: probe_fail_tracker where
  "no_probe_failures = \<lparr>pf_failures = (\<lambda>_. 0), pf_wedged = {}, pf_unplug_suspect = {}, pf_tick_enum = None\<rparr>"

definition begin_tick :: "probe_fail_tracker \<Rightarrow> probe_fail_tracker" where
  "begin_tick t = t\<lparr>pf_tick_enum := None\<rparr>"

definition on_rescan :: "string list \<Rightarrow> probe_fail_tracker \<Rightarrow> probe_fail_tracker" where
  "on_rescan fresh t = t\<lparr>pf_unplug_suspect := {}, pf_tick_enum := Some fresh\<rparr>"

definition clear_probe_failures :: "string \<Rightarrow> probe_fail_tracker \<Rightarrow> probe_fail_tracker" where
  "clear_probe_failures d t = t\<lparr>pf_failures := (pf_failures t)(d := 0), pf_wedged := pf_wedged t - {d},
     pf_unplug_suspect := pf_unplug_suspect t - {d}\<rparr>"

definition classify_probe_err :: "string \<Rightarrow> string \<Rightarrow> string list \<Rightarrow> probe_fail_tracker \<Rightarrow> probe_failure \<times> probe_fail_tracker" where
  "classify_probe_err d path enumerated t =
     (if d \<in> pf_wedged t then (KnownWedge, t)
      else if d \<in> pf_unplug_suspect t then (HotUnplug, t)
      else
        let known_gone = (case pf_tick_enum t of None \<Rightarrow> False | Some snap \<Rightarrow> path \<notin> set snap);
            t1 = (if known_gone then t else t\<lparr>pf_tick_enum := Some enumerated\<rparr>)
        in if \<not> known_gone \<and> path \<in> set enumerated
           then (NewWedge, t1\<lparr>pf_wedged := insert d (pf_wedged t1)\<rparr>)
           else (HotUnplug, t1\<lparr>pf_unplug_suspect := insert d (pf_unplug_suspect t1)\<rparr>))"

definition on_probe_err :: "string \<Rightarrow> string \<Rightarrow> string list \<Rightarrow> probe_fail_tracker \<Rightarrow> probe_failure \<times> probe_fail_tracker" where
  "on_probe_err d path enumerated t =
     (let n = saturating_add 8 (pf_failures t d) 1;
          t1 = t\<lparr>pf_failures := (pf_failures t)(d := n)\<rparr>
      in if n < 3 then (Pending, t1) else classify_probe_err d path enumerated t1)"

section \<open>Decisions\<close>

record insert_tick_result =
  it_dispatch :: bool
  it_latch :: bool

definition insert_tick :: "bool \<Rightarrow> bool \<Rightarrow> insert_tick_result" where
  "insert_tick is_new_insert in_cooldown =
     (let dispatch = is_new_insert \<and> \<not> in_cooldown
      in \<lparr>it_dispatch = dispatch, it_latch = dispatch \<or> \<not> is_new_insert\<rparr>)"

datatype poll_action = ActAbsent bool | ActHold bool | ActPresent insert_tick_result

fun action_latch :: "poll_action \<Rightarrow> bool" where
  "action_latch (ActAbsent _) = False"
| "action_latch (ActHold l) = l"
| "action_latch (ActPresent t) = it_latch t"

fun shows_idle :: "poll_action \<Rightarrow> bool" where
  "shows_idle (ActAbsent _) = True"
| "shows_idle (ActHold l) = (\<not> l)"
| "shows_idle (ActPresent _) = False"

definition poll_action_of :: "presence_report \<Rightarrow> bool \<Rightarrow> bool \<Rightarrow> poll_action" where
  "poll_action_of p had in_cooldown =
     (case p of DiscPresent \<Rightarrow> ActPresent (insert_tick (\<not> had) in_cooldown)
      | DiscAbsent \<Rightarrow> ActAbsent had | DiscSettling \<Rightarrow> ActHold had)"

definition presence_tick ::
    "bool \<Rightarrow> nat \<Rightarrow> string \<Rightarrow> presence_report \<Rightarrow> bool \<Rightarrow> bool \<Rightarrow> desk \<Rightarrow> (bool \<times> poll_action) \<times> desk" where
  "presence_tick ready now d p had in_cooldown k =
     (let (lifted, k1) = (if p = DiscPresent \<and> staging_held d k then staging_hold_lifted ready now d k else (False, k));
          latched = (if lifted then False else had)
      in ((\<not> latched, poll_action_of p latched in_cooldown), k1))"

text \<open>A failed probe carries the sense it came with: whether UNIT ATTENTION, and the ASC.\<close>

record probe_error =
  pe_sense :: "(bool \<times> nat) option"
  pe_text :: string

definition asc_medium_changed :: nat where
  "asc_medium_changed = 0x28"

definition reports_change :: "probe_error \<Rightarrow> bool" where
  "reports_change e \<longleftrightarrow> (case pe_sense e of None \<Rightarrow> False | Some (ua, asc) \<Rightarrow> ua \<and> asc = asc_medium_changed)"

definition same_insertion :: "string \<Rightarrow> probe_error + presence_report \<Rightarrow> bool \<Rightarrow> desk \<Rightarrow> bool \<times> desk" where
  "same_insertion d ans had k =
     (let (noted, k1) = take_medium_changed d k;
          changed = (noted \<or> (case ans of Inl e \<Rightarrow> reports_change e | Inr _ \<Rightarrow> False));
          k2 = (if changed then clear_finished_insertion d (release_stopped_disc d k1) else k1);
          failed = ((case ans of Inl _ \<Rightarrow> True | Inr _ \<Rightarrow> False) \<and> \<not> rip_finished d k2)
      in (had \<and> \<not> changed \<and> \<not> failed, k2))"

datatype probed = Answered presence_report bool poll_action | ProbeFailed probe_error bool

fun probed_latch :: "probed \<Rightarrow> bool" where
  "probed_latch (Answered _ _ a) = action_latch a"
| "probed_latch (ProbeFailed _ keep) = keep"

definition probed_tick ::
    "bool \<Rightarrow> nat \<Rightarrow> string \<Rightarrow> probe_error + presence_report \<Rightarrow> bool \<Rightarrow> bool \<Rightarrow> desk \<Rightarrow> probed \<times> desk" where
  "probed_tick ready now d ans had in_cooldown k =
     (case same_insertion d ans had k of (had', k1) \<Rightarrow>
        case ans of
          Inl e \<Rightarrow> (ProbeFailed e had', k1)
        | Inr p0 \<Rightarrow>
            (case stopped_disc_presence d p0 k1 of (p, k2) \<Rightarrow>
             case presence_tick ready now d p had' in_cooldown k2 of
               ((is_new, action), k3) \<Rightarrow> (Answered p is_new action, k3)))"

section \<open>One drive's tick\<close>

record poll_input =
  pi_young :: bool                                       \<comment> \<open>first seen within the last minute\<close>
  pi_held :: "presence_report option"                     \<comment> \<open>\<open>held_drive_presence\<close>\<close>
  pi_probe :: "probe_error + (presence_report \<times> bool)"   \<comment> \<open>\<open>disc_presence_probe\<close>: and whether the medium changed\<close>
  pi_secs :: nat
  pi_now :: nat
  pi_ready :: bool
  pi_enumerated :: "string list"
  pi_on_insert :: string
  pi_token :: nat
  pi_stopping :: bool
  pi_refused :: "io_error option"

record poller =
  po_desk :: desk
  po_session :: session
  po_fail :: probe_fail_tracker

definition probe_drive :: "string \<Rightarrow> poll_input \<Rightarrow> desk \<Rightarrow> (probe_error + presence_report) \<times> desk" where
  "probe_drive d i k =
     (case pi_held i of Some p \<Rightarrow> (Inr p, k)
      | None \<Rightarrow> (case pi_probe i of Inl e \<Rightarrow> (Inl e, k)
               | Inr (p, changed) \<Rightarrow> (Inr p, if changed then note_medium_changed d k else k)))"

definition wedge_row :: "string \<Rightarrow> bool \<Rightarrow> string \<Rightarrow> rip_state" where
  "wedge_row d had text = default_rip_state\<lparr>ri_device := d, ri_status := ''error'', ri_disc_present := had,
     ri_last_error := probe_error_prefix @ text @ ''). Retrying automatically.''\<rparr>"

definition failed_tick :: "classify \<Rightarrow> string \<Rightarrow> string \<Rightarrow> poll_input \<Rightarrow> bool \<Rightarrow> probe_error \<Rightarrow> poller \<Rightarrow> poller" where
  "failed_tick cl d path i had e st =
     (case on_probe_err d path (pi_enumerated i) (po_fail st) of
        (NewWedge, t) \<Rightarrow>
          (case publish_poll_row cl d (wedge_row d had (pe_text e)) (po_desk st) of
             (shown, k) \<Rightarrow> st\<lparr>po_desk := k, po_fail := (if shown then t else clear_probe_failures d t)\<rparr>)
      | (_, t) \<Rightarrow> st\<lparr>po_fail := t\<rparr>)"

text \<open>The trigger of a disc put in: the generation it claimed the drive under, if it did.\<close>

definition dispatch_insert :: "classify \<Rightarrow> string \<Rightarrow> poll_input \<Rightarrow> poller \<Rightarrow> nat option \<times> poller" where
  "dispatch_insert cl d i st =
     (if pi_on_insert i = ''nothing''
      then (None, st\<lparr>po_desk := update_state cl (pi_secs i) d
              (default_rip_state\<lparr>ri_device := d, ri_status := ''idle'', ri_disc_present := True\<rparr>) (po_desk st)\<rparr>)
      else (case try_claim_insert (rip_thread_running d (po_session st)) d (po_desk st) of
              (None, k) \<Rightarrow> (None, st\<lparr>po_desk := k\<rparr>)
            | (Some g, k) \<Rightarrow>
                (case spawn_rip_thread (pi_stopping i) (pi_refused i) d (register_halt d (pi_token i) (po_session st)) of
                   (Inr _, s) \<Rightarrow> (Some g, st\<lparr>po_desk := k, po_session := s\<rparr>)
                 | (Inl _, s) \<Rightarrow>
                     (case rollback_failed_spawn cl (pi_secs i) d g (k, s) of
                        (k1, s1) \<Rightarrow> (Some g, st\<lparr>po_desk := k1, po_session := s1\<rparr>)))))"

definition keep_present :: "string \<Rightarrow> desk \<Rightarrow> desk" where
  "keep_present d k = k\<lparr>dk_rows := (dk_rows k)(d := map_option (\<lambda>r. r\<lparr>ri_disc_present := True\<rparr>) (dk_rows k d))\<rparr>"

definition idle_row :: "string \<Rightarrow> rip_state" where
  "idle_row d = default_rip_state\<lparr>ri_device := d, ri_status := ''idle''\<rparr>"

definition answered_tick ::
    "classify \<Rightarrow> string \<Rightarrow> poll_input \<Rightarrow> presence_report \<Rightarrow> bool \<Rightarrow> poll_action \<Rightarrow> poller \<Rightarrow> nat option \<times> poller" where
  "answered_tick cl d i p is_new action st =
     (let st1 = st\<lparr>po_fail := clear_probe_failures d (po_fail st),
                   po_desk := update_state_with cl d (clear_probe_error p) (po_desk st)\<rparr>;
          st2 = (if shows_idle action
                 then st1\<lparr>po_desk := snd (publish_poll_row cl d (idle_row d) (po_desk st1))\<rparr> else st1)
      in case action of
           ActHold _ \<Rightarrow> (None, st2)
         | ActAbsent removed \<Rightarrow>
             (None, st2\<lparr>po_desk := forget_staging_hold d (clear_finished_insertion d (po_desk st2)),
                        po_session := (if removed then drop_session d (po_session st2) else po_session st2)\<rparr>)
         | ActPresent tick \<Rightarrow>
             if it_dispatch tick then dispatch_insert cl d i st2
             else if \<not> is_new \<and> \<not> is_busy d (po_desk st2)
                  then (None, st2\<lparr>po_desk := keep_present d (po_desk st2)\<rparr>)
                  else (None, st2))"

text \<open>Whether the device is carried into the next tick, the claim made, and the new state.\<close>

definition poll_drive :: "classify \<Rightarrow> string \<Rightarrow> poll_input \<Rightarrow> bool \<Rightarrow> poller \<Rightarrow> bool \<times> nat option \<times> poller" where
  "poll_drive cl path i had st =
     (let d = device_key path in
      if is_busy d (po_desk st) \<or> rip_thread_running d (po_session st) then (True, None, st)
      else if pi_young i then (False, None, st)
      else
        (case probe_drive d i (po_desk st) of (ans, k1) \<Rightarrow>
         case probed_tick (pi_ready i) (pi_secs i) d ans had (is_in_cooldown (pi_now i) d k1) k1 of
           (Answered p is_new action, k2) \<Rightarrow>
             (action_latch action, answered_tick cl d i p is_new action (st\<lparr>po_desk := k2\<rparr>))
         | (ProbeFailed e keep, k2) \<Rightarrow> (keep, None, failed_tick cl d path i had e (st\<lparr>po_desk := k2\<rparr>))))"

text \<open>Consecutive ticks of one drive: the claims made, and what they leave.\<close>

fun poll_ticks :: "classify \<Rightarrow> string \<Rightarrow> poll_input list \<Rightarrow> bool \<Rightarrow> poller \<Rightarrow> nat list \<times> bool \<times> poller" where
  "poll_ticks cl path [] had st = ([], had, st)"
| "poll_ticks cl path (i # is) had st =
     (case poll_drive cl path i had st of (had1, g, st1) \<Rightarrow>
      case poll_ticks cl path is had1 st1 of (gs, r) \<Rightarrow>
        ((case g of None \<Rightarrow> gs | Some n \<Rightarrow> n # gs), r))"

end
