(* ===== verification/Poll_Safety.thy ===== *)
theory Poll_Safety
  imports Drive_Poll
begin

text \<open>
  What the poll loop promises over consecutive ticks of one drive: a stopped disc is not taken up
  again by itself, a finished one is not ripped twice for a bus glitch, one put in during the
  cooldown after a Stop is taken up once it is over, and a wedge is reported once.
\<close>

section \<open>What the ticks write\<close>

definition answer_of :: "poll_input \<Rightarrow> presence_report option" where
  "answer_of i = (case pi_held i of Some p \<Rightarrow> Some p
     | None \<Rightarrow> (case pi_probe i of Inl _ \<Rightarrow> None | Inr (p, _) \<Rightarrow> Some p))"

definition changes_medium :: "poll_input \<Rightarrow> bool" where
  "changes_medium i \<longleftrightarrow> pi_held i = None \<and> (case pi_probe i of Inl e \<Rightarrow> reports_change e | Inr (_, ch) \<Rightarrow> ch)"

lemma probe_drive_quiet:
  assumes "\<not> changes_medium i"
  shows "snd (probe_drive d i k) = k"
    and "fst (probe_drive d i k) = (case answer_of i of Some p \<Rightarrow> Inr p | None \<Rightarrow> fst (probe_drive d i k))"
    and "fst (probe_drive d i k) = Inl e \<Longrightarrow> answer_of i = None \<and> \<not> reports_change e"
  using assms by (auto simp: probe_drive_def answer_of_def changes_medium_def split: option.splits sum.splits prod.splits)

text \<open>The parts of the desk a row write leaves alone.\<close>

lemma row_writes [simp]:
  "dk_stopped (update_state_with cl d f k) = dk_stopped k" "dk_changed (update_state_with cl d f k) = dk_changed k"
  "dk_held (update_state_with cl d f k) = dk_held k" "dk_cooldown (update_state_with cl d f k) = dk_cooldown k"
  "dk_stopped (update_state cl now d r k) = dk_stopped k" "dk_changed (update_state cl now d r k) = dk_changed k"
  "dk_held (update_state cl now d r k) = dk_held k" "dk_cooldown (update_state cl now d r k) = dk_cooldown k"
  by (simp_all add: update_state_with_def update_state_def latch_finished_def Let_def)

lemma finished_grows:
  "e \<in> dk_finished k \<Longrightarrow> e \<in> dk_finished (update_state_with cl d f k)"
  "e \<in> dk_finished k \<Longrightarrow> e \<in> dk_finished (update_state cl now d r k)"
  by (simp_all add: update_state_with_def update_state_def latch_finished_def Let_def)

lemma small_writes [simp]:
  "dk_stopped (clear_finished_insertion d k) = dk_stopped k" "dk_changed (clear_finished_insertion d k) = dk_changed k"
  "dk_held (clear_finished_insertion d k) = dk_held k" "dk_cooldown (clear_finished_insertion d k) = dk_cooldown k"
  "dk_stopped (forget_staging_hold d k) = dk_stopped k" "dk_changed (forget_staging_hold d k) = dk_changed k"
  "dk_cooldown (forget_staging_hold d k) = dk_cooldown k" "dk_finished (forget_staging_hold d k) = dk_finished k"
  "dk_stopped (keep_present d k) = dk_stopped k" "dk_changed (keep_present d k) = dk_changed k"
  "dk_held (keep_present d k) = dk_held k" "dk_finished (keep_present d k) = dk_finished k"
  "dk_cooldown (keep_present d k) = dk_cooldown k"
  by (simp_all add: clear_finished_insertion_def forget_staging_hold_def keep_present_def)

lemma hold_writes [simp]:
  "dk_stopped (snd (staging_hold_lifted r n d k)) = dk_stopped k" "dk_changed (snd (staging_hold_lifted r n d k)) = dk_changed k"
  "dk_rows (snd (staging_hold_lifted r n d k)) = dk_rows k" "dk_finished (snd (staging_hold_lifted r n d k)) = dk_finished k"
  "dk_cooldown (snd (staging_hold_lifted r n d k)) = dk_cooldown k"
  by (simp_all add: staging_hold_lifted_def forget_staging_hold_def Let_def split: option.split)

lemma keep_status [simp]:
  "ri_status (keep_claim prev r) = ri_status r" "ri_status (keep_label prev r) = ri_status r"
  "ri_status (keep_job prev r) = ri_status r" "ri_status (keep_started now prev r) = ri_status r"
  by (auto simp: keep_claim_def keep_label_def keep_job_def keep_started_def show_user_metadata_def Let_def split: option.split)

lemma busy_update_state [simp]: "is_busy d (update_state cl now d r k) \<longleftrightarrow> row_is_busy r"
  by (simp add: is_busy_def update_state_def row_is_busy_def Let_def)

lemma busy_rows: "dk_rows k' = dk_rows k \<Longrightarrow> is_busy d k' = is_busy d k"
  by (simp add: is_busy_def)

lemma idle_writes [simp]:
  "\<not> is_busy d k \<Longrightarrow> \<not> is_busy d (update_state_with cl d (clear_probe_error p) k)"
  "\<not> is_busy d (snd (publish_poll_row cl d (idle_row d) k)) \<or> is_busy d k"
  "\<not> is_busy d k \<Longrightarrow> \<not> is_busy d (snd (publish_poll_row cl d (wedge_row d h t) k))"
  "is_busy d (keep_present d k) = is_busy d k" "is_busy d (forget_staging_hold d k) = is_busy d k"
  "is_busy d (clear_finished_insertion d k) = is_busy d k"
  by (auto simp: is_busy_def update_state_with_def publish_poll_row_def clear_probe_error_def row_is_busy_def
      idle_row_def wedge_row_def keep_present_def default_rip_state_def Let_def split: option.splits presence_report.splits if_splits)

lemma publish_writes [simp]:
  "dk_stopped (snd (publish_poll_row cl d r k)) = dk_stopped k" "dk_changed (snd (publish_poll_row cl d r k)) = dk_changed k"
  "dk_held (snd (publish_poll_row cl d r k)) = dk_held k" "dk_cooldown (snd (publish_poll_row cl d r k)) = dk_cooldown k"
  by (simp_all add: publish_poll_row_def Let_def)

lemma publish_finished: "e \<in> dk_finished k \<Longrightarrow> e \<in> dk_finished (snd (publish_poll_row cl d r k))"
  by (simp add: publish_poll_row_def Let_def finished_grows)

section \<open>Idle drives\<close>

text \<open>No worker holds the drive, and no medium change is noted.\<close>

definition drive_idle :: "string \<Rightarrow> poller \<Rightarrow> bool" where
  "drive_idle d st \<longleftrightarrow> \<not> is_busy d (po_desk st) \<and> \<not> rip_thread_running d (po_session st) \<and> d \<notin> dk_changed (po_desk st)"

lemma same_insertion_quiet:
  assumes "d \<notin> dk_changed k" "\<And>e. a = Inl e \<Longrightarrow> \<not> reports_change e"
  shows "same_insertion d a had k = (had \<and> \<not> ((\<exists>e. a = Inl e) \<and> \<not> rip_finished d k), k\<lparr>dk_changed := dk_changed k - {d}\<rparr>)"
  using assms by (auto simp: same_insertion_def take_medium_changed_def Let_def rip_finished_def split: sum.splits)

lemma unchanged_desk: "d \<notin> dk_changed k \<Longrightarrow> k\<lparr>dk_changed := dk_changed k - {d}\<rparr> = k"
  by simp

text \<open>A tick that hears nothing, on an idle drive.\<close>

lemma silent_tick:
  assumes "drive_idle (device_key path) st" "\<not> pi_young i" "\<not> changes_medium i" "answer_of i = None"
  shows "\<exists>e. poll_drive cl path i had st = (had \<and> rip_finished (device_key path) (po_desk st), None,
     failed_tick cl (device_key path) path i had e st)"
proof -
  let ?d = "device_key path" and ?k = "po_desk st"
  obtain e where e: "probe_drive ?d i ?k = (Inl e, ?k)" "\<not> reports_change e"
    using assms(3,4) by (auto simp: probe_drive_def answer_of_def changes_medium_def split: option.splits sum.splits prod.splits)
  have "same_insertion ?d (Inl e) had ?k = (had \<and> rip_finished ?d ?k, ?k)"
    using same_insertion_quiet [of ?d ?k "Inl e" had] assms(1) e(2) by (auto simp: drive_idle_def)
  then show ?thesis using assms(1,2) e(1)
    by (intro exI [of _ e]) (auto simp: poll_drive_def drive_idle_def probed_tick_def Let_def)
qed

text \<open>A tick that hears the drive.\<close>

lemma heard_tick:
  assumes "drive_idle (device_key path) st" "\<not> pi_young i" "\<not> changes_medium i" "answer_of i = Some p0"
  shows "\<exists>p k2 is_new action k3.
     stopped_disc_presence (device_key path) p0 (po_desk st) = (p, k2)
   \<and> presence_tick (pi_ready i) (pi_secs i) (device_key path) p had (is_in_cooldown (pi_now i) (device_key path) (po_desk st)) k2 = ((is_new, action), k3)
   \<and> poll_drive cl path i had st = (action_latch action, answered_tick cl (device_key path) i p is_new action (st\<lparr>po_desk := k3\<rparr>))"
proof -
  let ?d = "device_key path" and ?k = "po_desk st"
  have e: "probe_drive ?d i ?k = (Inr p0, ?k)"
    using assms(3,4) by (auto simp: probe_drive_def answer_of_def changes_medium_def split: option.splits sum.splits prod.splits)
  have s: "same_insertion ?d (Inr p0) had ?k = (had, ?k)"
    using same_insertion_quiet [of ?d ?k "Inr p0" had] assms(1) by (auto simp: drive_idle_def)
  show ?thesis using assms(1,2) e s
    by (auto simp: poll_drive_def drive_idle_def probed_tick_def Let_def split: prod.split)
qed

lemma failed_tick_parts:
  "po_session (failed_tick cl d path i had e st) = po_session st"
  "dk_stopped (po_desk (failed_tick cl d path i had e st)) = dk_stopped (po_desk st)"
  "dk_changed (po_desk (failed_tick cl d path i had e st)) = dk_changed (po_desk st)"
  "dk_held (po_desk (failed_tick cl d path i had e st)) = dk_held (po_desk st)"
  "x \<in> dk_finished (po_desk st) \<Longrightarrow> x \<in> dk_finished (po_desk (failed_tick cl d path i had e st))"
  "\<not> is_busy d (po_desk st) \<Longrightarrow> \<not> is_busy d (po_desk (failed_tick cl d path i had e st))"
proof -
  obtain c t where c: "on_probe_err d path (pi_enumerated i) (po_fail st) = (c, t)" by fastforce
  obtain b k where b: "publish_poll_row cl d (wedge_row d had (pe_text e)) (po_desk st) = (b, k)" by fastforce
  then have k: "k = snd (publish_poll_row cl d (wedge_row d had (pe_text e)) (po_desk st))" by simp
  show "po_session (failed_tick cl d path i had e st) = po_session st"
  "dk_stopped (po_desk (failed_tick cl d path i had e st)) = dk_stopped (po_desk st)"
  "dk_changed (po_desk (failed_tick cl d path i had e st)) = dk_changed (po_desk st)"
  "dk_held (po_desk (failed_tick cl d path i had e st)) = dk_held (po_desk st)"
  "x \<in> dk_finished (po_desk st) \<Longrightarrow> x \<in> dk_finished (po_desk (failed_tick cl d path i had e st))"
  "\<not> is_busy d (po_desk st) \<Longrightarrow> \<not> is_busy d (po_desk (failed_tick cl d path i had e st))"
    by (cases c; simp add: failed_tick_def c b; simp add: k publish_finished)+
qed

lemma failed_tick_idle: "drive_idle d st \<Longrightarrow> drive_idle d (failed_tick cl d path i had e st)"
  by (simp add: drive_idle_def failed_tick_parts)

lemma drop_session_runs [simp]: "rip_thread_running d (drop_session e s) = rip_thread_running d s"
  by (simp add: drop_session_def rip_thread_running_def is_finished_def split: option.split)

text \<open>What a tick that hears the drive does before it dispatches.\<close>

definition settled_state :: "classify \<Rightarrow> string \<Rightarrow> presence_report \<Rightarrow> poll_action \<Rightarrow> poller \<Rightarrow> poller" where
  "settled_state cl d p action st =
     (let st1 = st\<lparr>po_fail := clear_probe_failures d (po_fail st),
                   po_desk := update_state_with cl d (clear_probe_error p) (po_desk st)\<rparr>
      in if shows_idle action
         then st1\<lparr>po_desk := snd (publish_poll_row cl d (idle_row d) (po_desk st1))\<rparr> else st1)"

lemma settled_state_parts:
  "po_session (settled_state cl d p a st) = po_session st"
  "dk_stopped (po_desk (settled_state cl d p a st)) = dk_stopped (po_desk st)"
  "dk_changed (po_desk (settled_state cl d p a st)) = dk_changed (po_desk st)"
  "dk_held (po_desk (settled_state cl d p a st)) = dk_held (po_desk st)"
  "dk_cooldown (po_desk (settled_state cl d p a st)) = dk_cooldown (po_desk st)"
  "x \<in> dk_finished (po_desk st) \<Longrightarrow> x \<in> dk_finished (po_desk (settled_state cl d p a st))"
  by (simp_all add: settled_state_def Let_def publish_finished finished_grows)

lemma settled_state_idle: "\<not> is_busy d (po_desk st) \<Longrightarrow> \<not> is_busy d (po_desk (settled_state cl d p a st))"
  using idle_writes(1) [of d "po_desk st" cl p] idle_writes(2) [of d cl "update_state_with cl d (clear_probe_error p) (po_desk st)"]
  by (auto simp: settled_state_def Let_def)

lemma answered_tick_eq:
  "answered_tick cl d i p is_new action st =
     (let st2 = settled_state cl d p action st in
      case action of
        ActHold _ \<Rightarrow> (None, st2)
      | ActAbsent removed \<Rightarrow>
          (None, st2\<lparr>po_desk := forget_staging_hold d (clear_finished_insertion d (po_desk st2)),
                     po_session := (if removed then drop_session d (po_session st2) else po_session st2)\<rparr>)
      | ActPresent tick \<Rightarrow>
          if it_dispatch tick then dispatch_insert cl d i st2
          else if \<not> is_new \<and> \<not> is_busy d (po_desk st2)
               then (None, st2\<lparr>po_desk := keep_present d (po_desk st2)\<rparr>)
               else (None, st2))"
  by (simp add: answered_tick_def settled_state_def Let_def)

text \<open>An answered tick that claims nothing keeps the drive idle and the desk's books, but for a
  removed disc's.\<close>

lemma answered_no_claim:
  assumes "drive_idle d st" "case action of ActPresent t \<Rightarrow> \<not> it_dispatch t | _ \<Rightarrow> True"
    and "answered_tick cl d i p is_new action st = (g, st')"
  shows "g = None \<and> drive_idle d st' \<and> dk_stopped (po_desk st') = dk_stopped (po_desk st)
     \<and> dk_cooldown (po_desk st') = dk_cooldown (po_desk st)
     \<and> ((\<forall>b. action \<noteq> ActAbsent b) \<longrightarrow> dk_held (po_desk st') = dk_held (po_desk st)
          \<and> (d \<in> dk_finished (po_desk st) \<longrightarrow> d \<in> dk_finished (po_desk st')))"
  using assms settled_state_idle [of d st cl p action]
  by (cases action) (auto simp: answered_tick_eq Let_def drive_idle_def settled_state_parts split: if_splits)

section \<open>A stopped disc\<close>

text \<open>The drive's answers over the ticks: no medium change, and no two absent answers without
  another answer between them; \<open>a\<close>: whether the last answer was an absent one.\<close>

fun disc_stays :: "bool \<Rightarrow> poll_input list \<Rightarrow> bool" where
  "disc_stays a [] = True"
| "disc_stays a (i # is) =
     (if pi_young i then disc_stays a is
      else \<not> changes_medium i \<and>
        (case answer_of i of None \<Rightarrow> disc_stays a is
         | Some DiscAbsent \<Rightarrow> \<not> a \<and> disc_stays True is
         | Some _ \<Rightarrow> disc_stays False is))"

definition held_idle :: "string \<Rightarrow> bool \<Rightarrow> poller \<Rightarrow> bool" where
  "held_idle d a st \<longleftrightarrow> drive_idle d st \<and> dk_stopped (po_desk st) d = Some a"

lemma stopped_dispatch:
  assumes "held_idle d a st" "dispatch_insert cl d i st = (g, st')"
  shows "g = None \<and> held_idle d a st'"
proof -
  have "\<not> row_is_busy (default_rip_state\<lparr>ri_device := d, ri_status := ''idle'', ri_disc_present := True\<rparr>)"
    by (simp add: row_is_busy_def)
  with assms show ?thesis
    by (auto simp: held_idle_def drive_idle_def dispatch_insert_def try_claim_insert_def simp del: busy_update_state
        simp add: busy_update_state split: if_splits)
qed

lemma presence_tick_parts:
  assumes "presence_tick ready now d p had cd k = ((is_new, action), k')"
  shows "dk_stopped k' = dk_stopped k" "dk_changed k' = dk_changed k" "dk_rows k' = dk_rows k"
    "dk_finished k' = dk_finished k" "dk_cooldown k' = dk_cooldown k" "\<exists>l. action = poll_action_of p l cd"
    "dk_held k d = None \<Longrightarrow> k' = k \<and> action = poll_action_of p had cd \<and> is_new = (\<not> had)"
proof -
  obtain b k1 where l: "staging_hold_lifted ready now d k = (b, k1)" by fastforce
  have k1: "dk_stopped k1 = dk_stopped k" "dk_changed k1 = dk_changed k" "dk_rows k1 = dk_rows k"
    "dk_finished k1 = dk_finished k" "dk_cooldown k1 = dk_cooldown k"
    using hold_writes [of ready now d k] unfolding l by simp_all
  with l assms
  show "dk_stopped k' = dk_stopped k" "dk_changed k' = dk_changed k" "dk_rows k' = dk_rows k"
    "dk_finished k' = dk_finished k" "dk_cooldown k' = dk_cooldown k" "\<exists>l. action = poll_action_of p l cd"
    "dk_held k d = None \<Longrightarrow> k' = k \<and> action = poll_action_of p had cd \<and> is_new = (\<not> had)"
    by (auto simp: presence_tick_def staging_held_def Let_def split: if_splits)
qed

text \<open>One heard tick of a held disc: the hold stands, with whether the answer was an absent one.\<close>

lemma held_heard_tick:
  assumes h: "held_idle (device_key path) a st" and i: "\<not> pi_young i" "\<not> changes_medium i" "answer_of i = Some p0"
    and a: "p0 = DiscAbsent \<Longrightarrow> \<not> a" and t: "poll_drive cl path i had st = (had', g, st')"
  shows "g = None \<and> held_idle (device_key path) (p0 = DiscAbsent) st'"
proof -
  let ?d = "device_key path"
  from heard_tick [OF _ i] h obtain p k2 is_new action k3 where
    s: "stopped_disc_presence ?d p0 (po_desk st) = (p, k2)"
    and pt: "presence_tick (pi_ready i) (pi_secs i) ?d p had (is_in_cooldown (pi_now i) ?d (po_desk st)) k2 = ((is_new, action), k3)"
    and pd: "poll_drive cl path i had st = (action_latch action, answered_tick cl ?d i p is_new action (st\<lparr>po_desk := k3\<rparr>))"
    unfolding held_idle_def by blast
  have k2: "dk_stopped k2 ?d = Some (p0 = DiscAbsent)" "dk_changed k2 = dk_changed (po_desk st)" "dk_rows k2 = dk_rows (po_desk st)"
    using s h a by (auto simp: held_idle_def stopped_disc_presence_def split: if_splits)
  have idle: "held_idle ?d (p0 = DiscAbsent) (st\<lparr>po_desk := k3\<rparr>)"
    using h k2 presence_tick_parts(1-3) [OF pt] busy_rows [of k3 "po_desk st"] by (simp add: held_idle_def drive_idle_def)
  have at: "answered_tick cl ?d i p is_new action (st\<lparr>po_desk := k3\<rparr>) = (g, st')" using pd t by simp
  show ?thesis
  proof (cases "\<exists>tk. action = ActPresent tk \<and> it_dispatch tk")
    case True
    let ?st2 = "settled_state cl ?d p action (st\<lparr>po_desk := k3\<rparr>)"
    have "held_idle ?d (p0 = DiscAbsent) ?st2"
      using idle settled_state_idle [of ?d "st\<lparr>po_desk := k3\<rparr>" cl p action]
      by (simp add: held_idle_def drive_idle_def settled_state_parts)
    moreover have "dispatch_insert cl ?d i ?st2 = (g, st')" using at True by (auto simp: answered_tick_eq Let_def)
    ultimately show ?thesis by (rule stopped_dispatch)
  next
    case False
    then have "case action of ActPresent t \<Rightarrow> \<not> it_dispatch t | _ \<Rightarrow> True" by (simp split: poll_action.split)
    from answered_no_claim [OF _ this at] idle show ?thesis by (simp add: held_idle_def)
  qed
qed

lemma held_silent_tick:
  assumes h: "held_idle (device_key path) a st" and i: "\<not> pi_young i" "\<not> changes_medium i" "answer_of i = None"
    and t: "poll_drive cl path i had st = (had', g, st')"
  shows "g = None \<and> held_idle (device_key path) a st'"
proof -
  obtain e where "st' = failed_tick cl (device_key path) path i had e st" "g = None"
    using silent_tick [OF _ i, of path st cl had] h t by (auto simp: held_idle_def)
  then show ?thesis using h by (simp add: held_idle_def failed_tick_idle failed_tick_parts)
qed

lemma young_tick:
  "drive_idle (device_key path) st \<Longrightarrow> pi_young i \<Longrightarrow> poll_drive cl path i had st = (False, None, st)"
  by (simp add: poll_drive_def drive_idle_def Let_def)

text \<open>
  C23: a disc the operator stopped is not taken up again by itself: as long as the drive reports no
  medium change and never answers absent twice running, no tick claims the drive, and the hold
  stands, whatever the cooldown, the staging folder or the on-insert setting say.
\<close>

theorem stopped_disc_left_alone:
  assumes "held_idle (device_key path) a st" "disc_stays a is" "poll_ticks cl path is had st = (gs, had', st')"
  shows "gs = [] \<and> dk_stopped (po_desk st') (device_key path) \<noteq> None \<and> drive_idle (device_key path) st'"
  using assms
proof (induction "is" arbitrary: a had st gs)
  case (Cons i "is")
  obtain had1 g st1 where t: "poll_drive cl path i had st = (had1, g, st1)" by (metis prod_cases3)
  obtain gs1 where r: "poll_ticks cl path is had1 st1 = (gs1, had', st')"
    and gs: "gs = (case g of None \<Rightarrow> gs1 | Some n \<Rightarrow> n # gs1)"
    using Cons.prems(3) t by (auto split: prod.splits)
  have "\<exists>b. g = None \<and> held_idle (device_key path) b st1 \<and> disc_stays b is"
  proof (cases "pi_young i")
    case True
    then show ?thesis using young_tick [of path st i cl had] Cons.prems(1,2) t by (auto simp: held_idle_def)
  next
    case y: False
    with Cons.prems(2) have c: "\<not> changes_medium i" by simp
    show ?thesis
    proof (cases "answer_of i")
      case None
      then show ?thesis using held_silent_tick [OF Cons.prems(1) y c None t] Cons.prems(2) y by auto
    next
      case (Some p0)
      then show ?thesis using held_heard_tick [OF Cons.prems(1) y c Some _ t] Cons.prems(2) y
        by (cases p0) auto
    qed
  qed
  with Cons.IH [OF _ _ r] gs show ?case by auto
qed (auto simp: held_idle_def)

section \<open>A finished disc\<close>

definition finished_idle :: "string \<Rightarrow> poller \<Rightarrow> bool" where
  "finished_idle d st \<longleftrightarrow> drive_idle d st \<and> d \<in> dk_finished (po_desk st) \<and> dk_held (po_desk st) d = None"

lemma stopped_presence_parts:
  assumes "stopped_disc_presence d p0 k = (p, k2)"
  shows "dk_rows k2 = dk_rows k" "dk_changed k2 = dk_changed k" "dk_held k2 = dk_held k" "dk_finished k2 = dk_finished k"
    "dk_cooldown k2 = dk_cooldown k" "p0 \<noteq> DiscAbsent \<Longrightarrow> p = p0" "dk_stopped k d = None \<Longrightarrow> k2 = k \<and> p = p0"
  using assms by (auto simp: stopped_disc_presence_def release_stopped_disc_def split: option.splits if_splits)

lemma finished_tick:
  assumes h: "finished_idle (device_key path) st" and i: "\<not> pi_young i" "\<not> changes_medium i" "answer_of i \<noteq> Some DiscAbsent"
    and t: "poll_drive cl path i True st = (had', g, st')"
  shows "g = None \<and> had' \<and> finished_idle (device_key path) st'"
proof (cases "answer_of i")
  case None
  obtain e where "st' = failed_tick cl (device_key path) path i True e st" "g = None" "had'"
    using silent_tick [OF _ i(1,2) None, of path st cl True] h t by (auto simp: finished_idle_def rip_finished_def)
  then show ?thesis using h by (simp add: finished_idle_def failed_tick_idle failed_tick_parts)
next
  case (Some p0)
  let ?d = "device_key path"
  from heard_tick [OF _ i(1,2) Some] h obtain p k2 is_new action k3 where
    s: "stopped_disc_presence ?d p0 (po_desk st) = (p, k2)"
    and pt: "presence_tick (pi_ready i) (pi_secs i) ?d p True (is_in_cooldown (pi_now i) ?d (po_desk st)) k2 = ((is_new, action), k3)"
    and pd: "poll_drive cl path i True st = (action_latch action, answered_tick cl ?d i p is_new action (st\<lparr>po_desk := k3\<rparr>))"
    unfolding finished_idle_def by blast
  have p: "p = p0" "p0 \<noteq> DiscAbsent" using stopped_presence_parts(6) [OF s] i(3) Some by auto
  have "dk_held k2 ?d = None" using stopped_presence_parts(3) [OF s] h by (simp add: finished_idle_def)
  from presence_tick_parts(7) [OF pt this]
  have k3: "k3 = k2" and a: "action = poll_action_of p True (is_in_cooldown (pi_now i) ?d (po_desk st))" by simp_all
  have idle: "finished_idle ?d (st\<lparr>po_desk := k3\<rparr>)"
    using h k3 stopped_presence_parts(1-4) [OF s] busy_rows [of k2 "po_desk st"] by (simp add: finished_idle_def drive_idle_def)
  have at: "answered_tick cl ?d i p is_new action (st\<lparr>po_desk := k3\<rparr>) = (g, st')" using pd t by simp
  have "case action of ActPresent t \<Rightarrow> \<not> it_dispatch t | _ \<Rightarrow> True" "\<forall>b. action \<noteq> ActAbsent b" "action_latch action"
    using a p by (cases p0; simp add: poll_action_of_def insert_tick_def)+
  with answered_no_claim [OF _ _ at] idle pd t show ?thesis by (simp add: finished_idle_def)
qed

text \<open>
  A finished disc is not ripped again for a bus glitch: over any ticks in which the drive
  answers present, settling or not at all, but neither absent nor with a medium change, the disc
  stays the one already seen and nothing claims the drive.
\<close>

theorem finished_disc_not_ripped_again:
  assumes "finished_idle (device_key path) st"
    and "list_all (\<lambda>i. \<not> pi_young i \<and> \<not> changes_medium i \<and> answer_of i \<noteq> Some DiscAbsent) is"
    and "poll_ticks cl path is True st = (gs, had', st')"
  shows "gs = [] \<and> had' \<and> finished_idle (device_key path) st'"
  using assms
proof (induction "is" arbitrary: st gs)
  case (Cons i "is")
  obtain had1 g st1 where t: "poll_drive cl path i True st = (had1, g, st1)" by (metis prod_cases3)
  from finished_tick [OF Cons.prems(1) _ _ _ t] Cons.prems(2)
  have "g = None" "had1" "finished_idle (device_key path) st1" by simp_all
  then show ?case using Cons t by (auto split: prod.splits)
qed simp

section \<open>A disc put in during the cooldown\<close>

definition ready_drive :: "string \<Rightarrow> nat \<Rightarrow> poller \<Rightarrow> bool" where
  "ready_drive d expires st \<longleftrightarrow> drive_idle d st \<and> dk_stopped (po_desk st) d = None \<and> dk_held (po_desk st) d = None
     \<and> dk_cooldown (po_desk st) d = Some expires"

definition disc_in :: "poll_input \<Rightarrow> bool" where
  "disc_in i \<longleftrightarrow> \<not> pi_young i \<and> \<not> changes_medium i \<and> answer_of i = Some DiscPresent \<and> pi_on_insert i \<noteq> ''nothing''"

lemma present_tick:
  assumes h: "ready_drive (device_key path) x st" and i: "disc_in i"
  shows "poll_drive cl path i False st =
    (x \<le> pi_now i, answered_tick cl (device_key path) i DiscPresent True
       (ActPresent (insert_tick True (pi_now i < x))) st)"
proof -
  let ?d = "device_key path"
  have cd: "is_in_cooldown (pi_now i) ?d (po_desk st) = (pi_now i < x)" using h by (simp add: ready_drive_def is_in_cooldown_def)
  from heard_tick [where path = path and st = st and i = i and cl = cl and had = False and ?p0.0 = DiscPresent] h i obtain p k2 is_new action k3 where
    s: "stopped_disc_presence ?d DiscPresent (po_desk st) = (p, k2)"
    and pt: "presence_tick (pi_ready i) (pi_secs i) ?d p False (pi_now i < x) k2 = ((is_new, action), k3)"
    and pd: "poll_drive cl path i False st = (action_latch action, answered_tick cl ?d i p is_new action (st\<lparr>po_desk := k3\<rparr>))"
    unfolding ready_drive_def disc_in_def cd by blast
  have k2: "k2 = po_desk st" "p = DiscPresent" using stopped_presence_parts(7) [OF s] h by (simp_all add: ready_drive_def)
  have "dk_held k2 ?d = None" using h k2 by (simp add: ready_drive_def)
  from presence_tick_parts(7) [OF pt this] k2 pd show ?thesis by (auto simp: poll_action_of_def insert_tick_def Let_def)
qed

lemma deferred_tick:
  assumes h: "ready_drive (device_key path) x st" and i: "disc_in i" "pi_now i < x"
    and t: "poll_drive cl path i False st = (had', g, st')"
  shows "g = None \<and> \<not> had' \<and> ready_drive (device_key path) x st'"
proof -
  have a: "answered_tick cl (device_key path) i DiscPresent True (ActPresent (insert_tick True True)) st = (g, st')" "\<not> had'"
    using present_tick [OF h i(1), of cl] i(2) t by simp_all
  have "case ActPresent (insert_tick True True) of ActPresent t \<Rightarrow> \<not> it_dispatch t | _ \<Rightarrow> True" by (simp add: insert_tick_def)
  from answered_no_claim [OF _ this a(1)] h a(2) show ?thesis by (simp add: ready_drive_def)
qed

lemma dispatched_tick:
  assumes h: "ready_drive (device_key path) x st" and i: "disc_in i" "x \<le> pi_now i"
  shows "\<exists>g st'. poll_drive cl path i False st = (True, Some g, st')"
proof -
  let ?d = "device_key path"
  let ?st = "settled_state cl ?d DiscPresent (ActPresent (insert_tick True False)) st"
  have st: "\<not> is_busy ?d (po_desk ?st)" "dk_stopped (po_desk ?st) ?d = None" "\<not> rip_thread_running ?d (po_session ?st)"
    using h settled_state_idle [of ?d st] by (simp_all add: ready_drive_def drive_idle_def settled_state_parts)
  then obtain g k where c: "try_claim_insert (rip_thread_running ?d (po_session ?st)) ?d (po_desk ?st) = (Some g, k)"
    by (auto simp: try_claim_insert_def try_claim_active_def try_claim_active_checked_def Let_def)
  have "poll_drive cl path i False st = (True, dispatch_insert cl ?d i ?st)"
    using present_tick [OF h i(1), of cl] i(2) by (simp add: answered_tick_eq insert_tick_def Let_def)
  moreover have "\<exists>st'. dispatch_insert cl ?d i ?st = (Some g, st')"
    using i(1) c by (auto simp: dispatch_insert_def disc_in_def split: prod.split sum.split)
  ultimately show ?thesis by auto
qed

text \<open>
  A disc put in during the cooldown after a Stop is not lost and not taken up early: while the
  cooldown runs no tick claims the drive, and the first tick after it does.
\<close>

theorem cooldown_defers_insert:
  assumes "ready_drive (device_key path) x st"
    and "list_all (\<lambda>i. disc_in i \<and> pi_now i < x) is" "disc_in j" "x \<le> pi_now j"
  shows "fst (poll_ticks cl path is False st) = [] \<and> length (fst (poll_ticks cl path (is @ [j]) False st)) = 1"
  using assms(1,2)
proof (induction "is" arbitrary: st)
  case Nil
  then show ?case using dispatched_tick [OF _ assms(3,4), of path st cl] by auto
next
  case (Cons i "is")
  obtain had1 g st1 where t: "poll_drive cl path i False st = (had1, g, st1)" by (metis prod_cases3)
  from deferred_tick [OF Cons.prems(1) _ _ t] Cons.prems(2)
  have "g = None" "\<not> had1" "ready_drive (device_key path) x st1" by simp_all
  with Cons.IH [of st1] Cons.prems(2) t show ?case by (auto split: prod.splits)
qed

section \<open>Wedged drives\<close>

datatype tracker_op = BeginTick | Rescan "string list" | Answer string | ProbeErr string string "string list"

fun tracker_step :: "tracker_op \<Rightarrow> probe_fail_tracker \<Rightarrow> probe_failure option \<times> probe_fail_tracker" where
  "tracker_step BeginTick t = (None, begin_tick t)"
| "tracker_step (Rescan fresh) t = (None, on_rescan fresh t)"
| "tracker_step (Answer d) t = (None, clear_probe_failures d t)"
| "tracker_step (ProbeErr d path ls) t = (case on_probe_err d path ls t of (c, t') \<Rightarrow> (Some c, t'))"

text \<open>The classes of one drive's probe errors, in order.\<close>

fun tracker_run :: "string \<Rightarrow> tracker_op list \<Rightarrow> probe_fail_tracker \<Rightarrow> probe_failure list" where
  "tracker_run d [] t = []"
| "tracker_run d (x # xs) t =
     (case tracker_step x t of (c, t') \<Rightarrow>
        (case x of ProbeErr e _ _ \<Rightarrow> if e = d then (case c of Some y \<Rightarrow> [y] | None \<Rightarrow> []) else [] | _ \<Rightarrow> []) @ tracker_run d xs t')"

lemma wedged_stays:
  assumes "d \<in> pf_wedged t" "pf_failures t d \<ge> 3" "x \<noteq> Answer d" "tracker_step x t = (c, t')"
  shows "d \<in> pf_wedged t' \<and> pf_failures t' d \<ge> 3 \<and> (\<forall>path ls. x = ProbeErr d path ls \<longrightarrow> c = Some KnownWedge)"
proof (cases x)
  case (ProbeErr e path ls)
  have n: "saturating_add 8 (pf_failures t d) (Suc 0) \<ge> 3" using assms(2) by (simp add: saturating_add_def max_uint_def)
  show ?thesis using assms n ProbeErr
    by (cases "e = d") (auto simp: on_probe_err_def classify_probe_err_def Let_def split: if_splits prod.splits)
qed (use assms in \<open>auto simp: begin_tick_def on_rescan_def clear_probe_failures_def\<close>)

lemma tracker_run_step:
  assumes "tracker_step x t = (c, t')"
  shows "tracker_run d (x # xs) t =
     (case x of ProbeErr e _ _ \<Rightarrow> if e = d then (case c of Some y \<Rightarrow> [y] | None \<Rightarrow> []) else [] | _ \<Rightarrow> []) @ tracker_run d xs t'"
  by (simp only: tracker_run.simps assms prod.case)

lemma wedged_run:
  "d \<in> pf_wedged t \<Longrightarrow> pf_failures t d \<ge> 3 \<Longrightarrow> Answer d \<notin> set xs \<Longrightarrow> set (tracker_run d xs t) \<subseteq> {KnownWedge}"
proof (induction xs arbitrary: t)
  case (Cons x xs)
  obtain c t' where s: "tracker_step x t = (c, t')" by fastforce
  from wedged_stays [OF Cons.prems(1,2) _ s] Cons.prems(3)
  have w: "d \<in> pf_wedged t'" "pf_failures t' d \<ge> 3" and c: "\<And>path ls. x = ProbeErr d path ls \<Longrightarrow> c = Some KnownWedge" by auto
  from Cons.IH [OF w] Cons.prems(3) have ih: "set (tracker_run d xs t') \<subseteq> {KnownWedge}" by simp
  have "set (case x of ProbeErr e _ _ \<Rightarrow> if e = d then (case c of Some y \<Rightarrow> [y] | None \<Rightarrow> []) else [] | _ \<Rightarrow> []) \<subseteq> {KnownWedge}"
  proof (cases x)
    case (ProbeErr e path ls)
    with c [of path ls] show ?thesis by (cases "e = d") simp_all
  qed simp_all
  with ih show ?case by (simp only: tracker_run_step [OF s] set_append Un_subset_iff simp_thms)
qed simp

text \<open>
  A drive is only reported wedged on its third failed probe running, on an enumeration taken
  after that probe which lists it, and once: until it answers, no further probe reports it again.
\<close>

theorem wedge_reported_once:
  assumes "on_probe_err d path enumerated t = (NewWedge, t')" "Answer d \<notin> set xs"
  shows "2 \<le> pf_failures t d \<and> path \<in> set enumerated \<and> d \<notin> pf_wedged t \<and> NewWedge \<notin> set (tracker_run d xs t')"
proof -
  have "3 \<le> saturating_add 8 (pf_failures t d) 1" "path \<in> set enumerated" "d \<notin> pf_wedged t"
    and w: "d \<in> pf_wedged t'" "pf_failures t' d = saturating_add 8 (pf_failures t d) 1"
    using assms(1) by (auto simp: on_probe_err_def classify_probe_err_def Let_def split: if_splits option.splits)
  moreover from this have "set (tracker_run d xs t') \<subseteq> {KnownWedge}" using wedged_run [OF w(1) _ assms(2)] by simp
  ultimately show ?thesis by (auto simp: saturating_add_def)
qed

section \<open>Witnesses\<close>

lemma ticks_eq: "poll_ticks cl path is had st
  = (fst (poll_ticks cl path is had st), fst (snd (poll_ticks cl path is had st)), snd (snd (poll_ticks cl path is had st)))"
  by simp

definition sample_poller :: poller where
  "sample_poller = \<lparr>po_desk = empty_desk\<lparr>dk_rows := [''sg4'' \<mapsto> default_rip_state]\<rparr>, po_session = no_sessions,
     po_fail = no_probe_failures\<rparr>"

definition hears :: "probe_error + presence_report \<Rightarrow> nat \<Rightarrow> poll_input" where
  "hears a now = \<lparr>pi_young = False, pi_held = None,
     pi_probe = (case a of Inl e \<Rightarrow> Inl e | Inr p \<Rightarrow> Inr (p, False)), pi_secs = 0, pi_now = now, pi_ready = True,
     pi_enumerated = [], pi_on_insert = ''rip'', pi_token = 0, pi_stopping = False, pi_refused = None\<rparr>"

definition glitch :: probe_error where
  "glitch = \<lparr>pe_sense = None, pe_text = ''timeout''\<rparr>"

lemma sample_key: "device_key ''/dev/sg4'' = ''sg4''"
  by (simp add: device_key_def)

lemma sample_idle: "drive_idle ''sg4'' (sample_poller\<lparr>po_desk := (po_desk sample_poller)\<lparr>dk_stopped := s, dk_finished := f, dk_cooldown := c\<rparr>\<rparr>)"
  by (simp add: drive_idle_def sample_poller_def is_busy_def row_is_busy_def default_rip_state_def rip_thread_running_def
      no_sessions_def empty_desk_def)

lemma hears_simps [simp]:
  "pi_young (hears a now) = False" "pi_now (hears a now) = now" "pi_on_insert (hears a now) = ''rip''"
  "answer_of (hears a now) = (case a of Inl _ \<Rightarrow> None | Inr p \<Rightarrow> Some p)"
  "changes_medium (hears a now) \<longleftrightarrow> (case a of Inl e \<Rightarrow> reports_change e | Inr _ \<Rightarrow> False)"
  "reports_change glitch = False"
  by (auto simp: hears_def answer_of_def changes_medium_def reports_change_def glitch_def split: sum.split)

definition stopped_poller :: poller where
  "stopped_poller = sample_poller\<lparr>po_desk := (po_desk sample_poller)\<lparr>dk_stopped := [''sg4'' \<mapsto> False],
     dk_finished := {}, dk_cooldown := (\<lambda>_. None)\<rparr>\<rparr>"

theorem stopped_disc_left_alone_witness:
  "fst (poll_ticks sample_classify ''/dev/sg4''
     [hears (Inr DiscPresent) 0, hears (Inr DiscAbsent) 0, hears (Inl glitch) 0, hears (Inr DiscPresent) 0] False stopped_poller) = []"
proof (rule conjunct1 [OF stopped_disc_left_alone [OF _ _ ticks_eq]])
  show "held_idle (device_key ''/dev/sg4'') False stopped_poller"
    by (simp add: held_idle_def sample_key stopped_poller_def sample_idle)
  show "disc_stays False [hears (Inr DiscPresent) 0, hears (Inr DiscAbsent) 0, hears (Inl glitch) 0, hears (Inr DiscPresent) 0]"
    by simp
qed

definition finished_poller :: poller where
  "finished_poller = sample_poller\<lparr>po_desk := (po_desk sample_poller)\<lparr>dk_stopped := (\<lambda>_. None),
     dk_finished := {''sg4''}, dk_cooldown := (\<lambda>_. None)\<rparr>\<rparr>"

theorem finished_disc_not_ripped_again_witness:
  "fst (poll_ticks sample_classify ''/dev/sg4''
     [hears (Inl glitch) 0, hears (Inr DiscSettling) 0, hears (Inr DiscPresent) 0] True finished_poller) = []"
proof (rule conjunct1 [OF finished_disc_not_ripped_again [OF _ _ ticks_eq]])
  show "finished_idle (device_key ''/dev/sg4'') finished_poller"
    by (simp add: finished_idle_def sample_key finished_poller_def sample_idle) (simp add: sample_poller_def empty_desk_def)
qed simp

definition cooling_poller :: poller where
  "cooling_poller = sample_poller\<lparr>po_desk := (po_desk sample_poller)\<lparr>dk_stopped := (\<lambda>_. None),
     dk_finished := {}, dk_cooldown := [''sg4'' \<mapsto> 5000]\<rparr>\<rparr>"

theorem cooldown_defers_insert_witness:
  "length (fst (poll_ticks sample_classify ''/dev/sg4'' ([hears (Inr DiscPresent) 4000] @ [hears (Inr DiscPresent) 9000]) False cooling_poller)) = 1"
proof (rule conjunct2 [OF cooldown_defers_insert])
  show "ready_drive (device_key ''/dev/sg4'') 5000 cooling_poller"
    by (simp add: ready_drive_def sample_key cooling_poller_def sample_idle) (simp add: sample_poller_def empty_desk_def)
qed (simp_all add: disc_in_def)

theorem wedge_reported_once_witness:
  "NewWedge \<notin> set (tracker_run ''sg4'' [BeginTick, ProbeErr ''sg4'' ''/dev/sg4'' [''/dev/sg4''], Rescan []]
     (snd (on_probe_err ''sg4'' ''/dev/sg4'' [''/dev/sg4''] (no_probe_failures\<lparr>pf_failures := (\<lambda>_. 2)\<rparr>))))"
  using wedge_reported_once [where d = "''sg4''" and path = "''/dev/sg4''" and enumerated = "[''/dev/sg4'']"
      and t = "no_probe_failures\<lparr>pf_failures := (\<lambda>_. 2)\<rparr>"
      and t' = "snd (on_probe_err ''sg4'' ''/dev/sg4'' [''/dev/sg4''] (no_probe_failures\<lparr>pf_failures := (\<lambda>_. 2)\<rparr>))"
      and xs = "[BeginTick, ProbeErr ''sg4'' ''/dev/sg4'' [''/dev/sg4''], Rescan []]"]
  by (simp add: on_probe_err_def classify_probe_err_def no_probe_failures_def saturating_add_def max_uint_def)

end
