(* ===== verification/Mux_Worker.thy ===== *)
theory Mux_Worker
  imports Staging_Loops Rip_Claims
begin

text \<open>
  The background mux worker (\<open>server/muxer.rs\<close>, \<open>remux_from_ripped_marker\<close> of
  \<open>server/ripper/resume.rs\<close>): per folder the verdict, the run, what becomes of it. The mux run
  itself (\<open>resume_remux\<close>) is an argument: any change of the desk and the folder. The operator's
  hint texts are one record.
\<close>

section \<open>Verdicts\<close>

datatype mux_verdict = Dispatch | SkipTerminal | SkipAbortedLoss | SkipUnreadableState | SkipNeedsDisc
  | SkipNoMarker | SkipUnknown

definition mux_dispatch_verdict :: "snapshot option \<Rightarrow> mux_verdict" where
  "mux_dispatch_verdict snap =
     (case snap of None \<Rightarrow> SkipUnknown
      | Some s \<Rightarrow>
          if li_completed (sn_life s) \<or> li_failed (sn_life s) then SkipTerminal
          else if sn_unreadable s \<noteq> None then SkipUnreadableState
          else if li_aborted_loss (sn_life s) then SkipAbortedLoss
          else if li_needs_disc (sn_life s) then SkipNeedsDisc
          else if \<not> li_ripped (sn_life s) then SkipNoMarker
          else Dispatch)"

record mux_failure_class =
  mf_aborted_loss :: bool
  mf_has_worker_reason :: bool
  mf_is_finalize :: bool

definition mux_failure_is_terminal :: "mux_failure_class \<Rightarrow> bool" where
  "mux_failure_is_terminal c \<longleftrightarrow> \<not> mf_aborted_loss c \<and> mf_has_worker_reason c \<and> mf_is_finalize c"

record mux_texts =
  mt_aborted_loss :: string      \<comment> \<open>\<open>ABORTED_LOSS_HINT\<close>\<close>
  mt_needs_disc :: string        \<comment> \<open>\<open>NEEDS_DISC_HINT\<close>\<close>
  mt_needs_disc_reason :: string \<comment> \<open>\<open>vid_needs_disc_text\<close>\<close>
  mt_staging_space :: string     \<comment> \<open>\<open>STAGING_SPACE_HINT\<close>\<close>
  mt_deferred :: string          \<comment> \<open>the hint of a keyless deferral\<close>
  mt_unfinished :: string        \<comment> \<open>the hint of any other failure\<close>
  mt_quarantine :: string        \<comment> \<open>the hint of a quarantine that did not land\<close>
  mt_malformed :: string
  mt_held :: "state_unreadable \<Rightarrow> string"

definition worker_failure_hint :: "mux_texts \<Rightarrow> bool \<Rightarrow> bool \<Rightarrow> string" where
  "worker_failure_hint tx retryable space =
     (if space then mt_staging_space tx else if retryable then mt_deferred tx else mt_unfinished tx)"

definition persist_terminal_mux_quarantine ::
    "mux_texts \<Rightarrow> path \<Rightarrow> string \<Rightarrow> env \<Rightarrow> job_dir \<Rightarrow> cards \<Rightarrow> bool \<times> job_dir \<times> cards" where
  "persist_terminal_mux_quarantine tx dir reason v jd m =
     (case write_failed_marker dir reason v jd of
        (True, jd1) \<Rightarrow> (True, jd1, m)
      | (False, jd1) \<Rightarrow>
          (case read_state_checked (en_read v 2) (jd_slot jd1) of
             StateUnreadable u \<Rightarrow> (False, jd1, record_error (path_text dir) (held_reason u) (mt_held tx u) m)
           | _ \<Rightarrow> (False, jd1, record_error (path_text dir) reason (mt_quarantine tx) m)))"

definition record_mux_failure ::
    "mux_texts \<Rightarrow> path \<Rightarrow> string \<Rightarrow> string \<Rightarrow> bool \<Rightarrow> bool \<Rightarrow> env \<Rightarrow> job_dir \<Rightarrow> cards \<Rightarrow> bool \<times> job_dir \<times> cards" where
  "record_mux_failure tx dir reason hint terminal announce v jd m =
     (let (quarantined, jd1, m1) =
            (if terminal then persist_terminal_mux_quarantine tx dir reason v jd m else (False, jd, m))
      in if terminal \<and> \<not> quarantined then (False, jd1, m1)
         else (quarantined, jd1, snd (record_error_announced (path_text dir) reason hint announce m1)))"

section \<open>A run and its outcome\<close>

record mux_outcome =
  mo_success :: bool
  mo_codecs :: string
  mo_duration :: string
  mo_output_file :: string
  mo_bad_ranges :: "bad_range list"
  mo_bad_ranges_truncated :: nat
  mo_lost_video_secs :: real
  mo_errors :: nat
  mo_total_lost_ms :: real
  mo_main_lost_ms :: real
  mo_failure_reason :: "string option"
  mo_failure_retryable :: bool
  mo_failure_finalize :: bool
  mo_failure_space :: bool
  mo_failure_needs_disc :: bool

definition build_mux_handoff_outcome :: "bool \<Rightarrow> mux_outcome" where
  "build_mux_handoff_outcome success = \<lparr>mo_success = success, mo_codecs = [], mo_duration = [], mo_output_file = [],
     mo_bad_ranges = [], mo_bad_ranges_truncated = 0, mo_lost_video_secs = 0, mo_errors = 0, mo_total_lost_ms = 0,
     mo_main_lost_ms = 0, mo_failure_reason = None, mo_failure_retryable = False, mo_failure_finalize = False,
     mo_failure_space = False, mo_failure_needs_disc = False\<rparr>"

definition apply_success_fields :: "rip_state \<Rightarrow> mux_outcome \<Rightarrow> mux_outcome" where
  "apply_success_fields r x = x\<lparr>mo_codecs := ri_codecs r, mo_duration := ri_duration r, mo_output_file := ri_output_file r,
     mo_bad_ranges := ri_bad_ranges r, mo_bad_ranges_truncated := ri_bad_ranges_truncated r,
     mo_lost_video_secs := ri_lost_video_secs r, mo_errors := ri_errors r, mo_total_lost_ms := ri_total_lost_ms r,
     mo_main_lost_ms := ri_main_lost_ms r\<rparr>"

definition apply_failure_fields :: "rip_state \<Rightarrow> mux_outcome \<Rightarrow> mux_outcome" where
  "apply_failure_fields r x =
     (if ri_last_error r = [] then x
      else x\<lparr>mo_failure_reason := Some (ri_last_error r), mo_failure_retryable := ri_failure_deferred r,
             mo_failure_finalize := ri_failure_finalize r, mo_failure_space := ri_failure_space r\<rparr>)"

definition mux_handoff_success :: "codec \<Rightarrow> path \<Rightarrow> env \<Rightarrow> job_dir \<Rightarrow> bool \<times> job_dir" where
  "mux_handoff_success c dir v jd =
     (if (case read_state (en_read v 0) (jd_slot jd) of None \<Rightarrow> False | Some s \<Rightarrow> ds_title_identity_review s)
      then (False, jd)
      else (case snapshot_staging_disc c dir (later 1 0 v) jd of
              (None, jd1) \<Rightarrow> (False, jd1) | (Some s, jd1) \<Rightarrow> (li_completed (sn_life s), jd1)))"

definition mux_device :: string where
  "mux_device = ''_mux''"

definition mux_seed_row :: "ripped_marker \<Rightarrow> rip_state" where
  "mux_seed_row k = default_rip_state\<lparr>ri_device := mux_device, ri_tmdb_title := rm_tmdb_title k,
     ri_tmdb_year := rm_tmdb_year k, ri_tmdb_poster := rm_tmdb_poster k, ri_tmdb_overview := rm_tmdb_overview k,
     ri_tmdb_media_type := Some (rm_tmdb_media_type k)\<rparr>"

type_synonym mux_run = "ripped_marker \<Rightarrow> desk \<Rightarrow> job_dir \<Rightarrow> desk \<times> job_dir"

text \<open>Each step has its own environment; the key store's cleanup is left out.\<close>

definition remux_from_ripped_marker ::
    "codec \<Rightarrow> classify \<Rightarrow> nat \<Rightarrow> mux_run \<Rightarrow> path \<Rightarrow> ripped_marker \<Rightarrow> (nat \<Rightarrow> env) \<Rightarrow> desk \<Rightarrow> job_dir
       \<Rightarrow> mux_outcome \<times> desk \<times> job_dir" where
  "remux_from_ripped_marker c cl secs run dir mk ve k jd =
     (let k1 = update_state cl secs mux_device (mux_seed_row mk) k;
          (k2, jd1) = run mk k1 jd;
          (success, jd2) = mux_handoff_success c dir (ve 0) jd1;
          (needs_disc, jd3) =
            (if success then (False, jd2)
             else (case snapshot_staging_disc c dir (ve 1) jd2 of
                     (None, j) \<Rightarrow> (False, j) | (Some s, j) \<Rightarrow> (li_needs_disc (sn_life s), j)));
          jd4 = (if success then snd (delete_marker (ve 2) jd3) else jd3);
          x = (build_mux_handoff_outcome success)\<lparr>mo_failure_needs_disc := needs_disc\<rparr>;
          x1 = (case dk_rows k2 mux_device of None \<Rightarrow> x
                | Some r \<Rightarrow> if success then apply_success_fields r x else apply_failure_fields r x)
      in (x1, k2\<lparr>dk_rows := (dk_rows k2)(mux_device := None)\<rparr>, jd4))"

section \<open>The origin's tile\<close>

definition should_revert_origin_to_done :: "string \<Rightarrow> (string \<times> string) option \<Rightarrow> string \<Rightarrow> bool" where
  "should_revert_origin_to_done origin tile disc_name \<longleftrightarrow>
     origin \<noteq> [] \<and> \<not> starts_with origin ''_'' \<and> tile = Some (''ripping'', disc_name)"

definition origin_done_state :: "string \<Rightarrow> ripped_marker \<Rightarrow> mux_outcome \<Rightarrow> rip_state" where
  "origin_done_state origin k x = default_rip_state\<lparr>ri_device := origin, ri_status := ''done'', ri_disc_present := True,
     ri_disc_name := rm_display_name k, ri_disc_format := rm_disc_format k, ri_progress_pct := 100,
     ri_errors := mo_errors x, ri_total_lost_ms := mo_total_lost_ms x, ri_main_lost_ms := mo_main_lost_ms x,
     ri_num_bad_ranges := rm_sweep_num_bad_ranges k, ri_largest_gap_ms := rm_sweep_largest_gap_ms k,
     ri_bad_ranges := mo_bad_ranges x, ri_bad_ranges_truncated := mo_bad_ranges_truncated x,
     ri_tmdb_title := rm_tmdb_title k, ri_tmdb_year := rm_tmdb_year k, ri_tmdb_poster := rm_tmdb_poster k,
     ri_tmdb_overview := rm_tmdb_overview k, ri_codecs := mo_codecs x, ri_duration := mo_duration x,
     ri_output_file := mo_output_file x, ri_lost_video_secs := mo_lost_video_secs x\<rparr>"

definition finish_origin :: "classify \<Rightarrow> nat \<Rightarrow> ripped_marker \<Rightarrow> mux_outcome \<Rightarrow> desk \<Rightarrow> desk" where
  "finish_origin cl secs mk x k =
     (let origin = rm_origin_device mk;
          tile = map_option (\<lambda>r. (ri_status r, ri_disc_name r)) (dk_rows k origin)
      in if origin \<noteq> [] \<and> should_revert_origin_to_done origin tile (rm_display_name mk)
         then update_state cl secs origin (origin_done_state origin mk x) k else k)"

section \<open>One folder's tick\<close>

definition failure_reason_hint ::
    "mux_texts \<Rightarrow> codec \<Rightarrow> mux_outcome \<Rightarrow> (string \<times> nat) option \<Rightarrow> env \<Rightarrow> job_dir \<Rightarrow> string \<times> string" where
  "failure_reason_hint tx c x aborted v jd =
     (case aborted of Some (r, _) \<Rightarrow> (r, mt_aborted_loss tx)
      | None \<Rightarrow>
        (case mo_failure_reason x of
           Some r \<Rightarrow> (r, if mo_failure_needs_disc x then mt_needs_disc tx
                        else worker_failure_hint tx (mo_failure_retryable x) (mo_failure_space x))
         | None \<Rightarrow> ((case read_failed_reason c v jd of Some r \<Rightarrow> r
                    | None \<Rightarrow> ''mux worker dispatch did not complete (see _mux device log)''), mt_unfinished tx)))"

definition settle_failure ::
    "mux_texts \<Rightarrow> codec \<Rightarrow> path \<Rightarrow> mux_outcome \<Rightarrow> bool \<Rightarrow> (nat \<Rightarrow> env) \<Rightarrow> job_dir \<Rightarrow> cards \<Rightarrow> job_dir \<times> cards" where
  "settle_failure tx c dir x prior_space_refusal ve jd m =
     (let aborted = read_aborted_loss c (ve 3) jd;
          (reason, hint) = failure_reason_hint tx c x aborted (ve 4) jd;
          terminal = mux_failure_is_terminal \<lparr>mf_aborted_loss = (aborted \<noteq> None),
            mf_has_worker_reason = (mo_failure_reason x \<noteq> None), mf_is_finalize = mo_failure_finalize x\<rparr>
      in snd (record_mux_failure tx dir reason hint terminal
                (\<not> (mo_failure_space x \<and> prior_space_refusal)) (ve 5) jd m))"

text \<open>The dispatched part, under the guard that clears the muxing flag on every way out.\<close>

definition dispatch_mux ::
    "mux_texts \<Rightarrow> codec \<Rightarrow> classify \<Rightarrow> nat \<Rightarrow> mux_run \<Rightarrow> path \<Rightarrow> (nat \<Rightarrow> env) \<Rightarrow> job_dir \<Rightarrow> cards \<times> desk
       \<Rightarrow> bool \<times> job_dir \<times> cards \<times> desk" where
  "dispatch_mux tx c cl secs run dir ve jd mk_desk =
     (case mk_desk of (m, k) \<Rightarrow>
      let jd1 = write_muxing_marker dir (ve 6) jd;
          release = clear_muxing_marker dir (ve 7)
      in case read_marker c (ve 8) jd1 of
           Inl e \<Rightarrow>
             (False, release jd1,
              (if err_kind e = NotFound then m
               else record_error (path_text dir) (''malformed .ripped marker: '' @ err_text e) (mt_malformed tx) m), k)
         | Inr mk \<Rightarrow>
             (let prior = error_hint_is (path_text dir) (mt_staging_space tx) m;
                  m1 = undismiss (path_text dir) (clear_error (path_text dir) m)
              in case remux_from_ripped_marker c cl secs run dir mk ve k jd1 of (x, k1, jd2) \<Rightarrow>
                   if mo_success x
                   then (True, release jd2, clear_error (path_text dir) m1, finish_origin cl secs mk x k1)
                   else (case settle_failure tx c dir x prior ve jd2 m1 of (jd3, m2) \<Rightarrow> (True, release jd3, m2, k1))))"

text \<open>Whether the mux ran, and what it left.\<close>

definition mux_entry ::
    "mux_texts \<Rightarrow> codec \<Rightarrow> classify \<Rightarrow> nat \<Rightarrow> mux_run \<Rightarrow> path \<Rightarrow> (nat \<Rightarrow> env) \<Rightarrow> job_dir \<Rightarrow> cards \<times> desk
       \<Rightarrow> bool \<times> job_dir \<times> cards \<times> desk" where
  "mux_entry tx c cl secs run dir ve jd mk_desk =
     (case mk_desk of (m, k) \<Rightarrow>
      if jd_kind jd \<noteq> Folder then (False, jd, m, k)
      else
        case snapshot_staging_disc c dir (ve 9) jd of (snap, jd1) \<Rightarrow>
        let verdict = mux_dispatch_verdict snap;
            p = path_text dir;
            m1 = (if verdict = SkipUnreadableState \<or> verdict = SkipUnknown then m
                  else clear_error_with_prefix p state_held_prefix m)
        in case verdict of
             Dispatch \<Rightarrow> if en_leased (ve 9) then (False, jd1, m1, k)
                         else dispatch_mux tx c cl secs run dir ve jd1 (m1, k)
           | SkipAbortedLoss \<Rightarrow>
               (False, jd1, record_error p
                  (case Option.bind snap (\<lambda>s. li_aborted_loss_reason (sn_life s)) of Some r \<Rightarrow> r
                   | None \<Rightarrow> ''aborted: loss exceeded threshold'') (mt_aborted_loss tx) m1, k)
           | SkipNeedsDisc \<Rightarrow> (False, jd1, record_error p (mt_needs_disc_reason tx) (mt_needs_disc tx) m1, k)
           | SkipUnreadableState \<Rightarrow>
               (False, jd1, (case Option.bind snap sn_unreadable of None \<Rightarrow> m1
                             | Some u \<Rightarrow> record_error p (held_reason u) (mt_held tx u) m1), k)
           | _ \<Rightarrow> (False, jd1, m1, k))"

text \<open>The tick over the staging folder; an entry the listing could not name raises the root's card.\<close>

fun mux_entries ::
    "mux_texts \<Rightarrow> codec \<Rightarrow> classify \<Rightarrow> nat \<Rightarrow> string \<Rightarrow> (io_error + mux_run \<times> path \<times> (nat \<Rightarrow> env) \<times> job_dir) list \<Rightarrow> cards \<times> desk
       \<Rightarrow> (path \<times> job_dir) list \<times> cards \<times> desk" where
  "mux_entries tx c cl secs root_text [] mk = ([], mk)"
| "mux_entries tx c cl secs root_text (Inl e # es) mk =
     mux_entries tx c cl secs root_text es
       (record_error root_text (''unreadable staging entry: '' @ err_text e)
          ''a staging dir entry could not be read (NFS stat error / racing rename); it is skipped this tick and retried next tick'' (fst mk), snd mk)"
| "mux_entries tx c cl secs root_text (Inr (run, dir, ve, jd) # es) mk =
     (case mux_entry tx c cl secs run dir ve jd mk of (_, jd1, mk1) \<Rightarrow>
      case mux_entries tx c cl secs root_text es mk1 of (dirs, mk2) \<Rightarrow> ((dir, jd1) # dirs, mk2))"

definition check_and_mux ::
    "mux_texts \<Rightarrow> codec \<Rightarrow> classify \<Rightarrow> nat \<Rightarrow> (string \<Rightarrow> bool) \<Rightarrow> string
       \<Rightarrow> (io_error + (io_error + mux_run \<times> path \<times> (nat \<Rightarrow> env) \<times> job_dir) list) \<Rightarrow> cards \<times> desk
       \<Rightarrow> (path \<times> job_dir) list \<times> cards \<times> desk" where
  "check_and_mux tx c cl secs absent root_text walk mk =
     (let m = prune_stale_errors_with absent (fst mk)
      in case walk of
           Inl e \<Rightarrow> ([], record_error root_text (''cannot read staging dir: '' @ err_text e)
             ''check the staging mount (NFS) is up and the dir exists; mux is paused until it is readable'' m, snd mk)
         | Inr es \<Rightarrow> mux_entries tx c cl secs root_text es (clear_error root_text m, snd mk))"

section \<open>The queue panel\<close>

text \<open>One folder of \<open>pending_queue\<close>: its name in the list, if it is listed.\<close>

definition pending_entry :: "codec \<Rightarrow> path \<Rightarrow> string \<Rightarrow> (nat \<Rightarrow> env) \<Rightarrow> job_dir \<Rightarrow> string option \<times> job_dir" where
  "pending_entry c dir name ve jd =
     (if jd_kind jd \<noteq> Folder then (None, jd)
      else case snapshot_staging_disc c dir (ve 0) jd of (None, jd1) \<Rightarrow> (None, jd1)
      | (Some s, jd1) \<Rightarrow>
          let l = sn_life s in
          if \<not> li_ripped l \<or> li_needs_disc l \<or> li_muxing l \<or> li_completed l \<or> li_failed l \<or> li_done l \<or> li_review l
             \<or> li_aborted_loss l
          then (None, jd1)
          else (case read_marker c (ve 1) jd1 of
                  Inr mk \<Rightarrow> (Some (rm_display_name mk @ '' (queued)''), jd1)
                | Inl _ \<Rightarrow> (Some (map (\<lambda>x. if x = CHR ''_'' then CHR '' '' else x) name @ '' (malformed)''), jd1)))"

fun pending_queue :: "codec \<Rightarrow> (io_error + path \<times> string \<times> (nat \<Rightarrow> env) \<times> job_dir) list \<Rightarrow> string list" where
  "pending_queue c [] = []"
| "pending_queue c (Inl e # es) = pending_queue c es"
| "pending_queue c (Inr (dir, name, ve, jd) # es) =
     (case fst (pending_entry c dir name ve jd) of None \<Rightarrow> [] | Some t \<Rightarrow> [t]) @ pending_queue c es"

end
