(* ===== verification/Mux_Safety.thy ===== *)
theory Mux_Safety
  imports Mux_Worker
begin

text \<open>
  What becomes of a job the mux worker sees: it is muxed exactly while it is captured and not
  waiting for its disc, a finished, closed or loss-aborted one never again, and a failed run is
  retried unless its output could not be finalised, which closes the job.
\<close>

section \<open>The muxing flag\<close>

lemma mutate_present_calm:
  assumes "holds_state jd st" "ds_schema st = disc_state_schema" "\<not> ds_reset_in_progress st" "dir_ok dir" "steady v"
  shows "slot_target (mutate_state_if_present dir f (en_read v i) (en_write v j) (jd_slot jd)) = Some (Json (apply_user_metadata (f st)))"
  using assms by (simp add: mutate_state_if_present_def steady_def holds_read write_state_calm)

lemma muxing_calm:
  assumes "holds_state jd st" "in_state s st" "dir_ok dir" "steady v"
  shows "holds_state (write_muxing_marker dir v jd) (apply_user_metadata (st\<lparr>ds_muxing := True\<rparr>))"
    "holds_state (clear_muxing_marker dir v jd) (apply_user_metadata (st\<lparr>ds_muxing := False\<rparr>))"
    "jd_kind (write_muxing_marker dir v jd) = jd_kind jd" "jd_kind (clear_muxing_marker dir v jd) = jd_kind jd"
  using assms mutate_present_calm [OF assms(1) _ _ assms(3,4)]
  by (simp_all add: write_muxing_marker_def clear_muxing_marker_def in_state_def) (simp_all add: holds_state_def)

lemma apply_needs_disc [simp]: "ds_needs_disc (apply_user_metadata st) = ds_needs_disc st"
  by (auto simp: apply_user_metadata_def apply_metadata_def reroute_replan_def Let_def split: option.split)

lemma in_state_apply:
  assumes "in_state s st" "s \<in> {Sweeping, Stopped, Failed, AbortedLoss, Ripped}"
    and "ds_state x = ds_state st" "ds_schema x = ds_schema st" "ds_title_identity_review x = ds_title_identity_review st"
    and "ds_reset_in_progress x = ds_reset_in_progress st"
  shows "in_state s (apply_user_metadata x)"
  using assms apply_user_metadata_state [of x] by (simp add: in_state_def)

lemma set_muxing_in_state:
  "in_state s st \<Longrightarrow> s \<in> {Sweeping, Stopped, Failed, AbortedLoss, Ripped} \<Longrightarrow> in_state s (apply_user_metadata (st\<lparr>ds_muxing := b\<rparr>))"
  by (rule in_state_apply) simp_all

section \<open>Who is muxed\<close>

definition quiet_tick :: "(nat \<Rightarrow> env) \<Rightarrow> bool" where
  "quiet_tick ve \<longleftrightarrow> (\<forall>n. steady (ve n))"

lemma quiet_steady: "quiet_tick ve \<Longrightarrow> steady (ve n)"
  by (simp add: quiet_tick_def)

text \<open>A tick on a folder whose state is readable and not being reset.\<close>

lemma mux_entry_verdict:
  assumes "holds_state jd st" "ds_schema st = disc_state_schema" "\<not> ds_reset_in_progress st" "quiet_tick ve" "jd_kind jd = Folder"
  shows "\<not> (ds_state st = Ripped \<and> \<not> ds_needs_disc st) \<Longrightarrow>
      \<exists>m'. mux_entry tx c cl secs run dir ve jd (m, k) = (False, jd, m', k)"
    and "ds_state st = Ripped \<and> \<not> ds_needs_disc st \<Longrightarrow>
      mux_entry tx c cl secs run dir ve jd (m, k)
        = dispatch_mux tx c cl secs run dir ve jd (clear_error_with_prefix (path_text dir) state_held_prefix m, k)"
proof -
  obtain snap where s: "snapshot_staging_disc c dir (ve 9) jd = (Some snap, jd)" "sn_life snap = from_state st" "sn_unreadable snap = None"
    using snapshot_steady [OF assms(1-3) quiet_steady [OF assms(4)] assms(5)] by blast
  have l: "\<not> en_leased (ve 9)" using quiet_steady [OF assms(4), of 9] by (simp add: steady_def)
  show "\<not> (ds_state st = Ripped \<and> \<not> ds_needs_disc st) \<Longrightarrow>
      \<exists>m'. mux_entry tx c cl secs run dir ve jd (m, k) = (False, jd, m', k)"
    using s assms(5) by (auto simp: mux_entry_def mux_dispatch_verdict_def Let_def)
  show "ds_state st = Ripped \<and> \<not> ds_needs_disc st \<Longrightarrow>
      mux_entry tx c cl secs run dir ve jd (m, k)
        = dispatch_mux tx c cl secs run dir ve jd (clear_error_with_prefix (path_text dir) state_held_prefix m, k)"
    using s assms(5) l by (auto simp: mux_entry_def mux_dispatch_verdict_def Let_def)
qed

lemma mux_ran_all:
  assumes "holds_state jd st" "in_state (ds_state st) st" "quiet_tick ve" "jd_kind jd = Folder" "dir_ok dir"
  shows "(fst (mux_entry tx c cl secs run dir ve jd mk) \<longleftrightarrow> ds_state st = Ripped \<and> \<not> ds_needs_disc st)
     \<and> (\<not> (ds_state st = Ripped \<and> \<not> ds_needs_disc st) \<longrightarrow> fst (snd (mux_entry tx c cl secs run dir ve jd mk)) = jd)"
proof (intro conjI impI)
  obtain m k where mk: "mk = (m, k)" by fastforce
  have ok: "ds_schema st = disc_state_schema" "\<not> ds_reset_in_progress st" using assms(2) by (simp_all add: in_state_def)
  note v = mux_entry_verdict [OF assms(1) ok assms(3,4), where tx = tx and c = c and cl = cl and secs = secs and run = run
      and dir = dir and m = m and k = k]
  { assume "\<not> (ds_state st = Ripped \<and> \<not> ds_needs_disc st)"
    then show "fst (snd (mux_entry tx c cl secs run dir ve jd mk)) = jd" using v(1) by (auto simp: mk) }
  show "fst (mux_entry tx c cl secs run dir ve jd mk) \<longleftrightarrow> ds_state st = Ripped \<and> \<not> ds_needs_disc st"
  proof (cases "ds_state st = Ripped \<and> \<not> ds_needs_disc st")
    case True
    let ?st1 = "apply_user_metadata (st\<lparr>ds_muxing := True\<rparr>)"
    have h: "holds_state (write_muxing_marker dir (ve 6) jd) ?st1" by (rule muxing_calm(1) [OF assms(1,2,5) quiet_steady [OF assms(3)]])
    have "in_state Ripped ?st1" using set_muxing_in_state [of Ripped st True] assms(2) True by simp
    then have "read_marker c (ve 8) (write_muxing_marker dir (ve 6) jd) = Inr (to_ripped_marker ?st1)"
      using quiet_steady [OF assms(3), of 8] holds_read [OF h] by (simp add: read_marker_def steady_def in_state_def)
    with True v(2) show ?thesis by (auto simp: mk dispatch_mux_def Let_def split: prod.split)
  next
    case False
    then show ?thesis using v(1) by (auto simp: mk)
  qed
qed

lemma mux_ran:
  assumes "holds_state jd st" "in_state (ds_state st) st" "quiet_tick ve" "jd_kind jd = Folder" "dir_ok dir"
  shows "fst (mux_entry tx c cl secs run dir ve jd mk) \<longleftrightarrow> ds_state st = Ripped \<and> \<not> ds_needs_disc st"
  using mux_ran_all [OF assms] by blast

text \<open>
  The worker muxes a readable job exactly when it is captured and not waiting for its disc; any
  other, whether delivered, for review, closed, aborted for its loss, being swept, stopped or
  waiting, is left as it is, whatever the run would have done.
\<close>

theorem muxes_exactly_captured:
  assumes "holds_state jd st" "in_state (ds_state st) st" "quiet_tick ve" "jd_kind jd = Folder" "dir_ok dir"
  shows "(fst (mux_entry tx c cl secs run dir ve jd mk) \<longleftrightarrow> ds_state st = Ripped \<and> \<not> ds_needs_disc st)
     \<and> (\<not> (ds_state st = Ripped \<and> \<not> ds_needs_disc st) \<longrightarrow> fst (snd (mux_entry tx c cl secs run dir ve jd mk)) = jd)"
  by (rule mux_ran_all [OF assms])

section \<open>What a failed run leaves\<close>

lemma quarantine_calm:
  assumes "holds_state jd st" "in_state s st" "dir_ok dir" "steady v"
  shows "\<exists>jd' st'. persist_terminal_mux_quarantine tx dir reason v jd m = (True, jd', m) \<and> holds_state jd' st'
     \<and> in_state Failed st' \<and> ds_failure_reason st' = Some reason \<and> jd_kind jd' = jd_kind jd"
proof -
  let ?f = "\<lambda>st. st\<lparr>ds_state := Failed, ds_failure_reason := Some reason, ds_muxing := False\<rparr>"
  let ?st' = "apply_user_metadata (keep_operator_state st (?f st))"
  have "in_state Failed ?st' \<and> ds_failure_reason ?st' = Some reason"
    using assms(2) apply_user_metadata_state [of "keep_operator_state st (?f st)"] by (simp add: in_state_def)
  moreover obtain jd' where "write_failed_marker dir reason v jd = (True, jd')" "holds_state jd' ?st'" "jd_kind jd' = jd_kind jd"
    using close_job_calm [OF assms, of Failed ?f] unfolding write_failed_marker_def by auto
  ultimately show ?thesis unfolding persist_terminal_mux_quarantine_def by auto
qed

text \<open>What the run left on the folder and on the worker's row, on a job that stays captured.\<close>

definition run_failed :: "mux_run \<Rightarrow> string \<Rightarrow> bool \<Rightarrow> bool" where
  "run_failed run why fin \<longleftrightarrow> (\<forall>mk k jd. case run mk k jd of (k2, jd2) \<Rightarrow>
     jd_kind jd2 = Folder \<and> (\<exists>st2. holds_state jd2 st2 \<and> in_state Ripped st2 \<and> \<not> ds_needs_disc st2)
   \<and> (\<exists>r. dk_rows k2 mux_device = Some r \<and> ri_last_error r = why \<and> ri_failure_finalize r = fin))"

lemma handoff_success_calm:
  assumes "holds_state jd st" "in_state Ripped st" "steady v" "jd_kind jd = Folder"
  shows "mux_handoff_success c dir v jd = (False, jd)"
proof -
  have ok: "ds_schema st = disc_state_schema" "\<not> ds_reset_in_progress st" "\<not> ds_title_identity_review st" "ds_state st = Ripped"
    using assms(2) by (simp_all add: in_state_def)
  obtain snap where "snapshot_staging_disc c dir (later 1 0 v) jd = (Some snap, jd)" "sn_life snap = from_state st"
    using snapshot_steady [OF assms(1) ok(1,2) steady_later [OF assms(3)] assms(4)] by blast
  then show ?thesis using assms(3) ok holds_read [OF assms(1) ok(1)]
    by (simp add: mux_handoff_success_def steady_def)
qed

lemma remux_failed:
  assumes "run_failed run why fin" "quiet_tick ve"
  shows "\<exists>x k' jd' st'. remux_from_ripped_marker c cl secs run dir mk ve k jd = (x, k', jd') \<and> \<not> mo_success x
     \<and> mo_failure_reason x = (if why = [] then None else Some why) \<and> mo_failure_finalize x = (why \<noteq> [] \<and> fin)
     \<and> jd_kind jd' = Folder \<and> holds_state jd' st' \<and> in_state Ripped st' \<and> \<not> ds_needs_disc st'"
proof -
  let ?k1 = "update_state cl secs mux_device (mux_seed_row mk) k"
  obtain k2 jd2 where r: "run mk ?k1 jd = (k2, jd2)" by fastforce
  then obtain st2 row where st2: "jd_kind jd2 = Folder" "holds_state jd2 st2" "in_state Ripped st2" "\<not> ds_needs_disc st2"
    and row: "dk_rows k2 mux_device = Some row" "ri_last_error row = why" "ri_failure_finalize row = fin"
    using assms(1) [unfolded run_failed_def, rule_format, of mk ?k1 jd] by auto
  have ok: "ds_schema st2 = disc_state_schema" "\<not> ds_reset_in_progress st2" using st2(3) by (simp_all add: in_state_def)
  obtain snap where "snapshot_staging_disc c dir (ve 1) jd2 = (Some snap, jd2)" "sn_life snap = from_state st2"
    using snapshot_steady [OF st2(2) ok quiet_steady [OF assms(2)] st2(1)] by blast
  then show ?thesis using st2 row r handoff_success_calm [OF st2(2,3) quiet_steady [OF assms(2)] st2(1), of c dir]
    by (auto simp: remux_from_ripped_marker_def Let_def build_mux_handoff_outcome_def apply_failure_fields_def)
qed

lemma settle_calm:
  assumes "holds_state jd st" "in_state Ripped st" "\<not> ds_needs_disc st" "dir_ok dir" "quiet_tick ve"
    and "mo_failure_reason x = (if why = [] then None else Some why)" "mo_failure_finalize x = (why \<noteq> [] \<and> fin)"
  shows "\<exists>jd' m' st'. settle_failure tx c dir x prior ve jd m = (jd', m') \<and> jd_kind jd' = jd_kind jd \<and> holds_state jd' st'
     \<and> (if why \<noteq> [] \<and> fin then in_state Failed st' \<and> ds_failure_reason st' = Some why else st' = st)"
proof -
  have "read_aborted_loss c (ve 3) jd = None"
    using assms(2) quiet_steady [OF assms(5), of 3] holds_read [OF assms(1)] by (simp add: read_aborted_loss_def in_state_def steady_def)
  moreover obtain jd' st' where "persist_terminal_mux_quarantine tx dir why (ve 5) jd m = (True, jd', m)" "holds_state jd' st'"
    "in_state Failed st'" "ds_failure_reason st' = Some why" "jd_kind jd' = jd_kind jd"
    using quarantine_calm [OF assms(1,2,4) quiet_steady [OF assms(5)]] by blast
  ultimately show ?thesis using assms(1,6,7)
    by (auto simp: settle_failure_def failure_reason_hint_def mux_failure_is_terminal_def record_mux_failure_def Let_def)
qed


section \<open>Witnesses\<close>

definition sample_texts :: mux_texts where
  "sample_texts = \<lparr>mt_aborted_loss = ''loss'', mt_needs_disc = ''disc'', mt_needs_disc_reason = ''E7034'',
     mt_staging_space = ''space'', mt_deferred = ''keys'', mt_unfinished = ''log'', mt_quarantine = ''mount'',
     mt_malformed = ''marker'', mt_held = (\<lambda>_. ''held'')\<rparr>"

definition sample_captured :: disc_state where
  "sample_captured = new_state Ripped"

definition sample_failing_run :: mux_run where
  "sample_failing_run = (\<lambda>_ k _. (k\<lparr>dk_rows := (dk_rows k)(mux_device := Some (default_rip_state\<lparr>ri_last_error := ''E6008'',
     ri_failure_finalize := True\<rparr>))\<rparr>, sample_job_dir sample_captured))"

definition sample_tick :: "nat \<Rightarrow> env" where
  "sample_tick = (\<lambda>_. listing_of [''state.json''])"

lemma sample_mux:
  "in_state Ripped sample_captured" "\<not> ds_needs_disc sample_captured" "quiet_tick sample_tick"
  "run_failed sample_failing_run ''E6008'' True"
  by (simp_all add: in_state_def sample_captured_def new_state_def quiet_tick_def sample_tick_def sample_steady run_failed_def
      sample_failing_run_def) (intro exI [of _ sample_captured] conjI; simp add: sample_holds in_state_def sample_captured_def new_state_def)

theorem muxes_exactly_captured_witness:
  "fst (mux_entry sample_texts sample_codec sample_classify 0 sample_failing_run sample_dir sample_tick
     (sample_job_dir sample_captured) (no_cards, empty_desk))
   \<and> \<not> fst (mux_entry sample_texts sample_codec sample_classify 0 sample_failing_run sample_dir sample_tick
     (sample_job_dir sample_failed) (no_cards, empty_desk))"
proof -
  have s: "ds_state sample_captured = Ripped" "ds_state sample_failed = Failed"
    by (simp_all add: sample_captured_def sample_failed_def new_state_def)
  have f: "in_state Failed sample_failed" by (simp add: in_state_def sample_failed_def new_state_def)
  note m = muxes_exactly_captured [OF sample_holds(1) _ sample_mux(3) sample_holds(2) sample_dir_ok(1)]
  from m [of sample_captured sample_texts sample_codec sample_classify 0 sample_failing_run "(no_cards, empty_desk)"]
    m [of sample_failed sample_texts sample_codec sample_classify 0 sample_failing_run "(no_cards, empty_desk)"]
  show ?thesis using s f sample_mux(1,2) by auto
qed


end
