(* ===== verification/Move_Rows.thy ===== *)
theory Move_Rows
  imports Paths
begin

text \<open>
  The error rows of the mover (\<open>server/mover.rs\<close>, \<open>MOVE_ERRORS\<close> and \<open>RETRY_REQUESTS\<close>): what a
  failed delivery shows, when it may be tried again, and what an operator's Retry asks for. Rows
  are keyed by the text of a job's folder, or of a destination with its job as the owner. Instants
  are milliseconds; the thread's latest failure is the cause a delivery's own row reports.
\<close>

record move_row =
  mr_path :: string
  mr_reason :: string
  mr_hint :: string
  mr_attempts :: nat
  mr_retry_held :: bool
  mr_waiting_for_folder :: bool
  mr_worker_active :: bool
  mr_retrying :: bool
  mr_waiting_root :: "path option"
  mr_copy_stalled :: bool
  mr_retry_after :: "nat option"
  mr_owner :: "string option"
  mr_missing_folder :: bool
  mr_stall_resume :: "nat option option"
  mr_teardown_attempts :: nat

record move_board =
  mb_rows :: "string \<rightharpoonup> move_row"
  mb_requests :: "string \<rightharpoonup> bool"
  mb_failure :: "string option"

definition fresh_board :: move_board where
  "fresh_board = \<lparr>mb_rows = (\<lambda>_. None), mb_requests = (\<lambda>_. None), mb_failure = None\<rparr>"

text \<open>\<open>get_mut(key)\<close> and a change of what it found.\<close>

definition change_row :: "string \<Rightarrow> (move_row \<Rightarrow> move_row) \<Rightarrow> move_board \<Rightarrow> move_board" where
  "change_row k f b = (case mb_rows b k of None \<Rightarrow> b | Some r \<Rightarrow> b\<lparr>mb_rows := (mb_rows b)(k \<mapsto> f r)\<rparr>)"

definition move_retry_delay :: "nat \<Rightarrow> nat option" where
  "move_retry_delay attempts = (if attempts = 1 then Some 30000 else if attempts = 2 then Some 120000 else None)"

definition longest_backoff :: nat where
  "longest_backoff = 120000"

definition mark_retrying :: "string \<Rightarrow> move_board \<Rightarrow> move_board" where
  "mark_retrying k b = change_row k (\<lambda>r. r\<lparr>mr_retrying := True\<rparr>) b"

definition end_retrying :: "string \<Rightarrow> move_board \<Rightarrow> move_board" where
  "end_retrying k b = change_row k (\<lambda>r. r\<lparr>mr_retrying := False\<rparr>) b"

definition move_retry_ready :: "nat \<Rightarrow> string \<Rightarrow> move_board \<Rightarrow> bool" where
  "move_retry_ready now k b = (case mb_rows b k of None \<Rightarrow> True
     | Some r \<Rightarrow> (case mr_retry_after r of None \<Rightarrow> False | Some t \<Rightarrow> t \<le> now))"

section \<open>Recording\<close>

definition record_move_error_at_stage ::
    "nat \<Rightarrow> string \<Rightarrow> string \<Rightarrow> string \<Rightarrow> path option \<Rightarrow> move_board \<Rightarrow> move_board" where
  "record_move_error_at_stage now k reason hint waiting b =
     (let attempts = (case mb_rows b k of None \<Rightarrow> 0 | Some r \<Rightarrow> mr_attempts r);
          teardowns = (case mb_rows b k of None \<Rightarrow> 0 | Some r \<Rightarrow> mr_teardown_attempts r);
          after = (case mb_rows b k of None \<Rightarrow> Some now | Some r \<Rightarrow> mr_retry_after r)
      in b\<lparr>mb_rows := (mb_rows b)(k \<mapsto> \<lparr>mr_path = k, mr_reason = reason, mr_hint = hint, mr_attempts = attempts,
            mr_retry_held = (after = None), mr_waiting_for_folder = (waiting \<noteq> None), mr_worker_active = False,
            mr_retrying = False, mr_waiting_root = waiting, mr_copy_stalled = False, mr_retry_after = after,
            mr_owner = None, mr_missing_folder = False, mr_stall_resume = None, mr_teardown_attempts = teardowns\<rparr>)\<rparr>)"

definition record_move_error :: "nat \<Rightarrow> string \<Rightarrow> string \<Rightarrow> string \<Rightarrow> move_board \<Rightarrow> move_board" where
  "record_move_error now k reason hint b = record_move_error_at_stage now k reason hint None b"

definition note_failure :: "string \<Rightarrow> move_board \<Rightarrow> move_board" where
  "note_failure detail b = b\<lparr>mb_failure := Some detail\<rparr>"

definition take_failure :: "move_board \<Rightarrow> string option \<times> move_board" where
  "take_failure b = (mb_failure b, b\<lparr>mb_failure := None\<rparr>)"

definition record_dest_error :: "nat \<Rightarrow> path \<Rightarrow> path \<Rightarrow> string \<Rightarrow> string \<Rightarrow> string \<Rightarrow> move_board \<Rightarrow> move_board" where
  "record_dest_error now dest job what error hint b =
     (let reason = what @ '': '' @ error
      in change_row (path_text dest) (\<lambda>r. r\<lparr>mr_owner := Some (path_text job)\<rparr>)
           (record_move_error now (path_text dest) reason hint (note_failure reason b)))"

text \<open>\<open>back_off_unjournaled\<close> and \<open>teardown_blocked\<close>: the backoffs that stay in memory.\<close>

definition back_off_unjournaled :: "nat \<Rightarrow> string \<Rightarrow> move_board \<Rightarrow> move_board" where
  "back_off_unjournaled now k b = change_row k (\<lambda>r.
     let n = saturating_add 32 (mr_attempts r) 1; after = map_option (\<lambda>d. now + d) (move_retry_delay n)
     in r\<lparr>mr_attempts := n, mr_retry_after := after, mr_retry_held := (after = None)\<rparr>) b"

definition teardown_blocked :: "nat \<Rightarrow> string \<Rightarrow> string \<Rightarrow> string \<Rightarrow> move_board \<Rightarrow> move_board" where
  "teardown_blocked now k reason hint b = change_row k (\<lambda>r.
     let n = saturating_add 32 (mr_teardown_attempts r) 1; after = map_option (\<lambda>d. now + d) (move_retry_delay n)
     in r\<lparr>mr_teardown_attempts := n, mr_retry_after := after, mr_retry_held := (after = None)\<rparr>)
     (record_move_error now k reason hint b)"

section \<open>Clearing\<close>

definition keep_rows :: "(string \<Rightarrow> move_row \<Rightarrow> bool) \<Rightarrow> move_board \<Rightarrow> move_board" where
  "keep_rows p b = b\<lparr>mb_rows := (\<lambda>k. case mb_rows b k of None \<Rightarrow> None | Some r \<Rightarrow> if p k r then Some r else None)\<rparr>"

definition clear_recovered_folder_wait :: "string \<Rightarrow> move_board \<Rightarrow> move_board" where
  "clear_recovered_folder_wait k b = (case mb_rows b k of None \<Rightarrow> b
     | Some r \<Rightarrow> if mr_waiting_for_folder r \<and> mr_attempts r = 0 then b\<lparr>mb_rows := (mb_rows b)(k := None)\<rparr> else b)"

definition clear_recovered_folder_waits_for :: "path \<Rightarrow> move_board \<Rightarrow> move_board" where
  "clear_recovered_folder_waits_for r b = keep_rows (\<lambda>_ x. \<not> (mr_attempts x = 0 \<and> mr_waiting_root x = Some r)) b"

text \<open>\<open>clear_error\<close>: the row of a path and those its delivery raised.\<close>

definition clear_delivery_error :: "string \<Rightarrow> move_board \<Rightarrow> move_board" where
  "clear_delivery_error k b = keep_rows (\<lambda>q r. q \<noteq> k \<and> mr_owner r \<noteq> Some k) b"

definition clear_stale_dest_error :: "path \<Rightarrow> move_board \<Rightarrow> move_board" where
  "clear_stale_dest_error dest b = clear_delivery_error (path_text dest) b"

definition prune_move_errors :: "(string \<Rightarrow> bool) \<Rightarrow> string set \<Rightarrow> move_board \<Rightarrow> move_board" where
  "prune_move_errors child seen b =
     (let live = (\<lambda>k. \<not> child k \<or> k \<in> seen);
          b1 = keep_rows (\<lambda>k r. live k \<and> (case mr_owner r of None \<Rightarrow> True | Some ow \<Rightarrow> live ow)) b
      in b1\<lparr>mb_requests := (\<lambda>k. if child k \<and> k \<in> seen then mb_requests b1 k else None)\<rparr>)"

section \<open>Retry\<close>

definition add_request :: "string \<Rightarrow> bool \<Rightarrow> move_board \<Rightarrow> move_board" where
  "add_request k consents b =
     b\<lparr>mb_requests := (mb_requests b)(k \<mapsto> (case mb_requests b k of None \<Rightarrow> consents | Some c \<Rightarrow> c \<or> consents))\<rparr>"

text \<open>\<open>clear_move_error\<close>: whether anything was scheduled.\<close>

definition clear_move_error :: "string \<Rightarrow> move_board \<Rightarrow> bool \<times> move_board" where
  "clear_move_error k b =
     (case mb_rows b k of None \<Rightarrow> (False, b)
      | Some r \<Rightarrow>
          let delivery = (case mr_owner r of None \<Rightarrow> k | Some ow \<Rightarrow> ow);
              blocked = (case mb_rows b delivery of None \<Rightarrow> False | Some e \<Rightarrow> mr_worker_active e)
          in if mr_worker_active r \<or> blocked then (False, b)
             else (True, add_request delivery (mr_missing_folder r)
                     (b\<lparr>mb_rows := (mb_rows b)(k := None, delivery := None)\<rparr>)))"

definition clear_all_move_errors :: "move_board \<Rightarrow> move_board" where
  "clear_all_move_errors b =
     \<lparr>mb_rows = (\<lambda>k. case mb_rows b k of None \<Rightarrow> None | Some r \<Rightarrow> if mr_worker_active r then Some r else None),
      mb_requests = (\<lambda>k. case mb_rows b k of None \<Rightarrow> mb_requests b k
        | Some r \<Rightarrow> if mr_worker_active r then mb_requests b k
            else Some (mr_missing_folder r \<or> mb_requests b k = Some True)),
      mb_failure = mb_failure b\<rparr>"

lemma change_row_rows [simp]:
  "mb_rows (change_row k f b) = (mb_rows b)(k := map_option f (mb_rows b k))"
  by (simp add: change_row_def fun_eq_iff split: option.split)

lemma change_row_rest [simp]:
  "mb_requests (change_row k f b) = mb_requests b" "mb_failure (change_row k f b) = mb_failure b"
  by (simp_all add: change_row_def split: option.split)

lemma record_move_error_row [simp]:
  "map_option mr_attempts (mb_rows (record_move_error now k reason hint b) k)
     = Some (case mb_rows b k of None \<Rightarrow> 0 | Some r \<Rightarrow> mr_attempts r)"
  by (simp add: record_move_error_def record_move_error_at_stage_def Let_def)

lemma record_move_error_requests [simp]: "mb_requests (record_move_error now k reason hint b) = mb_requests b"
  by (simp add: record_move_error_def record_move_error_at_stage_def Let_def)

end
