(* ===== verification/Delivery_Disk.thy ===== *)
theory Delivery_Disk
  imports Durable Server_Util Move_Rows
begin

text \<open>
  The file system as a delivery meets it. Every system call is one step of a \<open>volume\<close>: first
  other processes do what they do (\<open>ev_foreign\<close>), then the call fails (\<open>ev_fault\<close>) or does its
  work, and the call counter moves on. A run that a crash cuts off at some call is one in which
  every call from there on fails, so what holds after a run with any faults holds after a crash.

  The calls into the disc crate (\<open>publish::no_replace\<close>, the syncs) and the answers of the kernel
  (listings, resolved paths, the clock) are the environment's. A path names one file throughout; the
  code's guard against folders swapped for links is the resolved path it compares
  (\<open>verify_parent\<close>). Fallible code is a function from the volume to a result and the volume;
  \<open>try_io\<close> is Rust's \<open>?\<close>.
\<close>

section \<open>Volumes\<close>

datatype disk_node = RegularFile (nd_bytes: string) (nd_modified: nat) | DirNode | SpecialNode

type_synonym nodes = "path \<rightharpoonup> disk_node"

record 'j volume =
  vo_nodes :: nodes
  vo_journal :: "'j doc slot"      \<comment> \<open>the job's delivery journal and its \<open>.tmp\<close>\<close>
  vo_board :: move_board
  vo_calls :: nat

text \<open>How the copy monitor saw its worker end: drained, stalled for a reason, or cancelled.\<close>

datatype monitor_verdict = Drained | DrainedStalled string | DrainedCancelled

record world_env =
  ev_fault :: "nat \<Rightarrow> io_error option"
  ev_foreign :: "nat \<Rightarrow> nodes \<Rightarrow> nodes"
  ev_list :: "nat \<Rightarrow> path \<Rightarrow> nodes \<Rightarrow> (io_error + string) list"  \<comment> \<open>the entries a listing shows\<close>
  ev_resolve :: "nat \<Rightarrow> path \<Rightarrow> path io_result"     \<comment> \<open>\<open>canonicalize\<close>\<close>
  ev_save :: "nat \<Rightarrow> faults"                       \<comment> \<open>the faults of a durable write\<close>
  ev_publish :: "path \<Rightarrow> path \<Rightarrow> nodes \<Rightarrow> unit io_result \<times> nodes"
  ev_chunk :: "nat \<Rightarrow> nat"                         \<comment> \<open>how much a read or a cut write does\<close>
  ev_mtime :: "nat \<Rightarrow> nat"                         \<comment> \<open>the time the kernel gives a written file\<close>
  ev_cancel :: "nat \<Rightarrow> bool"                       \<comment> \<open>the shutdown flag or the halt token\<close>
  ev_shutdown :: "nat \<Rightarrow> bool"                     \<comment> \<open>the shutdown flag alone\<close>
  ev_monitor :: "path \<Rightarrow> monitor_verdict"          \<comment> \<open>per destination\<close>
  ev_spawn :: bool                               \<comment> \<open>the copy worker starts\<close>
  ev_now :: "nat \<Rightarrow> nat"                           \<comment> \<open>\<open>Instant::now()\<close>, in milliseconds\<close>
  ev_wall :: "nat \<Rightarrow> nat"                          \<comment> \<open>\<open>SystemTime::now()\<close>, in milliseconds\<close>
  ev_pid :: nat

definition try_io :: "('w \<Rightarrow> ('e + 'a) \<times> 'w) \<Rightarrow> ('a \<Rightarrow> 'w \<Rightarrow> ('e + 'b) \<times> 'w) \<Rightarrow> 'w \<Rightarrow> ('e + 'b) \<times> 'w" where
  "try_io m f w = (case m w of (Inl e, w') \<Rightarrow> (Inl e, w') | (Inr x, w') \<Rightarrow> f x w')"

definition map_err :: "('e \<Rightarrow> 'f) \<Rightarrow> ('w \<Rightarrow> ('e + 'a) \<times> 'w) \<Rightarrow> 'w \<Rightarrow> ('f + 'a) \<times> 'w" where
  "map_err g m w = (case m w of (Inl e, w') \<Rightarrow> (Inl (g e), w') | (Inr x, w') \<Rightarrow> (Inr x, w'))"

definition give :: "'a \<Rightarrow> 'w \<Rightarrow> ('e + 'a) \<times> 'w" where
  "give x w = (Inr x, w)"

definition fail :: "'e \<Rightarrow> 'w \<Rightarrow> ('e + 'a) \<times> 'w" where
  "fail e w = (Inl e, w)"

text \<open>\<open>match m { Ok(..) => .., Err(..) => .. }\<close>.\<close>

definition attempt_io :: "('w \<Rightarrow> ('e + 'a) \<times> 'w) \<Rightarrow> ('e + 'a \<Rightarrow> 'w \<Rightarrow> 'b \<times> 'w) \<Rightarrow> 'w \<Rightarrow> 'b \<times> 'w" where
  "attempt_io m f w = (case m w of (r, w') \<Rightarrow> f r w')"

text \<open>\<open>for x in xs { f(x)? }\<close>.\<close>

fun each_io :: "('x \<Rightarrow> 'w \<Rightarrow> ('e + unit) \<times> 'w) \<Rightarrow> 'x list \<Rightarrow> 'w \<Rightarrow> ('e + unit) \<times> 'w" where
  "each_io f [] w = give () w"
| "each_io f (x # xs) w = try_io (f x) (\<lambda>_. each_io f xs) w"

type_synonym ('j, 'a) io = "'j volume \<Rightarrow> 'a io_result \<times> 'j volume"

definition syscall :: "world_env \<Rightarrow> (nat \<Rightarrow> nodes \<Rightarrow> 'a io_result \<times> nodes) \<Rightarrow> ('j, 'a) io" where
  "syscall v f w =
     (let n = vo_calls w; m = ev_foreign v n (vo_nodes w)
      in case (case ev_fault v n of Some e \<Rightarrow> (Inl e, m) | None \<Rightarrow> f n m) of
           (r, m') \<Rightarrow> (r, w\<lparr>vo_nodes := m', vo_calls := Suc n\<rparr>))"

definition cancelled :: "world_env \<Rightarrow> 'j volume \<Rightarrow> bool" where
  "cancelled v w \<longleftrightarrow> ev_cancel v (vo_calls w)"

definition on_board :: "(move_board \<Rightarrow> move_board) \<Rightarrow> 'j volume \<Rightarrow> 'j volume" where
  "on_board f w = w\<lparr>vo_board := f (vo_board w)\<rparr>"

definition vo_now :: "world_env \<Rightarrow> 'j volume \<Rightarrow> nat" where
  "vo_now v w = ev_now v (vo_calls w)"

section \<open>System calls\<close>

definition absent :: io_error where
  "absent = IoError NotFound ''No such file or directory''"

definition symlink_metadata :: "world_env \<Rightarrow> path \<Rightarrow> ('j, disk_node) io" where
  "symlink_metadata v p = syscall v (\<lambda>_ m. (case m p of None \<Rightarrow> Inl absent | Some n \<Rightarrow> Inr n, m))"

definition remove_path :: "world_env \<Rightarrow> path \<Rightarrow> ('j, unit) io" where
  "remove_path v p = syscall v (\<lambda>_ m. case m p of None \<Rightarrow> (Inl absent, m)
     | Some DirNode \<Rightarrow> (Inl (io_other ''is a directory''), m) | Some _ \<Rightarrow> (Inr (), m(p := None)))"

definition remove_folder :: "world_env \<Rightarrow> path \<Rightarrow> ('j, unit) io" where
  "remove_folder v p w = syscall v (\<lambda>n m.
     if m p \<noteq> Some DirNode then (Inl absent, m)
     else if slot_target (vo_journal w) \<noteq> None \<or> slot_tmp (vo_journal w) \<noteq> None \<or> ev_list v n p m \<noteq> []
     then (Inl (io_other ''directory not empty''), m) else (Inr (), m(p := None))) w"

definition list_folder :: "world_env \<Rightarrow> path \<Rightarrow> ('j, (io_error + string) list) io" where
  "list_folder v p = syscall v (\<lambda>n m. (Inr (ev_list v n p m), m))"

definition read_bytes_at :: "world_env \<Rightarrow> path \<Rightarrow> ('j, string) io" where
  "read_bytes_at v p = syscall v (\<lambda>_ m. (case m p of Some (RegularFile c _) \<Rightarrow> Inr c
     | None \<Rightarrow> Inl absent | Some _ \<Rightarrow> Inl (io_other ''not a regular file''), m))"

definition resolve :: "world_env \<Rightarrow> path \<Rightarrow> ('j, path) io" where
  "resolve v p = syscall v (\<lambda>n m. (ev_resolve v n p, m))"

text \<open>\<open>durable_sync_file\<close>, \<open>fsync::dir_checked\<close> and, its failure ignored, \<open>fsync::dir\<close>.\<close>

definition sync_path :: "world_env \<Rightarrow> path \<Rightarrow> ('j, unit) io" where
  "sync_path v p = syscall v (\<lambda>_ m. (Inr (), m))"

definition publish_path :: "world_env \<Rightarrow> path \<Rightarrow> path \<Rightarrow> ('j, unit) io" where
  "publish_path v s d = syscall v (\<lambda>_ m. ev_publish v s d m)"

section \<open>Stamps\<close>

text \<open>\<open>Stamp::read\<close> and \<open>Stamp::verify\<close> of \<open>server/util.rs\<close>.\<close>

definition stamp_of :: "disk_node \<Rightarrow> stamp option" where
  "stamp_of n = (case n of RegularFile c t \<Rightarrow> Some \<lparr>st_size = length c, st_modified = t\<rparr> | _ \<Rightarrow> None)"

definition stamp_read :: "world_env \<Rightarrow> path \<Rightarrow> ('j, stamp) io" where
  "stamp_read v p = syscall v (\<lambda>_ m. (case m p of None \<Rightarrow> Inl absent
     | Some n \<Rightarrow> (case stamp_of n of None \<Rightarrow> Inl (io_other (''not a regular file: '' @ path_text p)) | Some s \<Rightarrow> Inr s), m))"

definition stamp_verify :: "world_env \<Rightarrow> stamp \<Rightarrow> path \<Rightarrow> ('j, unit) io" where
  "stamp_verify v s p = try_io (stamp_read v p) (\<lambda>now.
     if now \<noteq> s then fail (io_other (''file changed since it was recorded: '' @ path_text p)) else give ())"

section \<open>What a run keeps\<close>

text \<open>
  Triples in the style of Hoare logic: from a volume where \<open>P\<close> holds, a run that succeeds ends where
  its result's \<open>Q\<close> holds, one that fails where \<open>E\<close> does.
\<close>

definition triple :: "('w \<Rightarrow> bool) \<Rightarrow> ('w \<Rightarrow> ('e + 'a) \<times> 'w) \<Rightarrow> ('a \<Rightarrow> 'w \<Rightarrow> bool) \<Rightarrow> ('e \<Rightarrow> 'w \<Rightarrow> bool) \<Rightarrow> bool" where
  "triple P m Q E \<longleftrightarrow> (\<forall>w. P w \<longrightarrow> (case m w of (Inl e, w') \<Rightarrow> E e w' | (Inr x, w') \<Rightarrow> Q x w'))"

abbreviation keeps :: "('w \<Rightarrow> bool) \<Rightarrow> ('w \<Rightarrow> ('e + 'a) \<times> 'w) \<Rightarrow> bool" where
  "keeps P m \<equiv> triple P m (\<lambda>_. P) (\<lambda>_. P)"

named_theorems triples \<open>rules that a verification condition is reduced with\<close>

lemma tripleI:
  "(\<And>w e w'. P w \<Longrightarrow> m w = (Inl e, w') \<Longrightarrow> E e w') \<Longrightarrow> (\<And>w x w'. P w \<Longrightarrow> m w = (Inr x, w') \<Longrightarrow> Q x w')
    \<Longrightarrow> triple P m Q E"
  by (auto simp: triple_def split: prod.split sum.split)

lemma triple_run: "triple P m Q E \<Longrightarrow> P w \<Longrightarrow> m w = (r, w') \<Longrightarrow> (case r of Inl e \<Rightarrow> E e w' | Inr x \<Rightarrow> Q x w')"
  by (auto simp: triple_def split: prod.splits sum.splits)

lemma triple_try_io [triples]:
  "triple P m R E \<Longrightarrow> (\<And>x. triple (R x) (f x) Q E) \<Longrightarrow> triple P (try_io m f) Q E"
  by (fastforce simp: triple_def try_io_def split: prod.splits sum.splits)

lemma triple_attempt_io:
  assumes m: "triple P m R F" and ok: "\<And>x. triple (R x) (f (Inr x)) Q E" and err: "\<And>e. triple (F e) (f (Inl e)) Q E"
  shows "triple P (attempt_io m f) Q E"
  unfolding triple_def
proof (intro allI impI)
  fix w assume "P w"
  obtain r w' where r: "m w = (r, w')" by fastforce
  have s: "case r of Inl e \<Rightarrow> F e w' | Inr x \<Rightarrow> R x w'" by (rule triple_run [OF m \<open>P w\<close> r])
  show "case attempt_io m f w of (Inl e, u) \<Rightarrow> E e u | (Inr x, u) \<Rightarrow> Q x u"
  proof (cases r)
    case (Inl e)
    with r s err [of e] show ?thesis by (simp add: triple_def attempt_io_def)
  next
    case (Inr x)
    with r s ok [of x] show ?thesis by (simp add: triple_def attempt_io_def)
  qed
qed

lemma triple_map_err [triples]: "triple P m Q (\<lambda>e. E (g e)) \<Longrightarrow> triple P (map_err g m) Q E"
  by (fastforce simp: triple_def map_err_def split: prod.splits sum.splits)

lemma triple_give [triples]: "(\<And>w. P w \<Longrightarrow> Q x w) \<Longrightarrow> triple P (give x) Q E"
  by (simp add: triple_def give_def)

lemma triple_fail [triples]: "(\<And>w. P w \<Longrightarrow> E e w) \<Longrightarrow> triple P (fail e) Q E"
  by (simp add: triple_def fail_def)

lemma triple_weaken:
  "triple P m Q E \<Longrightarrow> (\<And>w. P' w \<Longrightarrow> P w) \<Longrightarrow> (\<And>x w. Q x w \<Longrightarrow> Q' x w) \<Longrightarrow> (\<And>e w. E e w \<Longrightarrow> E' e w) \<Longrightarrow> triple P' m Q' E'"
  by (fastforce simp: triple_def split: prod.splits sum.splits)

lemma triple_if [triples]:
  "(b \<Longrightarrow> triple P m Q E) \<Longrightarrow> (\<not> b \<Longrightarrow> triple P m' Q E) \<Longrightarrow> triple P (if b then m else m') Q E"
  by simp

lemma triple_each:
  "(\<And>x. x \<in> set xs \<Longrightarrow> keeps P (f x)) \<Longrightarrow> keeps P (each_io f xs)"
proof (induction xs)
  case Nil
  have "each_io f [] = give ()" by (simp add: fun_eq_iff)
  then show ?case by (simp add: triple_give)
next
  case (Cons x xs)
  have "each_io f (x # xs) = try_io (f x) (\<lambda>_. each_io f xs)" by (simp add: fun_eq_iff)
  with Cons show ?case by (auto intro: triple_try_io)
qed

text \<open>
  What holds of the journal and the files, and survives the other processes, survives a call that
  keeps it; a call's answer may be known from the files it saw.
\<close>

lemma triple_syscall:
  assumes "\<And>n j m. I j m \<Longrightarrow> I j (ev_foreign v n m)"
    and "\<And>n j m e m'. I j m \<Longrightarrow> f n m = (Inl e, m') \<Longrightarrow> E e j m'"
    and "\<And>n j m x m'. I j m \<Longrightarrow> f n m = (Inr x, m') \<Longrightarrow> Q x j m'"
    and "\<And>n j m e. I j m \<Longrightarrow> ev_fault v n = Some e \<Longrightarrow> E e j m"
  shows "triple (\<lambda>w. I (vo_journal w) (vo_nodes w)) (syscall v f)
     (\<lambda>x w. Q x (vo_journal w) (vo_nodes w)) (\<lambda>e w. E e (vo_journal w) (vo_nodes w))"
proof (rule tripleI)
  fix w e w'
  assume w: "I (vo_journal w) (vo_nodes w)" and run: "syscall v f w = (Inl e, w')"
  from assms(1) [OF w, of "vo_calls w"] have i: "I (vo_journal w) (ev_foreign v (vo_calls w) (vo_nodes w))" .
  show "E e (vo_journal w') (vo_nodes w')"
  proof (cases "ev_fault v (vo_calls w)")
    case None
    with run assms(2) [OF i] show ?thesis by (auto simp: syscall_def Let_def split: prod.splits)
  next
    case (Some e')
    with run assms(4) [OF i] show ?thesis by (auto simp: syscall_def Let_def)
  qed
next
  fix w x w'
  assume w: "I (vo_journal w) (vo_nodes w)" and run: "syscall v f w = (Inr x, w')"
  from assms(1) [OF w, of "vo_calls w"] have i: "I (vo_journal w) (ev_foreign v (vo_calls w) (vo_nodes w))" .
  from run assms(3) [OF i] show "Q x (vo_journal w') (vo_nodes w')"
    by (auto simp: syscall_def Let_def split: prod.splits option.splits)
qed

section \<open>Runs that keep a property of the volume\<close>

definition vol :: "('j doc slot \<Rightarrow> nodes \<Rightarrow> bool) \<Rightarrow> 'j volume \<Rightarrow> bool" where
  "vol I w \<longleftrightarrow> I (vo_journal w) (vo_nodes w)"

lemma keeps_iff: "keeps P m \<longleftrightarrow> (\<forall>w. P w \<longrightarrow> P (snd (m w)))"
  unfolding triple_def by (rule all_cong) (simp split: prod.split sum.split)

lemma keeps_try_io: "keeps P m \<Longrightarrow> (\<And>x. keeps P (f x)) \<Longrightarrow> keeps P (try_io m f)"
  by (rule triple_try_io)

lemma keeps_attempt: "keeps P m \<Longrightarrow> (\<And>r. keeps P (f r)) \<Longrightarrow> keeps P (attempt_io m f)"
  by (rule triple_attempt_io)

lemma keeps_give: "keeps P (give x)" and keeps_fail: "keeps P (fail e)"
  by (simp_all add: triple_give triple_fail)

lemma keeps_option: "keeps P a \<Longrightarrow> (\<And>x. keeps P (f x)) \<Longrightarrow> keeps P (case y of None \<Rightarrow> a | Some x \<Rightarrow> f x)"
  by (cases y) auto

lemma keeps_sum: "(\<And>x. keeps P (f x)) \<Longrightarrow> (\<And>x. keeps P (g x)) \<Longrightarrow> keeps P (case y of Inl x \<Rightarrow> f x | Inr x \<Rightarrow> g x)"
  by (cases y) auto

lemma keeps_node: "(\<And>c t. keeps P (f c t)) \<Longrightarrow> keeps P a \<Longrightarrow> keeps P b
   \<Longrightarrow> keeps P (case y of RegularFile c t \<Rightarrow> f c t | DirNode \<Rightarrow> a | SpecialNode \<Rightarrow> b)"
  by (cases y) auto

lemma keeps_if: "keeps P a \<Longrightarrow> keeps P b \<Longrightarrow> keeps P (if x then a else b)"
  by simp

lemma keeps_map_err: "keeps P m \<Longrightarrow> keeps P (map_err g m)"
  by (rule triple_map_err)

lemma triple_map_err': "triple P m Q (\<lambda>_. E) \<Longrightarrow> triple P (map_err g m) Q (\<lambda>_. E)"
  by (rule triple_map_err)

lemmas keeps_rules = keeps_try_io keeps_attempt keeps_give keeps_fail keeps_option keeps_sum keeps_node keeps_if
  keeps_map_err triple_each

lemma triple_keeps: "keeps (vol I) m \<Longrightarrow> triple (\<lambda>w. vol I w \<and> c) m (\<lambda>_ w. vol I w \<and> c) (\<lambda>_. vol I)"
  by (auto simp: triple_def split: prod.splits sum.splits)

lemma triple_fact: "(c \<Longrightarrow> triple P m Q E) \<Longrightarrow> triple (\<lambda>w. P w \<and> c) m Q E"
  by (auto simp: triple_def)

lemma vol_board [simp]: "vol I (on_board f w) = vol I w" "vol I (w\<lparr>vo_board := b\<rparr>) = vol I w"
  by (simp_all add: vol_def on_board_def)

end
