(* ===== verification/Delivery_Journal.thy ===== *)
theory Delivery_Journal
  imports Delivery_Disk Staging_State Staging_Resume
begin

text \<open>
  The delivery journal (\<open>server/mover_manifest.rs\<close>): what a delivery froze about its files before the
  first one moved, its loading with the checks that refuse a foreign one, its creation, and its
  updates, each of which loads, changes and saves it. The journal is one durable file in the job's
  folder; the hand-off value it carries is kept as text, and a configured root or planned
  destination is the path its text reads as.
\<close>

record delivery_entry =
  dl_source :: path
  dl_destination :: path
  dl_identity :: stamp            \<comment> \<open>\<open>source_identity\<close>\<close>
  dl_prepared :: "stamp option"
  dl_completed :: bool
  dl_planned :: "path option"

record cleanup_entry =
  cl_path :: path
  cl_identity :: stamp

record delivery_retry =           \<comment> \<open>\<open>RetryState\<close>\<close>
  rt_attempts :: nat
  rt_not_before :: "nat option"
  rt_reason :: string
  rt_hint :: string

record manifest =
  mn_version :: nat
  mn_directory :: path
  mn_marker :: string
  mn_outputs :: "disc_output list"
  mn_roots :: "path list"
  mn_entries :: "delivery_entry list"
  mn_cleanup :: "cleanup_entry list"
  mn_retry :: "delivery_retry option"
  mn_announced :: bool

type_synonym 'a mio = "(manifest, 'a) io"

definition prepared_stamp :: "delivery_entry \<Rightarrow> stamp io_result" where
  "prepared_stamp e = (case dl_prepared e of None \<Rightarrow> Inl (io_other ''delivery identity missing'') | Some s \<Rightarrow> Inr s)"

definition journal_path :: "path \<Rightarrow> path" where
  "journal_path dir = path_join dir [Normal delivery_journal]"

section \<open>Loading\<close>

definition manifest_valid :: "path \<Rightarrow> manifest \<Rightarrow> bool" where
  "manifest_valid d m \<longleftrightarrow> mn_version m = 1 \<and> mn_directory m = d \<and> mn_entries m \<noteq> []
     \<and> list_all (\<lambda>e. path_parent (dl_source e) = Some d \<and> is_absolute (dl_destination e)
          \<and> list_ex (\<lambda>r. path_starts_with (dl_destination e) r) (mn_roots m)) (mn_entries m)
     \<and> list_all (\<lambda>e. path_parent (cl_path e) = Some d) (mn_cleanup m)"

definition journal_there :: "world_env \<Rightarrow> unit mio" where
  "journal_there v w = syscall v (\<lambda>_ m. (if slot_target (vo_journal w) = None then Inl absent else Inr (), m)) w"

definition journal_read :: "world_env \<Rightarrow> manifest mio" where
  "journal_read v w = syscall v (\<lambda>_ m. (case slot_target (vo_journal w) of None \<Rightarrow> Inl absent
     | Some (Damaged why) \<Rightarrow> Inl (io_other why) | Some (Json x) \<Rightarrow> Inr x, m)) w"

definition load_manifest :: "world_env \<Rightarrow> path \<Rightarrow> manifest option mio" where
  "load_manifest v dir = attempt_io (journal_there v) (\<lambda>r. case r of
       Inl e \<Rightarrow> if err_kind e = NotFound then give None else fail e
     | Inr _ \<Rightarrow> try_io (journal_read v) (\<lambda>m. try_io (resolve v dir) (\<lambda>d.
         if manifest_valid d m then give (Some m)
         else fail (io_other ''invalid delivery manifest; refusing recovery''))))"

definition require_manifest :: "world_env \<Rightarrow> path \<Rightarrow> manifest mio" where
  "require_manifest v dir = try_io (load_manifest v dir) (\<lambda>m. case m of
       None \<Rightarrow> fail (io_other ''delivery manifest disappeared'') | Some x \<Rightarrow> give x)"

definition entry_at :: "nat \<Rightarrow> manifest \<Rightarrow> delivery_entry mio" where
  "entry_at i m = (if i < length (mn_entries m) then give (mn_entries m ! i) else fail (io_other ''invalid delivery entry''))"

section \<open>Saving\<close>

definition save_manifest :: "world_env \<Rightarrow> manifest \<Rightarrow> unit mio" where
  "save_manifest v m w =
     (let n = vo_calls w; ms = ev_foreign v n (vo_nodes w)
      in case write_marker_durable (journal_path (mn_directory m)) (Json m) (ev_save v n) (vo_journal w) of
           (r, sl) \<Rightarrow> (r, w\<lparr>vo_nodes := ms, vo_journal := sl, vo_calls := Suc n\<rparr>))"

text \<open>\<open>update\<close>, one step against other updates, and what it is used for.\<close>

definition update_manifest :: "world_env \<Rightarrow> path \<Rightarrow> (manifest \<Rightarrow> manifest io_result) \<Rightarrow> unit mio" where
  "update_manifest v dir change = try_io (require_manifest v dir) (\<lambda>m. case change m of
       Inl e \<Rightarrow> fail e | Inr m' \<Rightarrow> save_manifest v m')"

definition change_entry :: "nat \<Rightarrow> (delivery_entry \<Rightarrow> delivery_entry) \<Rightarrow> manifest \<Rightarrow> manifest io_result" where
  "change_entry i f m = (if i < length (mn_entries m)
     then Inr (m\<lparr>mn_entries := (mn_entries m)[i := f (mn_entries m ! i)]\<rparr>) else Inl (io_other ''invalid delivery entry''))"

definition mark_announced :: "world_env \<Rightarrow> path \<Rightarrow> unit mio" where
  "mark_announced v dir = update_manifest v dir (\<lambda>m. Inr (m\<lparr>mn_announced := True\<rparr>))"

definition record_retry :: "world_env \<Rightarrow> path \<Rightarrow> delivery_retry option \<Rightarrow> unit mio" where
  "record_retry v dir st = try_io (load_manifest v dir) (\<lambda>j. case j of None \<Rightarrow> give ()
     | Some m \<Rightarrow> if mn_retry m \<noteq> st then save_manifest v (m\<lparr>mn_retry := st\<rparr>) else give ())"

section \<open>Freezing a plan\<close>

fun resolve_each :: "world_env \<Rightarrow> path list \<Rightarrow> path list mio" where
  "resolve_each v [] = give []"
| "resolve_each v (p # ps) = try_io (resolve v p) (\<lambda>q. try_io (resolve_each v ps) (\<lambda>qs. give (q # qs)))"

definition require_some :: "string \<Rightarrow> 'a option \<Rightarrow> 'a mio" where
  "require_some msg x = (case x of None \<Rightarrow> fail (io_other msg) | Some y \<Rightarrow> give y)"

definition require_absent :: "world_env \<Rightarrow> path \<Rightarrow> unit mio" where
  "require_absent v p = attempt_io (symlink_metadata v p) (\<lambda>r. case r of
       Inl e \<Rightarrow> if err_kind e = NotFound then give () else fail e
     | Inr _ \<Rightarrow> fail (IoError AlreadyExists ''unowned delivery destination exists''))"

definition freeze_entry :: "world_env \<Rightarrow> path \<Rightarrow> path list \<Rightarrow> delivery_entry list \<Rightarrow> path \<times> path \<Rightarrow> delivery_entry mio" where
  "freeze_entry v d roots taken mv =
     try_io (stamp_read v (fst mv)) (\<lambda>identity.
     try_io (resolve v (fst mv)) (\<lambda>source.
     try_io (require_some ''delivery target has no parent'' (path_parent (snd mv))) (\<lambda>above.
     try_io (resolve v above) (\<lambda>parent.
     try_io (require_some ''delivery target has no filename'' (file_name (snd mv))) (\<lambda>name.
     let destination = path_join parent [Normal name] in
     try_io (require_absent v destination) (\<lambda>_.
     if path_parent source \<noteq> Some d \<or> list_ex (\<lambda>e. dl_destination e = destination) taken
        \<or> \<not> list_ex (\<lambda>r. path_starts_with destination r) roots
     then fail (io_other ''delivery plan has an invalid source or duplicate destination'')
     else give \<lparr>dl_source = source, dl_destination = destination, dl_identity = identity, dl_prepared = None,
                dl_completed = False, dl_planned = Some (snd mv)\<rparr>))))))"

fun freeze_entries ::
    "world_env \<Rightarrow> path \<Rightarrow> path list \<Rightarrow> (path \<times> path) list \<Rightarrow> delivery_entry list \<Rightarrow> delivery_entry list mio" where
  "freeze_entries v d roots [] acc = give acc"
| "freeze_entries v d roots (mv # mvs) acc =
     try_io (freeze_entry v d roots acc mv) (\<lambda>e. freeze_entries v d roots mvs (acc @ [e]))"

fun freeze_cleanup :: "world_env \<Rightarrow> path \<Rightarrow> (io_error + string) list \<Rightarrow> cleanup_entry list \<Rightarrow> cleanup_entry list mio" where
  "freeze_cleanup v d [] acc = give acc"
| "freeze_cleanup v d (Inl e # xs) acc = fail e"
| "freeze_cleanup v d (Inr n # xs) acc =
     (if n = delivery_journal then fail (io_other ''delivery manifest already exists'')
      else try_io (stamp_read v (path_join d [Normal n])) (\<lambda>s.
        freeze_cleanup v d xs (acc @ [\<lparr>cl_path = path_join d [Normal n], cl_identity = s\<rparr>])))"

definition create_manifest ::
    "world_env \<Rightarrow> path \<Rightarrow> string \<Rightarrow> disc_output list \<Rightarrow> path list \<Rightarrow> (path \<times> path) list \<Rightarrow> manifest mio" where
  "create_manifest v dir marker outputs roots moves =
     try_io (resolve v dir) (\<lambda>d.
     try_io (resolve_each v roots) (\<lambda>rs.
     try_io (freeze_entries v d rs moves []) (\<lambda>es.
     try_io (list_folder v d) (\<lambda>ls.
     try_io (freeze_cleanup v d ls []) (\<lambda>cs.
     let m = \<lparr>mn_version = 1, mn_directory = d, mn_marker = marker, mn_outputs = outputs, mn_roots = rs,
              mn_entries = es, mn_cleanup = cs, mn_retry = None, mn_announced = False\<rparr>
     in try_io (save_manifest v m) (\<lambda>_. give m))))))"

section \<open>Reading a plan\<close>

definition manifest_folders :: "manifest \<Rightarrow> (path \<times> path) list" where
  "manifest_folders m = List.map_filter (\<lambda>e.
     case find (\<lambda>r. path_starts_with (dl_destination e) r) (mn_roots m) of None \<Rightarrow> None
     | Some r \<Rightarrow> map_option (\<lambda>p. (r, p)) (path_parent (dl_destination e))) (mn_entries m)"

definition shown_destination :: "delivery_entry \<Rightarrow> path" where
  "shown_destination e = (case dl_planned e of None \<Rightarrow> dl_destination e | Some p \<Rightarrow> p)"

definition delivered_stamps :: "manifest \<Rightarrow> (path \<times> stamp option) list" where
  "delivered_stamps m = map (\<lambda>e. (shown_destination e, dl_prepared e)) (mn_entries m)"

definition manifest_moves :: "manifest \<Rightarrow> (path \<times> path) list" where
  "manifest_moves m = map (\<lambda>e. (dl_source e, shown_destination e)) (mn_entries m)"

text \<open>\<open>is_rip_job\<close>: a folder the ripper allocated, or one with a rip state, hand-off or journal.\<close>

definition is_rip_job :: "string option \<Rightarrow> (string \<Rightarrow> bool) \<Rightarrow> bool" where
  "is_rip_job name there = (case name of None \<Rightarrow> False
     | Some n \<Rightarrow> \<not> is_system_folder n \<and> (starts_with n ''disc-'' \<or> starts_with n unverified_job_prefix
         \<or> list_ex there [state_file, done_marker, delivery_journal]))"

text \<open>\<open>reserved_elsewhere\<close>: a folder with what a look at it answers, its journal last.\<close>

fun reserved_elsewhere ::
    "path \<Rightarrow> (io_error + path \<times> bool io_result \<times> (string \<Rightarrow> bool) \<times> manifest option io_result) list
     \<Rightarrow> path list io_result" where
  "reserved_elsewhere except [] = Inr []"
| "reserved_elsewhere except (Inl e # xs) = Inl e"
| "reserved_elsewhere except (Inr (dir, folder, there, journal) # xs) =
     (if dir = except then reserved_elsewhere except xs
      else case folder of Inl e \<Rightarrow> Inl e
      | Inr is_dir \<Rightarrow>
        if \<not> is_dir \<or> \<not> is_rip_job (file_name dir) there then reserved_elsewhere except xs
        else case (case journal of Inr j \<Rightarrow> Inr j
                   | Inl e \<Rightarrow> if err_kind e = NotFound then Inr None
                       else Inl (IoError (err_kind e) (path_text (journal_path dir) @ '': '' @ err_text e))) of
          Inl e \<Rightarrow> Inl e
        | Inr j \<Rightarrow> (case reserved_elsewhere except xs of Inl e \<Rightarrow> Inl e
            | Inr ps \<Rightarrow> Inr ((case j of None \<Rightarrow> []
                | Some m \<Rightarrow> concat (map (\<lambda>e. (case dl_planned e of None \<Rightarrow> [] | Some p \<Rightarrow> [p]) @ [dl_destination e])
                    (mn_entries m))) @ ps)))"

end
