(* ===== verification/Delivery_Retry.thy ===== *)
theory Delivery_Retry
  imports Delivery_Journal
begin

text \<open>
  The retry budget of a delivery (\<open>server/mover.rs\<close>): its state is written to the journal first and
  the row derived from it, so a restart does not buy another copy. The texts of the interface are
  arguments.
\<close>

record move_texts =
  mx_unsaved :: "string \<Rightarrow> string \<Rightarrow> string"   \<comment> \<open>\<open>server.mover.retry_state_unsaved\<close>\<close>
  mx_unsaved_hint :: string
  mx_dest_hint :: string                      \<comment> \<open>\<open>server.mover.destination_step_failed\<close>\<close>
  mx_stall_hint :: string
  mx_returned_hint :: string
  mx_collision :: string
  mx_collision_hint :: string
  mx_size_hint :: string
  mx_invalid_hint :: string
  mx_copy_hint :: string
  mx_listing_hint :: string
  mx_cleanup_hint :: string

text \<open>\<open>apply_retry_at\<close>: the wall-clock time of the journal is clamped to the longest backoff.\<close>

definition apply_retry_at :: "nat \<Rightarrow> nat \<Rightarrow> delivery_retry \<Rightarrow> move_row \<Rightarrow> move_row" where
  "apply_retry_at wall now st r =
     (let after = map_option (\<lambda>t. now + min (t - wall) longest_backoff) (rt_not_before st)
      in r\<lparr>mr_attempts := rt_attempts st, mr_retry_after := after, mr_retry_held := (after = None)\<rparr>)"

definition commit_row :: "move_texts \<Rightarrow> nat \<Rightarrow> nat \<Rightarrow> delivery_retry \<Rightarrow> unit io_result \<Rightarrow> move_row \<Rightarrow> move_row" where
  "commit_row tx wall now st saved r =
     (let r1 = apply_retry_at wall now st r;
          r2 = (if mr_worker_active r1
                then r1\<lparr>mr_stall_resume := Some (mr_retry_after r1), mr_retry_after := None, mr_retry_held := True\<rparr> else r1)
      in case saved of Inr _ \<Rightarrow> r2
         | Inl e \<Rightarrow> r2\<lparr>mr_retry_after := None, mr_retry_held := True,
             mr_stall_resume := (if mr_worker_active r1 then Some None else mr_stall_resume r2),
             mr_reason := mx_unsaved tx (mr_reason r2) (err_text e), mr_hint := mx_unsaved_hint tx\<rparr>)"

definition commit_retry :: "move_texts \<Rightarrow> world_env \<Rightarrow> path \<Rightarrow> nat \<Rightarrow> nat option \<Rightarrow> manifest volume \<Rightarrow> manifest volume" where
  "commit_retry tx v dir attempts delay w =
     (case mb_rows (vo_board w) (path_text dir) of None \<Rightarrow> w
      | Some row \<Rightarrow>
          let st = \<lparr>rt_attempts = attempts, rt_not_before = map_option (\<lambda>d. ev_wall v (vo_calls w) + d) delay,
                    rt_reason = mr_reason row, rt_hint = mr_hint row\<rparr>
          in (case record_retry v dir (Some st) w of (saved, w1) \<Rightarrow>
                on_board (change_row (path_text dir)
                  (commit_row tx (ev_wall v (vo_calls w1)) (vo_now v w1) st saved)) w1))"

definition schedule_move_retry :: "move_texts \<Rightarrow> world_env \<Rightarrow> path \<Rightarrow> manifest volume \<Rightarrow> manifest volume" where
  "schedule_move_retry tx v dir w =
     (case mb_rows (vo_board w) (path_text dir) of None \<Rightarrow> w
      | Some row \<Rightarrow> let n = saturating_add 32 (mr_attempts row) 1 in commit_retry tx v dir n (move_retry_delay n) w)"

definition commit_stall :: "move_texts \<Rightarrow> world_env \<Rightarrow> path \<Rightarrow> manifest volume \<Rightarrow> manifest volume" where
  "commit_stall tx v dir w = schedule_move_retry tx v dir w"

definition finish_stall :: "move_texts \<Rightarrow> world_env \<Rightarrow> path \<Rightarrow> manifest volume \<Rightarrow> manifest volume" where
  "finish_stall tx v dir w =
     (case mb_rows (vo_board w) (path_text dir) of None \<Rightarrow> schedule_move_retry tx v dir w
      | Some row \<Rightarrow>
        (case mr_stall_resume row of
           None \<Rightarrow> schedule_move_retry tx v dir w
         | Some resume \<Rightarrow>
             let w1 = on_board (change_row (path_text dir) (\<lambda>r. r\<lparr>mr_stall_resume := None\<rparr>)) w
             in (case resume of
                   Some _ \<Rightarrow> commit_retry tx v dir (mr_attempts row) (move_retry_delay (mr_attempts row)) w1
                 | None \<Rightarrow> on_board (change_row (path_text dir) (\<lambda>r. r\<lparr>mr_retry_after := None, mr_retry_held := True\<rparr>)) w1)))"

definition hold_for_operator :: "move_texts \<Rightarrow> world_env \<Rightarrow> path \<Rightarrow> manifest volume \<Rightarrow> manifest volume" where
  "hold_for_operator tx v dir w =
     (case mb_rows (vo_board w) (path_text dir) of None \<Rightarrow> w
      | Some row \<Rightarrow> commit_retry tx v dir (mr_attempts row) None w)"

section \<open>What a pass may do\<close>

datatype delivery_attempt = AttemptWait | AttemptDue | AttemptRequested | AttemptRecreate

definition ready_attempt :: "world_env \<Rightarrow> path \<Rightarrow> manifest volume \<Rightarrow> delivery_attempt" where
  "ready_attempt v dir w = (if move_retry_ready (vo_now v w) (path_text dir) (vo_board w) then AttemptDue else AttemptWait)"

definition restored_row :: "string \<Rightarrow> delivery_retry \<Rightarrow> move_row" where
  "restored_row k st = \<lparr>mr_path = k, mr_reason = rt_reason st, mr_hint = rt_hint st, mr_attempts = 0, mr_retry_held = False,
     mr_waiting_for_folder = False, mr_worker_active = False, mr_retrying = False, mr_waiting_root = None,
     mr_copy_stalled = False, mr_retry_after = None, mr_owner = None, mr_missing_folder = False,
     mr_stall_resume = None, mr_teardown_attempts = 0\<rparr>"

definition restore_retry :: "world_env \<Rightarrow> path \<Rightarrow> manifest \<Rightarrow> manifest volume \<Rightarrow> delivery_attempt \<times> manifest volume" where
  "restore_retry v dir saved w =
     (let k = path_text dir; w1 = on_board (\<lambda>b. b\<lparr>mb_requests := (mb_requests b)(k := None)\<rparr>) w
      in case mb_requests (vo_board w) k of
           Some folder_wait \<Rightarrow>
             (case record_retry v dir None w1 of
                (Inl e, w2) \<Rightarrow> (AttemptWait, on_board (record_move_error (vo_now v w2) k
                    (''cannot clear the delivery retry state: '' @ err_text e)
                    ''Repair the staging storage, then choose Retry; nothing was copied.'') w2)
              | (Inr _, w2) \<Rightarrow> (if folder_wait then AttemptRecreate else AttemptRequested, w2))
         | None \<Rightarrow>
             (case mn_retry saved of
                None \<Rightarrow> (ready_attempt v dir w1, w1)
              | Some st \<Rightarrow>
                  let known = (case mb_rows (vo_board w1) k of None \<Rightarrow> False | Some r \<Rightarrow> rt_attempts st \<le> mr_attempts r);
                      r = (case mb_rows (vo_board w1) k of None \<Rightarrow> restored_row k st | Some r \<Rightarrow> r);
                      w2 = (if known then w1
                            else on_board (\<lambda>b. b\<lparr>mb_rows := (mb_rows b)(k \<mapsto>
                                   apply_retry_at (ev_wall v (vo_calls w1)) (vo_now v w1) st r)\<rparr>) w1)
                  in (ready_attempt v dir w2, w2)))"

lemma vo_board_nodes [simp]:
  "vo_nodes (on_board f w) = vo_nodes w" "vo_journal (on_board f w) = vo_journal w"
  "vo_calls (on_board f w) = vo_calls w" "vo_board (on_board f w) = f (vo_board w)"
  by (simp_all add: on_board_def)

end
