(* ===== verification/Delivery_Copy.thy ===== *)
theory Delivery_Copy
  imports Delivery_Retry
begin

text \<open>
  Moving one file (\<open>server/mover.rs\<close>, \<open>server/mover_copy_monitor.rs\<close>): the rename that publishes it
  without replacing anything, the copy to a temporary beside the destination when that crosses
  devices, the checks of the copy before it is published, and what each failure is called. The copy
  worker's bytes are those the source held when it was opened; its progress and its heartbeat are
  not modelled, only how the monitor saw it end.
\<close>

datatype move_outcome = MoveSkipped | MoveMoved | MoveFailed | MoveStalled | MoveInterrupted | MoveUnsupported
  | MoveSizeMismatch | MovePostCopyInvalid | MoveCollision

datatype move_error = SizeDoesNotMatch nat nat | MkvBadHead | MkvBadTail | M2tsBadSync | Unreadable string

text \<open>An \<open>io::Error\<close> that carries a \<open>MoveError\<close>, or any other.\<close>

datatype copy_fault = Plain io_error | Rejected move_error

definition move_error_text :: "move_error \<Rightarrow> string" where
  "move_error_text e = (case e of
      SizeDoesNotMatch s d \<Rightarrow> ''post-cp size mismatch: src='' @ show_nat s @ '' bytes, dst='' @ show_nat d @ '' bytes''
    | MkvBadHead \<Rightarrow> ''destination MKV missing EBML header (1A 45 DF A3)''
    | MkvBadTail \<Rightarrow> ''destination MKV tail too short or unreadable''
    | M2tsBadSync \<Rightarrow> ''destination m2ts has insufficient TS sync (0x47) at packet boundaries''
    | Unreadable t \<Rightarrow> ''destination unreadable: '' @ t)"

definition copy_fault_text :: "copy_fault \<Rightarrow> string" where
  "copy_fault_text f = (case f of Plain e \<Rightarrow> err_text e | Rejected e \<Rightarrow> move_error_text e)"

section \<open>Checks\<close>

definition file_len :: "world_env \<Rightarrow> path \<Rightarrow> (manifest, nat) io" where
  "file_len v p = syscall v (\<lambda>n m. (case m p of None \<Rightarrow> Inl absent | Some (RegularFile c _) \<Rightarrow> Inr (length c)
     | Some _ \<Rightarrow> Inr (ev_chunk v n), m))"

definition check_mkv :: "string \<Rightarrow> move_error + unit" where
  "check_mkv c =
     (if length c < 4 then Inl (Unreadable ''failed to fill whole buffer'')
      else if take 4 c \<noteq> [CHR 0x1A, CHR 0x45, CHR 0xDF, CHR 0xA3] then Inl MkvBadHead
      else if length c < 5 then Inl MkvBadTail else Inr ())"

definition m2ts_packet :: nat where "m2ts_packet = 192"
definition m2ts_samples :: nat where "m2ts_samples = 8"

definition m2ts_syncs :: "string \<Rightarrow> nat" where
  "m2ts_syncs buf = length (filter (\<lambda>i. buf ! (i * m2ts_packet + 4) = CHR 0x47) [0 ..< m2ts_samples])"

definition check_m2ts :: "string \<Rightarrow> move_error + unit" where
  "check_m2ts c =
     (let window = m2ts_packet * m2ts_samples
      in if length c < window * 2 then Inl M2tsBadSync
         else if m2ts_syncs (take window c) + m2ts_syncs (drop (length c - window) c) < 6 then Inl M2tsBadSync
         else Inr ())"

definition structural_check :: "path \<Rightarrow> (string \<Rightarrow> move_error + unit) option" where
  "structural_check dst = (case extension dst of None \<Rightarrow> None
     | Some e \<Rightarrow> (let x = map ascii_lower e in
         if x = ''mkv'' \<or> x = ''mk3d'' then Some check_mkv else if x = ''m2ts'' then Some check_m2ts else None))"

definition run_check :: "world_env \<Rightarrow> (string \<Rightarrow> move_error + unit) option \<Rightarrow> path \<Rightarrow> manifest volume
    \<Rightarrow> (move_error + unit) \<times> manifest volume" where
  "run_check v chk p = (case chk of None \<Rightarrow> give ()
     | Some f \<Rightarrow> try_io (map_err (\<lambda>e. Unreadable (err_text e)) (read_bytes_at v p))
         (\<lambda>c. case f c of Inl e \<Rightarrow> fail e | Inr _ \<Rightarrow> give ()))"

definition check_size :: "world_env \<Rightarrow> path \<Rightarrow> path \<Rightarrow> manifest volume \<Rightarrow> (move_error + unit) \<times> manifest volume" where
  "check_size v src dst =
     try_io (map_err (\<lambda>e. Unreadable (''dst stat failed: '' @ err_text e)) (file_len v dst)) (\<lambda>d.
     try_io (map_err (\<lambda>e. Unreadable (''src stat failed: '' @ err_text e)) (file_len v src)) (\<lambda>s.
     if s \<noteq> d then fail (SizeDoesNotMatch s d) else give ()))"

definition check_post_copy :: "world_env \<Rightarrow> path \<Rightarrow> path \<Rightarrow> manifest volume \<Rightarrow> (move_error + unit) \<times> manifest volume" where
  "check_post_copy v src dst = try_io (run_check v (structural_check dst) dst) (\<lambda>_. check_size v src dst)"

definition check_candidate ::
    "world_env \<Rightarrow> path \<Rightarrow> path \<Rightarrow> path \<Rightarrow> manifest volume \<Rightarrow> (copy_fault + unit) \<times> manifest volume" where
  "check_candidate v src dest candidate =
     map_err Rejected (try_io (run_check v (structural_check dest) candidate) (\<lambda>_. check_post_copy v src candidate))"

section \<open>Copying\<close>

definition part_suffix :: string where "part_suffix = ''.part-''"

definition temp_path :: "world_env \<Rightarrow> path \<Rightarrow> path" where
  "temp_path v dest = (case file_name dest of
      Some n \<Rightarrow> butlast dest @ [Normal (n @ part_suffix @ show_nat (ev_pid v))]
    | None \<Rightarrow> dest @ [Normal (part_suffix @ show_nat (ev_pid v))])"

definition remove_temporary :: "world_env \<Rightarrow> path \<Rightarrow> manifest volume \<Rightarrow> manifest volume" where
  "remove_temporary v tmp w = snd (remove_path v tmp w)"

definition create_temporary :: "world_env \<Rightarrow> path \<Rightarrow> ('j, unit) io" where
  "create_temporary v p = syscall v (\<lambda>n m. if m p \<noteq> None then (Inl (IoError AlreadyExists ''File exists''), m)
     else (Inr (), m(p \<mapsto> RegularFile [] (ev_mtime v n))))"

text \<open>A write that fails may have written some of its bytes.\<close>

definition append_node :: "string \<Rightarrow> nat \<Rightarrow> path \<Rightarrow> nodes \<Rightarrow> nodes" where
  "append_node bytes t p m = (case m p of Some (RegularFile c _) \<Rightarrow> m(p \<mapsto> RegularFile (c @ bytes) t) | _ \<Rightarrow> m)"

definition append_file :: "world_env \<Rightarrow> path \<Rightarrow> string \<Rightarrow> ('j, unit) io" where
  "append_file v p bytes w =
     (let n = vo_calls w; m = ev_foreign v n (vo_nodes w)
      in case ev_fault v n of
           Some e \<Rightarrow> (Inl e, w\<lparr>vo_nodes := append_node (take (ev_chunk v n) bytes) (ev_mtime v n) p m, vo_calls := Suc n\<rparr>)
         | None \<Rightarrow> (Inr (), w\<lparr>vo_nodes := append_node bytes (ev_mtime v n) p m, vo_calls := Suc n\<rparr>))"

definition set_modified :: "world_env \<Rightarrow> path \<Rightarrow> nat \<Rightarrow> ('j, unit) io" where
  "set_modified v p t = syscall v (\<lambda>_ m. (Inr (), case m p of Some (RegularFile c _) \<Rightarrow> m(p \<mapsto> RegularFile c t) | _ \<Rightarrow> m))"

definition copy_buffer :: nat where "copy_buffer = 4194304"

definition chunk_len :: "world_env \<Rightarrow> nat \<Rightarrow> string \<Rightarrow> nat" where
  "chunk_len v n rest = min (length rest) (max 1 (min (ev_chunk v n) copy_buffer))"

definition in_context :: "string \<Rightarrow> path \<Rightarrow> io_error \<Rightarrow> io_error" where
  "in_context what p e = IoError (err_kind e) (what @ '' '' @ path_text p @ '': '' @ err_text e)"

function copy_loop :: "world_env \<Rightarrow> path \<Rightarrow> path \<Rightarrow> string \<Rightarrow> nat \<Rightarrow> nat mio" where
  "copy_loop v src tmp rest copied w =
     (if cancelled v w then (Inl (IoError Interrupted ''copy aborted: shutdown requested''), w)
      else case syscall v (\<lambda>n m. (Inr n, m)) w of
        (Inl e, w1) \<Rightarrow> (Inl (in_context ''read source'' src e), w1)
      | (Inr n, w1) \<Rightarrow>
          if rest = [] then (Inr copied, w1)
          else if cancelled v w1 then (Inl (IoError Interrupted ''copy cancelled after read''), w1)
          else let k = chunk_len v n rest
               in case append_file v tmp (take k rest) w1 of
                    (Inl e, w2) \<Rightarrow> (Inl (in_context ''write destination'' tmp e), w2)
                  | (Inr _, w2) \<Rightarrow> copy_loop v src tmp (drop k rest) (copied + k) w2)"
  by pat_completeness auto
termination
  by (relation "measure (\<lambda>(v, src, tmp, rest, copied, w). length rest)") (auto simp: chunk_len_def)

declare copy_loop.simps [simp del]

definition pin_temporary :: "world_env \<Rightarrow> path \<Rightarrow> path \<Rightarrow> manifest volume \<Rightarrow> manifest volume" where
  "pin_temporary v src tmp w = snd (try_io (stamp_read v src) (\<lambda>s. set_modified v tmp (pinned_mtime (st_modified s))) w)"

definition copy_to_temporary :: "world_env \<Rightarrow> path \<Rightarrow> path \<Rightarrow> nat mio" where
  "copy_to_temporary v src tmp =
     try_io (map_err (in_context ''open source'' src) (read_bytes_at v src)) (\<lambda>bytes.
     try_io (map_err (in_context ''create destination temporary file'' tmp) (create_temporary v tmp)) (\<lambda>_.
     try_io (copy_loop v src tmp bytes 0) (\<lambda>copied w.
     try_io (map_err (in_context ''sync destination'' tmp) (sync_path v tmp)) (\<lambda>_. give copied)
       (pin_temporary v src tmp w))))"

definition sync_above :: "world_env \<Rightarrow> path \<Rightarrow> manifest volume \<Rightarrow> manifest volume" where
  "sync_above v dest w = (case path_parent dest of None \<Rightarrow> w | Some p \<Rightarrow> snd (sync_path v p w))"

text \<open>\<open>copy_counting_with_halt\<close>.\<close>

definition copy_counting :: "world_env \<Rightarrow> path \<Rightarrow> path \<Rightarrow> (path \<Rightarrow> manifest volume \<Rightarrow> (copy_fault + unit) \<times> manifest volume)
    \<Rightarrow> manifest volume \<Rightarrow> (copy_fault + nat) \<times> manifest volume" where
  "copy_counting v src dest checkpoint w =
     (if cancelled v w then (Inl (Plain (IoError Interrupted ''copy cancelled before start'')), w)
      else let tmp = temp_path v dest in
        case copy_to_temporary v src tmp (remove_temporary v tmp w) of
          (Inl e, w1) \<Rightarrow> (Inl (Plain e), remove_temporary v tmp w1)
        | (Inr copied, w1) \<Rightarrow>
          let w2 = sync_above v dest w1 in
          if cancelled v w2
          then (Inl (Plain (IoError Interrupted ''copy aborted before publication'')), remove_temporary v tmp w2)
          else case checkpoint tmp w2 of
            (Inl e, w3) \<Rightarrow> (Inl e, remove_temporary v tmp w3)
          | (Inr _, w3) \<Rightarrow>
            if cancelled v w3 then (Inl (Plain (IoError Interrupted ''publication cancelled'')), remove_temporary v tmp w3)
            else case publish_path v tmp dest w3 of
              (Inl e, w4) \<Rightarrow> (Inl (Plain (in_context ''publish destination'' dest e)), remove_temporary v tmp w4)
            | (Inr _, w4) \<Rightarrow> (Inr copied, sync_above v dest w4))"

text \<open>\<open>sweep_temporaries\<close>: the leftovers of interrupted copies of one destination.\<close>

definition part_of :: "string \<Rightarrow> string \<Rightarrow> bool" where
  "part_of name n \<longleftrightarrow> starts_with n (name @ part_suffix)
     \<and> (let pid = drop (length (name @ part_suffix)) n in pid \<noteq> [] \<and> list_all is_digit_char pid)"

definition sweep_one :: "world_env \<Rightarrow> path \<Rightarrow> string \<Rightarrow> io_error + string \<Rightarrow> unit mio" where
  "sweep_one v parent name x = (case x of Inl e \<Rightarrow> fail e
     | Inr n \<Rightarrow> if \<not> part_of name n then give ()
         else let p = parent @ [Normal n] in
           attempt_io (try_io (symlink_metadata v p) (\<lambda>f. case f of RegularFile _ _ \<Rightarrow> remove_path v p
             | _ \<Rightarrow> fail (io_other ''not a regular file''))) (\<lambda>r. case r of Inr _ \<Rightarrow> give ()
               | Inl e \<Rightarrow> if err_kind e = NotFound then give ()
                   else fail (IoError (err_kind e)
                     (''leftover partial copy from an interrupted delivery could not be removed: '' @ path_text p @ '': '' @ err_text e))))"

definition sweep_temporaries :: "world_env \<Rightarrow> path \<Rightarrow> unit mio" where
  "sweep_temporaries v dest = (case (path_parent dest, file_name dest) of
      (Some parent, Some name) \<Rightarrow> try_io (list_folder v parent) (each_io (sweep_one v parent name))
    | _ \<Rightarrow> give ())"

section \<open>Moving\<close>

definition copy_failure_outcome :: "bool \<Rightarrow> bool \<Rightarrow> copy_fault \<Rightarrow> move_outcome" where
  "copy_failure_outcome stalled shutdown f =
     (if stalled then MoveStalled
      else if shutdown \<and> (case f of Plain e \<Rightarrow> err_kind e = Interrupted | Rejected _ \<Rightarrow> False) then MoveInterrupted
      else case f of
        Rejected (SizeDoesNotMatch _ _) \<Rightarrow> MoveSizeMismatch
      | Rejected _ \<Rightarrow> MovePostCopyInvalid
      | Plain e \<Rightarrow> if err_kind e = AlreadyExists then MoveCollision
          else if err_kind e = Unsupported then MoveUnsupported else MoveFailed)"

text \<open>\<open>blocked\<close> and \<open>worker_returned\<close> of the monitor: the job's row while its worker hangs, and after.\<close>

definition stall_row :: "move_texts \<Rightarrow> world_env \<Rightarrow> path \<Rightarrow> string \<Rightarrow> manifest volume \<Rightarrow> manifest volume" where
  "stall_row tx v dir reason w =
     (let k = path_text dir;
          w1 = on_board (\<lambda>b. change_row k (\<lambda>r. r\<lparr>mr_worker_active := True, mr_copy_stalled := True, mr_retry_held := True,
                 mr_retry_after := None\<rparr>) (record_move_error (vo_now v w) k reason (mx_stall_hint tx) b)) w
      in commit_stall tx v dir w1)"

definition worker_returned :: "move_texts \<Rightarrow> path \<Rightarrow> move_board \<Rightarrow> move_board" where
  "worker_returned tx dir = change_row (path_text dir) (\<lambda>r. if mr_copy_stalled r
     then r\<lparr>mr_worker_active := False, mr_hint := mx_returned_hint tx\<rparr> else r)"

definition dest_failed :: "move_texts \<Rightarrow> world_env \<Rightarrow> path \<Rightarrow> path \<Rightarrow> string \<Rightarrow> io_error \<Rightarrow> manifest volume \<Rightarrow> manifest volume" where
  "dest_failed tx v dir dest what e w =
     on_board (record_dest_error (vo_now v w) dest dir what (err_text e) (mx_dest_hint tx)) w"

definition published :: "move_texts \<Rightarrow> world_env \<Rightarrow> path \<Rightarrow> path \<Rightarrow> manifest volume \<Rightarrow> move_outcome \<times> manifest volume" where
  "published tx v dir dest w =
     (case (case path_parent dest of None \<Rightarrow> (Inr (), w) | Some p \<Rightarrow> sync_path v p w) of
        (Inl e, w1) \<Rightarrow> (MoveFailed, dest_failed tx v dir dest ''publication directory sync failed'' e w1)
      | (Inr _, w1) \<Rightarrow> (MoveMoved, on_board (clear_stale_dest_error dest) w1))"

definition copy_outcome :: "move_texts \<Rightarrow> world_env \<Rightarrow> path \<Rightarrow> path \<Rightarrow> (copy_fault + nat) \<times> manifest volume
    \<Rightarrow> move_outcome \<times> manifest volume" where
  "copy_outcome tx v dir dest rw =
     (case rw of (r, w) \<Rightarrow>
        case ev_monitor v dest of
          DrainedStalled reason \<Rightarrow> (MoveStalled, on_board (worker_returned tx dir) (stall_row tx v dir reason w))
        | verdict \<Rightarrow>
          let w1 = on_board (worker_returned tx dir) w;
              r1 = (if verdict = DrainedCancelled
                    then Inl (Plain (IoError Interrupted ''copy cancelled; worker drained'')) else r)
          in (case r1 of
                Inr _ \<Rightarrow> published tx v dir dest w1
              | Inl f \<Rightarrow>
                  let outcome = copy_failure_outcome False (ev_shutdown v (vo_calls w1)) f
                  in (outcome, if outcome = MoveInterrupted then w1 else on_board (note_failure (copy_fault_text f)) w1)))"

definition move_file :: "move_texts \<Rightarrow> world_env \<Rightarrow> path \<Rightarrow> path \<Rightarrow> path \<Rightarrow> (path \<Rightarrow> unit mio)
    \<Rightarrow> manifest volume \<Rightarrow> move_outcome \<times> manifest volume" where
  "move_file tx v dir src dest checkpoint w =
     (case symlink_metadata v dest w of (Inr _, w1) \<Rightarrow> (MoveCollision, w1)
      | (Inl e, w1) \<Rightarrow>
        if err_kind e \<noteq> NotFound then (MoveFailed, w1)
        else case checkpoint src (snd (file_len v src w1)) of
          (Inl e, w2) \<Rightarrow> (MoveFailed, dest_failed tx v dir dest ''publication checkpoint failed'' e w2)
        | (Inr _, w2) \<Rightarrow>
          (case publish_path v src dest w2 of
             (Inr _, w3) \<Rightarrow> published tx v dir dest w3
           | (Inl e, w3) \<Rightarrow>
               if err_kind e = AlreadyExists then (MoveCollision, w3)
               else if err_kind e \<noteq> CrossesDevices
               then (if err_kind e = Unsupported then MoveUnsupported else MoveFailed,
                     dest_failed tx v dir dest ''publication failed'' e w3)
               else if \<not> ev_spawn v then (MoveFailed, w3)
               else copy_outcome tx v dir dest
                      (copy_counting v src dest
                         (\<lambda>c. try_io (check_candidate v src dest c) (\<lambda>_. map_err Plain (checkpoint c))) w3)))"

section \<open>Names for a new plan\<close>

datatype dest_claim = Claimable | OtherFile | EmptyFile | UnknownClaim

definition unowned_dest_claim :: "world_env \<Rightarrow> path \<Rightarrow> manifest volume \<Rightarrow> dest_claim \<times> manifest volume" where
  "unowned_dest_claim v dest w =
     (case symlink_metadata v dest w of
        (Inl e, w1) \<Rightarrow> (if err_kind e \<in> {NotFound, NotADirectory} then Claimable else UnknownClaim, w1)
      | (Inr (RegularFile _ _), w1) \<Rightarrow>
          (case file_len v dest w1 of (Inl _, w2) \<Rightarrow> (UnknownClaim, w2)
           | (Inr n, w2) \<Rightarrow> (if n = 0 then EmptyFile else OtherFile, w2))
      | (Inr _, w1) \<Rightarrow> (OtherFile, w1))"

definition dest_with_variant :: "path \<Rightarrow> nat \<Rightarrow> path" where
  "dest_with_variant dest variant =
     (if variant \<le> 1 then dest
      else case file_stem dest of None \<Rightarrow> dest
        | Some stem \<Rightarrow> let suffixed = disc_variant_name stem variant
            in butlast dest @ [Normal (case extension dest of Some ext \<Rightarrow> suffixed @ ''.'' @ ext | None \<Rightarrow> suffixed)])"

definition is_reserved :: "path \<Rightarrow> path option \<Rightarrow> path list \<Rightarrow> bool" where
  "is_reserved p canonical reserved \<longleftrightarrow> list_ex (\<lambda>r. r = p \<or> canonical = Some r) reserved"

end
