(* ===== verification/Delivery.thy ===== *)
theory Delivery
  imports Delivery_Copy
begin

text \<open>
  The delivery of a frozen plan (\<open>server/mover_manifest.rs\<close>, and the journaled part of one mover pass
  over a job in \<open>check_and_move\<close> of \<open>server/mover.rs\<close>): each file is prepared, published and settled in
  the journal; once every one of them is verified where it went, the staged files are removed, the
  journal last. The checks of the destination roots before a pass, the destination locks, the links
  file and the webhook are arguments or left out.
\<close>

section \<open>One file\<close>

definition verify_parent :: "world_env \<Rightarrow> path \<Rightarrow> unit mio" where
  "verify_parent v p =
     try_io (require_some ''delivery target has no parent'' (path_parent p)) (\<lambda>parent.
     try_io (resolve v parent) (\<lambda>real.
     if real \<noteq> parent then fail (io_other (''destination folder no longer resolves to itself: '' @ path_text parent))
     else give ()))"

definition sync_parent :: "world_env \<Rightarrow> path \<Rightarrow> unit mio" where
  "sync_parent v p = try_io (require_some ''delivery target has no parent'' (path_parent p)) (sync_path v)"

definition head_tail_window :: nat where "head_tail_window = 65536"

definition head_and_tail :: "string \<Rightarrow> string \<times> string" where
  "head_and_tail c = (let n = min head_tail_window (length c) in (take n c, drop (length c - n) c))"

definition same_head_and_tail :: "world_env \<Rightarrow> path \<Rightarrow> path \<Rightarrow> bool mio" where
  "same_head_and_tail v a b =
     try_io (read_bytes_at v a) (\<lambda>x. try_io (read_bytes_at v b) (\<lambda>y. give (head_and_tail x = head_and_tail y)))"

text \<open>The error of a destination that is not the staged source's copy.\<close>

definition require_same :: "world_env \<Rightarrow> path \<Rightarrow> path \<Rightarrow> unit mio" where
  "require_same v source dest = try_io (same_head_and_tail v source dest) (\<lambda>same.
     if same then give ()
     else fail (io_other (''destination content differs from the staged source: '' @ path_text dest)))"

definition adoptable :: "world_env \<Rightarrow> delivery_entry \<Rightarrow> unit mio" where
  "adoptable v e = attempt_io (symlink_metadata v (dl_source e)) (\<lambda>r. case r of
       Inl x \<Rightarrow> if err_kind x = NotFound then give () else fail x
     | Inr _ \<Rightarrow> require_same v (dl_source e) (dl_destination e))"

definition verify_prepared :: "world_env \<Rightarrow> delivery_entry \<Rightarrow> unit mio" where
  "verify_prepared v e = (case prepared_stamp e of Inl x \<Rightarrow> fail x | Inr s \<Rightarrow> stamp_verify v s (dl_destination e))"

definition open_candidate :: "world_env \<Rightarrow> path \<Rightarrow> unit mio" where
  "open_candidate v p = syscall v (\<lambda>_ m. (case m p of None \<Rightarrow> Inl absent
     | Some DirNode \<Rightarrow> Inl (io_other ''is a directory'') | Some _ \<Rightarrow> Inr (), m))"

text \<open>\<open>prepare\<close>: the candidate is synced and its stamp journaled before it is published.\<close>

definition prepare_candidate :: "world_env \<Rightarrow> path \<Rightarrow> nat \<Rightarrow> path \<Rightarrow> unit mio" where
  "prepare_candidate v dir i candidate =
     try_io (require_manifest v dir) (\<lambda>m. try_io (entry_at i m) (\<lambda>e.
     try_io (verify_parent v (dl_destination e)) (\<lambda>_.
     try_io (stamp_verify v (dl_identity e) (dl_source e)) (\<lambda>_.
     try_io (open_candidate v candidate) (\<lambda>_. try_io (sync_path v candidate) (\<lambda>_.
     try_io (stamp_read v candidate) (\<lambda>s.
     if st_size s \<noteq> st_size (dl_identity e) then fail (io_other ''delivery candidate size changed'')
     else update_manifest v dir (change_entry i (\<lambda>x. x\<lparr>dl_prepared := Some s\<rparr>)))))))))"

definition complete_entry :: "world_env \<Rightarrow> path \<Rightarrow> nat \<Rightarrow> unit mio" where
  "complete_entry v dir i = update_manifest v dir (change_entry i (\<lambda>x. x\<lparr>dl_completed := True\<rparr>))"

definition settle_entry :: "world_env \<Rightarrow> path \<Rightarrow> nat \<Rightarrow> unit mio" where
  "settle_entry v dir i =
     try_io (require_manifest v dir) (\<lambda>m. try_io (entry_at i m) (\<lambda>e.
     try_io (verify_parent v (dl_destination e)) (\<lambda>_.
     case prepared_stamp e of Inl x \<Rightarrow> fail x
     | Inr s \<Rightarrow> try_io (stamp_verify v s (dl_destination e)) (\<lambda>_.
         update_manifest v dir (\<lambda>m'.
           if i < length (mn_entries m') \<and> dl_prepared (mn_entries m' ! i) = Some s
           then change_entry i (\<lambda>x. x\<lparr>dl_completed := True\<rparr>) m'
           else Inl (io_other ''delivery identity changed while settling''))))))"

definition skip_delivered :: "path \<Rightarrow> move_outcome mio" where
  "skip_delivered dest w = (Inr MoveSkipped, on_board (clear_stale_dest_error dest) w)"

text \<open>What a delivery makes of a file it finds at the destination.\<close>

definition found_at_destination :: "world_env \<Rightarrow> path \<Rightarrow> nat \<Rightarrow> delivery_entry \<Rightarrow> disk_node \<Rightarrow> move_outcome mio" where
  "found_at_destination v dir i e n =
     (if (case n of RegularFile c _ \<Rightarrow> c = [] | _ \<Rightarrow> False) \<and> (case dl_prepared e of None \<Rightarrow> True | Some s \<Rightarrow> st_size s \<noteq> 0)
      then fail (io_other (''zero-length file at destination, likely an interrupted publication; inspect and remove it, then Retry: ''
             @ path_text (dl_destination e)))
      else if dl_prepared e = None then give MoveCollision
      else try_io (verify_prepared v e) (\<lambda>_.
        if dl_completed e then skip_delivered (dl_destination e)
        else try_io (adoptable v e) (\<lambda>_. try_io (sync_parent v (dl_destination e)) (\<lambda>_.
          try_io (complete_entry v dir i) (\<lambda>_. skip_delivered (dl_destination e))))))"

definition publish_entry :: "move_texts \<Rightarrow> world_env \<Rightarrow> path \<Rightarrow> nat \<Rightarrow> delivery_entry \<Rightarrow> move_outcome mio" where
  "publish_entry tx v dir i e =
     try_io (stamp_verify v (dl_identity e) (dl_source e)) (\<lambda>_ w.
       case move_file tx v dir (dl_source e) (dl_destination e) (prepare_candidate v dir i) w of
         (out, w1) \<Rightarrow> if out \<in> {MoveMoved, MoveSkipped} then try_io (settle_entry v dir i) (\<lambda>_. give out) w1
           else (Inr out, w1))"

definition deliver :: "move_texts \<Rightarrow> world_env \<Rightarrow> path \<Rightarrow> nat \<Rightarrow> move_outcome mio" where
  "deliver tx v dir i =
     try_io (require_manifest v dir) (\<lambda>m. try_io (entry_at i m) (\<lambda>e.
     try_io (verify_parent v (dl_destination e)) (\<lambda>_.
     try_io (sweep_temporaries v (dl_destination e)) (\<lambda>_.
     attempt_io (symlink_metadata v (dl_destination e)) (\<lambda>r. case r of
       Inr n \<Rightarrow> found_at_destination v dir i e n
     | Inl x \<Rightarrow> if err_kind x = NotFound \<and> \<not> dl_completed e then publish_entry tx v dir i e else fail x)))))"

section \<open>The whole plan\<close>

definition verify_entry :: "world_env \<Rightarrow> delivery_entry \<Rightarrow> unit mio" where
  "verify_entry v e =
     try_io (verify_parent v (dl_destination e)) (\<lambda>_.
     if \<not> dl_completed e then fail (io_other ''delivery plan is incomplete'')
     else try_io (verify_prepared v e) (\<lambda>_. sync_parent v (dl_destination e)))"

definition verify_delivered :: "world_env \<Rightarrow> manifest \<Rightarrow> unit mio" where
  "verify_delivered v m = each_io (verify_entry v) (mn_entries m)"

definition is_bookkeeping :: "path \<Rightarrow> bool" where
  "is_bookkeeping p = (case file_name p of None \<Rightarrow> False | Some n \<Rightarrow> is_ripper_bookkeeping n)"

definition unplanned :: "path \<Rightarrow> io_error" where
  "unplanned p = io_other (''unplanned staging artifact retained: '' @ path_text p)"

definition check_planned :: "world_env \<Rightarrow> manifest \<Rightarrow> io_error + string \<Rightarrow> unit mio" where
  "check_planned v m x = (case x of Inl e \<Rightarrow> fail e
     | Inr n \<Rightarrow> let p = path_join (mn_directory m) [Normal n] in
         if n = delivery_journal \<or> is_bookkeeping p then give ()
         else case find (\<lambda>c. cl_path c = p) (mn_cleanup m) of None \<Rightarrow> fail (unplanned p)
              | Some c \<Rightarrow> stamp_verify v (cl_identity c) p)"

definition confirm_delivered :: "world_env \<Rightarrow> path \<Rightarrow> delivery_entry \<Rightarrow> unit mio" where
  "confirm_delivered v p e =
     try_io (verify_parent v (dl_destination e)) (\<lambda>_. try_io (verify_prepared v e) (\<lambda>_.
     attempt_io (symlink_metadata v p) (\<lambda>r. case r of
       Inr _ \<Rightarrow> require_same v p (dl_destination e)
     | Inl x \<Rightarrow> if err_kind x = NotFound then give () else fail x)))"

definition clean_one :: "world_env \<Rightarrow> manifest \<Rightarrow> cleanup_entry \<Rightarrow> unit mio" where
  "clean_one v m c =
     try_io (case find (\<lambda>e. dl_source e = cl_path c) (mn_entries m) of None \<Rightarrow> give ()
             | Some e \<Rightarrow> confirm_delivered v (cl_path c) e) (\<lambda>_.
     attempt_io (stamp_verify v (cl_identity c) (cl_path c)) (\<lambda>r. case r of
       Inr _ \<Rightarrow> remove_path v (cl_path c)
     | Inl x \<Rightarrow> if err_kind x = NotFound then give () else fail x))"

definition remove_bookkeeping :: "world_env \<Rightarrow> path \<Rightarrow> io_error + string \<Rightarrow> unit mio" where
  "remove_bookkeeping v d x = (case x of Inl e \<Rightarrow> fail e
     | Inr n \<Rightarrow> let p = path_join d [Normal n] in
         if \<not> is_bookkeeping p then give ()
         else attempt_io (remove_path v p) (\<lambda>r. case r of Inr _ \<Rightarrow> give ()
                | Inl e \<Rightarrow> if err_kind e = NotFound then give () else fail e))"

definition require_journal_only :: "path \<Rightarrow> io_error + string \<Rightarrow> unit mio" where
  "require_journal_only d x = (case x of Inl e \<Rightarrow> fail e
     | Inr n \<Rightarrow> if n = delivery_journal then give () else fail (unplanned (path_join d [Normal n])))"

definition remove_journal :: "world_env \<Rightarrow> unit mio" where
  "remove_journal v w =
     (let n = vo_calls w; ms = ev_foreign v n (vo_nodes w); w1 = w\<lparr>vo_nodes := ms, vo_calls := Suc n\<rparr>
      in case ev_fault v n of Some e \<Rightarrow> (Inl e, w1)
         | None \<Rightarrow> if slot_target (vo_journal w) = None then (Inl absent, w1)
             else (Inr (), w1\<lparr>vo_journal := (vo_journal w)\<lparr>slot_target := None\<rparr>\<rparr>))"

definition cleanup_delivery :: "world_env \<Rightarrow> manifest \<Rightarrow> unit mio" where
  "cleanup_delivery v m =
     (let d = mn_directory m in
      try_io (verify_delivered v m) (\<lambda>_.
      try_io (try_io (list_folder v d) (each_io (check_planned v m))) (\<lambda>_.
      try_io (each_io (clean_one v m) (filter (\<lambda>c. \<not> is_bookkeeping (cl_path c)) (mn_cleanup m))) (\<lambda>_.
      try_io (try_io (list_folder v d) (each_io (remove_bookkeeping v d))) (\<lambda>_.
      try_io (sync_path v d) (\<lambda>_.
      try_io (try_io (list_folder v d) (each_io (require_journal_only d))) (\<lambda>_.
      try_io (remove_journal v) (\<lambda>_. remove_folder v d))))))))"

section \<open>A pass over a journaled job\<close>

text \<open>The loop over the plan: the outcomes, and the first reason a file was held for.\<close>

fun deliver_each :: "move_texts \<Rightarrow> world_env \<Rightarrow> path \<Rightarrow> nat list \<Rightarrow> move_outcome list \<Rightarrow> string option
    \<Rightarrow> manifest volume \<Rightarrow> (move_outcome list \<times> string option) \<times> manifest volume" where
  "deliver_each tx v dir [] acc held w = ((acc, held), w)"
| "deliver_each tx v dir (i # is) acc held w =
     (case deliver tx v dir i w of (r, w1) \<Rightarrow>
        let out = (case r of Inr x \<Rightarrow> x | Inl _ \<Rightarrow> MoveFailed);
            held' = (case r of Inr _ \<Rightarrow> held | Inl e \<Rightarrow> (case held of None \<Rightarrow> Some (err_text e) | Some h \<Rightarrow> Some h))
        in if out \<in> {MoveStalled, MoveInterrupted} then ((acc @ [out], held'), w1)
           else deliver_each tx v dir is (acc @ [out]) held' w1)"

definition schedule_failed_delivery :: "move_texts \<Rightarrow> world_env \<Rightarrow> path \<Rightarrow> move_outcome list \<Rightarrow> manifest volume \<Rightarrow> manifest volume" where
  "schedule_failed_delivery tx v dir outs w =
     (if list_ex (\<lambda>x. x \<in> {MoveFailed, MoveSizeMismatch, MovePostCopyInvalid}) outs
      then schedule_move_retry tx v dir w else w)"

definition report_failure :: "world_env \<Rightarrow> path \<Rightarrow> string \<Rightarrow> string \<Rightarrow> manifest volume \<Rightarrow> manifest volume" where
  "report_failure v dir reason hint w = on_board (record_move_error (vo_now v w) (path_text dir) reason hint) w"

definition blocked_pass :: "move_texts \<Rightarrow> world_env \<Rightarrow> path \<Rightarrow> move_outcome list \<Rightarrow> string option
    \<Rightarrow> manifest volume \<Rightarrow> manifest volume option" where
  "blocked_pass tx v dir outs held w =
     (let failed = (\<lambda>reason hint w. Some (schedule_failed_delivery tx v dir outs (report_failure v dir reason hint w)))
      in if MoveInterrupted \<in> set outs then Some w
         else if MoveStalled \<in> set outs then Some (finish_stall tx v dir w)
         else if MoveUnsupported \<in> set outs
         then Some (hold_for_operator tx v dir (report_failure v dir
                ''destination does not support a required delivery operation''
                ''Automatic retries stopped. See the operation and destination in the copy error; fix the destination, then choose Retry. Staged source files are retained.'' w))
         else if MoveCollision \<in> set outs
         then failed (mx_collision tx) (mx_collision_hint tx) w
         else if MoveSizeMismatch \<in> set outs
         then failed ''post-cp validation failed: destination size does not match source'' (mx_size_hint tx) w
         else if MovePostCopyInvalid \<in> set outs
         then failed ''post-cp validation failed: destination is structurally invalid or unreadable'' (mx_invalid_hint tx) w
         else case held of
           Some reason \<Rightarrow> failed (''delivery held: '' @ reason)
             ''The library file does not match what this delivery prepared, and it is never removed automatically. Inspect it, remove it if it is broken or not this rip, then choose Retry. Staged sources are retained.'' w
         | None \<Rightarrow>
             if MoveFailed \<in> set outs
             then (case take_failure (vo_board w) of (cause, b) \<Rightarrow>
                     failed (case cause of Some c \<Rightarrow> ''copy to destination failed: '' @ c | None \<Rightarrow> ''copy to destination failed'')
                       (mx_copy_hint tx) (w\<lparr>vo_board := b\<rparr>))
             else None)"

text \<open>The links file and the announcement, once per delivery: whether the pass goes on.\<close>

definition announce_delivery :: "move_texts \<Rightarrow> world_env \<Rightarrow> path \<Rightarrow> io_error option \<Rightarrow> manifest
    \<Rightarrow> manifest volume \<Rightarrow> bool \<times> manifest volume" where
  "announce_delivery tx v dir links m w =
     (if mn_announced m then (True, w)
      else case links of
        Some e \<Rightarrow> (False, schedule_move_retry tx v dir (report_failure v dir
            (''files delivered, but source linkage could not be saved: '' @ err_text e)
            ''The delivered files and staging metadata are retained. Repair library-links.json or its folder permissions, then choose Retry.'' w))
      | None \<Rightarrow> (True, snd (mark_announced v dir w)))"

definition tear_down :: "move_texts \<Rightarrow> world_env \<Rightarrow> path \<Rightarrow> bool \<Rightarrow> manifest \<Rightarrow> manifest volume \<Rightarrow> manifest volume" where
  "tear_down tx v dir listed m w =
     (let k = path_text dir
      in if \<not> listed
         then on_board (teardown_blocked (vo_now v w) k
                (''staging teardown skipped: the directory could not be fully listed: '' @ k) (mx_listing_hint tx)) w
         else case cleanup_delivery v m w of
           (Inr _, w1) \<Rightarrow> on_board (clear_delivery_error k) w1
         | (Inl e, w1) \<Rightarrow> on_board (teardown_blocked (vo_now v w1) k
                (''staging cleanup failed: '' @ err_text e) (mx_cleanup_hint tx)) w1)"

text \<open>
  From the loop over the plan to the end of the pass. \<open>links\<close> is what the links file answers,
  \<open>listed\<close> whether the job's listing was complete.
\<close>

definition finish_pass :: "move_texts \<Rightarrow> world_env \<Rightarrow> path \<Rightarrow> io_error option \<Rightarrow> bool \<Rightarrow> nat \<Rightarrow> manifest volume \<Rightarrow> manifest volume" where
  "finish_pass tx v dir links listed n w =
     (case deliver_each tx v dir [0 ..< n] [] None (on_board (snd \<circ> take_failure) w) of ((outs, held), w1) \<Rightarrow>
        case blocked_pass tx v dir outs held w1 of Some w2 \<Rightarrow> w2
        | None \<Rightarrow>
          (case try_io (require_manifest v dir) (\<lambda>m. try_io (verify_delivered v m) (\<lambda>_. give m)) w1 of
             (Inl e, w2) \<Rightarrow> report_failure v dir (''cannot verify delivered ownership: '' @ err_text e)
                ''Staging metadata is retained; restore the exact delivered files before retrying.'' w2
           | (Inr m, w2) \<Rightarrow>
               (case announce_delivery tx v dir links m w2 of
                  (False, w3) \<Rightarrow> w3 | (True, w3) \<Rightarrow> tear_down tx v dir listed m w3)))"

text \<open>
  A pass over a job that has a journal: whether it attempted the delivery. \<open>ready\<close> is what the checks
  of its roots and the destination locks answer.
\<close>

definition journaled_pass :: "move_texts \<Rightarrow> world_env \<Rightarrow> path \<Rightarrow> bool \<Rightarrow> io_error option \<Rightarrow> bool
    \<Rightarrow> manifest volume \<Rightarrow> bool \<times> manifest volume" where
  "journaled_pass tx v dir ready links listed w =
     (let k = path_text dir in
      if \<not> move_retry_ready (vo_now v w) k (vo_board w) then (False, w)
      else case load_manifest v dir (on_board (mark_retrying k) w) of
        (Inl e, w1) \<Rightarrow> (False, on_board (end_retrying k) (report_failure v dir (''delivery journal unreadable: '' @ err_text e)
            ''Repair the journal or staging storage; no files have been adopted or discarded.'' w1))
      | (Inr None, w1) \<Rightarrow> (False, on_board (end_retrying k) w1)
      | (Inr (Some m), w1) \<Rightarrow>
          (case restore_retry v dir m w1 of (a, w2) \<Rightarrow>
             if a = AttemptWait \<or> \<not> ready then (False, on_board (end_retrying k) w2)
             else (True, on_board (end_retrying k)
                     (finish_pass tx v dir links listed (length (mn_entries m))
                        (on_board (clear_recovered_folder_wait k) w2)))))"

end
