(* ===== verification/Delivery_Safety.thy ===== *)
theory Delivery_Safety
  imports Delivery
begin

text \<open>
  What a delivery never loses. \<open>files\<close> lists what a plan froze: each staged source, its destination
  and the bytes. Under fair surroundings, in every run of passes, with any call failing and cut off
  anywhere, each of these is whole at one of its two places, and no other file is touched.
\<close>

section \<open>Plans and their surroundings\<close>

type_synonym files = "(path \<times> path \<times> string) list"

definition holds_file :: "nodes \<Rightarrow> path \<Rightarrow> string \<Rightarrow> bool" where
  "holds_file m p c \<longleftrightarrow> (\<exists>t. m p = Some (RegularFile c t))"

definition none_lost :: "files \<Rightarrow> nodes \<Rightarrow> bool" where
  "none_lost fl m \<longleftrightarrow> (\<forall>(s, d, c) \<in> set fl. holds_file m s c \<or> holds_file m d c)"

definition sources_true :: "files \<Rightarrow> nodes \<Rightarrow> bool" where
  "sources_true fl m \<longleftrightarrow> (\<forall>(s, d, c) \<in> set fl. m s = None \<or> holds_file m s c)"

definition unforged :: "files \<Rightarrow> nodes \<Rightarrow> bool" where
  "unforged fl m \<longleftrightarrow> (\<forall>(s, d, c) \<in> set fl. \<forall>c'. holds_file m d c' \<longrightarrow> head_and_tail c' = head_and_tail c \<longrightarrow> c' = c)"

definition bystanders :: "nodes \<Rightarrow> nodes \<Rightarrow> bool" where
  "bystanders by m \<longleftrightarrow> (\<forall>p. by p \<noteq> None \<longrightarrow> m p = by p)"

text \<open>A leftover of an interrupted copy of \<open>d\<close>.\<close>

definition temp_of :: "path \<Rightarrow> path \<Rightarrow> bool" where
  "temp_of d q \<longleftrightarrow> (\<exists>name n. file_name d = Some name \<and> q = butlast d @ [Normal n] \<and> part_of name n)"

text \<open>
  The paths of a plan do not get in each other's way, and the bystanders are neither in the job's
  folder nor leftovers of its copies. Sources are no bookkeeping.
\<close>

definition plan_apart :: "files \<Rightarrow> path \<Rightarrow> nodes \<Rightarrow> bool" where
  "plan_apart fl D by \<longleftrightarrow> distinct (map fst fl) \<and> distinct (map (fst \<circ> snd) fl)
     \<and> (\<forall>(s, d, c) \<in> set fl. path_parent s = Some D \<and> \<not> is_bookkeeping s \<and> path_parent d \<noteq> Some D \<and> file_name d \<noteq> None
         \<and> d \<noteq> D \<and> by s = None)
     \<and> (\<forall>(s, d, c) \<in> set fl. \<forall>q. temp_of d q \<longrightarrow> by q = None \<and> q \<notin> (fst \<circ> snd) ` set fl)
     \<and> by D = None \<and> (\<forall>q. path_parent q = Some D \<longrightarrow> by q = None)"

text \<open>\<open>no_replace\<close> as documented: it never replaces; when it fails, the file is where it was, already
  in place, or a claim of no bytes is left.\<close>

definition publishes :: "(path \<Rightarrow> path \<Rightarrow> nodes \<Rightarrow> unit io_result \<times> nodes) \<Rightarrow> bool" where
  "publishes pub \<longleftrightarrow> (\<forall>s d m. case pub s d m of (r, m') \<Rightarrow>
       (m' = m \<and> r \<noteq> Inr ())
     \<or> (m s \<noteq> None \<and> m d = None \<and> m' = m(s := None, d := m s))
     \<or> (m d = None \<and> r \<noteq> Inr () \<and> (\<exists>t. m' = m(d \<mapsto> RegularFile [] t))))"

text \<open>
  What other processes may do to the files at once: anything, but to the staged sources, to a
  destination that holds its file, to a copy in the making and to the bystanders; and they put no file
  at a destination that has the staged one's first and last 64 KiB and is another.
\<close>

definition others_fair :: "world_env \<Rightarrow> files \<Rightarrow> nodes \<Rightarrow> nodes \<Rightarrow> nodes \<Rightarrow> bool" where
  "others_fair v fl by m m' \<longleftrightarrow>
     (\<forall>(s, d, c) \<in> set fl. m' s = m s \<and> (holds_file m d c \<longrightarrow> holds_file m' d c)
        \<and> (\<forall>b. holds_file m (temp_path v d) b \<longrightarrow> holds_file m' (temp_path v d) b))
     \<and> (unforged fl m \<longrightarrow> unforged fl m') \<and> (bystanders by m \<longrightarrow> bystanders by m')"

definition fair_env :: "world_env \<Rightarrow> files \<Rightarrow> nodes \<Rightarrow> bool" where
  "fair_env v fl by \<longleftrightarrow> (\<forall>n e. ev_fault v n = Some e \<longrightarrow> err_kind e \<noteq> NotFound) \<and> publishes (ev_publish v)
     \<and> (\<forall>n m. others_fair v fl by m (ev_foreign v n m))"

definition conforms :: "files \<Rightarrow> path \<Rightarrow> manifest \<Rightarrow> bool" where
  "conforms fl D m \<longleftrightarrow> map (\<lambda>e. (dl_source e, dl_destination e)) (mn_entries m) = map (\<lambda>(s, d, c). (s, d)) fl
     \<and> mn_directory m = D \<and> list_all (\<lambda>c. path_parent (cl_path c) = Some D) (mn_cleanup m)"

definition journal_conforms :: "files \<Rightarrow> path \<Rightarrow> manifest doc slot \<Rightarrow> bool" where
  "journal_conforms fl D j \<longleftrightarrow> (\<forall>m. slot_target j = Some (Json m) \<longrightarrow> conforms fl D m)"

definition safe :: "files \<Rightarrow> path \<Rightarrow> nodes \<Rightarrow> manifest doc slot \<Rightarrow> nodes \<Rightarrow> bool" where
  "safe fl D by j m \<longleftrightarrow> journal_conforms fl D j \<and> none_lost fl m \<and> sources_true fl m \<and> unforged fl m \<and> bystanders by m"

text \<open>What the other processes and the journal's updates leave true.\<close>

definition stable :: "world_env \<Rightarrow> files \<Rightarrow> path \<Rightarrow> (manifest doc slot \<Rightarrow> nodes \<Rightarrow> bool) \<Rightarrow> bool" where
  "stable v fl D I \<longleftrightarrow> (\<forall>n j m. I j m \<longrightarrow> I j (ev_foreign v n m)) \<and> (\<forall>j m. I j m \<longrightarrow> journal_conforms fl D j)
     \<and> (\<forall>j j' m. I j m \<longrightarrow> journal_conforms fl D j' \<longrightarrow> I j' m)"

section \<open>Calls that change nothing\<close>

lemma stable_syscall:
  assumes "stable v fl D I" "\<And>n j m. I j m \<Longrightarrow> I j (snd (f n m))"
  shows "keeps (vol I) (syscall v f)"
  unfolding keeps_iff
proof (intro allI impI)
  fix w assume "vol I w"
  with assms(1) have "I (vo_journal w) (ev_foreign v (vo_calls w) (vo_nodes w))" by (auto simp: stable_def vol_def)
  with assms(2) [OF this, of "vo_calls w"] show "vol I (snd (syscall v f w))"
    by (auto simp: syscall_def Let_def vol_def split: option.split prod.split)
qed

lemma stable_reading:
  assumes "stable v fl D I" "\<And>n m. snd (f n m) = m"
  shows "keeps (vol I) (syscall v f)"
  by (rule stable_syscall [OF assms(1)]) (simp add: assms(2))

lemma keeps_reading:
  assumes "stable v fl D I"
  shows "keeps (vol I) (symlink_metadata v p)" "keeps (vol I) (list_folder v p)" "keeps (vol I) (read_bytes_at v p)"
    "keeps (vol I) (resolve v p)" "keeps (vol I) (sync_path v p)" "keeps (vol I) (stamp_read v p)"
    "keeps (vol I) (file_len v p)" "keeps (vol I) (open_candidate v p)"
  unfolding symlink_metadata_def list_folder_def read_bytes_at_def resolve_def sync_path_def stamp_read_def file_len_def
    open_candidate_def
  by (rule stable_reading [OF assms], simp)+

section \<open>The journal\<close>

lemma syscall_look: "stable v fl D I \<Longrightarrow> vol I w \<Longrightarrow> vol I (snd (syscall v (\<lambda>_ m. (r, m)) w))"
  using stable_reading [of v fl D I "\<lambda>_ m. (r, m)"] by (simp add: keeps_iff)

lemma stable_conforms: "stable v fl D I \<Longrightarrow> vol I w \<Longrightarrow> journal_conforms fl D (vo_journal w)"
  unfolding stable_def vol_def by blast

lemma stable_foreign: "stable v fl D I \<Longrightarrow> vol I w \<Longrightarrow> I (vo_journal w) (ev_foreign v n (vo_nodes w))"
  unfolding stable_def vol_def by blast

lemma journal_reading:
  assumes "stable v fl D I"
  shows "keeps (vol I) (journal_there v)" "keeps (vol I) (journal_read v)"
  unfolding keeps_iff journal_there_def journal_read_def by (blast intro: syscall_look [OF assms])+

lemma journal_read_conforms:
  assumes "stable v fl D I"
  shows "triple (vol I) (journal_read v) (\<lambda>m w. vol I w \<and> conforms fl D m) (\<lambda>_. vol I)"
proof (rule tripleI)
  fix w e w' assume "vol I w" "journal_read v w = (Inl e, w')"
  then show "vol I w'" using journal_reading(2) [OF assms] by (auto simp: keeps_iff dest!: spec [of _ w])
next
  fix w m w' assume w: "vol I w" and run: "journal_read v w = (Inr m, w')"
  have "slot_target (vo_journal w) = Some (Json m)"
    using run by (auto simp: journal_read_def syscall_def Let_def split: option.splits doc.splits)
  moreover have "journal_conforms fl D (vo_journal w)" using stable_conforms [OF assms w] .
  ultimately show "vol I w' \<and> conforms fl D m"
    using w run journal_reading(2) [OF assms] by (auto simp: keeps_iff journal_conforms_def dest!: spec [of _ w])
qed

lemma load_conforms:
  assumes st: "stable v fl D I"
  shows "triple (vol I) (load_manifest v dir) (\<lambda>m w. vol I w \<and> pred_option (conforms fl D) m) (\<lambda>_. vol I)"
  unfolding load_manifest_def
proof (rule triple_attempt_io [where R = "\<lambda>_. vol I" and F = "\<lambda>_. vol I"])
  show "keeps (vol I) (journal_there v)" by (rule journal_reading [OF st])
next
  fix x :: unit
  show "triple (vol I) (case Inr x of Inl e \<Rightarrow> if err_kind e = NotFound then give None else fail e
     | Inr _ \<Rightarrow> try_io (journal_read v) (\<lambda>m. try_io (resolve v dir) (\<lambda>d.
         if manifest_valid d m then give (Some m) else fail (io_other ''invalid delivery manifest; refusing recovery''))))
     (\<lambda>m w. vol I w \<and> pred_option (conforms fl D) m) (\<lambda>_. vol I)"
    by (auto intro!: triple_try_io [OF journal_read_conforms [OF st]] triple_try_io [where R = "\<lambda>_. vol I"] keeps_reading [OF st]
        triple_fact triple_if triple_give triple_fail)
next
  fix e
  show "triple (vol I) (case Inl e of Inl e \<Rightarrow> if err_kind e = NotFound then give None else fail e
     | Inr _ \<Rightarrow> try_io (journal_read v) (\<lambda>m. try_io (resolve v dir) (\<lambda>d.
         if manifest_valid d m then give (Some m) else fail (io_other ''invalid delivery manifest; refusing recovery''))))
     (\<lambda>m w. vol I w \<and> pred_option (conforms fl D) m) (\<lambda>_. vol I)"
    by (auto intro!: triple_if triple_give triple_fail)
qed

lemma require_conforms:
  assumes st: "stable v fl D I"
  shows "triple (vol I) (require_manifest v dir) (\<lambda>m w. vol I w \<and> conforms fl D m) (\<lambda>_. vol I)"
  unfolding require_manifest_def
proof (rule triple_try_io [OF load_conforms [OF st]])
  fix x :: "manifest option"
  show "triple (\<lambda>w. vol I w \<and> pred_option (conforms fl D) x)
     (case x of None \<Rightarrow> fail (io_other ''delivery manifest disappeared'') | Some y \<Rightarrow> give y)
     (\<lambda>m w. vol I w \<and> conforms fl D m) (\<lambda>_. vol I)"
    by (cases x) (auto intro!: triple_give triple_fail)
qed

lemma require_keeps: "stable v fl D I \<Longrightarrow> keeps (vol I) (require_manifest v dir)"
  by (rule triple_weaken [OF require_conforms]) auto

lemma load_keeps: "stable v fl D I \<Longrightarrow> keeps (vol I) (load_manifest v dir)"
  by (rule triple_weaken [OF load_conforms]) auto

lemma save_keeps:
  assumes st: "stable v fl D I" and m: "conforms fl D m"
  shows "keeps (vol I) (save_manifest v m)"
  unfolding keeps_iff
proof (intro allI impI)
  fix w assume w: "vol I w"
  obtain r sl where run: "write_marker_durable (journal_path (mn_directory m)) (Json m) (ev_save v (vo_calls w)) (vo_journal w) = (r, sl)"
    by fastforce
  have "slot_target sl = Some (Json m) \<or> slot_target sl = slot_target (vo_journal w)"
    using write_marker_durable_cases [OF run] by auto
  moreover have "journal_conforms fl D (vo_journal w)" by (rule stable_conforms [OF st w])
  ultimately have "journal_conforms fl D sl" using m by (auto simp: journal_conforms_def)
  moreover have "I (vo_journal w) (ev_foreign v (vo_calls w) (vo_nodes w))" by (rule stable_foreign [OF st w])
  ultimately show "vol I (snd (save_manifest v m w))" using st run by (auto simp: save_manifest_def Let_def vol_def stable_def)
qed

lemma update_keeps:
  assumes st: "stable v fl D I" and ch: "\<And>m m'. conforms fl D m \<Longrightarrow> change m = Inr m' \<Longrightarrow> conforms fl D m'"
  shows "keeps (vol I) (update_manifest v dir change)"
  unfolding update_manifest_def
proof (rule triple_try_io [OF require_conforms [OF st]], rule triple_fact)
  fix m assume "conforms fl D m"
  with ch show "keeps (vol I) (case change m of Inl e \<Rightarrow> fail e | Inr m' \<Rightarrow> save_manifest v m')"
    by (cases "change m") (auto intro: keeps_fail save_keeps [OF st])
qed

lemma change_entry_conforms:
  "conforms fl D m \<Longrightarrow> change_entry i f m = Inr m' \<Longrightarrow> (\<And>e. dl_source (f e) = dl_source e \<and> dl_destination (f e) = dl_destination e)
    \<Longrightarrow> conforms fl D m'"
  by (auto simp: change_entry_def conforms_def map_update list_update_id split: if_splits)
    (metis (mono_tags, lifting) list_update_id nth_map)

lemma record_retry_keeps:
  assumes st: "stable v fl D I"
  shows "keeps (vol I) (record_retry v dir rt)"
  unfolding record_retry_def
proof (rule triple_try_io [OF load_conforms [OF st]], rule triple_fact)
  fix x :: "manifest option" assume "pred_option (conforms fl D) x"
  then show "keeps (vol I) (case x of None \<Rightarrow> give ()
     | Some m \<Rightarrow> if mn_retry m \<noteq> rt then save_manifest v (m\<lparr>mn_retry := rt\<rparr>) else give ())"
    by (cases x) (auto intro!: keeps_give keeps_if save_keeps [OF st] simp: conforms_def)
qed

section \<open>Operations that only look, or write the journal\<close>

lemma keeps_require_some: "keeps P (require_some msg x)"
  by (auto simp: require_some_def intro: keeps_option keeps_give keeps_fail)

lemma keeps_entry_at: "keeps P (entry_at i m)"
  by (auto simp: entry_at_def intro: keeps_give keeps_fail)

lemma keeps_skip_delivered: "keeps (vol I) (skip_delivered dest)"
  by (simp add: keeps_iff skip_delivered_def)

lemma looking_keeps:
  assumes st: "stable v fl D I"
  shows "keeps (vol I) (stamp_verify v s p)" "keeps (vol I) (verify_parent v p)" "keeps (vol I) (sync_parent v p)"
    "keeps (vol I) (same_head_and_tail v a b)" "keeps (vol I) (require_same v a b)" "keeps (vol I) (adoptable v e)"
    "keeps (vol I) (verify_prepared v e)"
  unfolding stamp_verify_def verify_parent_def sync_parent_def same_head_and_tail_def require_same_def adoptable_def
    verify_prepared_def
  by (intro keeps_rules keeps_reading [OF st] keeps_require_some)+

lemma more_looking_keeps:
  assumes st: "stable v fl D I"
  shows "keeps (vol I) (verify_entry v e)" "keeps (vol I) (verify_delivered v m)" "keeps (vol I) (check_planned v m x)"
    "keeps (vol I) (confirm_delivered v p e)" "keeps (vol I) (require_journal_only d x)"
    "keeps (vol I) (run_check v chk p)" "keeps (vol I) (check_size v p q)"
  unfolding verify_entry_def verify_delivered_def check_planned_def confirm_delivered_def require_journal_only_def
    run_check_def check_size_def Let_def
  by (intro keeps_rules keeps_reading [OF st] looking_keeps [OF st])+

lemma check_candidate_keeps:
  assumes st: "stable v fl D I"
  shows "keeps (vol I) (check_candidate v src dest c)"
  unfolding check_candidate_def check_post_copy_def by (intro keeps_rules more_looking_keeps [OF st])

lemma updates_keep:
  assumes st: "stable v fl D I"
  shows "keeps (vol I) (complete_entry v dir i)" "keeps (vol I) (mark_announced v dir)"
    "keeps (vol I) (settle_entry v dir i)" "keeps (vol I) (prepare_candidate v dir i c)"
proof -
  note upd = update_keeps [OF st]
  show "keeps (vol I) (complete_entry v dir i)"
    unfolding complete_entry_def by (rule upd) (auto elim: change_entry_conforms)
  show "keeps (vol I) (mark_announced v dir)"
    unfolding mark_announced_def by (rule upd) (auto simp: conforms_def)
  show "keeps (vol I) (settle_entry v dir i)"
    unfolding settle_entry_def
    by (intro keeps_rules require_keeps [OF st] keeps_entry_at looking_keeps [OF st] upd)
      (auto split: if_splits elim: change_entry_conforms)
  show "keeps (vol I) (prepare_candidate v dir i c)"
    unfolding prepare_candidate_def
    by (intro keeps_rules require_keeps [OF st] keeps_entry_at looking_keeps [OF st] keeps_reading [OF st] upd)
      (auto elim: change_entry_conforms)
qed

lemma record_retry_run:
  "stable v fl D I \<Longrightarrow> vol I u \<Longrightarrow> record_retry v dir rt u = (r, u') \<Longrightarrow> vol I u'"
  using record_retry_keeps [of v fl D I dir rt] unfolding keeps_iff by (metis snd_conv)

lemma commit_retry_keeps:
  assumes st: "stable v fl D I" and w: "vol I w"
  shows "vol I (commit_retry tx v dir n delay w)"
  using w by (auto simp: commit_retry_def Let_def split: option.split prod.split dest: record_retry_run [OF st])

lemma schedule_keeps:
  assumes st: "stable v fl D I" and w: "vol I w"
  shows "vol I (schedule_move_retry tx v dir w)"
  using w by (auto simp: schedule_move_retry_def Let_def intro: commit_retry_keeps [OF st] split: option.split)

lemma retry_ops_keep:
  assumes st: "stable v fl D I" and w: "vol I w"
  shows "vol I (finish_stall tx v dir w)" "vol I (hold_for_operator tx v dir w)" "vol I (commit_stall tx v dir w)"
  using w by (auto simp: finish_stall_def hold_for_operator_def commit_stall_def Let_def
      intro: commit_retry_keeps [OF st] schedule_keeps [OF st] split: option.split)

lemma restore_retry_keeps:
  assumes st: "stable v fl D I" and w: "vol I w"
  shows "vol I (snd (restore_retry v dir m w))"
  using w by (auto simp: restore_retry_def Let_def split: option.split sum.split prod.split
      elim!: record_retry_run [OF st, rotated])

section \<open>Fair surroundings\<close>

lemma others_fairD:
  assumes "others_fair v fl by m m'" "(s, d, c) \<in> set fl"
  shows "m' s = m s" "holds_file m d c \<Longrightarrow> holds_file m' d c"
    "holds_file m (temp_path v d) b \<Longrightarrow> holds_file m' (temp_path v d) b"
  using assms unfolding others_fair_def by fast+

lemma fair_env_others: "fair_env v fl by \<Longrightarrow> others_fair v fl by m (ev_foreign v n m)"
  by (simp add: fair_env_def)

lemma others_safe:
  assumes f: "others_fair v fl by m m'" and s: "safe fl D by j m"
  shows "safe fl D by j m'"
proof -
  have "none_lost fl m'" unfolding none_lost_def
  proof clarify
    fix s d c assume i: "(s, d, c) \<in> set fl" and "\<not> holds_file m' d c"
    then have "\<not> holds_file m d c" using others_fairD(2) [OF f i] by blast
    with s i have "holds_file m s c" unfolding safe_def none_lost_def by fast
    then show "holds_file m' s c" by (simp add: holds_file_def others_fairD(1) [OF f i])
  qed
  moreover have "sources_true fl m'" unfolding sources_true_def
  proof clarify
    fix s d c n assume i: "(s, d, c) \<in> set fl" and "\<not> holds_file m' s c"
    then have "\<not> holds_file m s c" by (simp add: holds_file_def others_fairD(1) [OF f i])
    with s i have "m s = None" unfolding safe_def sources_true_def by fast
    then show "m' s = None" by (simp add: others_fairD(1) [OF f i])
  qed
  ultimately show ?thesis using f s by (simp add: safe_def others_fair_def)
qed

lemma stable_safe:
  assumes "fair_env v fl by"
  shows "stable v fl D (safe fl D by)"
proof -
  have "safe fl D by j (ev_foreign v n m)" if "safe fl D by j m" for n j m
    by (rule others_safe [OF fair_env_others [OF assms] that])
  then show ?thesis by (auto simp: stable_def safe_def)
qed

definition with_copy :: "path \<Rightarrow> string \<Rightarrow> (manifest doc slot \<Rightarrow> nodes \<Rightarrow> bool) \<Rightarrow> manifest doc slot \<Rightarrow> nodes \<Rightarrow> bool" where
  "with_copy p c I j m \<longleftrightarrow> I j m \<and> holds_file m p c"

lemma stable_with_copy:
  assumes v: "fair_env v fl by" and d: "(s, d, c) \<in> set fl"
  shows "stable v fl D (with_copy (temp_path v d) b (safe fl D by))"
proof -
  have "holds_file (ev_foreign v n m) (temp_path v d) b" if "holds_file m (temp_path v d) b" for n m
    by (rule others_fairD(3) [OF fair_env_others [OF v] d that])
  then show ?thesis using stable_safe [OF v, of D] by (auto simp: stable_def with_copy_def)
qed

lemma stable_with_dest:
  assumes v: "fair_env v fl by" and d: "(s, d, c) \<in> set fl"
  shows "stable v fl D (with_copy d c (safe fl D by))"
proof -
  have "holds_file (ev_foreign v n m) d c" if "holds_file m d c" for n m
    by (rule others_fairD(2) [OF fair_env_others [OF v] d that])
  then show ?thesis using stable_safe [OF v, of D] by (auto simp: stable_def with_copy_def)
qed

section \<open>Changes to the files\<close>

definition plan_path :: "files \<Rightarrow> path \<Rightarrow> bool" where
  "plan_path fl p \<longleftrightarrow> p \<in> fst ` set fl \<or> p \<in> (fst \<circ> snd) ` set fl"

lemma holds_upd [simp]: "p \<noteq> q \<Longrightarrow> holds_file (m(q := x)) p c = holds_file m p c"
  by (simp add: holds_file_def)

lemma holds_fun: "holds_file m p c \<Longrightarrow> holds_file m p c' \<Longrightarrow> c' = c"
  by (auto simp: holds_file_def)

lemma safe_other:
  assumes "safe fl D by j m" "\<not> plan_path fl p" "by p = None"
  shows "safe fl D by j (m(p := x))"
proof -
  have np: "s \<noteq> p" "d \<noteq> p" if "(s, d, c) \<in> set fl" for s d c
    using assms(2) that by (force simp: plan_path_def)+
  have "none_lost fl (m(p := x))" "sources_true fl (m(p := x))" "unforged fl (m(p := x))"
    using assms(1) np unfolding safe_def none_lost_def sources_true_def unforged_def by (auto split: prod.splits) fastforce+
  moreover have "bystanders by (m(p := x))" using assms(1,3) by (auto simp: safe_def bystanders_def)
  ultimately show ?thesis using assms(1) by (simp add: safe_def)
qed

lemma plan_apartD:
  assumes "plan_apart fl D by" "(s, d, c) \<in> set fl"
  shows "path_parent s = Some D" "\<not> is_bookkeeping s" "path_parent d \<noteq> Some D" "file_name d \<noteq> None" "d \<noteq> D" "by s = None"
  using assms unfolding plan_apart_def by fastforce+

lemma distinct_plan:
  assumes "plan_apart fl D by" "(s, d, c) \<in> set fl" "(s', d', c') \<in> set fl"
  shows "s = s' \<longleftrightarrow> (s, d, c) = (s', d', c')" "d = d' \<longleftrightarrow> (s, d, c) = (s', d', c')" "s \<noteq> d'"
proof -
  have i: "inj_on fst (set fl)" "inj_on (fst \<circ> snd) (set fl)"
    using assms(1) by (auto simp: plan_apart_def distinct_map)
  show "s = s' \<longleftrightarrow> (s, d, c) = (s', d', c')" using inj_onD [OF i(1) _ assms(2,3)] by (metis fst_conv)
  show "d = d' \<longleftrightarrow> (s, d, c) = (s', d', c')" using inj_onD [OF i(2) _ assms(2,3)] by (metis comp_apply fst_conv snd_conv)
  show "s \<noteq> d'" using plan_apartD(1) [OF assms(1,2)] plan_apartD(3) [OF assms(1,3)] by blast
qed

lemma temp_not_plan:
  assumes ap: "plan_apart fl D by" and d: "(s, d, c) \<in> set fl" and t: "temp_of d q"
  shows "\<not> plan_path fl q" "by q = None"
proof -
  have nq: "by q = None" "q \<notin> (fst \<circ> snd) ` set fl" using ap d t unfolding plan_apart_def by fast+
  show "by q = None" by (rule nq)
  have "q \<noteq> s'" if "(s', d', c') \<in> set fl" for s' d' c'
  proof
    assume "q = s'"
    with plan_apartD(1) [OF ap that] have "path_parent q = Some D" by simp
    moreover from t obtain n where q: "q = butlast d @ [Normal n]" by (auto simp: temp_of_def)
    ultimately have "D = butlast d" by simp
    moreover from plan_apartD(4) [OF ap d] have "path_parent d = Some (butlast d)"
      by (auto simp: file_name_def path_parent_def split: if_splits comp.splits)
    ultimately show False using plan_apartD(3) [OF ap d] by simp
  qed
  with nq show "\<not> plan_path fl q" by (force simp: plan_path_def)
qed

lemma is_digit_show_nat: "list_all is_digit_char (show_nat n) \<and> show_nat n \<noteq> []"
proof (induction n rule: show_nat.induct)
  case (1 n)
  then show ?case by (cases "n < 10") (simp_all add: show_nat.simps [of n])
qed

lemma temp_of_temp_path:
  assumes "file_name d \<noteq> None"
  shows "temp_of d (temp_path v d)"
proof -
  from assms obtain name where "file_name d = Some name" by blast
  then show ?thesis using is_digit_show_nat [of "ev_pid v"]
    by (auto simp: temp_of_def temp_path_def part_of_def starts_with_def Let_def)
qed

lemma publishesD:
  assumes "publishes pub" "pub p d m = (r, m')"
  shows "(m' = m \<and> r \<noteq> Inr ()) \<or> (m p \<noteq> None \<and> m d = None \<and> m' = m(p := None, d := m p))
     \<or> (m d = None \<and> r \<noteq> Inr () \<and> (\<exists>t. m' = m(d \<mapsto> RegularFile [] t)))"
  using spec [OF spec [OF spec [OF assms(1) [unfolded publishes_def], of p], of d], of m] assms(2)
  by (simp only: prod.case)

lemma safe_publish:
  assumes ap: "plan_apart fl D by" and pub: "publishes pub" and d: "(s, d, c) \<in> set fl" and sf: "safe fl D by j m"
    and p: "p = s \<or> \<not> plan_path fl p \<and> by p = None \<and> holds_file m p c" and run: "pub p d m = (r, m')"
  shows "safe fl D by j m'"
proof -
  consider "m' = m" | (moved) "m p \<noteq> None" "m d = None" "m' = m(p := None, d := m p)"
    | (claim) t where "m d = None" "m' = m(d \<mapsto> RegularFile [] t)"
    using publishesD [OF pub run] by fast
  then show ?thesis
  proof cases
    case 1
    with sf show ?thesis by simp
  next
    case moved
    have c: "holds_file m p c" using p moved(1) sf d unfolding safe_def sources_true_def by fastforce
    then have dc: "holds_file m' d c" by (simp add: moved(3) holds_file_def)
    have other: "q \<noteq> p \<Longrightarrow> q \<noteq> d \<Longrightarrow> m' q = m q" for q by (simp add: moved(3))
    have np: "p = s \<or> (\<forall>(s', d', c') \<in> set fl. p \<noteq> s' \<and> p \<noteq> d')" using p by (force simp: plan_path_def)
    have pd: "p \<noteq> d" using moved by auto
    have keep: "none_lost fl m'" unfolding none_lost_def
    proof clarify
      fix s' d' c' assume i: "(s', d', c') \<in> set fl" and nd: "\<not> holds_file m' d' c'"
      show "holds_file m' s' c'"
      proof (cases "(s', d', c') = (s, d, c)")
        case False
        then have ne: "s' \<noteq> s" "d' \<noteq> d" "s' \<noteq> d" "d' \<noteq> s"
          using distinct_plan [OF ap i d] distinct_plan(3) [OF ap d i] by metis+
        then have "s' \<noteq> p" "d' \<noteq> p" using np i by auto
        with ne other [of s'] other [of d'] nd sf i show ?thesis
          unfolding safe_def none_lost_def by (fastforce simp: holds_file_def)
      qed (use dc nd in simp)
    qed
    have true: "sources_true fl m'" unfolding sources_true_def
    proof clarify
      fix s' d' c' y assume i: "(s', d', c') \<in> set fl" and "\<not> holds_file m' s' c'"
      have "s' \<noteq> d" using distinct_plan(3) [OF ap i d] .
      then show "m' s' = None" using \<open>\<not> holds_file m' s' c'\<close> other [of s'] sf i
        unfolding safe_def sources_true_def by (cases "s' = p") (use pd moved(3) in \<open>fastforce simp: holds_file_def\<close>)+
    qed
    have "unforged fl m'" unfolding unforged_def
    proof (clarify, rename_tac s' d' c' b)
      fix s' d' c' b assume i: "(s', d', c') \<in> set fl" and b: "holds_file m' d' b" "head_and_tail b = head_and_tail c'"
      show "b = c'"
      proof (cases "d' = d")
        case True
        then have "c' = c" using distinct_plan(2) [OF ap i d] by blast
        with dc b True show ?thesis using holds_fun by blast
      next
        case False
        then have "d' \<noteq> p" using np i distinct_plan(3) [OF ap d i] by auto
        with False other [of d'] b sf i show ?thesis unfolding safe_def unforged_def by (fastforce simp: holds_file_def)
      qed
    qed
    moreover have "bystanders by m'" unfolding bystanders_def
    proof clarify
      fix q x assume q: "by q = Some x"
      then have "m q = Some x" using sf unfolding safe_def bystanders_def by fastforce
      with moved(2) have "q \<noteq> d" by auto
      moreover have "q \<noteq> p" using p q plan_apartD(6) [OF ap d] by auto
      ultimately show "m' q = by q" using other q \<open>m q = Some x\<close> by simp
    qed
    ultimately show ?thesis using keep true sf by (simp add: safe_def)
  next
    case claim
    have other: "q \<noteq> d \<Longrightarrow> m' q = m q" for q by (simp add: claim)
    have lost: "none_lost fl m'" unfolding none_lost_def
    proof clarify
      fix s' d' c' assume i: "(s', d', c') \<in> set fl" and nd: "\<not> holds_file m' d' c'"
      have "\<not> holds_file m d' c'" using nd claim other [of d'] by (cases "d' = d") (auto simp: holds_file_def)
      with sf i have "holds_file m s' c'" unfolding safe_def none_lost_def by fast
      then show "holds_file m' s' c'" using distinct_plan(3) [OF ap i d] other [of s'] by (simp add: holds_file_def)
    qed
    have "sources_true fl m'" unfolding sources_true_def
    proof clarify
      fix s' d' c' y assume i: "(s', d', c') \<in> set fl" and "\<not> holds_file m' s' c'"
      with distinct_plan(3) [OF ap i d] other [of s'] sf show "m' s' = None"
        unfolding safe_def sources_true_def by (fastforce simp: holds_file_def)
    qed
    moreover have "unforged fl m'" unfolding unforged_def
    proof (clarify, rename_tac s' d' c' b)
      fix s' d' c' b assume i: "(s', d', c') \<in> set fl" and b: "holds_file m' d' b" "head_and_tail b = head_and_tail c'"
      show "b = c'"
      proof (cases "d' = d")
        case True
        with b claim have "b = []" by (simp add: holds_file_def)
        with b(2) show ?thesis by (auto simp: head_and_tail_def Let_def head_tail_window_def min_def split: if_splits)
      next
        case False
        with other [of d'] b sf i show ?thesis unfolding safe_def unforged_def by (fastforce simp: holds_file_def)
      qed
    qed
    moreover have "bystanders by m'" using sf claim unfolding safe_def bystanders_def by fastforce
    ultimately show ?thesis using lost sf by (simp add: safe_def)
  qed
qed

section \<open>Copying keeps everything\<close>

lemma vol_with_copy: "vol (with_copy p c I) w \<longleftrightarrow> vol I w \<and> holds_file (vo_nodes w) p c"
  by (simp add: vol_def with_copy_def)

lemma with_copy_drop: "vol (with_copy p c I) w \<Longrightarrow> vol I w"
  by (simp add: vol_with_copy)

lemma remove_other_keeps:
  assumes "fair_env v fl by" "\<not> plan_path fl p" "by p = None"
  shows "keeps (vol (safe fl D by)) (remove_path v p)"
  unfolding remove_path_def
  by (rule stable_syscall [OF stable_safe [OF assms(1)]])
    (use assms(2,3) in \<open>auto intro: safe_other split: option.split disk_node.split\<close>)

lemma temp_ops:
  assumes v: "fair_env v fl by" and ap: "plan_apart fl D by" and d: "(s, d, c) \<in> set fl"
  defines "tmp \<equiv> temp_path v d"
  shows "keeps (vol (safe fl D by)) (remove_path v tmp)"
    and "triple (vol (safe fl D by)) (create_temporary v tmp) (\<lambda>_. vol (with_copy tmp [] (safe fl D by))) (\<lambda>_. vol (safe fl D by))"
    and "triple (vol (with_copy tmp b (safe fl D by))) (append_file v tmp bs)
           (\<lambda>_. vol (with_copy tmp (b @ bs) (safe fl D by))) (\<lambda>_. vol (safe fl D by))"
    and "keeps (vol (with_copy tmp b (safe fl D by))) (set_modified v tmp t)"
proof -
  note np = temp_not_plan [OF ap d temp_of_temp_path [OF plan_apartD(4) [OF ap d]], of v, folded tmp_def]
  note st = stable_safe [OF v, of D]
  have stb: "stable v fl D (with_copy tmp b (safe fl D by))" for b unfolding tmp_def by (rule stable_with_copy [OF v d])
  have other: "safe fl D by j m \<Longrightarrow> safe fl D by j (m(tmp := x))" for j m x by (rule safe_other) (use np in simp_all)
  show "keeps (vol (safe fl D by)) (remove_path v tmp)" by (rule remove_other_keeps [OF v np])
  show "triple (vol (safe fl D by)) (create_temporary v tmp) (\<lambda>_. vol (with_copy tmp [] (safe fl D by))) (\<lambda>_. vol (safe fl D by))"
    unfolding create_temporary_def vol_def
    by (rule triple_syscall)
      (use st in \<open>auto simp: with_copy_def holds_file_def stable_def split: if_splits intro: other\<close>)
  show "keeps (vol (with_copy tmp b (safe fl D by))) (set_modified v tmp t)"
    unfolding set_modified_def
    by (rule stable_syscall [OF stb]) (auto simp: with_copy_def holds_file_def intro: other)
  show "triple (vol (with_copy tmp b (safe fl D by))) (append_file v tmp bs)
           (\<lambda>_. vol (with_copy tmp (b @ bs) (safe fl D by))) (\<lambda>_. vol (safe fl D by))"
  proof (rule tripleI)
    fix w e w' assume "vol (with_copy tmp b (safe fl D by)) w" "append_file v tmp bs w = (Inl e, w')"
    with stable_foreign [OF stb, of b w "vo_calls w"] show "vol (safe fl D by) w'"
      by (auto simp: append_file_def Let_def append_node_def vol_def with_copy_def holds_file_def intro: other split: option.splits)
  next
    fix w and u :: unit and w' assume "vol (with_copy tmp b (safe fl D by)) w" "append_file v tmp bs w = (Inr u, w')"
    with stable_foreign [OF stb, of b w "vo_calls w"] show "vol (with_copy tmp (b @ bs) (safe fl D by)) w'"
      by (auto simp: append_file_def Let_def append_node_def vol_def with_copy_def holds_file_def intro: other split: option.splits)
  qed
qed

lemma remove_temporary_keeps:
  assumes "fair_env v fl by" "plan_apart fl D by" "(s, d, c) \<in> set fl" "vol (safe fl D by) w"
  shows "vol (safe fl D by) (remove_temporary v (temp_path v d) w)"
  using temp_ops(1) [OF assms(1-3)] assms(4) by (simp add: remove_temporary_def keeps_iff)

lemma sync_above_keeps: "stable v fl D I \<Longrightarrow> vol I w \<Longrightarrow> vol I (sync_above v d w)"
  using keeps_reading(5) [of v fl D I] by (auto simp: sync_above_def keeps_iff split: option.split)

lemma copy_loop_copies:
  assumes v: "fair_env v fl by" and ap: "plan_apart fl D by" and d: "(s, d, c) \<in> set fl"
  shows "vol (with_copy (temp_path v d) b (safe fl D by)) w \<Longrightarrow>
    (case copy_loop v src (temp_path v d) rest n w of
       (Inl e, w') \<Rightarrow> vol (safe fl D by) w'
     | (Inr x, w') \<Rightarrow> vol (with_copy (temp_path v d) (b @ rest) (safe fl D by)) w')"
proof (induction "length rest" arbitrary: rest b n w rule: less_induct)
  case less
  let ?I = "\<lambda>b. with_copy (temp_path v d) b (safe fl D by)"
  obtain r w1 where read: "syscall v (\<lambda>n m. (Inr n, m)) w = (r, w1)" by fastforce
  have "vol (?I b) (snd (syscall v (\<lambda>n m. (Inr n, m)) w))"
    using stable_reading [OF stable_with_copy [OF v d, of D b], of "\<lambda>n m. (Inr n, m)"] less.prems by (simp add: keeps_iff)
  with read have w1: "vol (?I b) w1" by simp
  show ?case
  proof (cases "cancelled v w \<or> (\<exists>e. r = Inl e) \<or> rest = [] \<or> cancelled v w1")
    case True
    with less.prems w1 read show ?thesis
      by (subst copy_loop.simps) (auto split: sum.split dest: with_copy_drop)
  next
    case False
    then obtain k0 where k0: "r = Inr k0" by (cases r) auto
    define k where "k = chunk_len v k0 rest"
    have k: "0 < k" using False by (auto simp: k_def chunk_len_def)
    obtain r2 w2 where app: "append_file v (temp_path v d) (take k rest) w1 = (r2, w2)" by fastforce
    note t = triple_run [OF temp_ops(3) [OF v ap d] w1 app]
    show ?thesis
    proof (cases r2)
      case (Inl e)
      with t False read k0 app show ?thesis by (subst copy_loop.simps) (simp add: k_def [symmetric] Let_def)
    next
      case (Inr u)
      with t have "vol (?I (b @ take k rest)) w2" by simp
      moreover have e: "(b @ take k rest) @ drop k rest = b @ rest" by simp
      ultimately have "case copy_loop v src (temp_path v d) (drop k rest) (n + k) w2 of
          (Inl e, w') \<Rightarrow> vol (safe fl D by) w' | (Inr x, w') \<Rightarrow> vol (?I (b @ rest)) w'"
        using less.hyps [of "drop k rest" "b @ take k rest" w2 "n + k", unfolded e] k False by simp
      with Inr False read k0 app show ?thesis by (subst copy_loop.simps) (simp add: k_def [symmetric] Let_def)
    qed
  qed
qed

lemma read_source:
  assumes v: "fair_env v fl by" and d: "(s, d, c) \<in> set fl"
  shows "triple (vol (safe fl D by)) (read_bytes_at v s) (\<lambda>b w. vol (safe fl D by) w \<and> b = c) (\<lambda>_. vol (safe fl D by))"
proof -
  have "b = c" if "safe fl D by j m" "m s = Some (RegularFile b t)" for j m b t
    using that d unfolding safe_def sources_true_def by (fastforce simp: holds_file_def)
  then show ?thesis unfolding read_bytes_at_def vol_def
    by - (rule triple_syscall, use stable_safe [OF v, of D] in \<open>auto simp: stable_def split: option.splits disk_node.splits\<close>)
qed

lemma copy_to_temporary_copies:
  assumes v: "fair_env v fl by" and ap: "plan_apart fl D by" and d: "(s, d, c) \<in> set fl"
  shows "triple (vol (safe fl D by)) (copy_to_temporary v s (temp_path v d))
     (\<lambda>_. vol (with_copy (temp_path v d) c (safe fl D by))) (\<lambda>_. vol (safe fl D by))"
  unfolding copy_to_temporary_def
proof (rule triple_try_io [OF triple_map_err' [OF read_source [OF v d]]], rule triple_fact, simp,
    rule triple_try_io [OF triple_map_err' [OF temp_ops(2) [OF v ap d]]])
  let ?I = "with_copy (temp_path v d) c (safe fl D by)"
  note st = stable_with_copy [OF v d, of D c]
  have loop: "triple (vol (with_copy (temp_path v d) [] (safe fl D by))) (copy_loop v s (temp_path v d) c 0)
      (\<lambda>_. vol ?I) (\<lambda>_. vol (safe fl D by))"
  proof -
    have "case copy_loop v s (temp_path v d) c 0 w of (Inl e, w') \<Rightarrow> vol (safe fl D by) w' | (Inr x, w') \<Rightarrow> vol ?I w'"
      if "vol (with_copy (temp_path v d) [] (safe fl D by)) w" for w
      using copy_loop_copies [where src = s and rest = c and n = 0, OF v ap d that] by (simp only: append_Nil)
    then show ?thesis unfolding triple_def by simp
  qed
  have pin: "vol ?I (pin_temporary v s (temp_path v d) w)" if "vol ?I w" for w
  proof -
    have "keeps (vol ?I) (try_io (stamp_read v s) (\<lambda>x. set_modified v (temp_path v d) (pinned_mtime (st_modified x))))"
      by (intro keeps_try_io keeps_reading(6) [OF st] temp_ops(4) [OF v ap d])
    with that show ?thesis by (simp add: pin_temporary_def keeps_iff)
  qed
  have rest: "triple (vol ?I) (try_io (map_err (in_context ''sync destination'' (temp_path v d)) (sync_path v (temp_path v d))) (\<lambda>_. give n))
      (\<lambda>_. vol ?I) (\<lambda>_. vol (safe fl D by))" for n :: nat
    by (rule triple_weaken [where P = "vol ?I" and Q = "\<lambda>_. vol ?I" and E = "\<lambda>_. vol ?I"])
      (auto intro!: keeps_rules keeps_reading [OF st] dest: with_copy_drop)
  show "triple (vol (with_copy (temp_path v d) [] (safe fl D by)))
      (try_io (copy_loop v s (temp_path v d) c 0) (\<lambda>copied w.
         try_io (map_err (in_context ''sync destination'' (temp_path v d)) (sync_path v (temp_path v d))) (\<lambda>_. give copied)
           (pin_temporary v s (temp_path v d) w)))
      (\<lambda>_. vol ?I) (\<lambda>_. vol (safe fl D by))"
    by (rule triple_try_io [OF loop]) (use rest pin in \<open>auto simp: triple_def\<close>)
qed

section \<open>Moving keeps everything\<close>

lemma publish_keeps:
  assumes v: "fair_env v fl by" and ap: "plan_apart fl D by" and d: "(s, d, c) \<in> set fl"
  shows "keeps (vol (safe fl D by)) (publish_path v s d)"
    and "triple (vol (with_copy (temp_path v d) c (safe fl D by))) (publish_path v (temp_path v d) d)
           (\<lambda>_. vol (safe fl D by)) (\<lambda>_. vol (safe fl D by))"
proof -
  have pub: "publishes (ev_publish v)" using v by (simp add: fair_env_def)
  have "safe fl D by j (snd (ev_publish v s d m))" if "safe fl D by j m" for j m
    by (rule safe_publish [OF ap pub d that disjI1 [OF refl] prod.collapse [symmetric]])
  then show "keeps (vol (safe fl D by)) (publish_path v s d)"
    unfolding publish_path_def by - (rule stable_syscall [OF stable_safe [OF v]])
  note np = temp_not_plan [OF ap d temp_of_temp_path [OF plan_apartD(4) [OF ap d]], of v]
  have "safe fl D by j m'" if "with_copy (temp_path v d) c (safe fl D by) j m" "ev_publish v (temp_path v d) d m = (r, m')" for j m r m'
    by (rule safe_publish [OF ap pub d _ _ that(2)]) (use that(1) np in \<open>simp_all add: with_copy_def\<close>)
  moreover have "with_copy (temp_path v d) c (safe fl D by) j (ev_foreign v n m)" if "with_copy (temp_path v d) c (safe fl D by) j m" for n j m
    using stable_with_copy [OF v d, of D c] that unfolding stable_def by blast
  ultimately show "triple (vol (with_copy (temp_path v d) c (safe fl D by))) (publish_path v (temp_path v d) d)
           (\<lambda>_. vol (safe fl D by)) (\<lambda>_. vol (safe fl D by))"
    unfolding publish_path_def vol_def
    by - (rule triple_syscall, auto simp: with_copy_def)
qed

lemma copy_counting_keeps:
  assumes v: "fair_env v fl by" and ap: "plan_apart fl D by" and d: "(s, d, c) \<in> set fl"
    and before: "keeps (vol (with_copy (temp_path v d) c (safe fl D by))) (before (temp_path v d))" and w: "vol (safe fl D by) w"
  shows "vol (safe fl D by) (snd (copy_counting v s d before w))"
proof (cases "cancelled v w")
  case True
  with w show ?thesis by (simp add: copy_counting_def)
next
  case False
  let ?tmp = "temp_path v d" and ?S = "safe fl D by"
  note rm = remove_temporary_keeps [OF v ap d]
  note sync = sync_above_keeps [OF stable_with_copy [OF v d, of D c]]
  obtain r w1 where c1: "copy_to_temporary v s ?tmp (remove_temporary v ?tmp w) = (r, w1)" by fastforce
  note t1 = triple_run [OF copy_to_temporary_copies [OF v ap d] rm [OF w] c1]
  show ?thesis
  proof (cases r)
    case (Inl e)
    with t1 rm c1 False show ?thesis by (simp add: copy_counting_def Let_def)
  next
    case (Inr n)
    then have i1: "vol (with_copy ?tmp c ?S) (sync_above v d w1)" using t1 sync by simp
    obtain r2 w2 where c2: "before ?tmp (sync_above v d w1) = (r2, w2)" by fastforce
    have i2: "vol (with_copy ?tmp c ?S) w2" using before i1 c2 unfolding keeps_iff by (metis snd_conv)
    obtain r3 w3 where c3: "publish_path v ?tmp d w2 = (r3, w3)" by fastforce
    have i3: "vol ?S w3" using triple_run [OF publish_keeps(2) [OF v ap d] i2 c3] by (auto split: sum.splits)
    show ?thesis
      using False c1 c2 c3 Inr rm [OF with_copy_drop [OF i1]] rm [OF with_copy_drop [OF i2]] rm [OF i3]
        sync_above_keeps [OF stable_safe [OF v, of D] i3, of d]
      by (simp add: copy_counting_def Let_def split: sum.split)
  qed
qed

lemma published_keeps: "stable v fl D I \<Longrightarrow> vol I w \<Longrightarrow> vol I (snd (published tx v dir d w))"
  using keeps_reading(5) [of v fl D I]
  by (auto simp: published_def dest_failed_def keeps_iff split: option.split sum.split prod.split) (metis snd_conv)+

lemma copy_outcome_keeps:
  assumes st: "stable v fl D I" and w: "vol I (snd rw)"
  shows "vol I (snd (copy_outcome tx v dir d rw))"
proof -
  obtain r u where rw: "rw = (r, u)" by fastforce
  have "vol I (stall_row tx v dir reason u)" for reason
    unfolding stall_row_def Let_def by (rule retry_ops_keep(3) [OF st]) (use w rw in simp)
  with w rw show ?thesis
    by (auto simp: copy_outcome_def Let_def intro!: published_keeps [OF st] split: monitor_verdict.split sum.split)
qed

lemma move_file_keeps:
  assumes v: "fair_env v fl by" and ap: "plan_apart fl D by" and d: "(s, d, c) \<in> set fl"
    and before: "\<And>I p. stable v fl D I \<Longrightarrow> keeps (vol I) (before p)" and w: "vol (safe fl D by) w"
  shows "vol (safe fl D by) (snd (move_file tx v dir s d before w))"
proof -
  let ?S = "safe fl D by"
  note st = stable_safe [OF v, of D]
  obtain r w1 where m1: "symlink_metadata v d w = (r, w1)" by fastforce
  have i1: "vol ?S w1" using keeps_reading(1) [OF st] w m1 unfolding keeps_iff by (metis snd_conv)
  have i1': "vol ?S (snd (file_len v s w1))" using keeps_reading(7) [OF st] i1 unfolding keeps_iff by blast
  obtain r2 w2 where m2: "before s (snd (file_len v s w1)) = (r2, w2)" by fastforce
  have i2: "vol ?S w2" using before [OF st, of s] i1' m2 unfolding keeps_iff by (metis snd_conv)
  obtain r3 w3 where m3: "publish_path v s d w2 = (r3, w3)" by fastforce
  have i3: "vol ?S w3" using publish_keeps(1) [OF v ap d] i2 m3 unfolding keeps_iff by (metis snd_conv)
  note stc = stable_with_copy [OF v d, of D c]
  have "vol ?S (snd (copy_counting v s d (\<lambda>p. try_io (check_candidate v s d p) (\<lambda>_. map_err Plain (before p))) w3))"
    by (rule copy_counting_keeps [OF v ap d _ i3]) (intro keeps_rules check_candidate_keeps [OF stc] before [OF stc])
  note copied = copy_outcome_keeps [OF st this, of tx dir d]
  from i1 i2 i3 m1 m2 m3 show ?thesis
    by (auto simp: move_file_def dest_failed_def split: sum.split intro!: published_keeps [OF st] copied)
qed

section \<open>Delivering keeps everything\<close>

lemma conforms_entry:
  assumes "conforms fl D m" "i < length (mn_entries m)"
  shows "\<exists>c. (dl_source (mn_entries m ! i), dl_destination (mn_entries m ! i), c) \<in> set fl"
proof -
  have eq: "map (\<lambda>e. (dl_source e, dl_destination e)) (mn_entries m) = map (\<lambda>(s, d, c). (s, d)) fl"
    using assms(1) by (simp add: conforms_def)
  from assms(2) arg_cong [OF eq, of length] have l: "i < length fl" by simp
  obtain s d c where f: "fl ! i = (s, d, c)" using prod_cases3 by blast
  from arg_cong [OF eq, of "\<lambda>xs. xs ! i"] assms(2) l f
  have "dl_source (mn_entries m ! i) = s" "dl_destination (mn_entries m ! i) = d" by simp_all
  with f l show ?thesis by (metis nth_mem)
qed

lemma found_keeps: "stable v fl D I \<Longrightarrow> keeps (vol I) (found_at_destination v dir i e n)"
  unfolding found_at_destination_def
  by (intro keeps_rules looking_keeps updates_keep keeps_skip_delivered)

lemma publish_entry_keeps:
  assumes v: "fair_env v fl by" and ap: "plan_apart fl D by" and e: "(dl_source e, dl_destination e, c) \<in> set fl"
  shows "keeps (vol (safe fl D by)) (publish_entry tx v dir i e)"
  unfolding publish_entry_def
proof (rule keeps_try_io)
  note st = stable_safe [OF v, of D]
  show "keeps (vol (safe fl D by)) (stamp_verify v (dl_identity e) (dl_source e))" by (rule looking_keeps [OF st])
  have settle: "keeps (vol (safe fl D by)) (try_io (settle_entry v dir i) (\<lambda>_. give x))" for x :: move_outcome
    by (intro keeps_rules updates_keep [OF st])
  have move: "vol (safe fl D by) w1"
    if "vol (safe fl D by) w" "move_file tx v dir (dl_source e) (dl_destination e) (prepare_candidate v dir i) w = (x, w1)" for w x w1
  proof -
    have "vol (safe fl D by) (snd (move_file tx v dir (dl_source e) (dl_destination e) (prepare_candidate v dir i) w))"
      by (rule move_file_keeps [OF v ap e _ that(1)]) (rule updates_keep(4))
    with that(2) show ?thesis by simp
  qed
  show "keeps (vol (safe fl D by)) (\<lambda>w. case move_file tx v dir (dl_source e) (dl_destination e) (prepare_candidate v dir i) w of
         (out, w1) \<Rightarrow> if out \<in> {MoveMoved, MoveSkipped} then try_io (settle_entry v dir i) (\<lambda>_. give out) w1 else (Inr out, w1))" for u :: unit
    using move settle unfolding keeps_iff by (auto split: prod.splits)
qed

lemma sweep_keeps:
  assumes v: "fair_env v fl by" and ap: "plan_apart fl D by" and d: "(s, d, c) \<in> set fl"
  shows "keeps (vol (safe fl D by)) (sweep_temporaries v d)"
proof -
  note st = stable_safe [OF v, of D]
  have rm: "keeps (vol (safe fl D by)) (remove_path v (p @ [Normal n]))"
    if "path_parent d = Some p" "file_name d = Some name" "part_of name n" for p n name
  proof -
    have "p = butlast d" using that(1) by (simp add: path_parent_def split: if_splits)
    then have "temp_of d (p @ [Normal n])" using that by (auto simp: temp_of_def)
    from remove_other_keeps [OF v temp_not_plan [OF ap d this]] show ?thesis .
  qed
  have one: "keeps (vol (safe fl D by)) (sweep_one v p name x)" if "path_parent d = Some p" "file_name d = Some name" for p name x
    using rm [OF that] unfolding sweep_one_def Let_def
    by (cases x) (auto intro!: keeps_rules keeps_reading [OF st])
  show ?thesis
    unfolding sweep_temporaries_def
    by (auto split: option.split intro!: keeps_give keeps_try_io keeps_reading [OF st] triple_each one)
qed

lemma deliver_keeps:
  assumes v: "fair_env v fl by" and ap: "plan_apart fl D by"
  shows "keeps (vol (safe fl D by)) (deliver tx v dir i)"
  unfolding deliver_def
proof (rule triple_try_io [OF require_conforms [OF stable_safe [OF v]]], rule triple_fact)
  note st = stable_safe [OF v, of D]
  fix m assume m: "conforms fl D m"
  show "keeps (vol (safe fl D by)) (try_io (entry_at i m) (\<lambda>e.
     try_io (verify_parent v (dl_destination e)) (\<lambda>_.
     try_io (sweep_temporaries v (dl_destination e)) (\<lambda>_.
     attempt_io (symlink_metadata v (dl_destination e)) (\<lambda>r. case r of
       Inr n \<Rightarrow> found_at_destination v dir i e n
     | Inl x \<Rightarrow> if err_kind x = NotFound \<and> \<not> dl_completed e then publish_entry tx v dir i e else fail x)))))"
  proof (cases "i < length (mn_entries m)")
    case True
    then obtain c where e: "(dl_source (mn_entries m ! i), dl_destination (mn_entries m ! i), c) \<in> set fl"
      using conforms_entry [OF m] by blast
    have eq: "entry_at i m = give (mn_entries m ! i)" using True by (simp add: entry_at_def)
    have give: "keeps P (f x) \<Longrightarrow> keeps P (try_io (give x) f)" for P :: "manifest volume \<Rightarrow> bool" and f :: "delivery_entry \<Rightarrow> move_outcome mio" and x
      by (simp add: triple_def try_io_def give_def)
    show ?thesis unfolding eq
      by (intro give keeps_rules looking_keeps [OF st] sweep_keeps [OF v ap e] keeps_reading [OF st] found_keeps [OF st]
          publish_entry_keeps [OF v ap e])
  qed (simp add: entry_at_def triple_def try_io_def fail_def)
qed

section \<open>Cleaning up keeps everything\<close>

lemma safe_remove_source:
  assumes ap: "plan_apart fl D by" and d: "(s, d, c) \<in> set fl" and sf: "safe fl D by j m" and h: "holds_file m d c \<or> m s = None"
  shows "safe fl D by j (m(s := None))"
proof -
  have other: "s' \<noteq> s" if "(s', d', c') \<in> set fl" "(s', d', c') \<noteq> (s, d, c)" for s' d' c'
    using distinct_plan(1) [OF ap that(1) d] that(2) by blast
  have nd: "d' \<noteq> s" if "(s', d', c') \<in> set fl" for s' d' c' using distinct_plan(3) [OF ap d that] by simp
  have "none_lost fl (m(s := None))" unfolding none_lost_def
  proof clarify
    fix s' d' c' assume i: "(s', d', c') \<in> set fl" and n: "\<not> holds_file (m(s := None)) d' c'"
    have nd': "\<not> holds_file m d' c'" using n nd [OF i] by simp
    have src: "holds_file m s' c'" using sf i nd' unfolding safe_def none_lost_def by fast
    have "(s', d', c') \<noteq> (s, d, c)" using h nd' src by (auto simp: holds_file_def)
    from other [OF i this] src show "holds_file (m(s := None)) s' c'" by simp
  qed
  moreover have "sources_true fl (m(s := None))" unfolding sources_true_def
  proof clarify
    fix s' d' c' y assume i: "(s', d', c') \<in> set fl" and n: "\<not> holds_file (m(s := None)) s' c'"
    show "(m(s := None)) s' = None"
    proof (cases "s' = s")
      case False
      with n have "\<not> holds_file m s' c'" by simp
      with False sf i show ?thesis unfolding safe_def sources_true_def by fastforce
    qed simp
  qed
  moreover have "unforged fl (m(s := None))" unfolding unforged_def
  proof clarify
    fix s' d' c' b assume i: "(s', d', c') \<in> set fl" and b: "holds_file (m(s := None)) d' b" "head_and_tail b = head_and_tail c'"
    with nd [OF i] have "holds_file m d' b" by simp
    with sf i b(2) show "b = c'" unfolding safe_def unforged_def by fast
  qed
  moreover have "bystanders by (m(s := None))" using sf plan_apartD(6) [OF ap d] by (auto simp: safe_def bystanders_def)
  ultimately show ?thesis using sf by (simp add: safe_def)
qed

definition gone_or_there :: "path \<Rightarrow> path \<Rightarrow> string \<Rightarrow> (manifest doc slot \<Rightarrow> nodes \<Rightarrow> bool) \<Rightarrow> manifest doc slot \<Rightarrow> nodes \<Rightarrow> bool" where
  "gone_or_there s d c I j m \<longleftrightarrow> I j m \<and> (holds_file m d c \<or> m s = None)"

lemma stable_gone_or_there:
  assumes v: "fair_env v fl by" and d: "(s, d, c) \<in> set fl"
  shows "stable v fl D (gone_or_there s d c (safe fl D by))"
proof -
  have "holds_file (ev_foreign v n m) d c \<or> ev_foreign v n m s = None" if "holds_file m d c \<or> m s = None" for n m
    using others_fairD(1,2) [OF fair_env_others [where m = m and n = n, OF v] d] that by auto
  then show ?thesis using stable_safe [OF v, of D] by (auto simp: stable_def gone_or_there_def)
qed

text \<open>The comparison before a source is removed proves its destination.\<close>

lemma require_same_proves:
  assumes v: "fair_env v fl by" and d: "(s, d, c) \<in> set fl"
  shows "triple (vol (safe fl D by)) (require_same v s d) (\<lambda>_. vol (gone_or_there s d c (safe fl D by))) (\<lambda>_. vol (safe fl D by))"
proof -
  let ?S = "safe fl D by"
  note st = stable_safe [OF v, of D]
  have dest: "triple (vol ?S) (read_bytes_at v d)
      (\<lambda>b w. vol ?S w \<and> (head_and_tail c = head_and_tail b \<longrightarrow> holds_file (vo_nodes w) d c)) (\<lambda>_. vol ?S)"
  proof -
    have "holds_file m d c" if "?S j m" "m d = Some (RegularFile b t)" "head_and_tail c = head_and_tail b" for j m b t
    proof -
      have "holds_file m d b" using that(2) by (simp add: holds_file_def)
      moreover from this that d have "b = c" unfolding safe_def unforged_def by fastforce
      ultimately show ?thesis by simp
    qed
    then show ?thesis unfolding read_bytes_at_def vol_def
      by - (rule triple_syscall, use st in \<open>auto simp: stable_def split: option.splits disk_node.splits\<close>)
  qed
  have "triple (vol ?S) (same_head_and_tail v s d) (\<lambda>x w. vol ?S w \<and> (x \<longrightarrow> holds_file (vo_nodes w) d c)) (\<lambda>_. vol ?S)"
    unfolding same_head_and_tail_def
    by (rule triple_try_io [OF read_source [OF v d]], rule triple_fact, simp, rule triple_try_io [OF dest], rule triple_give, auto)
  then show ?thesis unfolding require_same_def
    by (rule triple_try_io) (auto intro!: triple_if triple_give triple_fail simp: vol_def gone_or_there_def)
qed

lemma confirm_proves:
  assumes v: "fair_env v fl by" and d: "(dl_source e, dl_destination e, c) \<in> set fl"
  shows "triple (vol (safe fl D by)) (confirm_delivered v (dl_source e) e)
     (\<lambda>_. vol (gone_or_there (dl_source e) (dl_destination e) c (safe fl D by))) (\<lambda>_. vol (safe fl D by))"
proof -
  let ?S = "safe fl D by" and ?G = "gone_or_there (dl_source e) (dl_destination e) c (safe fl D by)"
  note st = stable_safe [OF v, of D]
  have meta: "triple (vol ?S) (symlink_metadata v (dl_source e)) (\<lambda>_. vol ?S)
      (\<lambda>x w. vol ?S w \<and> (err_kind x = NotFound \<longrightarrow> vo_nodes w (dl_source e) = None))"
    unfolding symlink_metadata_def vol_def
    by (rule triple_syscall) (use v st in \<open>auto simp: stable_def fair_env_def absent_def split: option.splits\<close>)
  show ?thesis unfolding confirm_delivered_def
  proof (rule triple_try_io [OF looking_keeps(2) [OF st]], rule triple_try_io [OF looking_keeps(7) [OF st]],
      rule triple_attempt_io [OF meta])
    fix n :: disk_node
    show "triple (vol ?S) (case Inr n of Inr _ \<Rightarrow> require_same v (dl_source e) (dl_destination e)
       | Inl x \<Rightarrow> if err_kind x = NotFound then give () else fail x) (\<lambda>_. vol ?G) (\<lambda>_. vol ?S)"
      by (simp add: require_same_proves [OF v d])
  next
    fix x :: io_error
    show "triple (\<lambda>w. vol ?S w \<and> (err_kind x = NotFound \<longrightarrow> vo_nodes w (dl_source e) = None))
       (case Inl x of Inr (_ :: disk_node) \<Rightarrow> require_same v (dl_source e) (dl_destination e)
       | Inl x \<Rightarrow> if err_kind x = NotFound then give () else fail x) (\<lambda>_. vol ?G) (\<lambda>_. vol ?S)"
      by (auto simp: vol_def gone_or_there_def intro!: triple_if triple_give triple_fail)
  qed
qed

lemma conforms_mem: "conforms fl D m \<Longrightarrow> e \<in> set (mn_entries m) \<Longrightarrow> \<exists>c. (dl_source e, dl_destination e, c) \<in> set fl"
  by (metis conforms_entry in_set_conv_nth)

lemma conforms_sources:
  assumes "conforms fl D m"
  shows "fst ` set fl = dl_source ` set (mn_entries m)"
proof -
  have "map (\<lambda>e. (dl_source e, dl_destination e)) (mn_entries m) = map (\<lambda>(s, d, c). (s, d)) fl"
    using assms by (simp add: conforms_def)
  from arg_cong [OF this, of "map fst"] have "map dl_source (mn_entries m) = map fst fl"
    by (simp add: comp_def case_prod_unfold)
  then show ?thesis by (metis list.set_map)
qed

lemma folder_path_not_dest:
  "plan_apart fl D by \<Longrightarrow> path_parent p = Some D \<Longrightarrow> plan_path fl p \<Longrightarrow> p \<in> fst ` set fl"
  using plan_apartD(3) by (fastforce simp: plan_path_def)

lemma plan_apart_folder: "plan_apart fl D by \<Longrightarrow> path_parent p = Some D \<Longrightarrow> by p = None"
  by (simp add: plan_apart_def)

lemma remove_source_keeps:
  assumes v: "fair_env v fl by" and ap: "plan_apart fl D by" and d: "(s, d, c) \<in> set fl"
  shows "triple (vol (gone_or_there s d c (safe fl D by))) (remove_path v s) (\<lambda>_. vol (safe fl D by)) (\<lambda>_. vol (safe fl D by))"
  unfolding remove_path_def vol_def
proof (rule triple_syscall)
  fix n j m assume "gone_or_there s d c (safe fl D by) j m"
  then show "gone_or_there s d c (safe fl D by) j (ev_foreign v n m)"
    using stable_gone_or_there [OF v d, of D] unfolding stable_def by blast
qed (auto simp: gone_or_there_def split: option.splits disk_node.splits intro: safe_remove_source [OF ap d])

lemma clean_one_keeps:
  assumes v: "fair_env v fl by" and ap: "plan_apart fl D by" and m: "conforms fl D m" and c: "c \<in> set (mn_cleanup m)"
  shows "keeps (vol (safe fl D by)) (clean_one v m c)"
proof -
  let ?S = "safe fl D by"
  note st = stable_safe [OF v, of D]
  have parent: "path_parent (cl_path c) = Some D" using m c by (simp add: conforms_def list_all_iff)
  show ?thesis
  proof (cases "find (\<lambda>e. dl_source e = cl_path c) (mn_entries m)")
    case None
    then have "dl_source e \<noteq> cl_path c" if "e \<in> set (mn_entries m)" for e using that by (auto simp: find_None_iff)
    then have "cl_path c \<notin> fst ` set fl" using conforms_sources [OF m] by (metis imageE)
    then have "\<not> plan_path fl (cl_path c)" using folder_path_not_dest [OF ap parent] by blast
    note rm = remove_other_keeps [OF v this plan_apart_folder [OF ap parent]]
    show ?thesis unfolding clean_one_def None option.case by (intro keeps_rules looking_keeps [OF st] rm)
  next
    case (Some e)
    then have e: "e \<in> set (mn_entries m)" and src: "cl_path c = dl_source e" by (auto dest: find_in_set)
    from conforms_mem [OF m e] obtain b where f: "(dl_source e, dl_destination e, b) \<in> set fl" by blast
    let ?G = "gone_or_there (dl_source e) (dl_destination e) b ?S"
    note stg = stable_gone_or_there [OF v f, of D]
    have drop: "vol ?G w \<Longrightarrow> vol ?S w" for w by (simp add: vol_def gone_or_there_def)
    show ?thesis unfolding clean_one_def src Some [unfolded src] option.case
      by (rule triple_try_io [OF confirm_proves [OF v f]], rule triple_attempt_io [OF looking_keeps(1) [OF stg]])
        (auto intro: remove_source_keeps [OF v ap f] intro!: triple_if triple_give triple_fail drop)
  qed
qed

lemma bookkeeping_keeps:
  assumes v: "fair_env v fl by" and ap: "plan_apart fl D by" and D: "D \<noteq> []"
  shows "keeps (vol (safe fl D by)) (remove_bookkeeping v D x)"
proof -
  have rm: "keeps (vol (safe fl D by)) (remove_path v (path_join D [Normal n]))" if "is_bookkeeping (path_join D [Normal n])" for n
  proof -
    have parent: "path_parent (path_join D [Normal n]) = Some D" using D by (simp add: path_join_def is_absolute_def)
    have "path_join D [Normal n] \<notin> fst ` set fl" using plan_apartD(2) [OF ap] that by fastforce
    then have "\<not> plan_path fl (path_join D [Normal n])" using folder_path_not_dest [OF ap parent] by blast
    from remove_other_keeps [OF v this plan_apart_folder [OF ap parent]] show ?thesis .
  qed
  show ?thesis unfolding remove_bookkeeping_def Let_def
    by (cases x) (auto intro!: keeps_give keeps_fail keeps_attempt keeps_sum keeps_if rm)
qed

lemma remove_journal_keeps:
  assumes st: "stable v fl D I"
  shows "keeps (vol I) (remove_journal v)"
  unfolding keeps_iff
proof (intro allI impI)
  fix w assume w: "vol I w"
  have "journal_conforms fl D ((vo_journal w)\<lparr>slot_target := None\<rparr>)" by (simp add: journal_conforms_def)
  with stable_foreign [OF st w] have "I ((vo_journal w)\<lparr>slot_target := None\<rparr>) (ev_foreign v (vo_calls w) (vo_nodes w))"
    using st unfolding stable_def by blast
  with stable_foreign [OF st w, of "vo_calls w"] show "vol I (snd (remove_journal v w))"
    by (auto simp: remove_journal_def Let_def vol_def split: option.split)
qed

lemma remove_folder_keeps:
  assumes v: "fair_env v fl by" and ap: "plan_apart fl D by"
  shows "keeps (vol (safe fl D by)) (remove_folder v D)"
proof -
  have "\<not> plan_path fl D"
  proof
    assume "plan_path fl D"
    then obtain s d c where f: "(s, d, c) \<in> set fl" "D = s \<or> D = d" by (force simp: plan_path_def)
    with plan_apartD(1,5) [OF ap f(1)] have "path_parent D = Some D" by auto
    then show False by (auto simp: path_parent_def split: if_splits) (metis append_butlast_last_id append_self_conv not_Cons_self2)
  qed
  moreover have "by D = None" using ap by (simp add: plan_apart_def)
  ultimately have other: "safe fl D by j m \<Longrightarrow> safe fl D by j (m(D := x))" for j m x by (blast intro: safe_other)
  have "keeps (vol (safe fl D by)) (syscall v (\<lambda>n m. if m D \<noteq> Some DirNode then (Inl absent, m)
     else if q n m then (Inl (io_other ''directory not empty''), m) else (Inr (), m(D := None))))" for q
    by (rule stable_syscall [OF stable_safe [OF v]]) (auto intro: other)
  then have "vol (safe fl D by) (snd (remove_folder v D w))" if "vol (safe fl D by) w" for w
    using that by (simp add: keeps_iff remove_folder_def)
  then show ?thesis by (simp add: keeps_iff)
qed

lemma cleanup_keeps:
  assumes v: "fair_env v fl by" and ap: "plan_apart fl D by" and m: "conforms fl D m" and D: "D \<noteq> []"
  shows "keeps (vol (safe fl D by)) (cleanup_delivery v m)"
proof -
  note st = stable_safe [OF v, of D]
  have dir: "mn_directory m = D" using m by (simp add: conforms_def)
  show ?thesis unfolding cleanup_delivery_def Let_def dir
    by (intro keeps_rules more_looking_keeps [OF st] keeps_reading [OF st] bookkeeping_keeps [OF v ap D]
        remove_journal_keeps [OF st] remove_folder_keeps [OF v ap])
      (simp add: clean_one_keeps [OF v ap m])
qed

section \<open>Passes keep everything\<close>

lemma deliver_each_keeps:
  assumes v: "fair_env v fl by" and ap: "plan_apart fl D by"
  shows "vol (safe fl D by) w \<Longrightarrow> vol (safe fl D by) (snd (deliver_each tx v dir is acc held w))"
proof (induction "is" arbitrary: acc held w)
  case (Cons i "is")
  obtain r w1 where d: "deliver tx v dir i w = (r, w1)" by fastforce
  have "vol (safe fl D by) w1" using deliver_keeps [OF v ap, of tx dir i] Cons.prems d unfolding keeps_iff by (metis snd_conv)
  with Cons.IH d show ?case by (simp add: Let_def)
qed simp

lemma blocked_pass_keeps:
  assumes st: "stable v fl D I" and w: "vol I w" and b: "blocked_pass tx v dir outs held w = Some w'"
  shows "vol I w'"
proof -
  have f: "vol I (schedule_failed_delivery tx v dir outs (report_failure v dir reason hint u))" if "vol I u" for reason hint u
    using that schedule_keeps [OF st] by (simp add: schedule_failed_delivery_def report_failure_def)
  have h: "vol I (hold_for_operator tx v dir (report_failure v dir reason hint u))" if "vol I u" for reason hint u
    using that retry_ops_keep(2) [OF st] by (simp add: report_failure_def)
  show ?thesis using b w f h retry_ops_keep(1) [OF st w, of tx dir]
    by (auto simp: blocked_pass_def Let_def take_failure_def split: if_splits option.splits)
qed

lemma finish_pass_keeps:
  assumes v: "fair_env v fl by" and ap: "plan_apart fl D by" and D: "D \<noteq> []" and w: "vol (safe fl D by) w"
  shows "vol (safe fl D by) (finish_pass tx v dir links listed n w)"
proof -
  let ?S = "safe fl D by"
  note st = stable_safe [OF v, of D]
  obtain outs held w1 where d: "deliver_each tx v dir [0 ..< n] [] None (on_board (snd \<circ> take_failure) w) = ((outs, held), w1)"
    by (metis prod.exhaust)
  have i1: "vol ?S w1"
    using deliver_each_keeps [OF v ap, of "on_board (snd \<circ> take_failure) w" tx dir "[0 ..< n]" "[]" None] w d by simp
  show ?thesis
  proof (cases "blocked_pass tx v dir outs held w1")
    case (Some w2)
    with d blocked_pass_keeps [OF st i1] show ?thesis by (simp add: finish_pass_def)
  next
    case None
    let ?check = "try_io (require_manifest v dir) (\<lambda>m. try_io (verify_delivered v m) (\<lambda>_. give m))"
    have t: "triple (vol ?S) ?check (\<lambda>m w. vol ?S w \<and> conforms fl D m) (\<lambda>_. vol ?S)"
      by (rule triple_try_io [OF require_conforms [OF st]], rule triple_fact,
          rule triple_try_io [OF more_looking_keeps(2) [OF st]], rule triple_give) simp
    obtain r w2 where c: "?check w1 = (r, w2)" by fastforce
    note i2 = triple_run [OF t i1 c]
    show ?thesis
    proof (cases r)
      case (Inl e)
      with d None c i2 show ?thesis by (simp add: finish_pass_def report_failure_def)
    next
      case (Inr m)
      with i2 have w2: "vol ?S w2" and m: "conforms fl D m" by simp_all
      obtain go w3 where a: "announce_delivery tx v dir links m w2 = (go, w3)" by fastforce
      have "vol ?S (snd (announce_delivery tx v dir links m w2))"
        using w2 updates_keep(2) [OF st, of dir] schedule_keeps [OF st]
        by (auto simp: announce_delivery_def report_failure_def keeps_iff split: option.split)
      with a have w3: "vol ?S w3" by simp
      obtain r4 w4 where cl: "cleanup_delivery v m w3 = (r4, w4)" by fastforce
      have "vol ?S w4" using cleanup_keeps [OF v ap m D] w3 cl unfolding keeps_iff by (metis snd_conv)
      with d None c Inr a w3 cl show ?thesis
        by (auto simp: finish_pass_def tear_down_def Let_def split: bool.split sum.split)
    qed
  qed
qed

lemma journaled_pass_keeps:
  assumes v: "fair_env v fl by" and ap: "plan_apart fl D by" and D: "D \<noteq> []" and w: "vol (safe fl D by) w"
  shows "vol (safe fl D by) (snd (journaled_pass tx v dir ready links listed w))"
proof -
  let ?S = "safe fl D by"
  note st = stable_safe [OF v, of D]
  obtain r w1 where l: "load_manifest v dir (on_board (mark_retrying (path_text dir)) w) = (r, w1)" by fastforce
  have w1: "vol ?S w1" using load_keeps [OF st, of dir] w l unfolding keeps_iff by (metis snd_conv vol_board(1))
  have w2: "vol ?S u" if "restore_retry v dir m w1 = (a, u)" for m a u
    using restore_retry_keeps [OF st w1, of dir m] that by simp
  show ?thesis using w w1 l
    by (auto simp: journaled_pass_def Let_def report_failure_def split: sum.split option.split prod.split
        intro!: finish_pass_keeps [OF v ap D] dest: w2)
qed

section \<open>What a run comes to\<close>

text \<open>A pass of the mover, or whatever happens to the rows: a Retry, a prune, a restart.\<close>

datatype delivery_event = Pass move_texts world_env bool "io_error option" bool | Rows "move_board \<Rightarrow> move_board"

definition run_event :: "path \<Rightarrow> delivery_event \<Rightarrow> manifest volume \<Rightarrow> manifest volume" where
  "run_event dir x w = (case x of Pass tx v ready links listed \<Rightarrow> snd (journaled_pass tx v dir ready links listed w)
     | Rows f \<Rightarrow> on_board f w)"

definition fair_event :: "files \<Rightarrow> nodes \<Rightarrow> delivery_event \<Rightarrow> bool" where
  "fair_event fl by x = (case x of Pass tx v ready links listed \<Rightarrow> fair_env v fl by | Rows f \<Rightarrow> True)"

text \<open>The journal of a plan whose files are all still staged, their destinations free.\<close>

definition frozen_plan :: "files \<Rightarrow> path \<Rightarrow> nodes \<Rightarrow> manifest volume \<Rightarrow> bool" where
  "frozen_plan fl D by w \<longleftrightarrow> (\<exists>m. slot_target (vo_journal w) = Some (Json m) \<and> conforms fl D m)
     \<and> (\<forall>(s, d, c) \<in> set fl. holds_file (vo_nodes w) s c \<and> vo_nodes w d = None) \<and> bystanders by (vo_nodes w)"

lemma frozen_safe: "frozen_plan fl D by w \<Longrightarrow> vol (safe fl D by) w"
  by (fastforce simp: frozen_plan_def vol_def safe_def journal_conforms_def none_lost_def sources_true_def unforged_def holds_file_def)

lemma run_events_keep:
  assumes ap: "plan_apart fl D by" and D: "D \<noteq> []" and xs: "list_all (fair_event fl by) xs" and w: "vol (safe fl D by) w"
  shows "vol (safe fl D by) (fold (run_event dir) xs w)"
  using xs w
proof (induction xs arbitrary: w)
  case (Cons x xs)
  have "vol (safe fl D by) (run_event dir x w)"
  proof (cases x)
    case (Pass tx v ready links listed)
    with Cons.prems show ?thesis by (auto simp: run_event_def fair_event_def intro!: journaled_pass_keeps [OF _ ap D])
  next
    case (Rows f)
    with Cons.prems show ?thesis by (simp add: run_event_def)
  qed
  with Cons show ?case by simp
qed simp


section \<open>An example\<close>

text \<open>A calm disk whose \<open>no_replace\<close> is a rename, a job with one file, and a foreign film.\<close>

definition rename_absent :: "path \<Rightarrow> path \<Rightarrow> nodes \<Rightarrow> unit io_result \<times> nodes" where
  "rename_absent s d m = (if m s = None \<or> m d \<noteq> None then (Inl absent, m) else (Inr (), m(s := None, d := m s)))"

lemma publishes_rename: "publishes rename_absent"
  by (auto simp: publishes_def rename_absent_def)

definition sample_disk :: world_env where
  "sample_disk = \<lparr>ev_fault = (\<lambda>_. None), ev_foreign = (\<lambda>_ m. m), ev_list = (\<lambda>_ p m. if p = [RootDir, Normal ''m''] then [Inr ''b.mkv'']
       else (if m [RootDir, Normal ''s'', Normal ''disc-1'', Normal ''a.mkv''] = None then [] else [Inr ''a.mkv''])),
     ev_resolve = (\<lambda>_ p. Inr p), ev_save = (\<lambda>_. no_faults), ev_publish = rename_absent, ev_chunk = (\<lambda>_. 1),
     ev_mtime = (\<lambda>n. n), ev_cancel = (\<lambda>_. False), ev_shutdown = (\<lambda>_. False), ev_monitor = (\<lambda>_. Drained),
     ev_spawn = True, ev_now = (\<lambda>_. 0), ev_wall = (\<lambda>_. 0), ev_pid = 7\<rparr>"

definition sample_job :: path where "sample_job = [RootDir, Normal ''s'', Normal ''disc-1'']"
definition sample_source :: path where "sample_source = sample_job @ [Normal ''a.mkv'']"
definition sample_dest :: path where "sample_dest = [RootDir, Normal ''m'', Normal ''a.mkv'']"
definition sample_film :: path where "sample_film = [RootDir, Normal ''m'', Normal ''b.mkv'']"

definition sample_entry :: delivery_entry where
  "sample_entry = \<lparr>dl_source = sample_source, dl_destination = sample_dest, dl_identity = \<lparr>st_size = 2, st_modified = 5\<rparr>,
     dl_prepared = None, dl_completed = False, dl_planned = None\<rparr>"

definition sample_manifest :: manifest where
  "sample_manifest = \<lparr>mn_version = 1, mn_directory = sample_job, mn_marker = [], mn_outputs = [], mn_roots = [[RootDir, Normal ''m'']],
     mn_entries = [sample_entry], mn_cleanup = [\<lparr>cl_path = sample_source, cl_identity = \<lparr>st_size = 2, st_modified = 5\<rparr>\<rparr>],
     mn_retry = None, mn_announced = False\<rparr>"

definition sample_volume :: "manifest volume" where
  "sample_volume = \<lparr>vo_nodes = [sample_job \<mapsto> DirNode, sample_source \<mapsto> RegularFile ''xy'' 5, sample_film \<mapsto> RegularFile ''z'' 1],
     vo_journal = \<lparr>slot_target = Some (Json sample_manifest), slot_tmp = None\<rparr>, vo_board = fresh_board, vo_calls = 0\<rparr>"

definition sample_move_texts :: move_texts where
  "sample_move_texts = \<lparr>mx_unsaved = (\<lambda>r e. r @ '': '' @ e), mx_unsaved_hint = ''h1'', mx_dest_hint = ''h2'', mx_stall_hint = ''h3'',
     mx_returned_hint = ''h4'', mx_collision = ''c'', mx_collision_hint = ''h5'', mx_size_hint = ''h6'', mx_invalid_hint = ''h7'',
     mx_copy_hint = ''h8'', mx_listing_hint = ''h9'', mx_cleanup_hint = ''h10''\<rparr>"

definition sample_files :: files where "sample_files = [(sample_source, sample_dest, ''xy'')]"

definition sample_others :: nodes where "sample_others = [sample_film \<mapsto> RegularFile ''z'' 1]"

lemmas sample_paths = sample_source_def sample_dest_def sample_film_def sample_job_def

lemma sample_apart: "plan_apart sample_files sample_job sample_others"
proof -
  have "\<not> part_of ''a.mkv'' ''a.mkv''" "\<not> part_of ''a.mkv'' ''b.mkv''" "\<not> is_bookkeeping sample_source"
    by (code_simp, code_simp, code_simp)
  then show ?thesis
    by (auto simp: plan_apart_def sample_files_def sample_others_def sample_paths path_parent_def file_name_def temp_of_def)
qed

lemma sample_fair: "fair_env sample_disk fl by"
  by (simp add: fair_env_def sample_disk_def others_fair_def publishes_rename)

lemma sample_frozen: "frozen_plan sample_files sample_job sample_others sample_volume"
  by (auto simp: frozen_plan_def sample_files_def sample_others_def sample_volume_def sample_manifest_def sample_entry_def
      sample_paths conforms_def path_parent_def holds_file_def bystanders_def)


end
