(* ===== verification/Retry_Budget.thy ===== *)
theory Retry_Budget
  imports Delivery_Safety
begin

text \<open>
  The retry budget of a delivery (\<open>server/mover.rs\<close>): a failed delivery is tried again after 30
  seconds, then after two minutes, and then waits for the operator's Retry. The count is in the
  journal, so a restart buys no fourth copy. What a pass does to the count is read off the row of
  the job (\<open>row_view\<close>) and the journal (\<open>plan_view\<close>).
\<close>

section \<open>What a pass leaves of the count\<close>

definition row_view :: "string \<Rightarrow> move_board \<Rightarrow> (nat \<times> nat option \<times> string option) option \<times> bool option" where
  "row_view k b = (map_option (\<lambda>r. (mr_attempts r, mr_retry_after r, mr_owner r)) (mb_rows b k), mb_requests b k)"

definition plan_view :: "manifest doc slot \<Rightarrow> (delivery_retry option \<times> path list) option" where
  "plan_view j = (case slot_target j of Some (Json m) \<Rightarrow> Some (mn_retry m, map dl_destination (mn_entries m)) | _ \<Rightarrow> None)"

abbreviation view :: "manifest \<Rightarrow> delivery_retry option \<times> path list" where
  "view m \<equiv> (mn_retry m, map dl_destination (mn_entries m))"

definition frame :: "string \<Rightarrow> (delivery_retry option \<times> path list) option
    \<Rightarrow> (nat \<times> nat option \<times> string option) option \<times> bool option \<Rightarrow> manifest volume \<Rightarrow> bool" where
  "frame k V R w \<longleftrightarrow> plan_view (vo_journal w) = V \<and> row_view k (vo_board w) = R"

lemma frame_syscall: "keeps (frame k V R) (syscall v f)"
  by (auto simp: keeps_iff frame_def syscall_def Let_def split: option.split prod.split)

lemma frame_calls:
  "keeps (frame k V R) (symlink_metadata v p)" "keeps (frame k V R) (list_folder v p)" "keeps (frame k V R) (read_bytes_at v p)"
  "keeps (frame k V R) (resolve v p)" "keeps (frame k V R) (sync_path v p)" "keeps (frame k V R) (stamp_read v p)"
  "keeps (frame k V R) (file_len v p)" "keeps (frame k V R) (open_candidate v p)" "keeps (frame k V R) (publish_path v p q)"
  "keeps (frame k V R) (remove_path v p)" "keeps (frame k V R) (create_temporary v p)" "keeps (frame k V R) (set_modified v p t)"
  unfolding symlink_metadata_def list_folder_def read_bytes_at_def resolve_def sync_path_def stamp_read_def file_len_def
    open_candidate_def publish_path_def remove_path_def create_temporary_def set_modified_def
  by (rule frame_syscall)+

lemma frame_run: "keeps (frame k V R) m \<Longrightarrow> frame k V R w \<Longrightarrow> m w = (r, w') \<Longrightarrow> frame k V R w'"
  unfolding keeps_iff by (metis snd_conv)

lemma frame_journal:
  "keeps (frame k V R) (journal_there v)" "keeps (frame k V R) (journal_read v)"
  using frame_syscall unfolding keeps_iff journal_there_def journal_read_def by blast+

lemma frame_append: "keeps (frame k V R) (append_file v p bs)"
  by (auto simp: keeps_iff append_file_def Let_def frame_def split: option.split)

lemma journal_read_view: "triple (frame k V R) (journal_read v) (\<lambda>m w. frame k V R w \<and> V = Some (view m)) (\<lambda>_. frame k V R)"
proof (rule tripleI)
  fix w e w' assume "frame k V R w" "journal_read v w = (Inl e, w')"
  then show "frame k V R w'" by (rule frame_run [OF frame_journal(2)])
next
  fix w m w' assume w: "frame k V R w" and run: "journal_read v w = (Inr m, w')"
  have "slot_target (vo_journal w) = Some (Json m)"
    using run by (auto simp: journal_read_def syscall_def Let_def split: option.splits doc.splits)
  with w frame_run [OF frame_journal(2) w run] show "frame k V R w' \<and> V = Some (view m)"
    by (auto simp: frame_def plan_view_def)
qed

lemma load_view:
  "triple (frame k V R) (load_manifest v dir) (\<lambda>m w. frame k V R w \<and> (m = None \<or> V = Some (view (the m)))) (\<lambda>_. frame k V R)"
  unfolding load_manifest_def
proof (rule triple_attempt_io [OF frame_journal(1)])
  fix x :: unit
  show "triple (frame k V R) (case Inr x of Inl e \<Rightarrow> if err_kind e = NotFound then give None else fail e
     | Inr _ \<Rightarrow> try_io (journal_read v) (\<lambda>m. try_io (resolve v dir) (\<lambda>d.
         if manifest_valid d m then give (Some m) else fail (io_other ''invalid delivery manifest; refusing recovery''))))
     (\<lambda>m w. frame k V R w \<and> (m = None \<or> V = Some (view (the m)))) (\<lambda>_. frame k V R)"
    by (auto intro!: triple_try_io [OF journal_read_view] triple_try_io [where R = "\<lambda>_. frame k V R"] frame_calls
        triple_fact triple_if triple_give triple_fail)
next
  fix e
  show "triple (frame k V R) (case Inl e of Inl e \<Rightarrow> if err_kind e = NotFound then give None else fail e
     | Inr _ \<Rightarrow> try_io (journal_read v) (\<lambda>m. try_io (resolve v dir) (\<lambda>d.
         if manifest_valid d m then give (Some m) else fail (io_other ''invalid delivery manifest; refusing recovery''))))
     (\<lambda>m w. frame k V R w \<and> (m = None \<or> V = Some (view (the m)))) (\<lambda>_. frame k V R)"
    by (auto intro!: triple_if triple_give triple_fail)
qed

lemma require_view:
  "triple (frame k V R) (require_manifest v dir) (\<lambda>m w. frame k V R w \<and> V = Some (view m)) (\<lambda>_. frame k V R)"
  unfolding require_manifest_def
proof (rule triple_try_io [OF load_view])
  fix x :: "manifest option"
  show "triple (\<lambda>w. frame k V R w \<and> (x = None \<or> V = Some (view (the x))))
     (case x of None \<Rightarrow> fail (io_other ''delivery manifest disappeared'') | Some y \<Rightarrow> give y)
     (\<lambda>m w. frame k V R w \<and> V = Some (view m)) (\<lambda>_. frame k V R)"
    by (cases x) (auto intro!: triple_give triple_fail)
qed

lemma frame_require: "keeps (frame k V R) (require_manifest v dir)"
  by (rule triple_weaken [OF require_view]) auto

text \<open>A save leaves the old plan or the new one.\<close>

lemma save_view:
  assumes "save_manifest v m w = (r, w')"
  shows "vo_board w' = vo_board w" "plan_view (vo_journal w') \<in> {plan_view (vo_journal w), Some (view m)}"
    "r = Inr () \<Longrightarrow> plan_view (vo_journal w') = Some (view m)"
proof -
  obtain x sl where run: "write_marker_durable (journal_path (mn_directory m)) (Json m) (ev_save v (vo_calls w)) (vo_journal w) = (x, sl)"
    by fastforce
  note c = write_marker_durable_cases [OF run]
  have w': "r = x" "w' = w\<lparr>vo_nodes := ev_foreign v (vo_calls w) (vo_nodes w), vo_journal := sl, vo_calls := Suc (vo_calls w)\<rparr>"
    using assms run by (simp_all add: save_manifest_def Let_def)
  then show "vo_board w' = vo_board w" by simp
  have sl: "slot_target sl = Some (Json m) \<or> slot_target sl = slot_target (vo_journal w)" using c by auto
  then show "plan_view (vo_journal w') \<in> {plan_view (vo_journal w), Some (view m)}" by (auto simp: w' plan_view_def)
  show "plan_view (vo_journal w') = Some (view m)" if "r = Inr ()" using c that by (auto simp: w' plan_view_def)
qed

lemma frame_save: "V = Some (view m) \<Longrightarrow> keeps (frame k V R) (save_manifest v m)"
  unfolding keeps_iff
proof (intro allI impI)
  fix w assume V: "V = Some (view m)" and w: "frame k V R w"
  obtain r w' where run: "save_manifest v m w = (r, w')" by fastforce
  from V w save_view [OF run] show "frame k V R (snd (save_manifest v m w))" by (auto simp: frame_def run)
qed

lemma frame_update:
  assumes "\<And>m m'. change m = Inr m' \<Longrightarrow> view m' = view m"
  shows "keeps (frame k V R) (update_manifest v dir change)"
  unfolding update_manifest_def
proof (rule triple_try_io [OF require_view], unfold triple_def, intro allI impI)
  fix m w assume w: "frame k V R w \<and> V = Some (view m)"
  show "case (case change m of Inl e \<Rightarrow> fail e | Inr m' \<Rightarrow> save_manifest v m') w of (Inl e, w') \<Rightarrow> frame k V R w' | (Inr x, w') \<Rightarrow> frame k V R w'"
  proof (cases "change m")
    case (Inl e)
    with w show ?thesis by (auto simp: fail_def)
  next
    case (Inr m')
    with assms [OF Inr] w have s: "keeps (frame k V R) (save_manifest v m')" by (intro frame_save) simp
    obtain r w' where run: "save_manifest v m' w = (r, w')" by fastforce
    have "frame k V R w'" by (rule frame_run [OF s conjunct1 [OF w] run])
    with Inr run show ?thesis by (simp split: sum.split)
  qed
qed

lemma change_entry_view:
  "change_entry i f m = Inr m' \<Longrightarrow> (\<And>e. dl_destination (f e) = dl_destination e) \<Longrightarrow> view m' = view m"
  by (auto simp: change_entry_def map_update list_update_id split: if_splits) (metis list_update_id nth_map)

text \<open>\<open>apply_retry_at\<close> and the rows: what a commit makes of the count.\<close>

lemma frame_updates:
  "keeps (frame k V R) (complete_entry v dir i)" "keeps (frame k V R) (mark_announced v dir)"
  "keeps (frame k V R) (settle_entry v dir i)" "keeps (frame k V R) (prepare_candidate v dir i c)"
proof -
  show "keeps (frame k V R) (complete_entry v dir i)"
    unfolding complete_entry_def by (rule frame_update) (erule change_entry_view, simp)
  show "keeps (frame k V R) (mark_announced v dir)"
    unfolding mark_announced_def by (rule frame_update) auto
  show "keeps (frame k V R) (settle_entry v dir i)"
    unfolding settle_entry_def verify_parent_def stamp_verify_def
    by (intro keeps_rules frame_require keeps_entry_at keeps_require_some frame_calls frame_update)
      (auto split: if_splits dest: change_entry_view)
  show "keeps (frame k V R) (prepare_candidate v dir i c)"
    unfolding prepare_candidate_def verify_parent_def stamp_verify_def
    by (intro keeps_rules frame_require keeps_entry_at keeps_require_some frame_calls frame_update)
      (erule change_entry_view, simp)
qed

lemmas frame_rules = keeps_rules frame_require keeps_entry_at keeps_require_some frame_calls frame_updates

lemma frame_looking:
  "keeps (frame k V R) (stamp_verify v s p)" "keeps (frame k V R) (verify_parent v p)" "keeps (frame k V R) (sync_parent v p)"
  "keeps (frame k V R) (require_same v a b)" "keeps (frame k V R) (adoptable v e)" "keeps (frame k V R) (verify_prepared v e)"
  "keeps (frame k V R) (check_size v p q)" "keeps (frame k V R) (run_check v chk p)"
  unfolding stamp_verify_def verify_parent_def sync_parent_def require_same_def same_head_and_tail_def adoptable_def
    verify_prepared_def check_size_def run_check_def
  by (intro frame_rules)+

lemma frame_sweep: "keeps (frame k V R) (sweep_temporaries v p)"
  unfolding sweep_temporaries_def sweep_one_def Let_def
  by (auto split: option.split intro!: frame_rules)

lemma frame_more_looking:
  "keeps (frame k V R) (verify_delivered v m)" "keeps (frame k V R) (check_planned v m x)"
  "keeps (frame k V R) (confirm_delivered v p e)" "keeps (frame k V R) (require_journal_only d x)"
  "keeps (frame k V R) (remove_bookkeeping v d x)" "keeps (frame k V R) (check_candidate v p q c)"
  unfolding verify_delivered_def verify_entry_def check_planned_def confirm_delivered_def require_journal_only_def
    remove_bookkeeping_def check_candidate_def check_post_copy_def Let_def
  by (intro frame_rules frame_looking)+

lemma frame_clean_one: "keeps (frame k V R) (clean_one v m c)"
  unfolding clean_one_def by (intro frame_rules frame_looking frame_more_looking)

section \<open>The budget\<close>

definition rt_count :: "delivery_retry option \<Rightarrow> nat" where
  "rt_count rt = (case rt of None \<Rightarrow> 0 | Some s \<Rightarrow> rt_attempts s)"

definition rt_held :: "delivery_retry option \<Rightarrow> bool" where
  "rt_held rt \<longleftrightarrow> (case rt of None \<Rightarrow> False | Some s \<Rightarrow> rt_not_before s = None)"

text \<open>\<open>a\<close> attempts are spent: the row says so, the journal says no more, and three hold the delivery.\<close>

definition spent :: "string \<Rightarrow> path list \<Rightarrow> nat \<Rightarrow> manifest volume \<Rightarrow> bool" where
  "spent k ds a w \<longleftrightarrow> (case plan_view (vo_journal w) of None \<Rightarrow> False
       | Some (rt, ds') \<Rightarrow> ds' = ds \<and> rt_count rt \<le> a \<and> (3 \<le> rt_count rt \<longrightarrow> rt_held rt))
     \<and> (case row_view k (vo_board w) of (row, req) \<Rightarrow> req = None
          \<and> (case row of None \<Rightarrow> a = 0 | Some (n, t, ow) \<Rightarrow> n = a \<and> ow = None \<and> (3 \<le> n \<longrightarrow> t = None)))"

definition has_row :: "string \<Rightarrow> manifest volume \<Rightarrow> bool" where
  "has_row k w \<longleftrightarrow> mb_rows (vo_board w) k \<noteq> None"

definition stalled :: "string \<Rightarrow> manifest volume \<Rightarrow> bool" where
  "stalled k w \<longleftrightarrow> (case mb_rows (vo_board w) k of None \<Rightarrow> False | Some r \<Rightarrow> mr_stall_resume r \<noteq> None)"

lemma spent_frame: "spent k ds a w \<Longrightarrow> frame k (plan_view (vo_journal w)) (row_view k (vo_board w)) w'
   \<Longrightarrow> spent k ds a w'"
  by (simp add: spent_def frame_def)

lemma frame_spent:
  assumes "\<And>V R. keeps (frame k V R) m"
  shows "keeps (spent k ds a) m"
  unfolding keeps_iff
proof (intro allI impI)
  fix w assume w: "spent k ds a w"
  have "frame k (plan_view (vo_journal w)) (row_view k (vo_board w)) w" by (simp add: frame_def)
  with assms have "frame k (plan_view (vo_journal w)) (row_view k (vo_board w)) (snd (m w))" unfolding keeps_iff by blast
  then show "spent k ds a (snd (m w))" by (rule spent_frame [OF w])
qed

lemma spent_view: "spent k ds a w \<Longrightarrow> \<exists>rt. plan_view (vo_journal w) = Some (rt, ds)"
  by (auto simp: spent_def split: option.splits prod.splits)

lemma require_spent:
  "triple (spent k ds a) (require_manifest v dir) (\<lambda>m w. spent k ds a w \<and> map dl_destination (mn_entries m) = ds) (\<lambda>_. spent k ds a)"
proof (rule tripleI)
  fix w e w' assume "spent k ds a w" "require_manifest v dir w = (Inl e, w')"
  then show "spent k ds a w'" using frame_spent [OF frame_require, of k ds a v dir] unfolding keeps_iff by (metis snd_conv)
next
  fix w m w' assume w: "spent k ds a w" and run: "require_manifest v dir w = (Inr m, w')"
  have "frame k (plan_view (vo_journal w)) (row_view k (vo_board w)) w" by (simp add: frame_def)
  from triple_run [OF require_view this run] spent_view [OF w] spent_frame [OF w]
  show "spent k ds a w' \<and> map dl_destination (mn_entries m) = ds" by auto
qed

subsection \<open>The rows of the job\<close>

lemma spent_board:
  assumes "spent k ds a w" "row_view k (f (vo_board w)) = row_view k (vo_board w)"
  shows "spent k ds a (on_board f w)"
  using assms by (simp add: spent_def)

lemma dest_row:
  assumes w: "spent k ds a w" and d: "path_text d \<noteq> k"
  shows "spent k ds a (on_board (clear_stale_dest_error d) w)" "spent k ds a (dest_failed tx v dir d what e w)"
    "spent k ds a (on_board (note_failure t) w)"
proof -
  have ow: "mb_rows (vo_board w) k = Some r \<Longrightarrow> mr_owner r = None" for r
    using w by (simp add: spent_def row_view_def split: option.splits prod.splits)
  show "spent k ds a (on_board (clear_stale_dest_error d) w)"
    by (rule spent_board [OF w])
      (use d ow in \<open>auto simp: row_view_def clear_stale_dest_error_def clear_delivery_error_def keep_rows_def split: option.split\<close>)
  show "spent k ds a (dest_failed tx v dir d what e w)" unfolding dest_failed_def
    by (rule spent_board [OF w])
      (use d in \<open>simp add: row_view_def record_dest_error_def record_move_error_def record_move_error_at_stage_def note_failure_def Let_def\<close>)
  show "spent k ds a (on_board (note_failure t) w)"
    by (rule spent_board [OF w]) (simp add: row_view_def note_failure_def)
qed

lemma report_spent:
  assumes "spent k ds a w"
  shows "spent k ds a (on_board (record_move_error now k reason hint) w) \<and> has_row k (on_board (record_move_error now k reason hint) w)"
  using assms
  by (auto simp: spent_def has_row_def row_view_def record_move_error_def record_move_error_at_stage_def Let_def split: option.splits)

lemma record_retry_view:
  assumes run: "record_retry v dir (Some s) w = (r, w')"
  shows "vo_board w' = vo_board w \<and> (plan_view (vo_journal w') = plan_view (vo_journal w)
    \<or> (\<exists>rt ds. plan_view (vo_journal w) = Some (rt, ds) \<and> plan_view (vo_journal w') = Some (Some s, ds)))"
proof -
  let ?V = "plan_view (vo_journal w)"
  have board: "vo_board u = vo_board w \<and> plan_view (vo_journal u) = ?V \<and> (x = None \<or> ?V = Some (view (the x)))"
    if "load_manifest v dir w = (Inr x, u)" for x u
  proof -
    have "frame k ?V (row_view k (vo_board w)) w" for k by (simp add: frame_def)
    from triple_run [OF load_view this that] have "frame k ?V (row_view k (vo_board w)) u" "x = None \<or> ?V = Some (view (the x))" for k
      by simp_all
    then show ?thesis using that
      by (auto simp: frame_def load_manifest_def attempt_io_def try_io_def journal_there_def journal_read_def resolve_def syscall_def
          give_def fail_def Let_def split: sum.splits prod.splits option.splits if_splits)
  qed
  obtain x u where l: "load_manifest v dir w = (x, u)" by fastforce
  show ?thesis
  proof (cases x)
    case (Inl e)
    with l run show ?thesis
      by (auto simp: record_retry_def try_io_def load_manifest_def attempt_io_def journal_there_def journal_read_def resolve_def syscall_def
          give_def fail_def Let_def split: sum.splits prod.splits option.splits if_splits)
  next
    case (Inr y)
    note b = board [OF l [unfolded Inr]]
    show ?thesis
    proof (cases y)
      case None
      with Inr l run b show ?thesis by (simp add: record_retry_def try_io_def give_def)
    next
      case (Some m)
      show ?thesis
      proof (cases "mn_retry m = Some s")
        case True
        with Some Inr l run b show ?thesis by (simp add: record_retry_def try_io_def give_def)
      next
        case False
        with Some Inr l run have save: "save_manifest v (m\<lparr>mn_retry := Some s\<rparr>) u = (r, w')"
          by (simp add: record_retry_def try_io_def)
        from save_view(1,2) [OF save] b Some show ?thesis by auto
      qed
    qed
  qed
qed

subsection \<open>What a commit writes\<close>

lemma commit_spent:
  assumes w: "spent k ds a w" and k: "k = path_text dir" and n: "a \<le> n" and d: "3 \<le> n \<longrightarrow> delay = None" and r: "has_row k w"
  shows "spent k ds n (commit_retry tx v dir n delay w) \<and> has_row k (commit_retry tx v dir n delay w)"
proof -
  obtain row where row: "mb_rows (vo_board w) k = Some row" using r by (auto simp: has_row_def)
  define st where "st = \<lparr>rt_attempts = n, rt_not_before = map_option (\<lambda>d. ev_wall v (vo_calls w) + d) delay,
    rt_reason = mr_reason row, rt_hint = mr_hint row\<rparr>"
  obtain saved w1 where rec: "record_retry v dir (Some st) w = (saved, w1)" by fastforce
  note rv = record_retry_view [OF rec]
  have eq: "commit_retry tx v dir n delay w = on_board (change_row k (commit_row tx (ev_wall v (vo_calls w1)) (vo_now v w1) st saved)) w1"
    using row rec by (simp add: commit_retry_def k st_def Let_def)
  have j: "case plan_view (vo_journal w1) of None \<Rightarrow> False
       | Some (rt, ds') \<Rightarrow> ds' = ds \<and> rt_count rt \<le> n \<and> (3 \<le> rt_count rt \<longrightarrow> rt_held rt)"
    using w rv n d by (auto simp: spent_def rt_count_def rt_held_def st_def split: option.splits prod.splits)
  have "mr_attempts (commit_row tx x y st saved row) = n" "mr_owner (commit_row tx x y st saved row) = mr_owner row"
    "3 \<le> n \<Longrightarrow> mr_retry_after (commit_row tx x y st saved row) = None" for x y
    using d by (simp_all add: commit_row_def apply_retry_at_def st_def Let_def split: sum.split)
  with w rv row j show ?thesis unfolding eq
    by (auto simp: spent_def row_view_def has_row_def split: option.splits prod.splits)
qed

lemma schedule_spent:
  assumes w: "spent k ds a w" and k: "k = path_text dir" and a: "a < 3" and r: "has_row k w"
  shows "spent k ds (Suc a) (schedule_move_retry tx v dir w) \<and> has_row k (schedule_move_retry tx v dir w)"
proof -
  obtain row where row: "mb_rows (vo_board w) k = Some row" using r by (auto simp: has_row_def)
  then have "mr_attempts row = a" using w by (simp add: spent_def row_view_def split: prod.splits)
  then have "saturating_add 32 (mr_attempts row) 1 = Suc a" using a by (simp add: saturating_add_def max_uint_def)
  then have eq: "schedule_move_retry tx v dir w = commit_retry tx v dir (Suc a) (move_retry_delay (Suc a)) w"
    using row by (simp add: schedule_move_retry_def k)
  show ?thesis unfolding eq
    by (rule commit_spent [OF w k]) (use a r in \<open>simp_all add: move_retry_delay_def\<close>)
qed

lemma schedule_spent':
  assumes w: "spent k ds a w" and k: "k = path_text dir" and a: "a < 3"
  shows "spent k ds a (schedule_move_retry tx v dir w) \<or> spent k ds (Suc a) (schedule_move_retry tx v dir w)"
proof (cases "has_row k w")
  case True
  with schedule_spent [OF w k a] show ?thesis by blast
next
  case False
  with w k show ?thesis by (simp add: schedule_move_retry_def has_row_def)
qed

lemma hold_spent:
  assumes w: "spent k ds a w" and k: "k = path_text dir"
  shows "spent k ds a (hold_for_operator tx v dir w)"
proof (cases "mb_rows (vo_board w) k")
  case None
  with w k show ?thesis by (simp add: hold_for_operator_def)
next
  case (Some row)
  then have "mr_attempts row = a" using w by (simp add: spent_def row_view_def split: prod.splits)
  with Some commit_spent [OF w k order_refl, of None tx v] k show ?thesis
    by (simp add: hold_for_operator_def has_row_def)
qed

lemma saved_stall:
  assumes w: "spent k ds a w" and k: "k = path_text dir" and a: "a < 3"
  shows "spent k ds (Suc a) (stall_row tx v dir reason w) \<and> stalled k (stall_row tx v dir reason w)"
proof -
  define w1 where "w1 = on_board (\<lambda>b. change_row k (\<lambda>r. r\<lparr>mr_worker_active := True, mr_copy_stalled := True, mr_retry_held := True,
                 mr_retry_after := None\<rparr>) (record_move_error (vo_now v w) k reason (mx_stall_hint tx) b)) w"
  have w1: "spent k ds a w1" "has_row k w1"
    using report_spent [OF w, of "vo_now v w" reason "mx_stall_hint tx"]
    by (auto simp: w1_def spent_def row_view_def has_row_def split: option.splits prod.splits)
  have active: "mb_rows (vo_board w1) k = Some row \<Longrightarrow> mr_worker_active row" for row by (auto simp: w1_def)
  obtain row where row: "mb_rows (vo_board w1) k = Some row" using w1(2) by (auto simp: has_row_def)
  have eq: "stall_row tx v dir reason w = schedule_move_retry tx v dir w1"
    by (simp add: stall_row_def Let_def commit_stall_def w1_def k)
  have "stalled k (commit_retry tx v dir n delay w1)" for n delay
  proof -
    obtain saved w2 where rec: "record_retry v dir (Some \<lparr>rt_attempts = n, rt_not_before = map_option (\<lambda>d. ev_wall v (vo_calls w1) + d) delay,
       rt_reason = mr_reason row, rt_hint = mr_hint row\<rparr>) w1 = (saved, w2)" by fastforce
    have "vo_board w2 = vo_board w1" using record_retry_view [OF rec] by simp
    with row rec active [OF row] show ?thesis
      by (simp add: commit_retry_def k [symmetric] stalled_def commit_row_def apply_retry_at_def Let_def split: sum.split)
  qed
  then have "stalled k (schedule_move_retry tx v dir w1)" using row by (simp add: schedule_move_retry_def k Let_def)
  with eq schedule_spent [OF w1(1) k a w1(2), of tx v] show ?thesis by simp
qed

lemma finish_stall_spent:
  assumes w: "spent k ds a w" "stalled k w" and k: "k = path_text dir"
  shows "spent k ds a (finish_stall tx v dir w)"
proof -
  obtain row resume where row: "mb_rows (vo_board w) k = Some row" "mr_stall_resume row = Some resume"
    using w(2) by (auto simp: stalled_def split: option.splits)
  have a: "mr_attempts row = a" using w(1) row by (simp add: spent_def row_view_def split: prod.splits)
  define w1 where "w1 = on_board (change_row k (\<lambda>r. r\<lparr>mr_stall_resume := None\<rparr>)) w"
  have w1: "spent k ds a w1" "has_row k w1"
    using w(1) row by (auto simp: w1_def spent_def row_view_def has_row_def split: option.splits prod.splits)
  show ?thesis
  proof (cases resume)
    case None
    with row w1 show ?thesis
      by (auto simp: finish_stall_def k [symmetric] w1_def [symmetric] Let_def spent_def row_view_def split: option.splits prod.splits)
  next
    case (Some t)
    have "spent k ds a (commit_retry tx v dir a (move_retry_delay a) w1)"
      by (rule conjunct1 [OF commit_spent [OF w1(1) k order_refl _ w1(2)]]) (simp add: move_retry_delay_def)
    with Some row a show ?thesis by (simp add: finish_stall_def k [symmetric] w1_def [symmetric] Let_def)
  qed
qed

section \<open>A pass spends at most one attempt\<close>

lemma spent_calls:
  "keeps (spent k ds a) (symlink_metadata v p)" "keeps (spent k ds a) (file_len v p)" "keeps (spent k ds a) (publish_path v p q)"
  "keeps (spent k ds a) (remove_path v p)" "keeps (spent k ds a) (append_file v p bs)" "keeps (spent k ds a) (sync_path v p)"
  "keeps (spent k ds a) (read_bytes_at v p)" "keeps (spent k ds a) (create_temporary v p)" "keeps (spent k ds a) (stamp_read v p)"
  "keeps (spent k ds a) (set_modified v p t)" "keeps (spent k ds a) (list_folder v p)" "keeps (spent k ds a) (syscall v f)"
  by (rule frame_spent, intro frame_calls frame_append frame_syscall)+

lemma spent_ops:
  "keeps (spent k ds a) (stamp_verify v s p)" "keeps (spent k ds a) (verify_parent v p)" "keeps (spent k ds a) (sync_parent v p)"
  "keeps (spent k ds a) (adoptable v e)" "keeps (spent k ds a) (verify_prepared v e)" "keeps (spent k ds a) (sweep_temporaries v p)"
  "keeps (spent k ds a) (check_candidate v p q c)" "keeps (spent k ds a) (complete_entry v dir i)"
  "keeps (spent k ds a) (settle_entry v dir i)" "keeps (spent k ds a) (prepare_candidate v dir i c)"
  "keeps (spent k ds a) (mark_announced v dir)" "keeps (spent k ds a) (verify_delivered v m)" "keeps (spent k ds a) (clean_one v m cl)"
  by (rule frame_spent, intro frame_looking frame_sweep frame_more_looking frame_updates frame_clean_one)+

lemma keeps_run: "keeps P m \<Longrightarrow> P w \<Longrightarrow> m w = (r, w') \<Longrightarrow> P w'"
  unfolding keeps_iff by (metis snd_conv)

lemma spent_copy_loop: "spent k ds a w \<Longrightarrow> spent k ds a (snd (copy_loop v src tmp rest n w))"
proof (induction "length rest" arbitrary: rest n w rule: less_induct)
  case less
  obtain r w1 where read: "syscall v (\<lambda>n m. (Inr n, m)) w = (r, w1)" by fastforce
  have w1: "spent k ds a w1" by (rule keeps_run [OF spent_calls(12) less.prems read])
  show ?case
  proof (cases "cancelled v w \<or> (\<exists>e. r = Inl e) \<or> rest = [] \<or> cancelled v w1")
    case True
    with less.prems w1 read show ?thesis by (subst copy_loop.simps) (auto split: sum.split)
  next
    case False
    then obtain k0 where k0: "r = Inr k0" by (cases r) auto
    have "0 < chunk_len v k0 rest" using False by (auto simp: chunk_len_def)
    obtain r2 w2 where app: "append_file v tmp (take (chunk_len v k0 rest) rest) w1 = (r2, w2)" by fastforce
    have w2: "spent k ds a w2" by (rule keeps_run [OF spent_calls(5) w1 app])
    have "spent k ds a (snd (copy_loop v src tmp (drop (chunk_len v k0 rest) rest) (n + chunk_len v k0 rest) w2))"
      by (rule less.hyps [OF _ w2]) (use False \<open>0 < chunk_len v k0 rest\<close> in simp)
    with False read k0 app w2 show ?thesis by (subst copy_loop.simps) (auto simp: Let_def split: sum.split)
  qed
qed

lemma spent_copy_to_temporary: "keeps (spent k ds a) (copy_to_temporary v src tmp)"
proof -
  have pin: "spent k ds a (pin_temporary v src tmp w)" if "spent k ds a w" for w
  proof -
    have "keeps (spent k ds a) (try_io (stamp_read v src) (\<lambda>s. set_modified v tmp (pinned_mtime (st_modified s))))"
      by (intro keeps_rules spent_calls)
    with that show ?thesis by (simp add: pin_temporary_def keeps_iff)
  qed
  have sync: "keeps (spent k ds a) (try_io (map_err f (sync_path v tmp)) (\<lambda>_. give n))" for f and n :: nat
    by (intro keeps_rules spent_calls)
  have "keeps (spent k ds a) (\<lambda>w. try_io (map_err f (sync_path v tmp)) (\<lambda>_. give n) (pin_temporary v src tmp w))" for f and n :: nat
    using sync pin unfolding keeps_iff by blast
  then show ?thesis unfolding copy_to_temporary_def
    by (intro keeps_rules spent_calls) (simp_all add: keeps_iff spent_copy_loop)
qed

lemma copy_spent:
  assumes before: "\<And>p. keeps (spent k ds a) (before p)" and w: "spent k ds a w"
  shows "spent k ds a (snd (copy_counting v s d before w))"
proof -
  have rm: "spent k ds a (remove_temporary v p u)" if "spent k ds a u" for p u
    using spent_calls(4) that by (simp add: remove_temporary_def keeps_iff)
  have sync: "spent k ds a (sync_above v p u)" if "spent k ds a u" for p u
    using spent_calls(6) that by (auto simp: sync_above_def keeps_iff split: option.split)
  let ?tmp = "temp_path v d"
  obtain r w1 where c1: "copy_to_temporary v s ?tmp (remove_temporary v ?tmp w) = (r, w1)" by fastforce
  have w1: "spent k ds a w1" by (rule keeps_run [OF spent_copy_to_temporary rm [OF w] c1])
  obtain r2 w2 where c2: "before ?tmp (sync_above v d w1) = (r2, w2)" by fastforce
  have w2: "spent k ds a w2" by (rule keeps_run [OF before sync [OF w1] c2])
  obtain r3 w3 where c3: "publish_path v ?tmp d w2 = (r3, w3)" by fastforce
  have w3: "spent k ds a w3" by (rule keeps_run [OF spent_calls(3) w2 c3])
  show ?thesis using w c1 c2 c3 rm [OF w1] rm [OF sync [OF w1]] rm [OF w2] rm [OF w3] sync [OF w3]
    by (simp add: copy_counting_def Let_def split: sum.split)
qed

text \<open>After a file: one more attempt if the copy stalled, else what it was.\<close>

definition after_file :: "string \<Rightarrow> path list \<Rightarrow> nat \<Rightarrow> move_outcome \<Rightarrow> manifest volume \<Rightarrow> bool" where
  "after_file k ds a out w \<longleftrightarrow> (if out = MoveStalled then spent k ds (Suc a) w \<and> stalled k w else spent k ds a w)"

lemma published_spent:
  assumes w: "spent k ds a w" and d: "path_text d \<noteq> k" and p: "published tx v dir d w = (out, w')"
  shows "after_file k ds a out w'"
proof -
  have "spent k ds a (snd (sync_path v q w))" for q using spent_calls(6) w by (simp add: keeps_iff)
  with w p dest_row [OF _ d] show ?thesis
    by (auto simp: published_def after_file_def split: option.splits sum.splits prod.splits) (metis snd_conv)+
qed

lemma worker_returned_spent:
  "spent k ds a w \<Longrightarrow> spent k ds a (on_board (worker_returned tx dir) w)"
  "stalled k w \<Longrightarrow> stalled k (on_board (worker_returned tx dir) w)"
  by (auto simp: spent_def row_view_def stalled_def worker_returned_def split: option.splits prod.splits)

lemma copy_outcome_spent:
  assumes w: "spent k ds a w" and k: "k = path_text dir" and d: "path_text d \<noteq> k" and a: "a < 3"
    and c: "copy_outcome tx v dir d (r, w) = (out, w')"
  shows "after_file k ds a out w'"
proof -
  note stall = saved_stall [OF w k a, of tx v]
  have no: "copy_failure_outcome False x f \<noteq> MoveStalled" for x f
    by (auto simp: copy_failure_outcome_def split: copy_fault.split move_error.split)
  note w1 = worker_returned_spent(1) [OF w, of tx dir]
  have good: "published tx v dir d (on_board (worker_returned tx dir) w) = (out, w') \<Longrightarrow> after_file k ds a out w'"
    by (rule published_spent [OF w1 d])
  have bad: "after_file k ds a (copy_failure_outcome False x f)
      (if copy_failure_outcome False x f = MoveInterrupted then on_board (worker_returned tx dir) w
       else on_board (note_failure t) (on_board (worker_returned tx dir) w))" for x f t
    using w1 dest_row(3) [OF w1 d] no by (simp add: after_file_def)
  show ?thesis
  proof (cases "ev_monitor v d")
    case (DrainedStalled reason)
    with c stall worker_returned_spent [where tx = tx and dir = dir] show ?thesis
      by (auto simp: copy_outcome_def after_file_def)
  next
    case Drained
    with c show ?thesis by (auto simp: copy_outcome_def Let_def split: sum.splits intro: good bad)
  next
    case DrainedCancelled
    with c show ?thesis by (auto simp: copy_outcome_def Let_def split: sum.splits intro: good bad)
  qed
qed

lemma move_spent:
  assumes w: "spent k ds a w" and k: "k = path_text dir" and d: "path_text d \<noteq> k" and a: "a < 3"
    and before: "\<And>p. keeps (spent k ds a) (before p)" and m: "move_file tx v dir s d before w = (out, w')"
  shows "after_file k ds a out w'"
proof -
  obtain r w1 where m1: "symlink_metadata v d w = (r, w1)" by fastforce
  have i1: "spent k ds a w1" by (rule keeps_run [OF spent_calls(1) w m1])
  have i1': "spent k ds a (snd (file_len v s w1))" using spent_calls(2) i1 by (simp add: keeps_iff)
  obtain r2 w2 where m2: "before s (snd (file_len v s w1)) = (r2, w2)" by fastforce
  have i2: "spent k ds a w2" by (rule keeps_run [OF before i1' m2])
  obtain r3 w3 where m3: "publish_path v s d w2 = (r3, w3)" by fastforce
  have i3: "spent k ds a w3" by (rule keeps_run [OF spent_calls(3) i2 m3])
  define ck where "ck = (\<lambda>c. try_io (check_candidate v s d c) (\<lambda>_. map_err Plain (before c)))"
  have "keeps (spent k ds a) (ck c)" for c unfolding ck_def by (intro keeps_rules spent_ops before)
  from copy_spent [OF this i3] have "spent k ds a (snd (copy_counting v s d ck w3))" .
  moreover obtain r4 w4 where m4: "copy_counting v s d ck w3 = (r4, w4)" by fastforce
  ultimately have i4: "spent k ds a w4" by simp
  show ?thesis using m i1 i2 i3 dest_row(2) [OF i2 d] dest_row(2) [OF i3 d] m1 m2 m3 m4 published_spent [OF i3 d]
      copy_outcome_spent [OF i4 k d a, of tx v r4]
    by (auto simp: move_file_def ck_def [symmetric] after_file_def split: sum.splits if_splits)
qed

lemma destination_other:
  "map dl_destination (mn_entries m) = ds \<Longrightarrow> \<forall>d \<in> set ds. path_text d \<noteq> k \<Longrightarrow> i < length (mn_entries m)
    \<Longrightarrow> path_text (dl_destination (mn_entries m ! i)) \<noteq> k"
  by fastforce

lemma found_spent:
  assumes d: "path_text (dl_destination e) \<noteq> k"
  shows "keeps (spent k ds a) (found_at_destination v dir i e n)"
proof -
  have "keeps (spent k ds a) (skip_delivered (dl_destination e))"
    using dest_row(1) [OF _ d] by (simp add: keeps_iff skip_delivered_def)
  then show ?thesis unfolding found_at_destination_def by (intro keeps_rules spent_ops)
qed

lemma deliver_spent:
  assumes k: "k = path_text dir" and ds: "\<forall>d \<in> set ds. path_text d \<noteq> k" and a: "a < 3"
  shows "triple (spent k ds a) (deliver tx v dir i) (after_file k ds a) (\<lambda>_. spent k ds a)"
proof -
  let ?S = "spent k ds a"
  have settle: "triple ?S (try_io (settle_entry v dir i) (\<lambda>_. give out)) (after_file k ds a) (\<lambda>_. ?S)" if "out \<noteq> MoveStalled" for out
    by (rule triple_try_io [OF spent_ops(9)], rule triple_give) (simp add: after_file_def that)
  have publish: "triple ?S (publish_entry tx v dir i e) (after_file k ds a) (\<lambda>_. ?S)" if d: "path_text (dl_destination e) \<noteq> k" for e
    unfolding publish_entry_def
  proof (rule triple_try_io [OF spent_ops(1)], unfold triple_def, intro allI impI)
    fix w assume w: "?S w"
    obtain out w1 where m: "move_file tx v dir (dl_source e) (dl_destination e) (prepare_candidate v dir i) w = (out, w1)" by fastforce
    note af = move_spent [OF w k d a spent_ops(10) m]
    show "case (case move_file tx v dir (dl_source e) (dl_destination e) (prepare_candidate v dir i) w of
         (out, w1) \<Rightarrow> if out \<in> {MoveMoved, MoveSkipped} then try_io (settle_entry v dir i) (\<lambda>_. give out) w1 else (Inr out, w1)) of
       (Inl e, w') \<Rightarrow> ?S w' | (Inr x, w') \<Rightarrow> after_file k ds a x w'"
    proof (cases "out \<in> {MoveMoved, MoveSkipped}")
      case True
      then have n: "out \<noteq> MoveStalled" by auto
      with af have "?S w1" by (simp add: after_file_def)
      with settle [OF n] have "case try_io (settle_entry v dir i) (\<lambda>_. give out) w1 of (Inl e, w') \<Rightarrow> ?S w' | (Inr x, w') \<Rightarrow> after_file k ds a x w'"
        by (simp add: triple_def)
      with True m show ?thesis by simp
    next
      case False
      with m af show ?thesis by simp
    qed
  qed
  have found: "triple ?S (found_at_destination v dir i e n) (after_file k ds a) (\<lambda>_. ?S)" if "path_text (dl_destination e) \<noteq> k" for e n
  proof (rule tripleI)
    fix w x w' assume w: "?S w" and run: "found_at_destination v dir i e n w = (Inr x, w')"
    have "x \<noteq> MoveStalled" using run
      by (auto simp: found_at_destination_def try_io_def give_def fail_def skip_delivered_def split: if_splits prod.splits sum.splits)
    with keeps_run [OF found_spent [OF that] w run] show "after_file k ds a x w'" by (simp add: after_file_def)
  qed (rule keeps_run [OF found_spent [OF that]])
  show ?thesis unfolding deliver_def
  proof (rule triple_try_io [OF require_spent], rule triple_fact)
    fix m :: manifest assume m: "map dl_destination (mn_entries m) = ds"
    show "triple ?S (try_io (entry_at i m) (\<lambda>e. try_io (verify_parent v (dl_destination e)) (\<lambda>_.
     try_io (sweep_temporaries v (dl_destination e)) (\<lambda>_.
     attempt_io (symlink_metadata v (dl_destination e)) (\<lambda>r. case r of
       Inr n \<Rightarrow> found_at_destination v dir i e n
     | Inl x \<Rightarrow> if err_kind x = NotFound \<and> \<not> dl_completed e then publish_entry tx v dir i e else fail x)))))
     (after_file k ds a) (\<lambda>_. ?S)"
    proof (cases "i < length (mn_entries m)")
      case True
      note d = destination_other [OF m ds True]
      have eq: "try_io (entry_at i m) f = f (mn_entries m ! i)" for f :: "delivery_entry \<Rightarrow> move_outcome mio"
        using True by (simp add: entry_at_def try_io_def give_def fun_eq_iff)
      show ?thesis unfolding eq
        by (rule triple_try_io [OF spent_ops(2)], rule triple_try_io [OF spent_ops(6)], rule triple_attempt_io [OF spent_calls(1)])
          (auto intro!: found [OF d] publish [OF d] triple_if triple_fail)
    qed (simp add: entry_at_def triple_def try_io_def fail_def)
  qed
qed

lemma deliver_each_spent:
  assumes k: "k = path_text dir" and ds: "\<forall>d \<in> set ds. path_text d \<noteq> k" and a: "a < 3"
  shows "spent k ds a w \<Longrightarrow> MoveStalled \<notin> set acc \<Longrightarrow> deliver_each tx v dir is acc held w = ((outs, held'), w')
    \<Longrightarrow> if MoveStalled \<in> set outs then spent k ds (Suc a) w' \<and> stalled k w' else spent k ds a w'"
proof (induction "is" arbitrary: acc held w)
  case (Cons i "is")
  obtain r w1 where d: "deliver tx v dir i w = (r, w1)" by fastforce
  have t: "case r of Inl e \<Rightarrow> spent k ds a w1 | Inr x \<Rightarrow> after_file k ds a x w1"
    using triple_run [OF deliver_spent [OF k ds a] Cons.prems(1) d] .
  show ?case
  proof (cases "r = Inr MoveStalled")
    case True
    with Cons.prems d t show ?thesis by (auto simp: after_file_def)
  next
    case False
    define out where "out = (case r of Inr x \<Rightarrow> x | Inl _ \<Rightarrow> MoveFailed)"
    define held2 where "held2 = (case r of Inr _ \<Rightarrow> held | Inl e \<Rightarrow> (case held of None \<Rightarrow> Some (err_text e) | Some h \<Rightarrow> Some h))"
    have out: "out \<noteq> MoveStalled" using False by (auto simp: out_def split: sum.splits)
    have w1: "spent k ds a w1" using t out by (auto simp: after_file_def out_def split: sum.splits)
    have step: "deliver_each tx v dir (i # is) acc held w
        = (if out = MoveInterrupted then ((acc @ [out], held2), w1) else deliver_each tx v dir is (acc @ [out]) held2 w1)"
      using d out by (simp add: Let_def out_def [symmetric] held2_def [symmetric])
    show ?thesis
    proof (cases "out = MoveInterrupted")
      case True
      with Cons.prems(2,3) step w1 show ?thesis by auto
    next
      case False
      with Cons.prems(3) step have "deliver_each tx v dir is (acc @ [out]) held2 w1 = ((outs, held'), w')" by simp
      from Cons.IH [OF w1 _ this] Cons.prems(2) out show ?thesis by simp
    qed
  qed
qed simp

section \<open>From pass to pass\<close>

text \<open>A failed delivery or a stall; an interrupted one, a collision and an unsupported step spend nothing.\<close>

definition failed_outcomes :: "move_outcome list \<Rightarrow> bool" where
  "failed_outcomes outs \<longleftrightarrow> MoveInterrupted \<notin> set outs \<and> (MoveStalled \<in> set outs
     \<or> (MoveUnsupported \<notin> set outs \<and> (\<exists>x \<in> set outs. x \<in> {MoveFailed, MoveSizeMismatch, MovePostCopyInvalid})))"

lemma blocked_failed: "failed_outcomes outs \<Longrightarrow> blocked_pass tx v dir outs held w \<noteq> None"
  by (auto simp: failed_outcomes_def blocked_pass_def Let_def split: option.splits prod.splits)

lemma schedule_failed_spent:
  assumes w: "spent k ds a w" and k: "k = path_text dir" and a: "a < 3"
  shows "spent k ds (if list_ex (\<lambda>x. x \<in> {MoveFailed, MoveSizeMismatch, MovePostCopyInvalid}) outs then Suc a else a)
     (schedule_failed_delivery tx v dir outs (report_failure v dir reason hint w))"
proof -
  from report_spent [OF w] have "spent k ds a (report_failure v dir reason hint w)" "has_row k (report_failure v dir reason hint w)"
    by (simp_all add: report_failure_def k)
  with schedule_spent [OF _ k a] show ?thesis by (simp add: schedule_failed_delivery_def)
qed

lemma blocked_spent:
  assumes w: "if MoveStalled \<in> set outs then spent k ds (Suc a) w \<and> stalled k w else spent k ds a w"
    and k: "k = path_text dir" and a: "a < 3" and b: "blocked_pass tx v dir outs held w = Some w'"
    and one: "MoveStalled \<in> set outs \<longrightarrow> MoveInterrupted \<notin> set outs"
  shows "\<exists>n. a \<le> n \<and> n \<le> Suc a \<and> (failed_outcomes outs \<longrightarrow> n = Suc a) \<and> spent k ds n w'"
proof (cases "MoveStalled \<in> set outs")
  case True
  with w one b finish_stall_spent [OF _ _ k, of ds "Suc a" w] show ?thesis
    by (intro exI [of _ "Suc a"]) (auto simp: blocked_pass_def Let_def)
next
  case False
  with w have w: "spent k ds a w" by simp
  define n where "n = (if list_ex (\<lambda>x. x \<in> {MoveFailed, MoveSizeMismatch, MovePostCopyInvalid}) outs then Suc a else a)"
  have take: "spent k ds a (w\<lparr>vo_board := snd (take_failure (vo_board w))\<rparr>)"
    using w by (simp add: spent_def row_view_def take_failure_def)
  have failed: "spent k ds n (schedule_failed_delivery tx v dir outs (report_failure v dir reason hint w))"
    "spent k ds n (schedule_failed_delivery tx v dir outs (report_failure v dir reason hint (w\<lparr>vo_board := snd (take_failure (vo_board w))\<rparr>)))"
    for reason hint
    unfolding n_def by (rule schedule_failed_spent [OF w k a], rule schedule_failed_spent [OF take k a])
  have hold: "spent k ds a (hold_for_operator tx v dir (report_failure v dir reason hint w))" for reason hint
    using report_spent [OF w] hold_spent [OF _ k] by (simp add: report_failure_def k)
  have "spent k ds a w' \<and> \<not> failed_outcomes outs \<or> spent k ds n w'"
    using b False w hold failed
    by (auto simp: blocked_pass_def Let_def failed_outcomes_def split: if_split_asm option.splits prod.splits)
  moreover have "failed_outcomes outs \<Longrightarrow> n = Suc a" using False by (auto simp: failed_outcomes_def list_ex_iff n_def)
  moreover have "a \<le> n" "n \<le> Suc a" by (simp_all add: n_def)
  ultimately show ?thesis by (metis le_refl le_SucI)
qed

definition gone :: "manifest volume \<Rightarrow> bool" where
  "gone w \<longleftrightarrow> slot_target (vo_journal w) = None"

lemma gone_syscall: "keeps gone (syscall v f)"
  by (auto simp: keeps_iff gone_def syscall_def Let_def split: option.split prod.split)

lemma cleanup_spent: "triple (spent k ds a) (cleanup_delivery v m) (\<lambda>_. gone) (\<lambda>_ w. spent k ds a w \<or> gone w)"
proof -
  let ?S = "spent k ds a" and ?E = "\<lambda>(_::io_error) w. spent k ds a w \<or> gone w"
  have weak: "keeps ?S f \<Longrightarrow> triple ?S f (\<lambda>_. ?S) ?E" for f :: "unit mio"
    by (rule triple_weaken [where Q = "\<lambda>_. ?S" and E = "\<lambda>_. ?S" and P = ?S]) auto
  have list: "keeps ?S (try_io (list_folder v p) (each_io f))" if "\<And>V R x. keeps (frame k V R) (f x)" for p and f :: "io_error + string \<Rightarrow> unit mio"
    by (rule frame_spent) (intro frame_rules that)
  have journal: "triple ?S (remove_journal v) (\<lambda>_. gone) ?E"
    by (auto simp: triple_def remove_journal_def Let_def gone_def spent_def split: option.split)
  have "gone w \<Longrightarrow> gone (snd (remove_folder v p w))" for p w
    unfolding remove_folder_def by (rule gone_syscall [unfolded keeps_iff, rule_format])
  then have folder: "triple gone (remove_folder v p) (\<lambda>_. gone) ?E" for p
    by - (rule triple_weaken [where P = gone and Q = "\<lambda>_. gone" and E = "\<lambda>_. gone"], simp_all add: keeps_iff)
  have clean: "keeps ?S (each_io (clean_one v m) cs)" for cs by (rule triple_each) (rule spent_ops(13))
  show ?thesis unfolding cleanup_delivery_def Let_def
    by (rule triple_try_io [OF weak [OF spent_ops(12)]], rule triple_try_io [OF weak [OF list [OF frame_more_looking(2)]]],
        rule triple_try_io [OF weak [OF clean]], rule triple_try_io [OF weak [OF list [OF frame_more_looking(5)]]],
        rule triple_try_io [OF weak [OF spent_calls(6)]], rule triple_try_io [OF weak [OF list [OF frame_more_looking(4)]]],
        rule triple_try_io [OF journal], rule folder)
qed

lemma teardown_spent:
  assumes "spent k ds a w" "a < 3"
  shows "spent k ds a (on_board (teardown_blocked now k reason hint) w)"
  using assms
  by (auto simp: spent_def row_view_def teardown_blocked_def record_move_error_def record_move_error_at_stage_def Let_def
      split: option.splits)

lemma announce_spent:
  assumes w: "spent k ds a w" and k: "k = path_text dir" and a: "a < 3"
    and run: "announce_delivery tx v dir links m w = (go, w')"
  shows "(go \<longrightarrow> spent k ds a w') \<and> (\<exists>n. a \<le> n \<and> n \<le> Suc a \<and> spent k ds n w')"
proof (cases "mn_announced m")
  case True
  with run w show ?thesis by (auto simp: announce_delivery_def)
next
  case False
  show ?thesis
  proof (cases links)
    case None
    have "spent k ds a (snd (mark_announced v dir w))" using spent_ops(11) w by (simp add: keeps_iff)
    with None False run show ?thesis by (auto simp: announce_delivery_def)
  next
    case (Some e)
    from report_spent [OF w] schedule_spent [OF _ k a] have
      "spent k ds (Suc a) (schedule_move_retry tx v dir (report_failure v dir reason hint w))" for reason hint
      by (simp add: report_failure_def k)
    with Some False run have "\<not> go \<and> spent k ds (Suc a) w'" by (auto simp: announce_delivery_def simp del: append_Cons)
    then show ?thesis by (metis le_refl le_SucI)
  qed
qed

lemma tear_down_spent:
  assumes w: "spent k ds a w" and k: "k = path_text dir" and a: "a < 3"
  shows "gone (tear_down tx v dir listed m w) \<or> spent k ds a (tear_down tx v dir listed m w)"
proof (cases listed)
  case True
  obtain r w1 where cl: "cleanup_delivery v m w = (r, w1)" by fastforce
  note t = triple_run [OF cleanup_spent w cl]
  show ?thesis using True t cl teardown_spent [OF _ a, of k ds w1]
    by (auto simp: tear_down_def Let_def gone_def k split: sum.splits)
qed (use teardown_spent [OF w a] in \<open>simp add: tear_down_def Let_def k\<close>)

lemma deliver_each_last:
  "deliver_each tx v dir is acc held w = ((outs, held'), w') \<Longrightarrow> set acc \<inter> {MoveStalled, MoveInterrupted} = {}
    \<Longrightarrow> MoveStalled \<in> set outs \<longrightarrow> MoveInterrupted \<notin> set outs"
proof (induction "is" arbitrary: acc held w)
  case (Cons i "is")
  then show ?case by (fastforce simp: Let_def split: prod.splits if_splits)
qed auto

lemma finish_spent:
  assumes w: "spent k ds a w" and k: "k = path_text dir" and ds: "\<forall>d \<in> set ds. path_text d \<noteq> k" and a: "a < 3"
    and outs: "outs = fst (fst (deliver_each tx v dir [0 ..< n] [] None (on_board (snd \<circ> take_failure) w)))"
  shows "(\<exists>c. a \<le> c \<and> c \<le> Suc a \<and> (failed_outcomes outs \<longrightarrow> c = Suc a) \<and> spent k ds c (finish_pass tx v dir links listed n w))
     \<or> (\<not> failed_outcomes outs \<and> gone (finish_pass tx v dir links listed n w))"
proof -
  have w0: "spent k ds a (on_board (snd \<circ> take_failure) w)"
    by (rule spent_board [OF w]) (simp add: row_view_def take_failure_def)
  obtain outs' held w1 where d: "deliver_each tx v dir [0 ..< n] [] None (on_board (snd \<circ> take_failure) w) = ((outs', held), w1)"
    by (metis prod.exhaust)
  with outs have [simp]: "outs' = outs" by simp
  have w1: "if MoveStalled \<in> set outs then spent k ds (Suc a) w1 \<and> stalled k w1 else spent k ds a w1"
    by (rule deliver_each_spent [OF k ds a w0 _ d [simplified]]) simp
  have one: "MoveStalled \<in> set outs \<longrightarrow> MoveInterrupted \<notin> set outs"
    by (rule deliver_each_last [OF d [simplified]]) simp
  show ?thesis
  proof (cases "blocked_pass tx v dir outs held w1")
    case (Some w2)
    with d blocked_spent [OF w1 k a Some one] show ?thesis by (simp add: finish_pass_def)
  next
    case None
    then have nf: "\<not> failed_outcomes outs" using blocked_failed by blast
    have "MoveStalled \<notin> set outs" using None by (simp add: blocked_pass_def Let_def split: if_splits)
    with w1 have w1: "spent k ds a w1" by simp
    let ?check = "try_io (require_manifest v dir) (\<lambda>m. try_io (verify_delivered v m) (\<lambda>_. give m))"
    have check: "keeps (spent k ds a) ?check"
      by (intro keeps_rules spent_ops frame_spent [OF frame_require])
    obtain r w2 where c: "?check w1 = (r, w2)" by fastforce
    have w2: "spent k ds a w2" by (rule keeps_run [OF check w1 c])
    show ?thesis
    proof (cases r)
      case (Inl e)
      with d None c nf report_spent [OF w2] show ?thesis
        by (intro disjI1 exI [of _ a]) (simp add: finish_pass_def report_failure_def k)
    next
      case (Inr m)
      obtain go w3 where an: "announce_delivery tx v dir links m w2 = (go, w3)" by fastforce
      note w3 = announce_spent [OF w2 k a an]
      show ?thesis
      proof (cases go)
        case True
        with w3 tear_down_spent [OF _ k a, of ds w3 tx v listed m] have
          "gone (tear_down tx v dir listed m w3) \<or> spent k ds a (tear_down tx v dir listed m w3)" by blast
        with d None c Inr an True nf show ?thesis by (auto simp: finish_pass_def)
      next
        case False
        with d None c Inr an w3 nf show ?thesis by (auto simp: finish_pass_def)
      qed
    qed
  qed
qed

text \<open>The outcomes of a pass that attempts the delivery.\<close>

definition pass_outcomes :: "move_texts \<Rightarrow> world_env \<Rightarrow> path \<Rightarrow> manifest volume \<Rightarrow> move_outcome list" where
  "pass_outcomes tx v dir w =
     (case load_manifest v dir (on_board (mark_retrying (path_text dir)) w) of
        (Inr (Some m), w1) \<Rightarrow> (case restore_retry v dir m w1 of (_, w2) \<Rightarrow>
          fst (fst (deliver_each tx v dir [0 ..< length (mn_entries m)] [] None
            (on_board (snd \<circ> take_failure) (on_board (clear_recovered_folder_wait (path_text dir)) w2)))))
      | _ \<Rightarrow> [])"

text \<open>Between passes: \<open>c\<close> failed ones so far.\<close>

definition count_held :: "path list \<Rightarrow> nat \<Rightarrow> (delivery_retry option \<times> path list) option
    \<Rightarrow> (nat \<times> nat option \<times> string option) option \<times> bool option \<Rightarrow> bool" where
  "count_held ds c V R \<longleftrightarrow> (case V of None \<Rightarrow> False
     | Some (rt, ds') \<Rightarrow> ds' = ds \<and> rt_count rt \<le> 3 \<and> (3 \<le> rt_count rt \<longrightarrow> rt_held rt) \<and> snd R = None
        \<and> (case fst R of None \<Rightarrow> c \<le> rt_count rt
           | Some (n, t, ow) \<Rightarrow> n \<le> 3 \<and> c \<le> max n (rt_count rt) \<and> ow = None \<and> (3 \<le> n \<longrightarrow> t = None)))"

definition counted :: "string \<Rightarrow> path list \<Rightarrow> nat \<Rightarrow> manifest volume \<Rightarrow> bool" where
  "counted k ds c w \<longleftrightarrow> c \<le> 3 \<and> (gone w \<or> count_held ds c (plan_view (vo_journal w)) (row_view k (vo_board w)))"

lemma spent_counted: "spent k ds n w \<Longrightarrow> n \<le> 3 \<Longrightarrow> c \<le> n \<Longrightarrow> counted k ds c w"
  by (auto simp: spent_def counted_def count_held_def split: option.splits prod.splits)

lemma counted_frame:
  "counted k ds c w \<Longrightarrow> \<not> gone w \<Longrightarrow> frame k (plan_view (vo_journal w)) (row_view k (vo_board w)) w' \<Longrightarrow> counted k ds c w'"
  by (auto simp: counted_def frame_def)

lemma counted_board:
  "counted k ds c w \<Longrightarrow> row_view k (f (vo_board w)) = row_view k (vo_board w) \<Longrightarrow> counted k ds c (on_board f w)"
  by (auto simp: counted_def gone_def)

lemma retrying_view: "row_view k (mark_retrying k b) = row_view k b" "row_view k (end_retrying k b) = row_view k b"
  by (simp_all add: row_view_def mark_retrying_def end_retrying_def option.map_comp comp_def)

lemma restore_counted:
  assumes w: "counted k ds c w" "\<not> gone w" and k: "k = path_text dir" and m: "plan_view (vo_journal w) = Some (view m)"
    and run: "restore_retry v dir m w = (a, w')"
  shows "counted k ds c w' \<and> (a \<noteq> AttemptWait \<longrightarrow> (\<exists>n < 3. c \<le> n \<and> spent k ds n w'))"
proof -
  obtain row where j: "map dl_destination (mn_entries m) = ds" "rt_count (mn_retry m) \<le> 3" "3 \<le> rt_count (mn_retry m) \<longrightarrow> rt_held (mn_retry m)"
      and row: "row_view k (vo_board w) = (row, None)" "c \<le> 3"
      "case row of None \<Rightarrow> c \<le> rt_count (mn_retry m)
            | Some (n, t, ow) \<Rightarrow> n \<le> 3 \<and> c \<le> max n (rt_count (mn_retry m)) \<and> ow = None \<and> (3 \<le> n \<longrightarrow> t = None)"
    using w m by (cases "row_view k (vo_board w)") (auto simp: counted_def count_held_def)
  have req: "mb_requests (vo_board w) k = None" using row(1) by (simp add: row_view_def)
  then have same: "on_board (\<lambda>b. b\<lparr>mb_requests := (mb_requests b)(k := None)\<rparr>) w = w"
    by (simp add: on_board_def fun_upd_idem)
  show ?thesis
  proof (cases "mn_retry m")
    case None
    with run req same have "w' = w" "a = ready_attempt v dir w" by (auto simp: restore_retry_def k Let_def)
    with None j row m w(1) show ?thesis
      by (auto simp: ready_attempt_def move_retry_ready_def k [symmetric] spent_def row_view_def rt_count_def split: option.splits if_splits)
  next
    case (Some st)
    show ?thesis
    proof (cases "case mb_rows (vo_board w) k of None \<Rightarrow> False | Some r \<Rightarrow> rt_attempts st \<le> mr_attempts r")
      case True
      with Some run req same have "w' = w" "a = ready_attempt v dir w" by (auto simp: restore_retry_def k Let_def)
      with True Some j row m w(1) show ?thesis
        by (auto simp: ready_attempt_def move_retry_ready_def k [symmetric] spent_def row_view_def rt_count_def max_def
            split: option.splits if_splits)
    next
      case False
      define r where "r = (case mb_rows (vo_board w) k of None \<Rightarrow> restored_row k st | Some r \<Rightarrow> r)"
      define r' where "r' = apply_retry_at (ev_wall v (vo_calls w)) (vo_now v w) st r"
      have "w' = on_board (\<lambda>b. b\<lparr>mb_rows := (mb_rows b)(k \<mapsto> r')\<rparr>) w" "a = ready_attempt v dir w'"
        using run unfolding restore_retry_def k [symmetric] Let_def req same Some option.case r'_def r_def if_not_P [OF False]
        by auto
      moreover have "mr_attempts r' = rt_attempts st" "mr_owner r' = None" "3 \<le> rt_attempts st \<Longrightarrow> mr_retry_after r' = None"
        using row j Some by (auto simp: r'_def apply_retry_at_def Let_def r_def restored_row_def row_view_def rt_count_def rt_held_def
            split: option.splits)
      moreover have "plan_view (vo_journal w') = Some (Some st, ds)" using m Some j calculation(1) by simp
      moreover have "c \<le> rt_attempts st"
        using False row Some by (auto simp: row_view_def rt_count_def split: option.splits)
      ultimately have view: "row_view k (vo_board w') = (Some (rt_attempts st, mr_retry_after r', None), None)"
        "plan_view (vo_journal w') = Some (Some st, ds)" "c \<le> rt_attempts st" and a: "a = ready_attempt v dir w'"
        and w': "mb_rows (vo_board w') k = Some r'" and held: "3 \<le> rt_attempts st \<Longrightarrow> mr_retry_after r' = None"
        using req by (simp_all add: row_view_def)
      have n: "rt_attempts st \<le> 3" "3 \<le> rt_attempts st \<longrightarrow> rt_held (Some st)" using j Some by (simp_all add: rt_count_def)
      have "counted k ds c w'" using view n held row(2) by (simp add: counted_def count_held_def rt_count_def)
      moreover have "rt_attempts st < 3 \<and> spent k ds (rt_attempts st) w'" if "a \<noteq> AttemptWait"
      proof -
        have "mr_retry_after r' \<noteq> None"
          using that w' a by (auto simp: ready_attempt_def move_retry_ready_def k [symmetric] split: if_splits option.splits)
        then have "rt_attempts st < 3" using held by (meson not_le)
        with view n show ?thesis by (simp add: spent_def rt_count_def)
      qed
      ultimately show ?thesis using view(3) by blast
    qed
  qed
qed

lemma load_gone: "gone w \<Longrightarrow> load_manifest v dir w = (r, w') \<Longrightarrow> gone w' \<and> (\<forall>m. r \<noteq> Inr (Some m))"
  by (auto simp: load_manifest_def attempt_io_def journal_there_def syscall_def Let_def gone_def give_def fail_def
      split: option.splits prod.splits sum.splits if_splits)

lemma pass_counted:
  assumes w: "counted k ds c w" and k: "k = path_text dir" and ds: "\<forall>d \<in> set ds. path_text d \<noteq> k"
    and run: "journaled_pass tx v dir ready links listed w = (b, w')"
  shows "counted k ds (if b \<and> failed_outcomes (pass_outcomes tx v dir w) then Suc c else c) w' \<and> (b \<longrightarrow> c < 3)"
proof (cases "move_retry_ready (vo_now v w) k (vo_board w)")
  case False
  with run w show ?thesis by (simp add: journaled_pass_def Let_def k)
next
  case True
  let ?w0 = "on_board (mark_retrying k) w" and ?quiet = "end_retrying k"
  have fin: "counted k ds n (on_board ?quiet u)" if "counted k ds n u" for n u
    by (rule counted_board [OF that]) (simp add: retrying_view)
  have w0: "counted k ds c ?w0" by (rule counted_board [OF w]) (simp add: retrying_view)
  obtain r w1 where l: "load_manifest v dir ?w0 = (r, w1)" by fastforce
  show ?thesis
  proof (cases "gone ?w0")
    case True
    have g: "gone w1" "\<And>m. r \<noteq> Inr (Some m)" using load_gone [OF True l] by auto
    then have "gone w' \<and> \<not> b" using run l \<open>move_retry_ready _ _ _\<close>
      by (auto simp: journaled_pass_def Let_def k [symmetric] report_failure_def gone_def split: sum.splits option.splits prod.splits)
    with w show ?thesis by (simp add: counted_def)
  next
    case False
    let ?V = "plan_view (vo_journal ?w0)" and ?R = "row_view k (vo_board ?w0)"
    have f: "frame k ?V ?R w1 \<and> (case r of Inr m \<Rightarrow> m = None \<or> ?V = Some (view (the m)) | Inl _ \<Rightarrow> True)"
      using triple_run [OF load_view [of k ?V ?R] _ l] by (simp add: frame_def split: sum.splits)
    then have w1: "counted k ds c w1" using counted_frame [OF w0 False] by blast
    show ?thesis
    proof (cases "\<exists>m. r = Inr (Some m)")
      case False
      have "count_held ds c (plan_view (vo_journal w1)) (row_view k (vo_board w1)) \<or> gone w1" using w1 by (auto simp: counted_def)
      then have "counted k ds c (report_failure v dir reason hint w1)" for reason hint
        using w1 by (auto simp: counted_def count_held_def report_failure_def k [symmetric] gone_def row_view_def record_move_error_def
            record_move_error_at_stage_def Let_def split: option.splits)
      with False run l fin w1 \<open>move_retry_ready _ _ _\<close> show ?thesis
        by (auto simp: journaled_pass_def Let_def k [symmetric] split: sum.splits option.splits)
    next
      case True
      then obtain m where m: "r = Inr (Some m)" by blast
      with f have v1: "plan_view (vo_journal w1) = Some (view m)" by (simp add: frame_def)
      then have ng: "\<not> gone w1" by (auto simp: plan_view_def gone_def split: option.splits)
      obtain a w2 where r: "restore_retry v dir m w1 = (a, w2)" by fastforce
      note rc = restore_counted [OF w1 ng k v1 r]
      show ?thesis
      proof (cases "a = AttemptWait \<or> \<not> ready")
        case True
        with run l m r rc fin \<open>move_retry_ready _ _ _\<close> show ?thesis by (auto simp: journaled_pass_def Let_def k [symmetric])
      next
        case False
        with rc obtain n where n: "n < 3" "c \<le> n" "spent k ds n w2" by blast
        let ?w3 = "on_board (clear_recovered_folder_wait k) w2"
        have w3: "spent k ds n ?w3"
          using n(3) by (auto simp: spent_def row_view_def clear_recovered_folder_wait_def split: option.splits prod.splits)
        define outs where "outs = pass_outcomes tx v dir w"
        have outs: "outs = fst (fst (deliver_each tx v dir [0 ..< length (mn_entries m)] [] None (on_board (snd \<circ> take_failure) ?w3)))"
          using l m r by (simp add: outs_def pass_outcomes_def k [symmetric])
        have b: "b" "w' = on_board ?quiet (finish_pass tx v dir links listed (length (mn_entries m)) ?w3)"
          using run l m r False \<open>move_retry_ready _ _ _\<close> by (auto simp: journaled_pass_def Let_def k [symmetric])
        let ?c = "if failed_outcomes outs then Suc c else c"
        have "counted k ds ?c (finish_pass tx v dir links listed (length (mn_entries m)) ?w3)"
          using finish_spent [OF w3 k ds n(1) outs, of links listed]
        proof (elim disjE exE conjE)
          fix i assume i: "n \<le> i" "i \<le> Suc n" "failed_outcomes outs \<longrightarrow> i = Suc n"
            "spent k ds i (finish_pass tx v dir links listed (length (mn_entries m)) ?w3)"
          show ?thesis by (rule spent_counted [OF i(4)]) (use n i in auto)
        next
          assume "\<not> failed_outcomes outs" "gone (finish_pass tx v dir links listed (length (mn_entries m)) ?w3)"
          with n show ?thesis by (simp add: counted_def)
        qed
        from fin [OF this] b n outs_def show ?thesis by simp
      qed
    qed
  qed
qed

section \<open>At most three\<close>

text \<open>The journal records as many attempts as the row shows.\<close>

definition retry_saved :: "path \<Rightarrow> manifest volume \<Rightarrow> bool" where
  "retry_saved dir w \<longleftrightarrow> (case mb_rows (vo_board w) (path_text dir) of None \<Rightarrow> True
     | Some r \<Rightarrow> (case slot_target (vo_journal w) of Some (Json m) \<Rightarrow> mr_attempts r \<le> rt_count (mn_retry m) | _ \<Rightarrow> True))"

text \<open>
  What else happens to the rows asks for no Retry, and leaves the job's row or drops it, by a restart
  or a prune, once its count is saved.
\<close>

fun no_operator :: "path \<Rightarrow> delivery_event list \<Rightarrow> manifest volume \<Rightarrow> bool" where
  "no_operator dir [] w = True"
| "no_operator dir (x # xs) w \<longleftrightarrow> (case x of Pass _ _ _ _ _ \<Rightarrow> True
     | Rows f \<Rightarrow> mb_requests (f (vo_board w)) (path_text dir) = None
         \<and> (mb_rows (f (vo_board w)) (path_text dir) = mb_rows (vo_board w) (path_text dir)
            \<or> mb_rows (f (vo_board w)) (path_text dir) = None \<and> retry_saved dir w))
     \<and> no_operator dir xs (run_event dir x w)"

definition failed_event :: "path \<Rightarrow> delivery_event \<Rightarrow> manifest volume \<Rightarrow> bool" where
  "failed_event dir x w = (case x of Pass tx v ready links listed \<Rightarrow>
       fst (journaled_pass tx v dir ready links listed w) \<and> failed_outcomes (pass_outcomes tx v dir w)
     | Rows f \<Rightarrow> False)"

fun failed_passes :: "path \<Rightarrow> delivery_event list \<Rightarrow> manifest volume \<Rightarrow> nat" where
  "failed_passes dir [] w = 0"
| "failed_passes dir (x # xs) w = (if failed_event dir x w then 1 else 0) + failed_passes dir xs (run_event dir x w)"

lemma rows_counted:
  assumes w: "counted k ds c w" and f: "mb_requests (f (vo_board w)) k = None"
    "mb_rows (f (vo_board w)) k = mb_rows (vo_board w) k \<or> mb_rows (f (vo_board w)) k = None \<and> retry_saved dir w"
    and k: "k = path_text dir"
  shows "counted k ds c (on_board f w)"
  using assms
  by (cases "mb_rows (vo_board w) k"; cases "slot_target (vo_journal w)")
    (auto simp: counted_def count_held_def gone_def plan_view_def row_view_def retry_saved_def max_def split: doc.splits if_splits)

lemma run_counted:
  assumes k: "k = path_text dir" and ds: "\<forall>d \<in> set ds. path_text d \<noteq> k"
  shows "counted k ds c w \<Longrightarrow> no_operator dir xs w
    \<Longrightarrow> counted k ds (c + failed_passes dir xs w) (fold (run_event dir) xs w)"
proof (induction xs arbitrary: c w)
  case (Cons x xs)
  have "counted k ds (c + (if failed_event dir x w then 1 else 0)) (run_event dir x w)"
  proof (cases x)
    case (Pass tx v ready links listed)
    obtain b w' where run: "journaled_pass tx v dir ready links listed w = (b, w')" by fastforce
    from pass_counted [OF Cons.prems(1) k ds run] Pass run show ?thesis by (auto simp: run_event_def failed_event_def)
  next
    case (Rows f)
    with Cons.prems rows_counted [OF Cons.prems(1) _ _ k, of f] show ?thesis by (simp add: run_event_def failed_event_def k)
  qed
  from Cons.IH [OF this] Cons.prems(2) show ?case by (simp add: add.assoc)
qed simp

text \<open>
  C8: three attempts, then the operator. However many mover passes and restarts follow, with any call
  failing or stalling, a delivery fails or stalls at most three times; after the third no pass
  attempts it again, until a Retry. A restart that loses a count which could not be saved is the one
  thing that would buy another copy; the row holds the delivery until then.
\<close>

theorem three_attempts_then_operator:
  assumes "slot_target (vo_journal w) = Some (Json m)" "mn_retry m = None"
    "mb_rows (vo_board w) (path_text dir) = None" "mb_requests (vo_board w) (path_text dir) = None"
    "\<forall>e \<in> set (mn_entries m). path_text (dl_destination e) \<noteq> path_text dir" "no_operator dir xs w"
  shows "failed_passes dir xs w \<le> 3
    \<and> \<not> (failed_passes dir xs w = 3 \<and> fst (journaled_pass tx v dir ready links listed (fold (run_event dir) xs w)))"
proof -
  let ?ds = "map dl_destination (mn_entries m)"
  have "counted (path_text dir) ?ds 0 w" using assms(1-4) by (simp add: counted_def count_held_def plan_view_def row_view_def rt_count_def)
  from run_counted [OF refl _ this assms(6)] assms(5)
  have c: "counted (path_text dir) ?ds (failed_passes dir xs w) (fold (run_event dir) xs w)" by simp
  obtain b w' where run: "journaled_pass tx v dir ready links listed (fold (run_event dir) xs w) = (b, w')" by fastforce
  have "b \<longrightarrow> failed_passes dir xs w < 3" using pass_counted [OF c refl _ run] assms(5) by simp
  with c run show ?thesis by (auto simp: counted_def)
qed

text \<open>A disk on which no file can be published.\<close>

definition failing_disk :: world_env where
  "failing_disk = sample_disk\<lparr>ev_publish := (\<lambda>_ _ m. (Inl (io_other ''no space left''), m)), ev_now := (\<lambda>n. 100000 * n),
     ev_wall := (\<lambda>n. 100000 * n)\<rparr>"

definition failing_pass :: delivery_event where
  "failing_pass = Pass sample_move_texts failing_disk True None True"

definition failing_run :: "delivery_event list" where
  "failing_run = [Rows (\<lambda>_. fresh_board), failing_pass, failing_pass, failing_pass, failing_pass]"

theorem three_attempts_then_operator_witness:
  "failed_passes sample_job failing_run sample_volume \<le> 3
    \<and> \<not> (failed_passes sample_job failing_run sample_volume = 3
        \<and> fst (journaled_pass sample_move_texts failing_disk sample_job True None True
              (fold (run_event sample_job) failing_run sample_volume)))"
proof (rule three_attempts_then_operator [where m = sample_manifest])
  have "\<not> path_text sample_dest = path_text sample_job" by code_simp
  then show "\<forall>e \<in> set (mn_entries sample_manifest). path_text (dl_destination e) \<noteq> path_text sample_job"
    by (simp add: sample_manifest_def sample_entry_def)
  show "no_operator sample_job failing_run sample_volume"
    by (simp add: failing_run_def failing_pass_def sample_volume_def fresh_board_def)
qed (simp_all add: sample_volume_def sample_manifest_def fresh_board_def)

end
