(* ===== verification/Library_Links.thy ===== *)
theory Library_Links
  imports Delivery_Disk Set_Aside "HOL-Library.AList"
begin

text \<open>
  The Library's ISO-to-MKV links (\<open>server/library/links.rs\<close>): what the app recorded about each MKV
  it filed, the reading and the durable writing of the links file, and every change made to it. A
  links map is an association list, its order that of one pass over the \<open>HashMap\<close>; the file is the
  durable slot of a volume. A writer holds the \<open>WRITE\<close> lock from its read to its write, so it is
  one step for the other writers. Waking the Library thread is not modelled.
\<close>

section \<open>Links and their wire form\<close>

record link =
  ln_iso :: path
  ln_stamp :: "stamp option"
  ln_iso_stamp :: "stamp option"
  ln_episode :: bool

type_synonym links = "(path \<times> link) list"

definition legacy_link :: "path \<Rightarrow> link" where
  "legacy_link img = \<lparr>ln_iso = img, ln_stamp = None, ln_iso_stamp = None, ln_episode = False\<rparr>"

datatype wire = WireIso path | WireFull link

type_synonym links_file = "(path \<times> wire) list"
type_synonym 'a lio = "(links_file, 'a) io"

definition link_of_wire :: "wire \<Rightarrow> link" where
  "link_of_wire w = (case w of WireIso img \<Rightarrow> legacy_link img | WireFull l \<Rightarrow> l)"

definition wire_of_link :: "link \<Rightarrow> wire" where
  "wire_of_link l = (if ln_stamp l = None \<and> ln_iso_stamp l = None \<and> \<not> ln_episode l then WireIso (ln_iso l) else WireFull l)"

lemma link_of_wire_of_link [simp]: "link_of_wire (wire_of_link l) = l"
  by (cases l) (simp add: wire_of_link_def link_of_wire_def legacy_link_def)

definition wires_of :: "links \<Rightarrow> links_file" where "wires_of = map (\<lambda>(k, l). (k, wire_of_link l))"
definition links_of :: "links_file \<Rightarrow> links" where "links_of = map (\<lambda>(k, w). (k, link_of_wire w))"

lemma links_of_wires_of [simp]: "links_of (wires_of ls) = ls"
  by (simp add: links_of_def wires_of_def map_idI split_beta)

text \<open>\<open>iso_stamp\<close> follows a linked ISO: what is at its resolved path.\<close>

definition iso_stamp :: "world_env \<Rightarrow> path \<Rightarrow> 'j volume \<Rightarrow> stamp option \<times> 'j volume" where
  "iso_stamp v img w =
     (case syscall v (\<lambda>n m. (case ev_resolve v n img of Inl e \<Rightarrow> Inl e
          | Inr p \<Rightarrow> (case m p of None \<Rightarrow> Inl absent | Some k \<Rightarrow> Inr (stamp_of k)), m)) w of
        (Inl _, w') \<Rightarrow> (None, w') | (Inr s, w') \<Rightarrow> (s, w'))"

section \<open>Reading\<close>

definition links_name :: string where "links_name = ''library-links.json''"
definition links_path :: "path \<Rightarrow> path" where "links_path cfg = path_join cfg [Normal links_name]"

datatype links_unreadable = LinksIo io_error | LinksDamaged string

definition parse_links :: "world_env \<Rightarrow> links_file volume \<Rightarrow> (links_unreadable + links) \<times> links_file volume" where
  "parse_links v = attempt_io (syscall v (\<lambda>_ m. (Inr (), m))) (\<lambda>r w. case r of
       Inl e \<Rightarrow> (if err_kind e = NotFound then Inr [] else Inl (LinksIo e), w)
     | Inr _ \<Rightarrow> (case slot_target (vo_journal w) of None \<Rightarrow> Inr []
         | Some (Damaged t) \<Rightarrow> Inl (LinksDamaged t) | Some (Json ws) \<Rightarrow> Inr (links_of ws), w))"

definition links_damaged :: "string \<Rightarrow> io_error" where
  "links_damaged t = IoError InvalidData (links_name @ '' is damaged: '' @ t)"

definition read_entries :: "world_env \<Rightarrow> links lio" where
  "read_entries v = map_err (\<lambda>u. case u of LinksIo e \<Rightarrow> e | LinksDamaged t \<Rightarrow> links_damaged t) (parse_links v)"

definition by_iso :: "links \<Rightarrow> (path \<times> path) list" where "by_iso = map (\<lambda>(k, l). (k, ln_iso l))"

definition read_isos :: "world_env \<Rightarrow> (path \<times> path) list lio" where
  "read_isos v = try_io (read_entries v) (\<lambda>ls. give (by_iso ls))"

definition link_entries :: "world_env \<Rightarrow> links_file volume \<Rightarrow> links \<times> links_file volume" where
  "link_entries v w = (case read_entries v w of (Inl _, w') \<Rightarrow> ([], w') | (Inr ls, w') \<Rightarrow> (ls, w'))"

definition load_isos :: "world_env \<Rightarrow> links_file volume \<Rightarrow> (path \<times> path) list \<times> links_file volume" where
  "load_isos v w = (case link_entries v w of (ls, w') \<Rightarrow> (by_iso ls, w'))"

section \<open>Writing\<close>

text \<open>\<open>set_aside\<close> on a volume: a damaged links file becomes a file of its own beside it.\<close>

definition rename_aside :: "world_env \<Rightarrow> path \<Rightarrow> unit lio" where
  "rename_aside v aside w =
     (case slot_target (vo_journal w) of
        Some (Damaged t) \<Rightarrow>
          (case syscall v (\<lambda>n m. (Inr (), m(aside \<mapsto> RegularFile t (ev_mtime v n)))) w of
             (Inl e, w') \<Rightarrow> (Inl e, w')
           | (Inr u, w') \<Rightarrow> (Inr u, w'\<lparr>vo_journal := (vo_journal w')\<lparr>slot_target := None\<rparr>\<rparr>))
      | _ \<Rightarrow> fail absent w)"

fun aside_from :: "world_env \<Rightarrow> path \<Rightarrow> nat list \<Rightarrow> path lio" where
  "aside_from v cfg [] w = fail (IoError AlreadyExists (''too many copies of '' @ links_name @ '' are already set aside'')) w"
| "aside_from v cfg (n # ns) w =
     (let aside = with_file_name (links_path cfg) (aside_name links_name n) in
      attempt_io (symlink_metadata v aside) (\<lambda>r. case r of
          Inr _ \<Rightarrow> aside_from v cfg ns
        | Inl e \<Rightarrow> if err_kind e \<noteq> NotFound then fail e
            else try_io (rename_aside v aside) (\<lambda>_. give aside)) w)"

definition set_links_aside :: "world_env \<Rightarrow> path \<Rightarrow> path lio" where
  "set_links_aside v cfg w = aside_from v cfg [0 ..< 1000] w"

definition read_for_write :: "world_env \<Rightarrow> path \<Rightarrow> bool \<Rightarrow> links lio" where
  "read_for_write v cfg aside = attempt_io (parse_links v) (\<lambda>r. case r of
       Inr ls \<Rightarrow> give ls
     | Inl (LinksIo e) \<Rightarrow> fail e
     | Inl (LinksDamaged t) \<Rightarrow> if aside then try_io (set_links_aside v cfg) (\<lambda>_. give [])
         else fail (links_damaged t))"

definition write_links :: "world_env \<Rightarrow> path \<Rightarrow> links \<Rightarrow> unit lio" where
  "write_links v cfg ls w =
     (let n = vo_calls w; ms = ev_foreign v n (vo_nodes w); w' = w\<lparr>vo_nodes := ms, vo_calls := Suc n\<rparr>
      in case ft_json (ev_save v n) of
           Some e \<Rightarrow> (Inl e, w')
         | None \<Rightarrow> (case write_marker_durable (links_path cfg) (Json (wires_of ls)) (ev_save v n) (vo_journal w) of
             (r, sl) \<Rightarrow> (r, w'\<lparr>vo_journal := sl\<rparr>)))"

definition forget_link :: "world_env \<Rightarrow> path \<Rightarrow> path \<Rightarrow> path \<Rightarrow> unit lio" where
  "forget_link v cfg mkv img = try_io (read_for_write v cfg True) (\<lambda>ls.
     if map_option ln_iso (map_of ls mkv) \<noteq> Some img then give ()
     else write_links v cfg (AList.delete mkv ls))"

definition forget_gone :: "world_env \<Rightarrow> path \<Rightarrow> links \<Rightarrow> nat lio" where
  "forget_gone v cfg gone =
     (if gone = [] then give 0
      else try_io (read_for_write v cfg True) (\<lambda>ls.
        let left = filter (\<lambda>(mkv, l). map_of gone mkv \<noteq> Some l) ls; dropped = length ls - length left
        in if dropped > 0 then try_io (write_links v cfg left) (\<lambda>_. give dropped) else give dropped))"

section \<open>Recording\<close>

definition same_links :: "links \<Rightarrow> links \<Rightarrow> bool" where
  "same_links a b \<longleftrightarrow> length a = length b \<and> list_all (\<lambda>(k, l). map_of b k = Some l) a"

text \<open>Links from an earlier disc filed at this ISO path name files that disc made.\<close>

definition drop_earlier :: "path \<Rightarrow> stamp option \<Rightarrow> bool \<Rightarrow> links \<Rightarrow> links" where
  "drop_earlier img now prune ls = (case (prune, now) of
       (True, Some s) \<Rightarrow> filter (\<lambda>(_, l). ln_iso l \<noteq> img \<or> ln_iso_stamp l = None \<or> ln_iso_stamp l = Some s) ls
     | _ \<Rightarrow> ls)"

definition with_links :: "(path \<times> stamp option) list \<Rightarrow> path \<Rightarrow> stamp option \<Rightarrow> bool \<Rightarrow> links \<Rightarrow> links" where
  "with_links mkvs img now episode = fold (\<lambda>(mkv, stamp). AList.update mkv
      \<lparr>ln_iso = img, ln_stamp = stamp, ln_iso_stamp = now, ln_episode = episode\<rparr>) mkvs"

definition record_many_from ::
    "world_env \<Rightarrow> path \<Rightarrow> (path \<times> stamp option) list \<Rightarrow> path \<Rightarrow> bool \<Rightarrow> bool \<Rightarrow> stamp option \<Rightarrow> bool \<Rightarrow> unit lio" where
  "record_many_from v cfg mkvs img episode aside now prune = try_io (read_for_write v cfg aside) (\<lambda>ls.
     let ls' = with_links mkvs img now episode (drop_earlier img now prune ls)
     in if same_links ls' ls then give () else write_links v cfg ls')"

definition record_many :: "world_env \<Rightarrow> path \<Rightarrow> (path \<times> stamp option) list \<Rightarrow> path \<Rightarrow> bool \<Rightarrow> bool \<Rightarrow> unit lio" where
  "record_many v cfg mkvs img episode aside w = (case iso_stamp v img w of
       (now, w') \<Rightarrow> record_many_from v cfg mkvs img episode aside now True w')"

definition record_frozen_output ::
    "world_env \<Rightarrow> path \<Rightarrow> path \<Rightarrow> path \<Rightarrow> stamp option \<Rightarrow> bool \<Rightarrow> stamp option \<Rightarrow> unit lio" where
  "record_frozen_output v cfg mkv img stamp episode source =
     record_many_from v cfg [(mkv, if source \<noteq> None then stamp else None)] img episode True source False"

definition lower_extension :: "path \<Rightarrow> string option" where
  "lower_extension p = map_option (map ascii_lower) (extension p)"

definition record_delivery_stamped :: "world_env \<Rightarrow> path \<Rightarrow> (path \<times> stamp option) list \<Rightarrow> unit lio" where
  "record_delivery_stamped v cfg delivered =
     (let mkvs = filter (\<lambda>(p, _). lower_extension p = Some ''mkv'') delivered;
          isos = filter (\<lambda>p. lower_extension p = Some ''iso'') (map fst delivered)
      in case isos of [img] \<Rightarrow> if mkvs \<noteq> [] then record_many v cfg mkvs img (length mkvs > 1) False else give ()
         | _ \<Rightarrow> give ())"

end
