(* ===== verification/Library_Owned.thy ===== *)
theory Library_Owned
  imports Library_Links Job_Queue "HOL-Library.List_Lexorder" "HOL-Library.Char_ord"
begin

text \<open>
  The files a source ISO made, as the links record them (\<open>server/library/owned.rs\<close>): what is at a
  path now, which linked files are still as the app wrote them from the disc now at the ISO path,
  and which the links disown. Paths are ordered as Rust orders them, component by component.
\<close>

section \<open>The order of paths\<close>

definition comp_key :: "comp \<Rightarrow> nat \<times> string" where
  "comp_key c = (case c of RootDir \<Rightarrow> (0, []) | CurDir \<Rightarrow> (1, []) | ParentDir \<Rightarrow> (2, []) | Normal s \<Rightarrow> (3, s))"

lemma comp_key_inject: "comp_key a = comp_key b \<Longrightarrow> a = b"
  by (simp add: comp_key_def split: comp.splits)

instantiation comp :: linorder
begin

definition less_eq_comp :: "comp \<Rightarrow> comp \<Rightarrow> bool" where
  "less_eq_comp a b \<longleftrightarrow> fst (comp_key a) < fst (comp_key b)
     \<or> fst (comp_key a) = fst (comp_key b) \<and> snd (comp_key a) \<le> snd (comp_key b)"

definition less_comp :: "comp \<Rightarrow> comp \<Rightarrow> bool" where
  "less_comp a b \<longleftrightarrow> a \<le> b \<and> \<not> b \<le> a"

instance
  by standard (auto simp: less_eq_comp_def less_comp_def intro!: comp_key_inject prod_eqI)

end

section \<open>Owned files\<close>

record library_dirs =
  ld_library :: path
  ld_tv :: "path option"
  ld_isos :: "path option"
  ld_iso_subfolders :: bool

definition library_roots :: "library_dirs \<Rightarrow> path list" where
  "library_roots d = ld_library d # (case ld_tv d of None \<Rightarrow> [] | Some t \<Rightarrow> [t])"

datatype file_presence = Gone | OnDisk stamp | OtherThing

text \<open>
  \<open>Stamp::read\<close>'s own error carries no error number; a symlink swapped in since the first look,
  which the code knows by \<open>ELOOP\<close>, gives the same error in this model.
\<close>

definition not_regular :: "io_error \<Rightarrow> bool" where
  "not_regular e \<longleftrightarrow> err_kind e = OtherKind \<and> starts_with (err_text e) ''not a regular file: ''"

definition present :: "world_env \<Rightarrow> path \<Rightarrow> ('j, file_presence) io" where
  "present v p = attempt_io (symlink_metadata v p) (\<lambda>r. case r of
       Inl e \<Rightarrow> if err_kind e = NotFound then give Gone else fail e
     | Inr n \<Rightarrow> (if stamp_of n = None then give OtherThing
         else attempt_io (stamp_read v p) (\<lambda>s. case s of
             Inr now \<Rightarrow> give (OnDisk now)
           | Inl e \<Rightarrow> if err_kind e = NotFound then give Gone
               else if not_regular e then give OtherThing else fail e)))"

definition eligible :: "path list \<Rightarrow> path \<Rightarrow> bool" where
  "eligible roots p \<longleftrightarrow> is_absolute p \<and> (case extension p of None \<Rightarrow> False | Some x \<Rightarrow> eq_ignore_ascii_case x ''mkv'')
     \<and> ParentDir \<notin> set p \<and> list_ex (path_starts_with p) roots"

text \<open>The stamp a link vouches for.\<close>

definition proof_stamp :: "link \<Rightarrow> stamp option \<Rightarrow> stamp option" where
  "proof_stamp l now = (if ln_iso_stamp l = None \<or> ln_iso_stamp l = now then ln_stamp l else None)"

fun capture_each ::
    "world_env \<Rightarrow> stamp option \<Rightarrow> (path \<Rightarrow> bool) \<Rightarrow> (path \<times> link) list \<Rightarrow> ('j, owned list) io" where
  "capture_each v now needed [] w = give [] w"
| "capture_each v now needed ((p, l) # rest) w =
     (case proof_stamp l now of None \<Rightarrow> capture_each v now needed rest
      | Some recorded \<Rightarrow> attempt_io (present v p) (\<lambda>r. case r of
            Inr (OnDisk s) \<Rightarrow> if s = recorded
              then try_io (capture_each v now needed rest) (\<lambda>os. give (\<lparr>ow_path = p, ow_stamp = s\<rparr> # os))
              else capture_each v now needed rest
          | Inr _ \<Rightarrow> capture_each v now needed rest
          | Inl e \<Rightarrow> if needed p then fail e else capture_each v now needed rest)) w"

definition capture_with ::
    "world_env \<Rightarrow> links \<Rightarrow> path \<Rightarrow> path list \<Rightarrow> (path \<Rightarrow> bool) \<Rightarrow> ('j, owned list) io" where
  "capture_with v ls img roots needed w = (case iso_stamp v img w of
     (now, w') \<Rightarrow> try_io (capture_each v now needed (filter (\<lambda>(p, l). ln_iso l = img \<and> eligible roots p) ls))
       (\<lambda>os. give (sort_key ow_path os)) w')"

definition capture :: "world_env \<Rightarrow> links \<Rightarrow> path \<Rightarrow> path list \<Rightarrow> ('j, owned list) io" where
  "capture v ls img roots = capture_with v ls img roots (\<lambda>_. True)"

definition disowned :: "world_env \<Rightarrow> links \<Rightarrow> path \<Rightarrow> path \<Rightarrow> 'j volume \<Rightarrow> bool \<times> 'j volume" where
  "disowned v ls img p w = (case map_of ls p of None \<Rightarrow> (False, w)
     | Some l \<Rightarrow> if ln_iso l \<noteq> img \<or> ln_stamp l \<noteq> None then (True, w)
         else case ln_iso_stamp l of None \<Rightarrow> (False, w)
           | Some t \<Rightarrow> (case iso_stamp v img w of (now, w') \<Rightarrow> (Some t \<noteq> now, w')))"

definition eligible_paths :: "links \<Rightarrow> path \<Rightarrow> path list \<Rightarrow> path list" where
  "eligible_paths ls img roots =
     sort (map fst (filter (\<lambda>(p, l). ln_iso l = img \<and> ln_stamp l \<noteq> None \<and> eligible roots p) ls))"

end
