(* ===== verification/Library_Retire.thy ===== *)
theory Library_Retire
  imports Library_Owned
begin

text \<open>
  Removing a corrected ISO's old files once every new file is in place (\<open>server/library/retire.rs\<close>,
  and \<open>safe_destination\<close> of \<open>server/library/worker.rs\<close>). The artifact lock is the disc crate's: a call
  that may fail. What the mount table says of a folder and the localised texts are parameters.
\<close>

record retire_job =
  rt_iso :: path
  rt_config :: path
  rt_roots :: "path list"

record library_world =
  lw_env :: world_env
  lw_unmounted :: "nat \<Rightarrow> path \<Rightarrow> bool"      \<comment> \<open>\<open>share_unmounted\<close>\<close>
  lw_text :: "string \<Rightarrow> string list \<Rightarrow> string"  \<comment> \<open>\<open>strings::fmt_or\<close>: a key and its arguments\<close>

section \<open>Safe destinations\<close>

function resolves_within :: "world_env \<Rightarrow> path \<Rightarrow> path \<Rightarrow> 'j volume \<Rightarrow> (string + unit) \<times> 'j volume" where
  "resolves_within v root p w =
     (case resolve v p w of
        (Inr q, w') \<Rightarrow> (if path_starts_with q root then Inr () else Inl ''output escapes the library folder'', w')
      | (Inl e, w') \<Rightarrow>
          if err_kind e \<noteq> NotFound then (Inl (''cannot resolve output destination: '' @ err_text e), w')
          else case path_parent p of None \<Rightarrow> (Inl ''output has no existing parent'', w')
               | Some up \<Rightarrow> resolves_within v root up w')"
  by pat_completeness auto
termination
  by (relation "measure (\<lambda>(v, root, p, w). length p)") (auto simp: path_parent_def split: if_splits)

declare resolves_within.simps [simp del]

definition folder_text :: "library_world \<Rightarrow> bool \<Rightarrow> string \<Rightarrow> string list \<Rightarrow> string" where
  "folder_text lw tv what args =
     lw_text lw (''server.library.'' @ (if tv then ''tv_folder_'' else ''library_folder_'') @ what) args"

definition safe_destination ::
    "library_world \<Rightarrow> path \<Rightarrow> path \<Rightarrow> bool \<Rightarrow> 'j volume \<Rightarrow> (string + unit) \<times> 'j volume" where
  "safe_destination lw root p tv w =
     (if \<not> path_starts_with p root \<or> ParentDir \<in> set p
      then fail (path_text p @ '' is not under the library folder'') w
      else if lw_unmounted lw (vo_calls w) root then fail ''the output share is not mounted'' w
      else try_io (attempt_io (resolve (lw_env lw) root) (\<lambda>r. case r of
               Inl _ \<Rightarrow> give () | Inr real \<Rightarrow> resolves_within (lw_env lw) real p))
             (\<lambda>_. attempt_io (list_folder (lw_env lw) root) (\<lambda>r. case r of
               Inl e \<Rightarrow> fail (folder_text lw tv ''unreadable'' [path_text root, err_text e])
             | Inr [] \<Rightarrow> fail (folder_text lw tv ''empty'' [path_text root])
             | Inr (_ # _) \<Rightarrow> give ())) w)"

definition safe_to_create :: "library_world \<Rightarrow> library_dirs \<Rightarrow> path \<Rightarrow> 'j volume \<Rightarrow> (string + unit) \<times> 'j volume" where
  "safe_to_create lw d p = safe_destination lw (ld_library d) p False"

section \<open>Retiring\<close>

definition not_connected :: "library_world \<Rightarrow> string \<Rightarrow> path \<Rightarrow> io_error" where
  "not_connected lw key p = IoError NotConnected (lw_text lw (''server.library.retire.'' @ key) [path_text p])"

definition new_in_place :: "library_world \<Rightarrow> path \<Rightarrow> ('j, unit) io" where
  "new_in_place lw p = attempt_io (symlink_metadata (lw_env lw) p) (\<lambda>r. case r of
       Inr (RegularFile _ _) \<Rightarrow> give ()
     | Inr _ \<Rightarrow> fail (io_other (lw_text lw ''server.library.retire.new_not_regular'' [path_text p]))
     | Inl e \<Rightarrow> if err_kind e = NotFound then fail (not_connected lw ''new_missing'' p) else fail e)"

definition folder_gone :: "world_env \<Rightarrow> path \<Rightarrow> 'j volume \<Rightarrow> bool \<times> 'j volume" where
  "folder_gone v p w = (case path_parent p of None \<Rightarrow> (False, w)
     | Some dir \<Rightarrow> (case symlink_metadata v dir w of
         (Inl e, w') \<Rightarrow> (err_kind e = NotFound, w') | (Inr _, w') \<Rightarrow> (False, w')))"

text \<open>\<open>ArtifactLock::acquire\<close> and its deletion.\<close>

definition lock_call :: "world_env \<Rightarrow> path \<Rightarrow> ('j, unit) io" where
  "lock_call v p = syscall v (\<lambda>_ m. (Inr (), m))"

definition sync_folder_of :: "world_env \<Rightarrow> path \<Rightarrow> 'j volume \<Rightarrow> 'j volume" where
  "sync_folder_of v p w = (case path_parent p of None \<Rightarrow> w | Some dir \<Rightarrow> snd (sync_path v dir w))"

definition forgotten :: "world_env \<Rightarrow> retire_job \<Rightarrow> owned \<Rightarrow> bool \<Rightarrow> bool lio" where
  "forgotten v r old gone = try_io (forget_link v (rt_config r) (ow_path old) (rt_iso r)) (\<lambda>_. give gone)"

definition remove_old :: "world_env \<Rightarrow> retire_job \<Rightarrow> owned \<Rightarrow> bool lio" where
  "remove_old v r old = attempt_io (remove_path v (ow_path old)) (\<lambda>x w.
     let go = (\<lambda>w. forgotten v r old True (sync_folder_of v (ow_path old) w))
     in case x of Inl e \<Rightarrow> if err_kind e \<noteq> NotFound then fail e w else go w | Inr _ \<Rightarrow> go w)"

definition retire_one :: "world_env \<Rightarrow> retire_job \<Rightarrow> owned \<Rightarrow> bool lio" where
  "retire_one v r old = try_io (read_isos v) (\<lambda>isos.
     let linked = (map_of isos (ow_path old) = Some (rt_iso r))
     in try_io (present v (ow_path old)) (\<lambda>at. case at of
          Gone \<Rightarrow> if linked then forgotten v r old True else give True
        | OnDisk s \<Rightarrow> if s = ow_stamp old then (if linked then remove_old v r old else give False)
            else if linked then forgotten v r old False else give False
        | OtherThing \<Rightarrow> if linked then forgotten v r old False else give False))"

text \<open>\<open>remove_dir\<close>: a folder that a listing shows empty.\<close>

definition remove_empty :: "world_env \<Rightarrow> path \<Rightarrow> ('j, unit) io" where
  "remove_empty v p = syscall v (\<lambda>n m.
     if m p \<noteq> Some DirNode then (Inl absent, m)
     else if ev_list v n p m \<noteq> [] then (Inl (io_other ''directory not empty''), m) else (Inr (), m(p := None)))"

fun remove_emptied :: "world_env \<Rightarrow> path \<Rightarrow> path list \<Rightarrow> path list \<Rightarrow> 'j volume \<Rightarrow> 'j volume" where
  "remove_emptied v root roots [] w = w"
| "remove_emptied v root roots (dir # ups) w =
     (if \<not> path_starts_with dir root \<or> dir \<in> set roots then w
      else case remove_empty v dir w of (Inl _, w') \<Rightarrow> w'
           | (Inr _, w') \<Rightarrow> remove_emptied v root roots ups (sync_folder_of v dir w'))"

definition above_two :: "path \<Rightarrow> path list" where
  "above_two p = (case path_parent p of None \<Rightarrow> []
     | Some a \<Rightarrow> (case path_parent a of None \<Rightarrow> [a] | Some b \<Rightarrow> [a, b]))"

definition retire_locked :: "world_env \<Rightarrow> retire_job \<Rightarrow> path \<Rightarrow> owned \<Rightarrow> bool lio" where
  "retire_locked v r root old = try_io (lock_call v (ow_path old)) (\<lambda>_.
     attempt_io (retire_one v r old) (\<lambda>removed w.
       let unlocked = snd (lock_call v (ow_path old) w)
       in case removed of Inl e \<Rightarrow> fail e unlocked
          | Inr True \<Rightarrow> give True (remove_emptied v root (rt_roots r) (above_two (ow_path old)) unlocked)
          | Inr False \<Rightarrow> give False unlocked))"

definition retire_under :: "library_world \<Rightarrow> retire_job \<Rightarrow> path \<Rightarrow> owned \<Rightarrow> bool lio" where
  "retire_under lw r root old =
     try_io (map_err io_other (safe_destination lw root (ow_path old) (hd (rt_roots r) \<noteq> root))) (\<lambda>_ w.
       case folder_gone (lw_env lw) (ow_path old) w of
         (True, w') \<Rightarrow> fail (not_connected lw ''folder_missing'' (ow_path old)) w'
       | (False, w') \<Rightarrow> retire_locked (lw_env lw) r root old w')"

definition retire_old :: "library_world \<Rightarrow> retire_job \<Rightarrow> owned \<Rightarrow> bool lio" where
  "retire_old lw r old w =
     (if cancelled (lw_env lw) w then fail (io_other ''halted'') w
      else case find (path_starts_with (ow_path old)) (rt_roots r) of
        None \<Rightarrow> fail (io_other (lw_text lw ''server.library.retire.outside'' [path_text (ow_path old)])) w
      | Some root \<Rightarrow> retire_under lw r root old w)"

fun retire_each :: "library_world \<Rightarrow> retire_job \<Rightarrow> owned list \<Rightarrow> path list lio" where
  "retire_each lw r [] w = give [] w"
| "retire_each lw r (old # olds) w =
     try_io (retire_old lw r old) (\<lambda>removed.
     try_io (retire_each lw r olds) (\<lambda>kept. give (if removed then kept else ow_path old # kept))) w"

text \<open>\<open>run\<close>.\<close>

definition retire :: "library_world \<Rightarrow> retire_job \<Rightarrow> owned list \<Rightarrow> path list \<Rightarrow> path list lio" where
  "retire lw r owned targets =
     (let old = filter (\<lambda>x. ow_path x \<notin> set targets) owned
      in if old = [] then give []
         else try_io (each_io (new_in_place lw) targets) (\<lambda>_. retire_each lw r old))"

end
