(* ===== verification/Retire_Safety.thy ===== *)
theory Retire_Safety
  imports Library_Retire
begin

text \<open>
  What a retire pass removes. \<open>S\<close> is any set of paths the other processes leave alone; with any call
  failing and the pass cut off anywhere, the only things that go from \<open>S\<close> are empty folders and old
  files, each still as captured and still linked to the ISO, and only once every new file is in place.
\<close>

section \<open>Links in a volume\<close>

definition links_in :: "links_file doc slot \<Rightarrow> path \<rightharpoonup> link" where
  "links_in j = (case slot_target j of Some (Json ws) \<Rightarrow> map_of (links_of ws) | _ \<Rightarrow> Map.empty)"

definition undamaged :: "'f doc slot \<Rightarrow> bool" where
  "undamaged j \<longleftrightarrow> (\<forall>t. slot_target j \<noteq> Some (Damaged t))"

definition links_iso :: "links_file doc slot \<Rightarrow> path \<Rightarrow> path option" where
  "links_iso j p = map_option ln_iso (links_in j p)"

definition leaves_alone :: "world_env \<Rightarrow> path set \<Rightarrow> bool" where
  "leaves_alone v S \<longleftrightarrow> (\<forall>n m. \<forall>p \<in> S. ev_foreign v n m p = m p)"

text \<open>No failing call claims that a file is missing that is there.\<close>

definition truthful :: "world_env \<Rightarrow> bool" where
  "truthful v \<longleftrightarrow> (\<forall>n. pred_option (\<lambda>e. err_kind e \<noteq> NotFound) (ev_fault v n))"

definition as_captured :: "retire_job \<Rightarrow> owned list \<Rightarrow> links_file doc slot \<Rightarrow> nodes \<Rightarrow> path \<Rightarrow> bool" where
  "as_captured r olds j m p \<longleftrightarrow> links_iso j p = Some (rt_iso r)
     \<and> (\<exists>x \<in> set olds. ow_path x = p \<and> Option.bind (m p) stamp_of = Some (ow_stamp x))"

text \<open>
  A pass and where it started. \<open>G\<close> and \<open>L\<close> are the old files known to be gone, and those no longer
  linked to the ISO.
\<close>

record retire_case =
  rc_env :: world_env
  rc_job :: retire_job
  rc_olds :: "owned list"
  rc_paths :: "path set"
  rc_slot :: "links_file doc slot"
  rc_nodes :: nodes

definition may_go :: "retire_case \<Rightarrow> path \<Rightarrow> bool" where
  "may_go c p \<longleftrightarrow> rc_nodes c p = Some DirNode \<or> as_captured (rc_job c) (rc_olds c) (rc_slot c) (rc_nodes c) p"

definition retiring :: "retire_case \<Rightarrow> path set \<Rightarrow> path set \<Rightarrow> links_file doc slot \<Rightarrow> nodes \<Rightarrow> bool" where
  "retiring c G L j m \<longleftrightarrow> links_in j \<subseteq>\<^sub>m links_in (rc_slot c)
     \<and> (\<forall>p \<in> rc_paths c. m p = rc_nodes c p \<or> m p = None \<and> may_go c p)
     \<and> G \<subseteq> rc_paths c \<and> (\<forall>p \<in> G. m p = None) \<and> (\<forall>p \<in> L. links_iso j p \<noteq> Some (rt_iso (rc_job c)))"

abbreviation ret :: "retire_case \<Rightarrow> path set \<Rightarrow> path set \<Rightarrow> links_file volume \<Rightarrow> bool" where
  "ret c G L \<equiv> vol (retiring c G L)"

text \<open>\<open>K\<close>: what is known of the links file itself.\<close>

definition whole :: "retire_case \<Rightarrow> (links_file doc slot \<Rightarrow> bool) \<Rightarrow> path set \<Rightarrow> path set \<Rightarrow> links_file doc slot \<Rightarrow> nodes \<Rightarrow> bool" where
  "whole c K G L j m \<longleftrightarrow> retiring c G L j m \<and> K j"

abbreviation retu :: "retire_case \<Rightarrow> (links_file doc slot \<Rightarrow> bool) \<Rightarrow> path set \<Rightarrow> path set \<Rightarrow> links_file volume \<Rightarrow> bool" where
  "retu c K G L \<equiv> vol (whole c K G L)"

definition grow :: "bool \<Rightarrow> path \<Rightarrow> path set \<Rightarrow> path set" where
  "grow b p X = (if b then insert p X else X)"

abbreviation alone :: "retire_case \<Rightarrow> bool" where
  "alone c \<equiv> leaves_alone (rc_env c) (rc_paths c)"

lemma keeps_syscall:
  assumes "\<And>n j m. I j m \<Longrightarrow> I j (ev_foreign v n m)" "\<And>n j m. I j m \<Longrightarrow> I j (snd (f n m))"
  shows "keeps (vol I) (syscall v f)"
  unfolding keeps_iff
proof (intro allI impI)
  fix w assume "vol I w"
  with assms(1) have "I (vo_journal w) (ev_foreign v (vo_calls w) (vo_nodes w))" by (simp add: vol_def)
  with assms(2) [OF this, of "vo_calls w"] show "vol I (snd (syscall v f w))"
    by (cases "f (vo_calls w) (ev_foreign v (vo_calls w) (vo_nodes w))") (simp add: syscall_def Let_def vol_def split: option.split)
qed

lemma retiring_foreign: "alone c \<Longrightarrow> retiring c G L j m \<Longrightarrow> retiring c G L j (ev_foreign (rc_env c) n m)"
  unfolding retiring_def leaves_alone_def by (metis subsetD)

lemma retiring_slot: "retiring c G L j m \<Longrightarrow> links_in j' \<subseteq>\<^sub>m links_in j \<Longrightarrow> retiring c G L j' m"
  unfolding retiring_def links_iso_def by (auto simp: map_le_def dom_def)

lemma ret_call: "alone c \<Longrightarrow> (\<And>n m. snd (f n m) = m) \<Longrightarrow> keeps (ret c G L) (syscall (rc_env c) f)"
  by (rule keeps_syscall) (simp_all add: retiring_foreign)

lemma retu_call: "alone c \<Longrightarrow> (\<And>n m. snd (f n m) = m) \<Longrightarrow> keeps (retu c K G L) (syscall (rc_env c) f)"
  by (rule keeps_syscall) (simp_all add: whole_def retiring_foreign)

lemma retu_ret: "retu c K G L w \<Longrightarrow> ret c G L w"
  by (simp add: whole_def vol_def)

lemma ret_looks:
  assumes "alone c"
  shows "keeps (retu c K G L) (symlink_metadata (rc_env c) p)" "keeps (retu c K G L) (list_folder (rc_env c) p)"
    "keeps (retu c K G L) (resolve (rc_env c) p)" "keeps (retu c K G L) (sync_path (rc_env c) p)"
    "keeps (retu c K G L) (lock_call (rc_env c) p)"
  unfolding symlink_metadata_def list_folder_def resolve_def sync_path_def lock_call_def
  by (rule retu_call [OF assms]; simp)+

section \<open>Reading and writing the links\<close>

lemma vol_syscall:
  assumes "\<And>n j m. I j m \<Longrightarrow> I j (ev_foreign v n m)"
    and "\<And>n j m e m'. I j m \<Longrightarrow> f n m = (Inl e, m') \<Longrightarrow> E e j m'"
    and "\<And>n j m x m'. I j m \<Longrightarrow> f n m = (Inr x, m') \<Longrightarrow> Q x j m'"
    and "\<And>n j m e. I j m \<Longrightarrow> ev_fault v n = Some e \<Longrightarrow> E e j m"
  shows "triple (vol I) (syscall v f) (\<lambda>x. vol (Q x)) (\<lambda>e. vol (E e))"
  using triple_syscall [of I v f E Q] assms unfolding vol_def by (simp add: eta_contract_eq)

lemma whole_foreign: "alone c \<Longrightarrow> whole c K G L j m \<Longrightarrow> whole c K G L j (ev_foreign (rc_env c) n m)"
  by (simp add: whole_def retiring_foreign)

lemma whole_grow:
  "whole c K G L j m \<Longrightarrow> (b \<Longrightarrow> p \<in> rc_paths c \<and> m p = None) \<Longrightarrow> whole c K (grow b p G) L j m"
  "whole c K G L j m \<Longrightarrow> (b \<Longrightarrow> links_iso j p \<noteq> Some (rt_iso (rc_job c))) \<Longrightarrow> whole c K G (grow b p L) j m"
  by (auto simp: whole_def retiring_def grow_def)

lemma truthful_fault: "truthful v \<Longrightarrow> ev_fault v n = Some e \<Longrightarrow> err_kind e \<noteq> NotFound"
  unfolding truthful_def by (metis option.pred_inject(2))

lemma parse_links_cases:
  assumes al: "alone c" and w: "ret c G L w"
  obtains r u where "parse_links (rc_env c) w = (r, u)" "ret c G L u"
    "\<And>ls. r = Inr ls \<Longrightarrow> undamaged (vo_journal u) \<and> map_of ls \<subseteq>\<^sub>m links_in (vo_journal u)
       \<and> (truthful (rc_env c) \<longrightarrow> map_of ls = links_in (vo_journal u)) \<or> \<not> truthful (rc_env c) \<and> ls = []"
    "vo_journal u = vo_journal w" "\<And>t. r = Inl (LinksDamaged t) \<Longrightarrow> \<not> undamaged (vo_journal w)"
proof -
  obtain x u where call: "syscall (rc_env c) (\<lambda>_ m. (Inr (), m)) w = (x, u)" by fastforce
  have "ret c G L (snd (syscall (rc_env c) (\<lambda>_ m. (Inr (), m)) w))"
    using ret_call [OF al, of "\<lambda>_ m. (Inr (), m)" G L] w by (simp add: keeps_iff)
  with call have u: "ret c G L u" by simp
  have hon: "\<not> truthful (rc_env c)" if "x = Inl e" "err_kind e = NotFound" for e
    using call that truthful_fault [of "rc_env c"] by (fastforce simp: syscall_def Let_def split: option.splits)
  define r where "r = fst (parse_links (rc_env c) w)"
  have p: "parse_links (rc_env c) w = (r, u)"
    by (cases x) (simp_all add: r_def parse_links_def attempt_io_def call)
  show thesis
  proof (rule that [OF p u])
    fix ls assume "r = Inr ls"
    then show "undamaged (vo_journal u) \<and> map_of ls \<subseteq>\<^sub>m links_in (vo_journal u)
       \<and> (truthful (rc_env c) \<longrightarrow> map_of ls = links_in (vo_journal u)) \<or> \<not> truthful (rc_env c) \<and> ls = []"
      using hon by (cases x)
        (auto simp: r_def parse_links_def attempt_io_def call undamaged_def links_in_def
          split: if_splits option.splits doc.splits)
  next
    show same: "vo_journal u = vo_journal w"
      using call by (auto simp: syscall_def Let_def split: prod.splits option.splits)
    show "\<And>t. r = Inl (LinksDamaged t) \<Longrightarrow> \<not> undamaged (vo_journal w)"
      by (cases x) (auto simp: r_def parse_links_def attempt_io_def call same undamaged_def
          split: if_splits option.splits doc.splits)
  qed
qed

lemma ret_retu: "ret c G L = retu c (\<lambda>_. True) G L"
  by (simp add: fun_eq_iff vol_def whole_def)

definition linked_at :: "retire_case \<Rightarrow> path \<Rightarrow> (path \<times> path) list \<Rightarrow> bool" where
  "linked_at c p isos \<longleftrightarrow> map_of isos p = Some (rt_iso (rc_job c))"

lemma map_of_by_iso: "map_of (by_iso ls) p = map_option ln_iso (map_of ls p)"
  by (induction ls) (auto simp: by_iso_def)

lemma read_isos_ret:
  assumes "alone c"
  shows "triple (ret c G L) (read_isos (rc_env c))
     (\<lambda>isos w. retu c (\<lambda>j. linked_at c p isos \<longrightarrow> undamaged j) G (grow (truthful (rc_env c) \<and> \<not> linked_at c p isos) p L) w
        \<and> (linked_at c p isos \<longrightarrow> links_iso (rc_slot c) p = Some (rt_iso (rc_job c))))
     (\<lambda>_. ret c G L)"
proof -
  let ?Q = "\<lambda>isos w. retu c (\<lambda>j. linked_at c p isos \<longrightarrow> undamaged j) G (grow (truthful (rc_env c) \<and> \<not> linked_at c p isos) p L) w
        \<and> (linked_at c p isos \<longrightarrow> links_iso (rc_slot c) p = Some (rt_iso (rc_job c)))"
  have "case read_isos (rc_env c) w of (Inl e, w') \<Rightarrow> ret c G L w' | (Inr x, w') \<Rightarrow> ?Q x w'" if w: "ret c G L w" for w
  proof (rule parse_links_cases [OF assms w])
    fix x u
    assume run: "parse_links (rc_env c) w = (x, u)" and u: "ret c G L u"
      and ok: "\<And>ls. x = Inr ls \<Longrightarrow> undamaged (vo_journal u) \<and> map_of ls \<subseteq>\<^sub>m links_in (vo_journal u)
       \<and> (truthful (rc_env c) \<longrightarrow> map_of ls = links_in (vo_journal u)) \<or> \<not> truthful (rc_env c) \<and> ls = []"
    show ?thesis
    proof (cases x)
      case (Inl e)
      with run u show ?thesis by (simp add: read_isos_def read_entries_def try_io_def map_err_def)
    next
      case (Inr ls)
      have "?Q (by_iso ls) u"
      proof (cases "linked_at c p (by_iso ls)")
        case True
        then obtain l where l: "map_of ls p = Some l" "ln_iso l = rt_iso (rc_job c)"
          by (auto simp: linked_at_def map_of_by_iso)
        with ok [OF Inr] have "undamaged (vo_journal u)" "links_in (vo_journal u) p = Some l"
          by (auto simp: map_le_def dom_def)
        with u l have "links_in (rc_slot c) p = Some l"
          by (auto simp: vol_def retiring_def map_le_def dom_def)
        with l True u \<open>undamaged (vo_journal u)\<close> show ?thesis
          by (simp add: grow_def vol_def whole_def links_iso_def)
      next
        case False
        with ok [OF Inr] have "truthful (rc_env c) \<Longrightarrow> links_iso (vo_journal u) p \<noteq> Some (rt_iso (rc_job c))"
          by (auto simp: linked_at_def map_of_by_iso links_iso_def)
        with False u show ?thesis by (auto simp: grow_def vol_def whole_def retiring_def)
      qed
      with run Inr show ?thesis by (simp add: read_isos_def read_entries_def try_io_def map_err_def give_def)
    qed
  qed
  then show ?thesis by (simp add: triple_def)
qed

section \<open>Looking at a file and removing it\<close>

lemma present_ret:
  assumes al: "alone c" and p: "p \<in> rc_paths c"
  shows "triple (retu c K G L) (present (rc_env c) p)
     (\<lambda>at w. retu c K (grow (truthful (rc_env c) \<and> at = Gone) p G) L w
        \<and> (\<forall>s. at = OnDisk s \<longrightarrow> Option.bind (rc_nodes c p) stamp_of = Some s))
     (\<lambda>_. retu c K G L)"
  unfolding present_def
proof (rule triple_attempt_io [where F = "\<lambda>e. retu c K (grow (truthful (rc_env c) \<and> err_kind e = NotFound) p G) L"
      and R = "\<lambda>_. retu c K G L"])
  let ?E = "\<lambda>e. whole c K (grow (truthful (rc_env c) \<and> err_kind e = NotFound) p G) L"
  have fault: "?E e j m" if "whole c K G L j m" "ev_fault (rc_env c) n = Some e" for e j m n
    using that truthful_fault [of "rc_env c" n e] by (auto simp: grow_def)
  show "triple (retu c K G L) (symlink_metadata (rc_env c) p) (\<lambda>_. retu c K G L) (\<lambda>e. vol (?E e))"
    unfolding symlink_metadata_def
    by (rule vol_syscall) (auto simp: whole_foreign [OF al] absent_def p intro: fault whole_grow split: option.splits)
  have look: "triple (retu c K G L) (stamp_read (rc_env c) p)
     (\<lambda>s. vol (\<lambda>j m. whole c K G L j m \<and> Option.bind (rc_nodes c p) stamp_of = Some s)) (\<lambda>e. vol (?E e))"
    unfolding stamp_read_def
  proof (rule vol_syscall)
    fix n j m s m'
    assume w: "whole c K G L j m" and "(case m p of None \<Rightarrow> Inl absent | Some n \<Rightarrow> (case stamp_of n of
        None \<Rightarrow> Inl (io_other (''not a regular file: '' @ path_text p)) | Some s \<Rightarrow> Inr s), m) = (Inr s, m')"
    then have "m' = m" "Option.bind (m p) stamp_of = Some s" by (auto split: option.splits)
    moreover from this w p have "m p = rc_nodes c p" by (auto simp: whole_def retiring_def)
    ultimately show "whole c K G L j m' \<and> Option.bind (rc_nodes c p) stamp_of = Some s" using w by simp
  qed (auto simp: whole_foreign [OF al] absent_def p grow_def dest: truthful_fault
      intro: whole_grow [where b = True, simplified grow_def, simplified] split: option.splits)
  let ?Q = "\<lambda>at w. retu c K (grow (truthful (rc_env c) \<and> at = Gone) p G) L w
        \<and> (\<forall>s. at = OnDisk s \<longrightarrow> Option.bind (rc_nodes c p) stamp_of = Some s)"
  have less: "retu c K (grow b p G) L w \<Longrightarrow> retu c K G L w" for b w
    by (auto simp: vol_def whole_def retiring_def grow_def split: if_splits)
  show "triple (vol (?E e)) (case Inl e of Inl e \<Rightarrow> if err_kind e = NotFound then give Gone else fail e
        | Inr n \<Rightarrow> if stamp_of n = None then give OtherThing
            else attempt_io (stamp_read (rc_env c) p) (\<lambda>s. case s of Inl e \<Rightarrow> if err_kind e = NotFound then give Gone
                 else if not_regular e then give OtherThing else fail e | Inr now \<Rightarrow> give (OnDisk now))) ?Q (\<lambda>_. retu c K G L)" for e
    by (auto intro!: triple_if triple_give triple_fail less)
  show "triple (retu c K G L) (case Inr n of Inl e \<Rightarrow> if err_kind e = NotFound then give Gone else fail e
        | Inr n \<Rightarrow> if stamp_of n = None then give OtherThing
            else attempt_io (stamp_read (rc_env c) p) (\<lambda>s. case s of Inl e \<Rightarrow> if err_kind e = NotFound then give Gone
                 else if not_regular e then give OtherThing else fail e | Inr now \<Rightarrow> give (OnDisk now))) ?Q (\<lambda>_. retu c K G L)" for n
  proof (cases "stamp_of n = None")
    case True
    then show ?thesis by (simp add: triple_give grow_def)
  next
    case False
    have "triple (retu c K G L) (attempt_io (stamp_read (rc_env c) p) (\<lambda>s. case s of Inl e \<Rightarrow> if err_kind e = NotFound then give Gone
                 else if not_regular e then give OtherThing else fail e | Inr now \<Rightarrow> give (OnDisk now))) ?Q (\<lambda>_. retu c K G L)"
      by (rule triple_attempt_io [OF look])
        (auto simp: vol_def grow_def intro!: triple_if triple_give triple_fail dest: less [unfolded vol_def grow_def])
    with False show ?thesis by auto
  qed
qed

lemma write_links_ret:
  assumes al: "alone c" and sub: "map_of ls \<subseteq>\<^sub>m links_in (rc_slot c)"
    and new: "\<And>q. q \<in> L \<Longrightarrow> map_option ln_iso (map_of ls q) \<noteq> Some (rt_iso (rc_job c))"
  shows "triple (ret c G L) (write_links (rc_env c) cfg ls)
     (\<lambda>_. vol (\<lambda>j m. retiring c G L j m \<and> links_in j = map_of ls)) (\<lambda>_. ret c G L)"
proof (rule tripleI)
  let ?I = "retiring c G L"
  have old: "?I (vo_journal w) (ev_foreign (rc_env c) (vo_calls w) (vo_nodes w))" if "ret c G L w" for w
    using that retiring_foreign [OF al] by (simp add: vol_def)
  have pub: "?I j m" "links_in j = map_of ls" if "slot_target j = Some (Json (wires_of ls))" "?I j' m" for j j' m
    using that sub new by (auto simp: retiring_def links_in_def links_iso_def)
  have same: "?I j m" if "slot_target j = slot_target j'" "?I j' m" for j j' m
    using that by (simp add: retiring_def links_in_def links_iso_def)
  fix w w'
  { fix e assume w: "ret c G L w" and run: "write_links (rc_env c) cfg ls w = (Inl e, w')"
    show "ret c G L w'"
    proof (cases "ft_json (ev_save (rc_env c) (vo_calls w))")
      case (Some x)
      with run old [OF w] show ?thesis by (auto simp: write_links_def Let_def vol_def)
    next
      case None
      obtain r sl where sl: "write_marker_durable (links_path cfg) (Json (wires_of ls)) (ev_save (rc_env c) (vo_calls w)) (vo_journal w) = (r, sl)"
        by fastforce
      from write_marker_durable_cases [OF sl] have "?I sl (ev_foreign (rc_env c) (vo_calls w) (vo_nodes w))"
        using pub(1) [OF _ old [OF w], of sl] same [OF _ old [OF w], of sl] by auto
      with run None sl show ?thesis by (auto simp: write_links_def Let_def vol_def)
    qed }
  { fix x assume w: "ret c G L w" and run: "write_links (rc_env c) cfg ls w = (Inr x, w')"
    obtain r sl where sl: "write_marker_durable (links_path cfg) (Json (wires_of ls)) (ev_save (rc_env c) (vo_calls w)) (vo_journal w) = (r, sl)"
      by fastforce
    with run have r: "r = Inr x" "vo_journal w' = sl" "vo_nodes w' = ev_foreign (rc_env c) (vo_calls w) (vo_nodes w)"
      by (auto simp: write_links_def Let_def split: option.splits)
    from write_marker_durable_ok [OF sl [unfolded r(1)]]
    show "vol (\<lambda>j m. ?I j m \<and> links_in j = map_of ls) w'"
      using pub [OF _ old [OF w]] r by (simp add: vol_def) }
qed

lemma whole_ret: "retu c K G L w \<Longrightarrow> ret c G L w"
  by (simp add: vol_def whole_def)

lemma read_for_write_ret:
  assumes al: "alone c"
  shows "triple (retu c undamaged G L) (read_for_write (rc_env c) cfg b) (\<lambda>ls w. ret c G L w \<and> map_of ls \<subseteq>\<^sub>m links_in (rc_slot c)
     \<and> (\<forall>q \<in> L. map_option ln_iso (map_of ls q) \<noteq> Some (rt_iso (rc_job c)))
     \<and> (truthful (rc_env c) \<longrightarrow> map_of ls = links_in (vo_journal w))) (\<lambda>_. ret c G L)"
  unfolding triple_def
proof (intro allI impI)
  fix w assume w: "retu c undamaged G L w"
  then have j: "undamaged (vo_journal w)" by (simp add: vol_def whole_def)
  let ?Q = "\<lambda>ls w. ret c G L w \<and> map_of ls \<subseteq>\<^sub>m links_in (rc_slot c)
     \<and> (\<forall>q \<in> L. map_option ln_iso (map_of ls q) \<noteq> Some (rt_iso (rc_job c)))
     \<and> (truthful (rc_env c) \<longrightarrow> map_of ls = links_in (vo_journal w))"
  show "case read_for_write (rc_env c) cfg b w of (Inl e, w') \<Rightarrow> ret c G L w' | (Inr ls, w') \<Rightarrow> ?Q ls w'"
  proof (rule parse_links_cases [OF al whole_ret [OF w]])
    fix x u
    assume run: "parse_links (rc_env c) w = (x, u)" and u: "ret c G L u" "vo_journal u = vo_journal w"
      and ok: "\<And>ls. x = Inr ls \<Longrightarrow> undamaged (vo_journal u) \<and> map_of ls \<subseteq>\<^sub>m links_in (vo_journal u)
         \<and> (truthful (rc_env c) \<longrightarrow> map_of ls = links_in (vo_journal u)) \<or> \<not> truthful (rc_env c) \<and> ls = []"
      and bad: "\<And>t. x = Inl (LinksDamaged t) \<Longrightarrow> \<not> undamaged (vo_journal w)"
    show ?thesis
    proof (cases x)
      case (Inl e)
      with bad j obtain f where "e = LinksIo f" by (cases e) auto
      with Inl run u show ?thesis by (simp add: read_for_write_def attempt_io_def fail_def)
    next
      case (Inr ls)
      from ok [OF Inr] have sub: "map_of ls \<subseteq>\<^sub>m links_in (vo_journal u)" and h: "truthful (rc_env c) \<longrightarrow> map_of ls = links_in (vo_journal u)"
        by auto
      from sub u have "map_of ls \<subseteq>\<^sub>m links_in (rc_slot c)"
        by (auto simp: vol_def retiring_def intro: map_le_trans)
      moreover have "\<forall>q \<in> L. map_option ln_iso (map_of ls q) \<noteq> Some (rt_iso (rc_job c))"
      proof
        fix q assume "q \<in> L"
        with u have "links_iso (vo_journal u) q \<noteq> Some (rt_iso (rc_job c))" by (simp add: vol_def retiring_def)
        with sub show "map_option ln_iso (map_of ls q) \<noteq> Some (rt_iso (rc_job c))"
          by (auto simp: links_iso_def map_le_def dom_def)
      qed
      ultimately show ?thesis using Inr run u h by (simp add: read_for_write_def attempt_io_def give_def)
    qed
  qed
qed

lemma triple_when: "(\<And>w. P' w \<Longrightarrow> P w \<and> triple P m Q E) \<Longrightarrow> triple P' m Q E"
  by (simp add: triple_def)

lemma forget_ret:
  assumes al: "alone c"
  shows "triple (retu c undamaged G L) (forget_link (rc_env c) cfg p (rt_iso (rc_job c)))
     (\<lambda>_. ret c G (grow (truthful (rc_env c)) p L)) (\<lambda>_. ret c G L)"
  unfolding forget_link_def
proof (rule triple_try_io [OF read_for_write_ret [OF al]])
  fix ls
  let ?P = "\<lambda>w. ret c G L w \<and> map_of ls \<subseteq>\<^sub>m links_in (rc_slot c)
     \<and> (\<forall>q \<in> L. map_option ln_iso (map_of ls q) \<noteq> Some (rt_iso (rc_job c)))
     \<and> (truthful (rc_env c) \<longrightarrow> map_of ls = links_in (vo_journal w))"
  show "triple ?P (if map_option ln_iso (map_of ls p) \<noteq> Some (rt_iso (rc_job c)) then give ()
      else write_links (rc_env c) cfg (AList.delete p ls)) (\<lambda>_. ret c G (grow (truthful (rc_env c)) p L)) (\<lambda>_. ret c G L)"
  proof (rule triple_if)
    assume "map_option ln_iso (map_of ls p) \<noteq> Some (rt_iso (rc_job c))"
    then show "triple ?P (give ()) (\<lambda>_. ret c G (grow (truthful (rc_env c)) p L)) (\<lambda>_. ret c G L)"
      by (intro triple_give) (auto simp: vol_def retiring_def grow_def links_iso_def)
  next
    have "triple (ret c G L) (write_links (rc_env c) cfg (AList.delete p ls))
        (\<lambda>_. ret c G (grow (truthful (rc_env c)) p L)) (\<lambda>_. ret c G L)" if "?P w" for w
    proof (rule triple_weaken [OF write_links_ret [OF al]])
      show "map_of (AList.delete p ls) \<subseteq>\<^sub>m links_in (rc_slot c)"
        using that by (auto simp: AList.delete_conv map_le_def dom_def split: if_splits)
      show "map_option ln_iso (map_of (AList.delete p ls) q) \<noteq> Some (rt_iso (rc_job c))" if "q \<in> L" for q
        using \<open>?P w\<close> that by (auto simp: AList.delete_conv)
      show "vol (\<lambda>j m. retiring c G L j m \<and> links_in j = map_of (AList.delete p ls)) u
          \<Longrightarrow> ret c G (grow (truthful (rc_env c)) p L) u" for u
        by (auto simp: vol_def retiring_def grow_def links_iso_def AList.delete_conv)
    qed
    then show "triple ?P (write_links (rc_env c) cfg (AList.delete p ls)) (\<lambda>_. ret c G (grow (truthful (rc_env c)) p L)) (\<lambda>_. ret c G L)"
      by (intro triple_when [where P = "ret c G L"]) blast
  qed
qed

lemma forgotten_ret:
  assumes al: "alone c"
  shows "triple (retu c undamaged G L) (forgotten (rc_env c) (rc_job c) old b)
     (\<lambda>x w. ret c G (grow (truthful (rc_env c)) (ow_path old) L) w \<and> x = b) (\<lambda>_. ret c G L)"
  unfolding forgotten_def by (rule triple_try_io [OF forget_ret [OF al]]) (rule triple_give, simp)

lemma sync_folder_ret: "alone c \<Longrightarrow> retu c K G L w \<Longrightarrow> retu c K G L (sync_folder_of (rc_env c) p w)"
  using ret_looks(4) [of c K G L] by (auto simp: sync_folder_of_def keeps_iff split: option.split)

lemma ret_mono: "ret c G' L' w \<Longrightarrow> G \<subseteq> G' \<Longrightarrow> L \<subseteq> L' \<Longrightarrow> ret c G L w"
  by (auto simp: vol_def retiring_def)

lemma grow_mono: "(b \<Longrightarrow> b') \<Longrightarrow> X \<subseteq> Y \<Longrightarrow> grow b p X \<subseteq> grow b' p Y" "X \<subseteq> grow b p X" "grow b p X \<subseteq> insert p X"
  by (auto simp: grow_def)

lemma remove_old_ret:
  assumes al: "alone c" and p: "ow_path old \<in> rc_paths c" and go: "may_go c (ow_path old)"
  shows "triple (retu c undamaged G L) (remove_old (rc_env c) (rc_job c) old)
     (\<lambda>b. ret c (grow (truthful (rc_env c)) (ow_path old) G) (grow (truthful (rc_env c)) (ow_path old) L)) (\<lambda>_. ret c G L)"
  unfolding remove_old_def
proof (rule triple_attempt_io)
  let ?h = "truthful (rc_env c)" and ?p = "ow_path old"
  let ?E = "\<lambda>e. whole c undamaged (grow (?h \<and> err_kind e = NotFound) ?p G) L"
  have gone: "whole c undamaged (insert ?p G) L j (m(?p := None))" if "whole c undamaged G L j m" for j m
    using that p go by (auto simp: whole_def retiring_def)
  show "triple (retu c undamaged G L) (remove_path (rc_env c) ?p) (\<lambda>_. retu c undamaged (insert ?p G) L) (\<lambda>e. vol (?E e))"
    unfolding remove_path_def
    by (rule vol_syscall) (auto simp: whole_foreign [OF al] absent_def p grow_def gone dest: truthful_fault
        intro: whole_grow [where b = True, simplified grow_def, simplified] split: option.splits disk_node.splits)
  have tail: "triple (retu c undamaged H L) (\<lambda>w. forgotten (rc_env c) (rc_job c) old True (sync_folder_of (rc_env c) ?p w))
      (\<lambda>b. ret c H (grow ?h ?p L)) (\<lambda>_. ret c H L)" for H
  proof (rule tripleI)
    fix w e w'
    assume w: "retu c undamaged H L w"
      and run: "forgotten (rc_env c) (rc_job c) old True (sync_folder_of (rc_env c) ?p w) = (Inl e, w')"
    from triple_run [OF forgotten_ret [OF al] sync_folder_ret [OF al w] run] show "ret c H L w'" by simp
  next
    fix w b w'
    assume w: "retu c undamaged H L w"
      and run: "forgotten (rc_env c) (rc_job c) old True (sync_folder_of (rc_env c) ?p w) = (Inr b, w')"
    from triple_run [OF forgotten_ret [OF al] sync_folder_ret [OF al w] run] show "ret c H (grow ?h ?p L) w'" by simp
  qed
  show "triple (retu c undamaged (insert ?p G) L) (\<lambda>w. let go = (\<lambda>w. forgotten (rc_env c) (rc_job c) old True (sync_folder_of (rc_env c) ?p w))
       in case Inr x of Inl e \<Rightarrow> if err_kind e \<noteq> NotFound then fail e w else go w | Inr _ \<Rightarrow> go w)
     (\<lambda>b. ret c (grow ?h ?p G) (grow ?h ?p L)) (\<lambda>_. ret c G L)" for x :: unit
    unfolding Let_def sum.case
    by (rule triple_weaken [OF tail]) (assumption | erule ret_mono | rule grow_mono subset_insertI subset_refl)+
  show "triple (vol (?E e)) (\<lambda>w. let go = (\<lambda>w. forgotten (rc_env c) (rc_job c) old True (sync_folder_of (rc_env c) ?p w))
       in case Inl e of Inl e \<Rightarrow> if err_kind e \<noteq> NotFound then fail e w else go w | Inr _ \<Rightarrow> go w)
     (\<lambda>b. ret c (grow ?h ?p G) (grow ?h ?p L)) (\<lambda>_. ret c G L)" for e
  proof (cases "err_kind e = NotFound")
    case True
    then show ?thesis unfolding Let_def sum.case
      by simp (rule triple_weaken [OF tail], assumption, erule ret_mono, (rule grow_mono subset_refl | simp)+, erule ret_mono, (rule grow_mono subset_refl)+)
  next
    case False
    then show ?thesis by (auto simp: triple_def fail_def grow_def vol_def whole_def)
  qed
qed

lemma retire_one_ret:
  assumes al: "alone c" and p: "ow_path old \<in> rc_paths c" "old \<in> set (rc_olds c)"
  shows "triple (ret c G L) (retire_one (rc_env c) (rc_job c) old)
     (\<lambda>b. ret c (grow (truthful (rc_env c) \<and> b) (ow_path old) G) (grow (truthful (rc_env c)) (ow_path old) L)) (\<lambda>_. ret c G L)"
  unfolding retire_one_def Let_def
proof (rule triple_try_io [OF read_isos_ret [OF al, where p = "ow_path old"]], rule triple_fact)
  fix isos
  let ?h = "truthful (rc_env c)" and ?p = "ow_path old" and ?k = "linked_at c (ow_path old) isos"
  let ?L = "grow (?h \<and> \<not> ?k) ?p L" and ?K = "\<lambda>j. ?k \<longrightarrow> undamaged j"
  let ?Q = "\<lambda>b. ret c (grow (?h \<and> b) ?p G) (grow ?h ?p L)"
  assume iso: "?k \<longrightarrow> links_iso (rc_slot c) ?p = Some (rt_iso (rc_job c))"
  have k: "(map_of isos ?p = Some (rt_iso (rc_job c))) = ?k" by (simp add: linked_at_def)
  have L: "L \<subseteq> ?L" "?L \<subseteq> grow ?h ?p L" by (auto simp: grow_def)
  have forget: "triple (retu c ?K G' ?L) (forgotten (rc_env c) (rc_job c) old b) ?Q (\<lambda>_. ret c G L)"
    if ?k "G \<subseteq> G'" "b \<Longrightarrow> G' = grow ?h ?p G" for b G'
    by (rule triple_weaken [OF forgotten_ret [OF al, of G' ?L]])
      (use that in \<open>auto simp: vol_def whole_def retiring_def grow_def split: if_splits\<close>)
  have keep: "triple (retu c ?K G' ?L) (give b) ?Q (\<lambda>_. ret c G L)"
    if "\<not> ?k" "G \<subseteq> G'" "b \<Longrightarrow> G' = grow ?h ?p G" for b G'
    by (rule triple_give) (use that in \<open>auto simp: vol_def whole_def retiring_def grow_def split: if_splits\<close>)
  have remove: "triple (retu c ?K G ?L) (remove_old (rc_env c) (rc_job c) old) ?Q (\<lambda>_. ret c G L)"
    if ?k "Option.bind (rc_nodes c ?p) stamp_of = Some (ow_stamp old)"
  proof (rule triple_weaken [OF remove_old_ret [OF al p(1), of G ?L]])
    show "may_go c ?p" using that iso p(2) by (auto simp: may_go_def as_captured_def)
  qed (use that in \<open>auto simp: vol_def whole_def retiring_def grow_def split: if_splits\<close>)
  show "triple (retu c ?K G ?L)
     (try_io (present (rc_env c) ?p) (\<lambda>at. case at of
          Gone \<Rightarrow> if map_of isos ?p = Some (rt_iso (rc_job c)) then forgotten (rc_env c) (rc_job c) old True else give True
        | OnDisk s \<Rightarrow> if s = ow_stamp old then if map_of isos ?p = Some (rt_iso (rc_job c)) then remove_old (rc_env c) (rc_job c) old else give False
            else if map_of isos ?p = Some (rt_iso (rc_job c)) then forgotten (rc_env c) (rc_job c) old False else give False
        | OtherThing \<Rightarrow> if map_of isos ?p = Some (rt_iso (rc_job c)) then forgotten (rc_env c) (rc_job c) old False else give False)) ?Q (\<lambda>_. ret c G L)"
    unfolding k
  proof (rule triple_try_io)
    show "triple (retu c ?K G ?L) (present (rc_env c) ?p) (\<lambda>at w. retu c ?K (grow (?h \<and> at = Gone) ?p G) ?L w
        \<and> (\<forall>s. at = OnDisk s \<longrightarrow> Option.bind (rc_nodes c ?p) stamp_of = Some s)) (\<lambda>_. ret c G L)"
      by (rule triple_weaken [OF present_ret [OF al p(1), of ?K G ?L]]) (auto intro: ret_mono [OF whole_ret subset_refl L(1)])
    show "triple (\<lambda>w. retu c ?K (grow (?h \<and> at = Gone) ?p G) ?L w \<and> (\<forall>s. at = OnDisk s \<longrightarrow> Option.bind (rc_nodes c ?p) stamp_of = Some s))
     (case at of
          Gone \<Rightarrow> if ?k then forgotten (rc_env c) (rc_job c) old True else give True
        | OnDisk s \<Rightarrow> if s = ow_stamp old then if ?k then remove_old (rc_env c) (rc_job c) old else give False
            else if ?k then forgotten (rc_env c) (rc_job c) old False else give False
        | OtherThing \<Rightarrow> if ?k then forgotten (rc_env c) (rc_job c) old False else give False) ?Q (\<lambda>_. ret c G L)" for at
    proof (rule triple_fact)
      assume s: "\<forall>s. at = OnDisk s \<longrightarrow> Option.bind (rc_nodes c ?p) stamp_of = Some s"
      have G: "G \<subseteq> grow b ?p G" for b by (rule grow_mono)
      show "triple (retu c ?K (grow (?h \<and> at = Gone) ?p G) ?L) (case at of
          Gone \<Rightarrow> if ?k then forgotten (rc_env c) (rc_job c) old True else give True
        | OnDisk s \<Rightarrow> if s = ow_stamp old then if ?k then remove_old (rc_env c) (rc_job c) old else give False
            else if ?k then forgotten (rc_env c) (rc_job c) old False else give False
        | OtherThing \<Rightarrow> if ?k then forgotten (rc_env c) (rc_job c) old False else give False) ?Q (\<lambda>_. ret c G L)"
      proof (cases at)
        case Gone
        then show ?thesis using forget [OF _ G [of "?h \<and> at = Gone"], of True] keep [OF _ G [of "?h \<and> at = Gone"], of True]
          by (cases ?k) auto
      next
        case (OnDisk s)
        with s remove forget [OF _ subset_refl, of False] keep [OF _ subset_refl, of False] show ?thesis
          by (cases ?k) (auto simp: grow_def)
      next
        case OtherThing
        then show ?thesis using forget [OF _ subset_refl, of False] keep [OF _ subset_refl, of False]
          by (cases ?k) (auto simp: grow_def)
      qed
    qed
  qed
qed

section \<open>Whole passes\<close>

lemma ret_reads:
  assumes "alone c"
  shows "keeps (ret c G L) (symlink_metadata (rc_env c) p)" "keeps (ret c G L) (list_folder (rc_env c) p)"
    "keeps (ret c G L) (resolve (rc_env c) p)" "keeps (ret c G L) (sync_path (rc_env c) p)"
    "keeps (ret c G L) (lock_call (rc_env c) p)"
  unfolding ret_retu by (rule ret_looks [OF assms])+

lemma remove_empty_ret: "alone c \<Longrightarrow> keeps (ret c G L) (remove_empty (rc_env c) p)"
  unfolding remove_empty_def
  by (rule keeps_syscall) (auto simp: retiring_foreign, auto simp: retiring_def may_go_def)

lemma remove_emptied_ret:
  "alone c \<Longrightarrow> ret c G L w \<Longrightarrow> ret c G L (remove_emptied (rc_env c) root roots dirs w)"
proof (induction dirs arbitrary: w)
  case (Cons dir dirs)
  obtain x u where run: "remove_empty (rc_env c) dir w = (x, u)" by fastforce
  from remove_empty_ret [OF Cons.prems(1), of G L dir] Cons.prems(2) have u: "ret c G L u"
    by (auto simp: keeps_iff dest!: spec [of _ w]) (simp add: run)
  have "ret c G L (sync_folder_of (rc_env c) dir u)"
    using sync_folder_ret [OF Cons.prems(1), of "\<lambda>_. True" G L] u by (simp add: ret_retu)
  with Cons u run show ?case by (simp split: sum.split)
qed simp

lemma resolves_within_ret:
  assumes al: "alone c"
  shows "ret c G L w \<Longrightarrow> ret c G L (snd (resolves_within (rc_env c) root p w))"
proof (induction "length p" arbitrary: p w rule: less_induct)
  case less
  obtain x u where run: "resolve (rc_env c) p w = (x, u)" by fastforce
  from ret_reads(3) [OF al, of G L p] less.prems have u: "ret c G L u"
    by (auto simp: keeps_iff dest!: spec [of _ w]) (simp add: run)
  have "ret c G L (snd (resolves_within (rc_env c) root up u))" if "path_parent p = Some up" for up
    using that u by (intro less.hyps) (auto simp: path_parent_def split: if_splits)
  with u show ?case by (subst resolves_within.simps) (simp add: run split: sum.split option.split)
qed

lemma safe_destination_ret:
  assumes al: "alone c" and lw: "lw_env lw = rc_env c"
  shows "keeps (ret c G L) (safe_destination lw root p tv)"
proof -
  have within: "keeps (ret c G L) (resolves_within (rc_env c) real p)" for real
    using resolves_within_ret [OF al] by (simp add: keeps_iff)
  have "keeps (ret c G L) (try_io (attempt_io (resolve (lw_env lw) root) (\<lambda>r. case r of
               Inl _ \<Rightarrow> give () | Inr real \<Rightarrow> resolves_within (lw_env lw) real p))
             (\<lambda>_. attempt_io (list_folder (lw_env lw) root) (\<lambda>r. case r of
               Inl e \<Rightarrow> fail (folder_text lw tv ''unreadable'' [path_text root, err_text e])
             | Inr [] \<Rightarrow> fail (folder_text lw tv ''empty'' [path_text root])
             | Inr (_ # _) \<Rightarrow> give ())))" (is "keeps _ ?m")
    unfolding lw
    by (rule keeps_try_io keeps_attempt keeps_sum ret_reads [OF al] keeps_give within)+
      (auto intro: keeps_sum keeps_give keeps_fail split: list.split)
  then show ?thesis by (auto simp: keeps_iff safe_destination_def fail_def)
qed

lemma folder_gone_ret:
  assumes "alone c" "ret c G L w"
  shows "ret c G L (snd (folder_gone (rc_env c) p w))"
  using ret_reads(1) [OF assms(1), of G L] assms(2)
  by (auto simp: folder_gone_def keeps_iff split: option.split prod.split sum.split) (metis snd_conv)+

lemma keeps_snd: "keeps P m \<Longrightarrow> P w \<Longrightarrow> P (snd (m w))"
  by (simp add: keeps_iff)

lemma retire_locked_ret:
  assumes al: "alone c" and p: "ow_path old \<in> rc_paths c" "old \<in> set (rc_olds c)"
  shows "triple (ret c G L) (retire_locked (rc_env c) (rc_job c) root old)
     (\<lambda>b. ret c (grow (truthful (rc_env c) \<and> b) (ow_path old) G) (grow (truthful (rc_env c)) (ow_path old) L)) (\<lambda>_. ret c G L)"
  unfolding retire_locked_def
proof (rule triple_try_io [OF ret_reads(5) [OF al] triple_attempt_io [OF retire_one_ret [OF al p]]])
  let ?v = "rc_env c" and ?p = "ow_path old" and ?r = "rc_job c"
  let ?Q = "\<lambda>b. ret c (grow (truthful ?v \<and> b) ?p G) (grow (truthful ?v) ?p L)"
  let ?rest = "\<lambda>removed w. let unlocked = snd (lock_call ?v ?p w)
       in case removed of Inl e \<Rightarrow> fail e unlocked
          | Inr True \<Rightarrow> give True (remove_emptied ?v root (rt_roots ?r) (above_two ?p) unlocked)
          | Inr False \<Rightarrow> give False unlocked"
  show "triple (ret c G L) (?rest (Inl e)) ?Q (\<lambda>_. ret c G L)" for e
    by (auto simp: triple_def fail_def intro: keeps_snd [OF ret_reads(5) [OF al]])
  show "triple (?Q b) (?rest (Inr b)) ?Q (\<lambda>_. ret c G L)" for b
    by (cases b) (auto simp: triple_def give_def intro!: remove_emptied_ret [OF al] keeps_snd [OF ret_reads(5) [OF al]])
qed

lemma retire_old_ret:
  assumes al: "alone c" and lw: "lw_env lw = rc_env c" and p: "ow_path old \<in> rc_paths c" "old \<in> set (rc_olds c)"
  shows "triple (ret c G L) (retire_old lw (rc_job c) old)
     (\<lambda>b. ret c (grow (truthful (rc_env c) \<and> b) (ow_path old) G) (grow (truthful (rc_env c)) (ow_path old) L)) (\<lambda>_. ret c G L)"
proof -
  let ?v = "rc_env c" and ?p = "ow_path old" and ?r = "rc_job c"
  let ?Q = "\<lambda>b. ret c (grow (truthful ?v \<and> b) ?p G) (grow (truthful ?v) ?p L)"
  have under: "triple (ret c G L) (retire_under lw ?r root old) ?Q (\<lambda>_. ret c G L)" for root
    unfolding retire_under_def
  proof (rule triple_try_io [OF keeps_map_err [OF safe_destination_ret [OF al lw]]], rule tripleI)
    fix w x w' assume w: "ret c G L w"
    obtain b u where g: "folder_gone ?v ?p w = (b, u)" by fastforce
    with folder_gone_ret [OF al w, of ?p] have u: "ret c G L u" by simp
    note run = triple_run [OF retire_locked_ret [OF al p] u, of root]
    { fix e assume "(case folder_gone (lw_env lw) ?p w of (True, w') \<Rightarrow> fail (not_connected lw ''folder_missing'' ?p) w'
         | (False, w') \<Rightarrow> retire_locked (lw_env lw) ?r root old w') = (Inl e, w')"
      with run [of "Inl e" w'] g u show "ret c G L w'" by (cases b) (auto simp: fail_def lw) }
    assume "(case folder_gone (lw_env lw) ?p w of (True, w') \<Rightarrow> fail (not_connected lw ''folder_missing'' ?p) w'
         | (False, w') \<Rightarrow> retire_locked (lw_env lw) ?r root old w') = (Inr x, w')"
    with run [of "Inr x" w'] g show "?Q x w'" by (cases b) (auto simp: fail_def lw)
  qed
  show ?thesis
  proof (rule tripleI)
    fix w e w' assume "ret c G L w" "retire_old lw ?r old w = (Inl e, w')"
    then show "ret c G L w'" using triple_run [OF under]
      by (fastforce simp: retire_old_def fail_def split: if_splits option.splits)
  next
    fix w b w' assume "ret c G L w" "retire_old lw ?r old w = (Inr b, w')"
    then show "?Q b w'" using triple_run [OF under]
      by (fastforce simp: retire_old_def fail_def split: if_splits option.splits)
  qed
qed

lemma retire_each_ret:
  assumes al: "alone c" and lw: "lw_env lw = rc_env c"
  shows "ow_path ` set olds \<subseteq> rc_paths c \<Longrightarrow> set olds \<subseteq> set (rc_olds c) \<Longrightarrow>
    triple (ret c G L) (retire_each lw (rc_job c) olds)
      (\<lambda>kept. ret c (G \<union> {p \<in> ow_path ` set olds. truthful (rc_env c) \<and> p \<notin> set kept})
         (L \<union> {p \<in> ow_path ` set olds. truthful (rc_env c)}))
      (\<lambda>_. ret c {} {})"
proof (induction olds arbitrary: G L)
  case Nil
  show ?case by (auto simp: triple_def give_def)
next
  case (Cons old olds)
  let ?h = "truthful (rc_env c)" and ?p = "ow_path old"
  have eq: "retire_each lw (rc_job c) (old # olds) = try_io (retire_old lw (rc_job c) old) (\<lambda>removed.
     try_io (retire_each lw (rc_job c) olds) (\<lambda>kept. give (if removed then kept else ?p # kept)))"
    by (simp add: fun_eq_iff)
  have p: "?p \<in> rc_paths c" "old \<in> set (rc_olds c)" using Cons.prems by auto
  have step: "triple (ret c G L) (retire_old lw (rc_job c) old)
      (\<lambda>b. ret c (grow (?h \<and> b) ?p G) (grow ?h ?p L)) (\<lambda>_. ret c {} {})"
    by (rule triple_weaken [OF retire_old_ret [OF al lw p, of G L]]) (auto elim: ret_mono)
  show ?case
    unfolding eq
  proof (rule triple_try_io [OF step])
    fix b
    let ?G = "grow (?h \<and> b) ?p G" and ?L = "grow ?h ?p L"
    have rest: "triple (ret c ?G ?L) (retire_each lw (rc_job c) olds)
      (\<lambda>kept. ret c (?G \<union> {p \<in> ow_path ` set olds. ?h \<and> p \<notin> set kept}) (?L \<union> {p \<in> ow_path ` set olds. ?h}))
      (\<lambda>_. ret c {} {})"
      using Cons.prems by (intro Cons.IH) auto
    show "triple (ret c ?G ?L)
       (try_io (retire_each lw (rc_job c) olds) (\<lambda>kept. give (if b then kept else ?p # kept)))
       (\<lambda>kept. ret c (G \<union> {p \<in> ow_path ` set (old # olds). ?h \<and> p \<notin> set kept})
         (L \<union> {p \<in> ow_path ` set (old # olds). ?h}))
      (\<lambda>_. ret c {} {})"
      by (rule triple_try_io [OF rest], rule triple_give, erule ret_mono) (auto simp: grow_def)
  qed
qed

lemma new_in_place_ret:
  assumes al: "alone c" and lw: "lw_env lw = rc_env c"
  shows "set ts \<subseteq> rc_paths c \<Longrightarrow> triple (ret c {} {}) (each_io (new_in_place lw) ts)
     (\<lambda>_ w. ret c {} {} w \<and> (\<forall>t \<in> set ts. \<exists>b s. rc_nodes c t = Some (RegularFile b s))) (\<lambda>_. ret c {} {})"
proof (induction ts)
  case Nil
  show ?case by (auto simp: triple_def give_def)
next
  case (Cons t ts)
  have eq: "each_io (new_in_place lw) (t # ts) = try_io (new_in_place lw t) (\<lambda>_. each_io (new_in_place lw) ts)"
    by (simp add: fun_eq_iff)
  have look: "triple (ret c {} {}) (symlink_metadata (rc_env c) t)
     (\<lambda>n. vol (\<lambda>j m. retiring c {} {} j m \<and> rc_nodes c t = Some n)) (\<lambda>_. ret c {} {})"
    unfolding symlink_metadata_def
    by (rule vol_syscall) (use Cons.prems in \<open>auto simp: retiring_foreign [OF al], auto simp: retiring_def split: option.splits\<close>)
  have "triple (ret c {} {}) (new_in_place lw t)
     (\<lambda>_ w. ret c {} {} w \<and> (\<exists>b s. rc_nodes c t = Some (RegularFile b s))) (\<lambda>_. ret c {} {})"
    unfolding new_in_place_def lw
    by (rule triple_attempt_io [OF look]) (auto simp: triple_def give_def fail_def vol_def split: disk_node.split)
  with Cons show ?case
    unfolding eq
    by (intro triple_try_io [where R = "\<lambda>_ w. ret c {} {} w \<and> (\<exists>b s. rc_nodes c t = Some (RegularFile b s))"] triple_fact)
      (auto elim!: triple_weaken)
qed

definition retire_start :: "library_world \<Rightarrow> retire_job \<Rightarrow> owned list \<Rightarrow> path list \<Rightarrow> path set \<Rightarrow> links_file volume \<Rightarrow> retire_case" where
  "retire_start lw r owned targets S w = \<lparr>rc_env = lw_env lw, rc_job = r,
     rc_olds = filter (\<lambda>x. ow_path x \<notin> set targets) owned, rc_paths = S, rc_slot = vo_journal w, rc_nodes = vo_nodes w\<rparr>"

lemma new_in_place_changes_nothing:
  assumes "alone c" "lw_env lw = rc_env c"
  shows "keeps (vol (\<lambda>_ m. \<forall>p \<in> rc_paths c. m p = rc_nodes c p)) (each_io (new_in_place lw) ts)"
  unfolding new_in_place_def assms(2)
  by (rule triple_each, rule keeps_attempt)
    (auto simp: symlink_metadata_def intro!: keeps_syscall keeps_sum keeps_node keeps_give keeps_fail
      simp: assms(1) [unfolded leaves_alone_def, rule_format])

text \<open>A pass either retires nothing, or has seen every new file in place.\<close>

lemma retire_ret:
  fixes lw r owned targets w S
  defines "c \<equiv> retire_start lw r owned targets S w"
  assumes al: "leaves_alone (lw_env lw) S" and S: "set targets \<union> ow_path ` set owned \<subseteq> S"
    and run: "retire lw r owned targets w = (res, w')"
  shows "case res of
      Inl _ \<Rightarrow> ret c {} {} w'
    | Inr kept \<Rightarrow> ret c {p \<in> ow_path ` set (rc_olds c). truthful (rc_env c) \<and> p \<notin> set kept}
         {p \<in> ow_path ` set (rc_olds c). truthful (rc_env c)} w'"
    and "(\<forall>p \<in> S. vo_nodes w' p = vo_nodes w p) \<or> (\<forall>t \<in> set targets. \<exists>b s. vo_nodes w t = Some (RegularFile b s))"
proof -
  have c: "alone c" "lw_env lw = rc_env c" "set targets \<subseteq> rc_paths c" "ow_path ` set (rc_olds c) \<subseteq> rc_paths c"
    "rc_job c = r" "rc_nodes c = vo_nodes w" "rc_paths c = S"
    using al S by (auto simp: c_def retire_start_def)
  have w: "ret c {} {} w" "vol (\<lambda>_ m. \<forall>p \<in> rc_paths c. m p = rc_nodes c p) w"
    by (simp_all add: c_def retire_start_def vol_def retiring_def)
  obtain x u where looks: "each_io (new_in_place lw) targets w = (x, u)" by fastforce
  from keeps_snd [OF new_in_place_changes_nothing [OF c(1,2)] w(2), of targets] looks c
  have same: "\<forall>p \<in> S. vo_nodes u p = vo_nodes w p" by (simp add: vol_def)
  note look = triple_run [OF new_in_place_ret [OF c(1,2,3)] w(1) looks]
  have olds: "rc_olds c = filter (\<lambda>x. ow_path x \<notin> set targets) owned" by (simp add: c_def retire_start_def)
  consider "rc_olds c = []" "res = Inr []" "w' = w" | e where "x = Inl e" "res = Inl e" "w' = u"
    | y where "x = Inr y" "retire_each lw r (rc_olds c) u = (res, w')"
    using run looks by (cases x) (auto simp: retire_def Let_def olds [symmetric] give_def try_io_def split: if_splits)
  then have "(case res of
      Inl _ \<Rightarrow> ret c {} {} w'
    | Inr kept \<Rightarrow> ret c {p \<in> ow_path ` set (rc_olds c). truthful (rc_env c) \<and> p \<notin> set kept}
         {p \<in> ow_path ` set (rc_olds c). truthful (rc_env c)} w') \<and>
     ((\<forall>p \<in> S. vo_nodes w' p = vo_nodes w p) \<or> (\<forall>t \<in> set targets. \<exists>b s. vo_nodes w t = Some (RegularFile b s)))"
  proof cases
    case 1
    with w show ?thesis by simp
  next
    case 2
    with look same show ?thesis by simp
  next
    case 3
    with look have u: "ret c {} {} u" and t: "\<forall>t \<in> set targets. \<exists>b s. vo_nodes w t = Some (RegularFile b s)" by (simp_all add: c)
    from triple_run [OF retire_each_ret [OF c(1,2,4) subset_refl] u 3(2) [folded c(5)]] t
    show ?thesis by (simp add: Un_empty_left split: sum.splits)
  qed
  then show "case res of
      Inl _ \<Rightarrow> ret c {} {} w'
    | Inr kept \<Rightarrow> ret c {p \<in> ow_path ` set (rc_olds c). truthful (rc_env c) \<and> p \<notin> set kept}
         {p \<in> ow_path ` set (rc_olds c). truthful (rc_env c)} w'"
    and "(\<forall>p \<in> S. vo_nodes w' p = vo_nodes w p) \<or> (\<forall>t \<in> set targets. \<exists>b s. vo_nodes w t = Some (RegularFile b s))"
    by blast+
qed

text \<open>
  C3: a retire pass removes only old files. With any call failing and other programs at work elsewhere,
  every file among the watched paths is left as it was, except an empty folder, or an old file that is
  not one of the new ones, still as captured when the remux started, and linked to this ISO; and then
  every new file was in place.
\<close>

theorem retire_removes_only_old_files:
  assumes "leaves_alone (lw_env lw) S" "set targets \<union> ow_path ` set owned \<subseteq> S"
    and "retire lw r owned targets w = (res, w')" "p \<in> S"
  shows "vo_nodes w' p = vo_nodes w p
   \<or> vo_nodes w' p = None \<and> (\<forall>t \<in> set targets. \<exists>b s. vo_nodes w t = Some (RegularFile b s))
     \<and> (vo_nodes w p = Some DirNode \<or> p \<notin> set targets \<and> as_captured r owned (vo_journal w) (vo_nodes w) p)"
proof -
  note pass = retire_ret [OF assms(1-3)]
  have "ret (retire_start lw r owned targets S w) {} {} w'"
    using pass(1) by (cases res) (auto elim: ret_mono)
  with assms(4) have "vo_nodes w' p = vo_nodes w p \<or> vo_nodes w' p = None \<and> may_go (retire_start lw r owned targets S w) p"
    by (auto simp: vol_def retiring_def retire_start_def)
  with pass(2) assms(4) show ?thesis
    by (auto simp: may_go_def as_captured_def retire_start_def)
qed


section \<open>An example\<close>

text \<open>A calm library: a film was made again under another name, its old file still as it was written.\<close>

definition library_root :: path where "library_root = [RootDir, Normal ''lib'']"
definition old_film :: path where "old_film = library_root @ [Normal ''Alien'', Normal ''Alien.mkv'']"
definition new_film :: path where "new_film = library_root @ [Normal ''Aliens'', Normal ''Aliens.mkv'']"
definition film_iso :: path where "film_iso = [RootDir, Normal ''iso'', Normal ''a.iso'']"

definition calm_library :: world_env where
  "calm_library = \<lparr>ev_fault = (\<lambda>_. None), ev_foreign = (\<lambda>_ m. m),
     ev_list = (\<lambda>_ p m. if p = library_root then [Inr ''Alien''] else []),
     ev_resolve = (\<lambda>_ p. Inr p), ev_save = (\<lambda>_. no_faults), ev_publish = (\<lambda>_ _ m. (Inr (), m)), ev_chunk = (\<lambda>_. 1),
     ev_mtime = (\<lambda>n. n), ev_cancel = (\<lambda>_. False), ev_shutdown = (\<lambda>_. False), ev_monitor = (\<lambda>_. Drained),
     ev_spawn = True, ev_now = (\<lambda>_. 0), ev_wall = (\<lambda>_. 0), ev_pid = 7\<rparr>"

definition calm_library_world :: library_world where
  "calm_library_world = \<lparr>lw_env = calm_library, lw_unmounted = (\<lambda>_ _. False), lw_text = (\<lambda>k _. k)\<rparr>"

definition film_links :: links where
  "film_links = [(old_film, \<lparr>ln_iso = film_iso, ln_stamp = Some \<lparr>st_size = 2, st_modified = 5\<rparr>, ln_iso_stamp = None, ln_episode = False\<rparr>)]"

definition library_volume :: "links_file volume" where
  "library_volume = \<lparr>vo_nodes = [library_root \<mapsto> DirNode, butlast old_film \<mapsto> DirNode, butlast new_film \<mapsto> DirNode,
       old_film \<mapsto> RegularFile ''xy'' 5, new_film \<mapsto> RegularFile ''xyz'' 9],
     vo_journal = \<lparr>slot_target = Some (Json (wires_of film_links)), slot_tmp = None\<rparr>, vo_board = fresh_board, vo_calls = 0\<rparr>"

definition film_retire :: retire_job where
  "film_retire = \<lparr>rt_iso = film_iso, rt_config = [RootDir, Normal ''cfg''], rt_roots = [library_root]\<rparr>"

definition film_owned :: "owned list" where
  "film_owned = [\<lparr>ow_path = old_film, ow_stamp = \<lparr>st_size = 2, st_modified = 5\<rparr>\<rparr>]"

definition film_retired :: "path list io_result \<times> links_file volume" where
  "film_retired = retire calm_library_world film_retire film_owned [new_film] library_volume"

lemma calm_alone: "leaves_alone (lw_env calm_library_world) UNIV" and calm_truthful: "truthful (lw_env calm_library_world)"
  by (simp_all add: leaves_alone_def truthful_def calm_library_world_def calm_library_def)

lemma film_retired_ok: "fst film_retired = Inr [] \<and> vo_nodes (snd film_retired) old_film = None"
  by code_simp

lemma film_run: "retire calm_library_world film_retire film_owned [new_film] library_volume = (Inr [], snd film_retired)"
  using film_retired_ok by (simp add: film_retired_def prod_eq_iff)

lemma film_paths: "old_film \<noteq> new_film" "vo_nodes library_volume old_film = Some (RegularFile ''xy'' 5)"
  by (simp_all add: old_film_def new_film_def library_root_def library_volume_def)

theorem retire_removes_only_old_files_witness:
  "vo_nodes (snd film_retired) old_film = None \<and> (\<exists>b s. vo_nodes library_volume new_film = Some (RegularFile b s))
   \<and> as_captured film_retire film_owned (vo_journal library_volume) (vo_nodes library_volume) old_film"
  using film_retired_ok film_paths retire_removes_only_old_files [OF calm_alone _ film_run, of old_film] by simp


end
