(* ===== verification/Remux_Delivery.thy ===== *)
theory Remux_Delivery
  imports Delivery_Copy Library_Owned Complex_Main "HOL-Library.Word"
begin

text \<open>
  Landing a finished remux in the library (\<open>server/library/deliver.rs\<close>): the copy of the verified local
  file beside its target, the copy's sync and verification, the landing that commits it, and the local
  file kept with a sidecar when only that fails; then the later resume of a kept file, and the listing
  and pruning of the staging folder. Files and sidecars are nodes of a volume.

  Of the disc crate the model takes the probe of an MKV's bytes, the kinds and codes of its errors and
  \<open>no_replace\<close> as given; of \<open>serde_json\<close> the codec of a sidecar. A wait that times out is a call that
  fails; a worker thread left behind writes to a file already unlinked. Progress and events shown to the
  user are not modelled. A runtime is a rational number, or not finite; a name's characters are its
  bytes (names are ASCII). A Stop is a fresh answer at every check, so the code's Stop, which once seen
  stays seen, is one of the runs.
\<close>

unbundle bit_operations_syntax

section \<open>Errors and records\<close>

datatype f64 = Fin rat | NotFinite

datatype verify_kind = VerifyEmpty | NoTracks | NoRuntime | RuntimeMismatch rat rat

datatype deliver_error = DIo io_error | Halted | TargetExists path | StagedSizeMismatch nat nat
  | VerifyFailed verify_kind path | StagingInvalid | Retained string

datatype target_stamp = TargetAbsent | TargetPresent nat nat | TargetUnknown

record mkv_probe =
  pb_tracks :: nat
  pb_last_cue :: "f64 option"
  pb_duration :: "f64 option"
  pb_app :: "string option"

record sidecar =
  sc_format :: nat
  sc_target :: path
  sc_replace :: bool
  sc_before :: target_stamp
  sc_iso :: path
  sc_iso_len :: "nat option"
  sc_iso_mtime :: "nat option"
  sc_title :: "nat option"
  sc_size :: nat
  sc_runtime :: "rat option"
  sc_expected :: "rat option"
  sc_app :: "string option"
  sc_engine :: string
  sc_created :: nat
  sc_attempts :: nat
  sc_last :: nat
  sc_phase :: string
  sc_error :: string
  sc_code :: "nat option"

record deliver_world =
  dw_env :: world_env
  dw_probe :: "string \<Rightarrow> mkv_probe io_result"    \<comment> \<open>\<open>probe_mkv_with_cues\<close>\<close>
  dw_kind :: "deliver_error \<Rightarrow> io_kind"          \<comment> \<open>the kind of the disc crate's errors\<close>
  dw_text :: "deliver_error \<Rightarrow> string"
  dw_code :: "deliver_error \<Rightarrow> nat option"
  dw_encode :: "sidecar \<Rightarrow> string io_result"     \<comment> \<open>\<open>serde_json\<close>\<close>
  dw_decode :: "string \<Rightarrow> sidecar option"
  dw_format :: "string \<Rightarrow> nat option"           \<comment> \<open>\<open>FormatOnly\<close>\<close>
  dw_version :: string

type_synonym ('j, 'a) dio = "'j volume \<Rightarrow> (deliver_error + 'a) \<times> 'j volume"

definition os_call :: "('j, 'a) io \<Rightarrow> ('j, 'a) dio" where
  "os_call m = map_err DIo m"

text \<open>A wait of the disc crate under a \<open>Halt\<close>, and a call on a worker the delivery watches.\<close>

definition halting :: "world_env \<Rightarrow> ('j, 'a) io \<Rightarrow> ('j, 'a) dio" where
  "halting v m w = (if cancelled v w then fail Halted w else os_call m w)"

definition error_kind :: "deliver_world \<Rightarrow> deliver_error \<Rightarrow> io_kind" where
  "error_kind dw e = (case e of DIo x \<Rightarrow> err_kind x | Retained _ \<Rightarrow> OtherKind | _ \<Rightarrow> dw_kind dw e)"

definition error_text :: "deliver_world \<Rightarrow> deliver_error \<Rightarrow> string" where
  "error_text dw e = (case e of DIo x \<Rightarrow> err_text x | Retained t \<Rightarrow> t | _ \<Rightarrow> dw_text dw e)"

section \<open>The target\<close>

definition target_of :: "world_env \<Rightarrow> nat \<Rightarrow> disk_node \<Rightarrow> target_stamp" where
  "target_of v n k = (case k of RegularFile c t \<Rightarrow> TargetPresent (length c) t | _ \<Rightarrow> TargetPresent (ev_chunk v n) (ev_mtime v n))"

definition target_now :: "world_env \<Rightarrow> path \<Rightarrow> ('j, target_stamp) io" where
  "target_now v p = syscall v (\<lambda>n m. (case m p of None \<Rightarrow> Inl absent | Some k \<Rightarrow> Inr (target_of v n k), m))"

definition target_stamp_of :: "world_env \<Rightarrow> path \<Rightarrow> 'j volume \<Rightarrow> target_stamp \<times> 'j volume" where
  "target_stamp_of v p w = (case target_now v p w of (Inr s, w') \<Rightarrow> (s, w')
     | (Inl e, w') \<Rightarrow> (if err_kind e = NotFound then TargetAbsent else TargetUnknown, w'))"

definition target_present :: "world_env \<Rightarrow> path \<Rightarrow> ('j, bool) io" where
  "target_present v p = attempt_io (symlink_metadata v p) (\<lambda>r. case r of Inr _ \<Rightarrow> give True
     | Inl e \<Rightarrow> if err_kind e = NotFound then give False else fail e)"

definition refuse_existing :: "world_env \<Rightarrow> path \<Rightarrow> bool \<Rightarrow> ('j, unit) dio" where
  "refuse_existing v p replace = (if replace then give ()
     else try_io (os_call (target_present v p)) (\<lambda>there. if there then fail (TargetExists p) else give ()))"

definition refuse_changed :: "world_env \<Rightarrow> path \<Rightarrow> target_stamp \<Rightarrow> ('j, unit) dio" where
  "refuse_changed v p old = attempt_io (target_now v p) (\<lambda>r. case r of
       Inl e \<Rightarrow> if err_kind e = NotFound then give () else fail (DIo e)
     | Inr now \<Rightarrow> if old = TargetUnknown \<or> now \<noteq> old then fail (TargetExists p) else give ())"

definition rename_path :: "world_env \<Rightarrow> path \<Rightarrow> path \<Rightarrow> ('j, unit) io" where
  "rename_path v s d = syscall v (\<lambda>_ m. case m s of None \<Rightarrow> (Inl absent, m)
     | Some k \<Rightarrow> if m d = Some DirNode then (Inl (io_other ''is a directory''), m) else (Inr (), m(s := None, d \<mapsto> k)))"

definition land :: "world_env \<Rightarrow> path \<Rightarrow> path \<Rightarrow> bool \<Rightarrow> ('j, unit) dio" where
  "land v partial target replace =
     (if replace then os_call (rename_path v partial target)
      else map_err (\<lambda>e. if err_kind e = AlreadyExists then TargetExists target else DIo e) (publish_path v partial target))"

definition remove_if_present :: "world_env \<Rightarrow> path \<Rightarrow> ('j, unit) io" where
  "remove_if_present v p = attempt_io (remove_path v p) (\<lambda>r. case r of Inr _ \<Rightarrow> give ()
     | Inl e \<Rightarrow> if err_kind e = NotFound then give () else fail e)"

definition suffixed :: "path \<Rightarrow> string \<Rightarrow> path" where
  "suffixed p s = with_file_name p ((case file_name p of None \<Rightarrow> [] | Some n \<Rightarrow> n) @ s)"

definition target_partial :: "path \<Rightarrow> path" where
  "target_partial target = suffixed target ''.partial''"

section \<open>Copying and verifying\<close>

definition open_source :: "world_env \<Rightarrow> path \<Rightarrow> ('j, string \<times> nat) io" where
  "open_source v p = syscall v (\<lambda>_ m. (case m p of None \<Rightarrow> Inl absent | Some (RegularFile c t) \<Rightarrow> Inr (c, t)
     | Some _ \<Rightarrow> Inl (io_other ''not a regular file''), m))"

definition deliver_buffer :: nat where "deliver_buffer = 1048576"
definition checkpoint_limit :: nat where "checkpoint_limit = 67108864"

definition read_len :: "world_env \<Rightarrow> nat \<Rightarrow> string \<Rightarrow> nat" where
  "read_len v n rest = min (length rest) (max 1 (min (ev_chunk v n) deliver_buffer))"

text \<open>\<open>copy_all\<close> through a \<open>CheckpointWriter\<close>, on the worker \<open>watch_worker\<close> watches.\<close>

function copy_all :: "world_env \<Rightarrow> path \<Rightarrow> string \<Rightarrow> nat \<Rightarrow> ('j, unit) dio" where
  "copy_all v dst rest pending w =
     (if cancelled v w then fail Halted w
      else case os_call (syscall v (\<lambda>n m. (Inr n, m))) w of
        (Inl e, w1) \<Rightarrow> (Inl e, w1)
      | (Inr n, w1) \<Rightarrow>
          if rest = [] then (Inr (), w1)
          else let k = read_len v n rest in
            (case os_call (append_file v dst (take k rest)) w1 of
               (Inl e, w2) \<Rightarrow> (Inl e, w2)
             | (Inr _, w2) \<Rightarrow>
                 if pending + k < checkpoint_limit then copy_all v dst (drop k rest) (pending + k) w2
                 else (case os_call (sync_path v dst) w2 of (Inl e, w3) \<Rightarrow> (Inl e, w3)
                       | (Inr _, w3) \<Rightarrow> copy_all v dst (drop k rest) 0 w3)))"
  by pat_completeness auto
termination
  by (relation "measure (\<lambda>(v, dst, rest, pending, w). length rest)") (auto simp: read_len_def)

declare copy_all.simps [simp del]

definition len_at :: "world_env \<Rightarrow> path \<Rightarrow> ('j, nat) io" where
  "len_at v p = syscall v (\<lambda>n m. (case m p of None \<Rightarrow> Inl absent | Some (RegularFile c _) \<Rightarrow> Inr (length c)
     | Some _ \<Rightarrow> Inr (ev_chunk v n), m))"

definition pin_time :: "world_env \<Rightarrow> path \<Rightarrow> nat \<Rightarrow> 'j volume \<Rightarrow> 'j volume" where
  "pin_time v p t w = snd (set_modified v p t w)"

definition copy_to :: "world_env \<Rightarrow> path \<Rightarrow> path \<Rightarrow> ('j, nat) dio" where
  "copy_to v src dst =
     try_io (os_call (open_source v src)) (\<lambda>(bytes, t).
     try_io (os_call (create_temporary v dst)) (\<lambda>_.
     try_io (copy_all v dst bytes 0) (\<lambda>_ w.
     try_io (os_call (len_at v dst)) (\<lambda>have.
       if have \<noteq> length bytes then fail (StagedSizeMismatch have (length bytes)) else give (pinned_mtime t))
       (pin_time v dst (pinned_mtime t) w))))"

text \<open>While a sync or a verify runs, its progress bumps the file's time for a lock's waiter.\<close>

definition beat :: "world_env \<Rightarrow> path \<Rightarrow> 'j volume \<Rightarrow> 'j volume" where
  "beat v p w = pin_time v p (ev_mtime v (vo_calls w)) w"

definition open_existing :: "world_env \<Rightarrow> path \<Rightarrow> ('j, unit) io" where
  "open_existing v p = syscall v (\<lambda>_ m. (if m p = None then Inl absent else Inr (), m))"

text \<open>\<open>sync_file\<close>.\<close>

definition sync_copy :: "world_env \<Rightarrow> path \<Rightarrow> ('j, unit) dio" where
  "sync_copy v p = try_io (os_call (open_existing v p)) (\<lambda>_ w. halting v (sync_path v p) (beat v p w))"

record expect =
  ex_size :: nat
  ex_runtime :: "rat option"

definition muxed_runtime :: "mkv_probe \<Rightarrow> f64 option" where
  "muxed_runtime pb = (case pb_last_cue pb of Some r \<Rightarrow> Some r | None \<Rightarrow> pb_duration pb)"

definition finite_secs :: "f64 option \<Rightarrow> rat option" where
  "finite_secs r = (case r of Some (Fin x) \<Rightarrow> Some x | _ \<Rightarrow> None)"

definition runtime_epsilon :: rat where "runtime_epsilon = 1 / 1000"

definition judge_probe :: "path \<Rightarrow> expect \<Rightarrow> mkv_probe \<Rightarrow> deliver_error + unit" where
  "judge_probe p want pb =
     (if pb_tracks pb = 0 then Inl (VerifyFailed NoTracks p)
      else case ex_runtime want of None \<Rightarrow> Inr ()
      | Some r \<Rightarrow> (case finite_secs (muxed_runtime pb) of None \<Rightarrow> Inl (VerifyFailed NoRuntime p)
          | Some x \<Rightarrow> if \<bar>x - r\<bar> > runtime_epsilon then Inl (VerifyFailed (RuntimeMismatch x r) p) else Inr ()))"

text \<open>\<open>verify_inner\<close>; the probe runs on a worker that is watched.\<close>

definition verify_copy :: "deliver_world \<Rightarrow> path \<Rightarrow> expect \<Rightarrow> ('j, mkv_probe) dio" where
  "verify_copy dw p want =
     (let v = dw_env dw in
      try_io (os_call (len_at v p)) (\<lambda>have.
      if have = 0 then fail (VerifyFailed VerifyEmpty p)
      else if have \<noteq> ex_size want then fail (StagedSizeMismatch have (ex_size want))
      else try_io (halting v (read_bytes_at v p)) (\<lambda>bytes w.
        case dw_probe dw bytes of
          Inl e \<Rightarrow> fail (DIo e) (beat v p w)
        | Inr pb \<Rightarrow> (case judge_probe p want pb of Inl e \<Rightarrow> fail e | Inr _ \<Rightarrow> give pb) (beat v p w))))"

section \<open>Delivering\<close>

definition replace_step :: "world_env \<Rightarrow> path \<Rightarrow> path \<Rightarrow> bool \<Rightarrow> target_stamp option \<Rightarrow> ('j, bool) dio" where
  "replace_step v partial target replace old =
     try_io (refuse_existing v target replace) (\<lambda>_.
     try_io (case old of None \<Rightarrow> give () | Some b \<Rightarrow> refuse_changed v target b) (\<lambda>_.
     try_io (os_call (target_present v target)) (\<lambda>replaced w.
       if cancelled v w then fail Halted w
       else try_io (land v partial target replace) (\<lambda>_. give replaced) w)))"

definition copy_step :: "world_env \<Rightarrow> path \<Rightarrow> path \<Rightarrow> path \<Rightarrow> bool \<Rightarrow> ('j, nat) dio" where
  "copy_step v local target partial replace =
     try_io (refuse_existing v target replace) (\<lambda>_.
     try_io (os_call (remove_if_present v partial)) (\<lambda>_. copy_to v local partial))"

type_synonym ('j, 'a) phased = "'j volume \<Rightarrow> ((string \<times> deliver_error) + 'a) \<times> 'j volume"

definition in_phase :: "string \<Rightarrow> ('j, 'a) dio \<Rightarrow> ('j, 'a) phased" where
  "in_phase ph m = map_err (Pair ph) m"

definition deliver_steps ::
    "deliver_world \<Rightarrow> path \<Rightarrow> path \<Rightarrow> path \<Rightarrow> bool \<Rightarrow> expect \<Rightarrow> target_stamp option \<Rightarrow> ('j, bool) phased" where
  "deliver_steps dw local target partial replace want old =
     (let v = dw_env dw in
      try_io (in_phase ''copy'' (copy_step v local target partial replace)) (\<lambda>pinned.
      try_io (in_phase ''sync'' (sync_copy v partial)) (\<lambda>_.
      try_io (in_phase ''verify'' (verify_copy dw partial want)) (\<lambda>_ w.
        in_phase ''replace'' (replace_step v partial target replace old) (pin_time v partial pinned w)))))"

text \<open>The lock of a target, and the guard that removes what a failed delivery left.\<close>

definition lock_target :: "world_env \<Rightarrow> path \<Rightarrow> ('j, unit) io" where
  "lock_target v p = syscall v (\<lambda>_ m. (Inr (), m))"

definition unlock_target :: "world_env \<Rightarrow> path \<Rightarrow> 'j volume \<Rightarrow> 'j volume" where
  "unlock_target v p w = snd (lock_target v p w)"

definition drop_remote :: "world_env \<Rightarrow> path \<Rightarrow> path \<Rightarrow> 'j volume \<Rightarrow> 'j volume" where
  "drop_remote v partial target w = unlock_target v target (snd (remove_path v partial w))"

definition sync_landing :: "world_env \<Rightarrow> path \<Rightarrow> 'j volume \<Rightarrow> 'j volume" where
  "sync_landing v p w = (case path_parent p of None \<Rightarrow> w | Some dir \<Rightarrow> snd (halting v (sync_path v dir) w))"

definition deliver_file ::
    "deliver_world \<Rightarrow> path \<Rightarrow> path \<Rightarrow> bool \<Rightarrow> expect \<Rightarrow> target_stamp option \<Rightarrow> ('j, bool) phased" where
  "deliver_file dw local target replace want old w =
     (let v = dw_env dw; partial = target_partial target in
      case in_phase ''copy'' (halting v (lock_target v target)) w of
        (Inl e, w1) \<Rightarrow> (Inl e, w1)
      | (Inr _, w1) \<Rightarrow>
        (case in_phase ''target'' (case old of None \<Rightarrow> give () | Some b \<Rightarrow> refuse_changed v target b) w1 of
           (Inl e, w2) \<Rightarrow> (Inl e, unlock_target v target w2)
         | (Inr _, w2) \<Rightarrow>
           (case deliver_steps dw local target partial replace want old w2 of
              (Inl e, w3) \<Rightarrow> (Inl e, drop_remote v partial target w3)
            | (Inr replaced, w3) \<Rightarrow> (Inr replaced, unlock_target v target (sync_landing v target w3)))))"

text \<open>\<open>keeps\<close>.\<close>

definition keeps_local :: "world_env \<Rightarrow> deliver_error \<Rightarrow> bool \<Rightarrow> 'j volume \<Rightarrow> bool" where
  "keeps_local v e retain w \<longleftrightarrow> (case e of TargetExists _ \<Rightarrow> False | _ \<Rightarrow> retain \<or> e \<noteq> Halted \<and> \<not> cancelled v w)"

section \<open>Keeping a file\<close>

record finished =
  fi_file :: path
  fi_target :: path
  fi_replace :: bool
  fi_iso :: path
  fi_title :: "nat option"
  fi_expected :: "f64 option"
  fi_verified :: mkv_probe
  fi_before :: target_stamp

text \<open>An error that carries a \<open>Kept\<close>, or the cause alone.\<close>

datatype landing_error = Kept (kept_path: path) (kept_sidecar: path) (kept_phase: string) (landing_cause: deliver_error)
  | NotKept (landing_cause: deliver_error)

definition kept_of :: "landing_error \<Rightarrow> path option" where
  "kept_of e = (case e of Kept p _ _ _ \<Rightarrow> Some p | NotKept _ \<Rightarrow> None)"

definition kept_mkv :: string where "kept_mkv = ''.staged.mkv''"
definition kept_json :: string where "kept_json = ''.staged.json''"
definition kept_tmp :: string where "kept_tmp = ''.staged.json.tmp''"
definition sidecar_format :: nat where "sidecar_format = 1"
definition sidecar_max :: nat where "sidecar_max = 1048576"
definition stem_max :: nat where "stem_max = 80"

text \<open>\<open>path_hash\<close> of \<open>server/library/index.rs\<close>: FNV-1a over the bytes of the path.\<close>

definition path_hash :: "path \<Rightarrow> 64 word" where
  "path_hash p = fold (\<lambda>c h. (h XOR word_of_nat (of_char c)) * 0x100000001b3) (path_text p) 0xcbf29ce484222325"

definition hex_digit :: "nat \<Rightarrow> char" where
  "hex_digit d = char_of (if d < 10 then 48 + d else 87 + d)"

fun hex :: "nat \<Rightarrow> nat \<Rightarrow> string" where
  "hex 0 n = []"
| "hex (Suc k) n = hex k (n div 16) @ [hex_digit (n mod 16)]"

definition unsafe_in_name :: "char \<Rightarrow> bool" where
  "unsafe_in_name c \<longleftrightarrow> (of_char c :: nat) < 32 \<or> (of_char c :: nat) = 127
     \<or> c \<in> {CHR ''/'', CHR 0x5C, CHR '':'', CHR ''*'', CHR ''?'', CHR 0x22, CHR ''<'', CHR ''>'', CHR ''|''}"

definition kept_name :: "path \<Rightarrow> string" where
  "kept_name target =
     take stem_max (map (\<lambda>c. if unsafe_in_name c then CHR ''_'' else c) (case file_stem target of None \<Rightarrow> [] | Some s \<Rightarrow> s))
       @ ''.'' @ hex 12 (unat (path_hash target) div 2 ^ 16)"

definition kept_paths :: "path \<Rightarrow> path \<Rightarrow> path \<times> path" where
  "kept_paths stage target =
     (path_join stage [Normal (kept_name target @ kept_mkv)], path_join stage [Normal (kept_name target @ kept_json)])"

definition pair_of :: "path \<Rightarrow> (path \<times> path) option" where
  "pair_of p = (case file_name p of None \<Rightarrow> None
     | Some n \<Rightarrow> (case (case strip_suffix n kept_mkv of Some b \<Rightarrow> Some b | None \<Rightarrow> strip_suffix n kept_json) of
           None \<Rightarrow> None
         | Some base \<Rightarrow> if base = [] then None
             else Some (with_file_name p (base @ kept_mkv), with_file_name p (base @ kept_json))))"

definition tmp_of :: "path \<Rightarrow> path" where
  "tmp_of sidecar = suffixed sidecar ''.tmp''"

definition folder_of :: "path \<Rightarrow> path" where
  "folder_of p = (case path_parent p of Some (c # cs) \<Rightarrow> c # cs | _ \<Rightarrow> [CurDir])"

definition sync_stage :: "world_env \<Rightarrow> path \<Rightarrow> 'j volume \<Rightarrow> 'j volume" where
  "sync_stage v dir w = snd (sync_path v dir w)"

text \<open>\<open>File::create\<close>: an empty file, whatever file was there.\<close>

definition create_empty :: "world_env \<Rightarrow> path \<Rightarrow> ('j, unit) io" where
  "create_empty v p = syscall v (\<lambda>n m. if m p = Some DirNode then (Inl (io_other ''is a directory''), m)
     else (Inr (), m(p \<mapsto> RegularFile [] (ev_mtime v n))))"

text \<open>Temp file, sync, rename, folder sync.\<close>

definition write_sidecar :: "deliver_world \<Rightarrow> path \<Rightarrow> sidecar \<Rightarrow> ('j, unit) io" where
  "write_sidecar dw p r w =
     (let v = dw_env dw; tmp = tmp_of p in
      case dw_encode dw r of Inl e \<Rightarrow> fail e w
      | Inr bytes \<Rightarrow>
          (case try_io (create_empty v tmp) (\<lambda>_. try_io (append_file v tmp bytes) (\<lambda>_.
                try_io (sync_path v tmp) (\<lambda>_. rename_path v tmp p))) w of
             (Inl e, w1) \<Rightarrow> (Inl e, snd (remove_path v tmp w1))
           | (Inr _, w1) \<Rightarrow> (Inr (), sync_stage v (folder_of p) w1)))"

definition now_secs :: "world_env \<Rightarrow> 'j volume \<Rightarrow> nat" where
  "now_secs v w = ev_wall v (vo_calls w) div 1000"

definition record_failed :: "deliver_world \<Rightarrow> nat \<Rightarrow> string \<Rightarrow> deliver_error \<Rightarrow> sidecar \<Rightarrow> sidecar" where
  "record_failed dw now ph e r = r\<lparr>sc_last := now, sc_phase := ph, sc_error := error_text dw e, sc_code := dw_code dw e\<rparr>"

text \<open>\<open>metadata\<close> of the image, following a link.\<close>

definition followed :: "world_env \<Rightarrow> path \<Rightarrow> ('j, target_stamp) io" where
  "followed v p = syscall v (\<lambda>n m. (case ev_resolve v n p of Inl e \<Rightarrow> Inl e
     | Inr q \<Rightarrow> (case m q of None \<Rightarrow> Inl absent | Some k \<Rightarrow> Inr (target_of v n k)), m))"

definition record_of :: "deliver_world \<Rightarrow> finished \<Rightarrow> expect \<Rightarrow> string \<Rightarrow> deliver_error \<Rightarrow> 'j volume \<Rightarrow> sidecar \<times> 'j volume" where
  "record_of dw f want ph cause w =
     (case followed (dw_env dw) (fi_iso f) w of (r, w') \<Rightarrow>
        let iso_meta = (case r of Inr (TargetPresent l t) \<Rightarrow> Some (l, t) | _ \<Rightarrow> None);
            now = now_secs (dw_env dw) w'
        in (record_failed dw now ph cause
             \<lparr>sc_format = sidecar_format, sc_target = fi_target f, sc_replace = fi_replace f, sc_before = fi_before f,
              sc_iso = fi_iso f, sc_iso_len = map_option fst iso_meta, sc_iso_mtime = map_option (\<lambda>(_, t). t div 1000000000) iso_meta,
              sc_title = fi_title f, sc_size = ex_size want, sc_runtime = ex_runtime want,
              sc_expected = (case finite_secs (fi_expected f) of Some s \<Rightarrow> if s > 0 then Some s else None | None \<Rightarrow> None),
              sc_app = pb_app (fi_verified f), sc_engine = dw_version dw, sc_created = now, sc_attempts = 1, sc_last = now,
              sc_phase = [], sc_error = [], sc_code = None\<rparr>, w'))"

text \<open>\<open>drop_file\<close>: emptied first, then removed.\<close>

definition truncate_file :: "world_env \<Rightarrow> path \<Rightarrow> ('j, unit) io" where
  "truncate_file v p = syscall v (\<lambda>n m. case m p of Some (RegularFile _ _) \<Rightarrow> (Inr (), m(p \<mapsto> RegularFile [] (ev_mtime v n)))
     | _ \<Rightarrow> (Inl absent, m))"

definition drop_file :: "world_env \<Rightarrow> path \<Rightarrow> 'j volume \<Rightarrow> 'j volume" where
  "drop_file v p w = snd (remove_path v p (snd (truncate_file v p w)))"

definition keep :: "deliver_world \<Rightarrow> finished \<Rightarrow> expect \<Rightarrow> string \<Rightarrow> deliver_error \<Rightarrow> 'j volume \<Rightarrow> landing_error \<times> 'j volume" where
  "keep dw f want ph cause w =
     (let v = dw_env dw; (path, sidecar) = kept_paths (folder_of (fi_file f)) (fi_target f) in
      case record_of dw f want ph cause w of (r, w1) \<Rightarrow>
        (case rename_path v (fi_file f) path w1 of
           (Inl _, w2) \<Rightarrow> (NotKept cause, drop_file v (fi_file f) w2)
         | (Inr _, w2) \<Rightarrow>
           (case write_sidecar dw sidecar r (sync_stage v (folder_of path) w2) of
              (Inl _, w3) \<Rightarrow> (NotKept cause, drop_file v path w3)
            | (Inr _, w3) \<Rightarrow> (Kept path sidecar ph cause, w3))))"

definition deliver_finished ::
    "deliver_world \<Rightarrow> finished \<Rightarrow> ('j volume \<Rightarrow> string option) \<Rightarrow> 'j volume \<Rightarrow> (landing_error + bool) \<times> 'j volume" where
  "deliver_finished dw f retention w =
     (let v = dw_env dw in
      case len_at v (fi_file f) w of
        (Inl e, w1) \<Rightarrow> (Inl (NotKept (DIo e)), drop_file v (fi_file f) w1)
      | (Inr len, w1) \<Rightarrow>
          let want = \<lparr>ex_size = len, ex_runtime = finite_secs (muxed_runtime (fi_verified f))\<rparr> in
          (case deliver_file dw (fi_file f) (fi_target f) (fi_replace f) want
                  (if fi_replace f then Some (fi_before f) else None) w1 of
             (Inr replaced, w2) \<Rightarrow> (Inr replaced, drop_file v (fi_file f) w2)
           | (Inl (ph, e), w2) \<Rightarrow>
               let reason = retention w2 in
               if \<not> keeps_local v e (reason \<noteq> None) w2 then (Inl (NotKept e), drop_file v (fi_file f) w2)
               else (case keep dw f want ph (case reason of None \<Rightarrow> e | Some t \<Rightarrow> Retained t) w2 of
                       (k, w3) \<Rightarrow> (Inl k, w3))))"

section \<open>Finishing a kept file\<close>

record kept_info =
  ki_staged :: path
  ki_sidecar :: path
  ki_record :: sidecar

datatype pair_error = NotOurs | PairIo io_error | PairCorrupt

definition judge_sidecar :: "deliver_world \<Rightarrow> string \<Rightarrow> pair_error + sidecar" where
  "judge_sidecar dw bytes =
     (if length bytes > sidecar_max then Inl PairCorrupt
      else case dw_format dw bytes of None \<Rightarrow> Inl PairCorrupt
      | Some fmt \<Rightarrow> if fmt > sidecar_format then Inl NotOurs
          else case dw_decode dw bytes of None \<Rightarrow> Inl PairCorrupt
          | Some r \<Rightarrow> if sc_format r \<noteq> sidecar_format \<or> \<not> is_absolute (sc_target r) \<or> file_name (sc_target r) = None
              then Inl PairCorrupt else Inr r)"

definition read_pair :: "deliver_world \<Rightarrow> path \<Rightarrow> 'j volume \<Rightarrow> (pair_error + kept_info) \<times> 'j volume" where
  "read_pair dw p = (case pair_of p of None \<Rightarrow> fail NotOurs
     | Some (staged, sidecar) \<Rightarrow> try_io (map_err PairIo (read_bytes_at (dw_env dw) sidecar)) (\<lambda>bytes.
         case judge_sidecar dw bytes of Inl e \<Rightarrow> fail e
         | Inr r \<Rightarrow> give \<lparr>ki_staged = staged, ki_sidecar = sidecar, ki_record = r\<rparr>))"

definition read_kept :: "deliver_world \<Rightarrow> path \<Rightarrow> ('j, kept_info) dio" where
  "read_kept dw p = map_err (\<lambda>e. case e of PairIo x \<Rightarrow> DIo x | _ \<Rightarrow> StagingInvalid) (read_pair dw p)"

definition is_file_at :: "world_env \<Rightarrow> path \<Rightarrow> 'j volume \<Rightarrow> bool \<times> 'j volume" where
  "is_file_at v p w = (case syscall v (\<lambda>_ m. (Inr (m p), m)) w of
     (Inr (Some (RegularFile _ _)), w') \<Rightarrow> (True, w') | (_, w') \<Rightarrow> (False, w'))"

definition is_kept :: "deliver_world \<Rightarrow> path \<Rightarrow> 'j volume \<Rightarrow> bool \<times> 'j volume" where
  "is_kept dw p w = (case pair_of p of None \<Rightarrow> (False, w)
     | Some (staged, _) \<Rightarrow> (case read_pair dw p w of
         (Inl (PairIo _), w') \<Rightarrow> (False, w')
       | (Inl PairCorrupt, w') \<Rightarrow> (False, w')
       | (_, w') \<Rightarrow> is_file_at (dw_env dw) staged w'))"

definition kept_like :: "string \<Rightarrow> bool" where
  "kept_like n \<longleftrightarrow> list_ex (\<lambda>s. length n > length s \<and> ends_with n s) [kept_mkv, kept_json, kept_tmp]"

text \<open>The regular files of the staging folder with such a name, in the order of their paths.\<close>

definition kept_names :: "world_env \<Rightarrow> path \<Rightarrow> 'j volume \<Rightarrow> path list \<times> 'j volume" where
  "kept_names v stage w =
     (case syscall v (\<lambda>n m. (Inr (sort (filter (\<lambda>p. case m p of Some (RegularFile _ _) \<Rightarrow> True | _ \<Rightarrow> False)
          (map (\<lambda>x. path_join stage [Normal x]) (filter kept_like (concat (map (\<lambda>e. case e of Inl _ \<Rightarrow> [] | Inr x \<Rightarrow> [x])
            (ev_list v n stage m))))))), m)) w of
        (Inl _, w') \<Rightarrow> ([], w') | (Inr ps, w') \<Rightarrow> (ps, w'))"

fun read_pairs :: "deliver_world \<Rightarrow> path list \<Rightarrow> 'j volume \<Rightarrow> kept_info list \<times> 'j volume" where
  "read_pairs dw [] w = ([], w)"
| "read_pairs dw (p # ps) w =
     (case read_pair dw p w of
        (Inl _, w1) \<Rightarrow> read_pairs dw ps w1
      | (Inr i, w1) \<Rightarrow>
          (case read_pairs dw ps w1 of (is, w2) \<Rightarrow> (i # is, w2)))"

fun with_file :: "world_env \<Rightarrow> kept_info list \<Rightarrow> 'j volume \<Rightarrow> kept_info list \<times> 'j volume" where
  "with_file v [] w = ([], w)"
| "with_file v (i # is) w =
     (case is_file_at v (ki_staged i) w of (there, w1) \<Rightarrow>
        (case with_file v is w1 of (rest, w2) \<Rightarrow> (if there then i # rest else rest, w2)))"

text \<open>Sorting by the pair of the time and the path, as two stable sorts.\<close>

definition pending :: "deliver_world \<Rightarrow> path \<Rightarrow> 'j volume \<Rightarrow> kept_info list \<times> 'j volume" where
  "pending dw stage w =
     (case kept_names (dw_env dw) stage w of (ps, w1) \<Rightarrow>
      (case read_pairs dw (filter (\<lambda>p. ends_with (path_text p) kept_json) ps) w1 of (is, w2) \<Rightarrow>
       (case with_file (dw_env dw) is w2 of (found, w3) \<Rightarrow>
          (sort_key (\<lambda>i. sc_created (ki_record i)) (sort_key ki_staged found), w3))))"

fun not_kept :: "deliver_world \<Rightarrow> path list \<Rightarrow> 'j volume \<Rightarrow> path list \<times> 'j volume" where
  "not_kept dw [] w = ([], w)"
| "not_kept dw (p # ps) w =
     (case is_kept dw p w of (k, w1) \<Rightarrow> (case not_kept dw ps w1 of (rest, w2) \<Rightarrow> (if k then rest else p # rest, w2)))"

definition orphans :: "deliver_world \<Rightarrow> path \<Rightarrow> 'j volume \<Rightarrow> path list \<times> 'j volume" where
  "orphans dw stage w = (case kept_names (dw_env dw) stage w of (ps, w1) \<Rightarrow> not_kept dw ps w1)"

fun remove_all :: "world_env \<Rightarrow> path list \<Rightarrow> ('j, unit) io" where
  "remove_all v [] w = give () w"
| "remove_all v (p # ps) w =
     (case remove_if_present v p w of (r, w1) \<Rightarrow>
        (case remove_all v ps w1 of (rest, w2) \<Rightarrow> (case r of Inl e \<Rightarrow> Inl e | Inr _ \<Rightarrow> rest, w2)))"

definition discard_kept :: "deliver_world \<Rightarrow> path \<Rightarrow> ('j, unit) dio" where
  "discard_kept dw p = (case pair_of p of None \<Rightarrow> fail StagingInvalid
     | Some (staged, sidecar) \<Rightarrow> os_call (remove_all (dw_env dw) [staged, tmp_of sidecar, sidecar]))"

definition expired :: "nat \<Rightarrow> kept_info \<Rightarrow> nat \<Rightarrow> bool" where
  "expired now_ms i max_age_ms \<longleftrightarrow>
     sc_created (ki_record i) * 1000 \<le> now_ms \<and> now_ms - sc_created (ki_record i) * 1000 > max_age_ms"

text \<open>Sizes are those of files on one disk; their sum is taken to stay below \<open>2^64\<close>.\<close>

fun while_over :: "nat \<Rightarrow> nat \<Rightarrow> kept_info list \<Rightarrow> kept_info list" where
  "while_over max_bytes held [] = []"
| "while_over max_bytes held (i # is) =
     (if held > max_bytes then i # while_over max_bytes (held - sc_size (ki_record i)) is else [])"

definition over_budget :: "kept_info list \<Rightarrow> nat \<Rightarrow> kept_info list" where
  "over_budget is max_bytes =
     while_over max_bytes (sum_list (map (\<lambda>i. sc_size (ki_record i)) is)) (sort_key (\<lambda>i. sc_created (ki_record i)) is)"

definition keep_again :: "deliver_world \<Rightarrow> kept_info \<Rightarrow> string \<Rightarrow> deliver_error \<Rightarrow> 'j volume \<Rightarrow> landing_error \<times> 'j volume" where
  "keep_again dw i ph cause w =
     (let r = record_failed dw (now_secs (dw_env dw) w) ph cause
                ((ki_record i)\<lparr>sc_attempts := saturating_add 32 (sc_attempts (ki_record i)) 1\<rparr>)
      in (Kept (ki_staged i) (ki_sidecar i) ph cause, snd (write_sidecar dw (ki_sidecar i) r w)))"

definition dropped :: "deliver_world \<Rightarrow> path \<Rightarrow> deliver_error \<Rightarrow> 'j volume \<Rightarrow> (landing_error + 'a) \<times> 'j volume" where
  "dropped dw p e w = (Inl (NotKept e), snd (discard_kept dw p w))"

definition resume_delivery :: "deliver_world \<Rightarrow> kept_info \<Rightarrow> expect \<Rightarrow> mkv_probe \<Rightarrow> 'j volume
    \<Rightarrow> (landing_error + string option) \<times> 'j volume" where
  "resume_delivery dw i want verified w =
     (let r = ki_record i in
      case deliver_file dw (ki_staged i) (sc_target r) (sc_replace r) want (Some (sc_before r)) w of
        (Inr _, w1) \<Rightarrow> (Inr (pb_app verified), snd (discard_kept dw (ki_staged i) w1))
      | (Inl (ph, e), w1) \<Rightarrow>
          if keeps_local (dw_env dw) e False w1 then (case keep_again dw i ph e w1 of (k, w2) \<Rightarrow> (Inl k, w2))
          else (Inl (NotKept e), w1))"

definition resume_checked :: "deliver_world \<Rightarrow> kept_info \<Rightarrow> 'j volume \<Rightarrow> (landing_error + string option) \<times> 'j volume" where
  "resume_checked dw i w =
     (let r = ki_record i; want = \<lparr>ex_size = sc_size r, ex_runtime = sc_runtime r\<rparr> in
      if ki_staged i = sc_target r \<or> ki_staged i = target_partial (sc_target r) then (Inl (NotKept StagingInvalid), w)
      else case verify_copy dw (ki_staged i) want w of
        (Inr verified, w1) \<Rightarrow> resume_delivery dw i want verified w1
      | (Inl e, w1) \<Rightarrow>
          if error_kind dw e = InvalidData \<and> e \<noteq> Halted then dropped dw (ki_staged i) e w1
          else (Inl (NotKept e), w1))"

text \<open>\<open>resume\<close> of a kept remux.\<close>

definition resume_kept :: "deliver_world \<Rightarrow> path \<Rightarrow> 'j volume \<Rightarrow> (landing_error + string option) \<times> 'j volume" where
  "resume_kept dw p w =
     (case read_pair dw p w of
        (Inl (PairIo e), w1) \<Rightarrow> (Inl (NotKept (DIo e)), w1)
      | (Inl NotOurs, w1) \<Rightarrow> (Inl (NotKept StagingInvalid), w1)
      | (Inl PairCorrupt, w1) \<Rightarrow> dropped dw p StagingInvalid w1
      | (Inr i, w1) \<Rightarrow>
          (case len_at (dw_env dw) (ki_staged i) w1 of
             (Inl e, w2) \<Rightarrow> if err_kind e = NotFound then dropped dw (ki_sidecar i) (DIo e) w2 else (Inl (NotKept (DIo e)), w2)
           | (Inr have, w2) \<Rightarrow>
               if have \<noteq> sc_size (ki_record i)
               then dropped dw (ki_staged i) (StagedSizeMismatch have (sc_size (ki_record i))) w2
               else resume_checked dw i w2))"

section \<open>Remuxing through local staging\<close>

definition stage_file :: "path \<Rightarrow> nat \<Rightarrow> path" where
  "stage_file stage job = path_join stage [Normal (show_nat job @ ''.mkv'')]"

record remux_request =
  rq_target :: path
  rq_replace :: bool
  rq_iso :: path

text \<open>What the engine reports of its remux: the file it verified, and the title it opened.\<close>

record remux_report =
  rp_verified :: mkv_probe
  rp_replaced :: bool
  rp_title :: "nat option"
  rp_expected :: "f64 option"

definition create_stage :: "world_env \<Rightarrow> path \<Rightarrow> ('j, unit) io" where
  "create_stage v p = syscall v (\<lambda>_ m. case m p of None \<Rightarrow> (Inr (), m(p \<mapsto> DirNode)) | Some DirNode \<Rightarrow> (Inr (), m)
     | Some _ \<Rightarrow> (Inl (IoError AlreadyExists ''File exists''), m))"

definition remux_via_stage ::
    "deliver_world \<Rightarrow> remux_request \<Rightarrow> path \<Rightarrow> nat \<Rightarrow> ('j volume \<Rightarrow> string option)
     \<Rightarrow> (path \<Rightarrow> 'j volume \<Rightarrow> (deliver_error + remux_report) \<times> 'j volume) \<Rightarrow> 'j volume \<Rightarrow> (landing_error + remux_report) \<times> 'j volume" where
  "remux_via_stage dw rq stage job retention engine w =
     (let v = dw_env dw; local = stage_file stage job in
      case refuse_existing v (rq_target rq) (rq_replace rq) w of
        (Inl e, w1) \<Rightarrow> (Inl (NotKept e), w1)
      | (Inr _, w1) \<Rightarrow>
        (case target_stamp_of v (rq_target rq) w1 of (old, w2) \<Rightarrow>
         (case os_call (try_io (create_stage v stage) (\<lambda>_. remove_if_present v local)) w2 of
            (Inl e, w3) \<Rightarrow> (Inl (NotKept e), w3)
          | (Inr _, w3) \<Rightarrow>
            (case engine local w3 of
               (Inl e, w4) \<Rightarrow> (Inl (NotKept e), w4)
             | (Inr rp, w4) \<Rightarrow>
               (case deliver_finished dw \<lparr>fi_file = local, fi_target = rq_target rq, fi_replace = rq_replace rq,
                       fi_iso = rq_iso rq, fi_title = rp_title rp, fi_expected = rp_expected rp,
                       fi_verified = rp_verified rp, fi_before = old\<rparr> retention w4 of
                  (Inl e, w5) \<Rightarrow> (Inl e, w5)
                | (Inr replaced, w5) \<Rightarrow> (Inr (rp\<lparr>rp_replaced := replaced\<rparr>), w5))))))"

end
