(* ===== verification/Remux_Safety.thy ===== *)
theory Remux_Safety
  imports Remux_Delivery Retire_Safety Delivery_Safety "HOL-Library.Code_Target_Nat" "HOL-Library.Multiset"
begin

text \<open>
  What landing a remux does to the library. \<open>S\<close> is a set of paths the other processes leave alone;
  \<open>q\<close> is the copy beside the target, and \<open>m0\<close> the files at the start. \<open>g\<close> says that nothing stands in
  the way (no call fails, no Stop, a target that may be taken, a sound file): every failure is
  impossible under it, so one set of rules gives both what a failed landing leaves and that an
  unhindered one succeeds.
\<close>

section \<open>Calls on the copy\<close>

definition has_bytes :: "string \<Rightarrow> disk_node option \<Rightarrow> bool" where
  "has_bytes c x \<longleftrightarrow> (\<exists>t. x = Some (RegularFile c t))"

definition held_at :: "path set \<Rightarrow> path \<Rightarrow> nodes \<Rightarrow> (disk_node option \<Rightarrow> bool) \<Rightarrow> 'j volume \<Rightarrow> bool" where
  "held_at S q m0 k = vol (\<lambda>_ m. (\<forall>p \<in> S. p \<noteq> q \<longrightarrow> m p = m0 p) \<and> k (m q))"

definition failed :: "bool \<Rightarrow> path set \<Rightarrow> path \<Rightarrow> nodes \<Rightarrow> 'j volume \<Rightarrow> bool" where
  "failed g S q m0 w \<longleftrightarrow> held_at S q m0 (\<lambda>_. True) w \<and> \<not> g"

definition fault_free :: "world_env \<Rightarrow> bool" where
  "fault_free v \<longleftrightarrow> (\<forall>n. ev_fault v n = None) \<and> (\<forall>n. \<not> ev_cancel v n)
     \<and> (\<forall>s d m. m s \<noteq> None \<longrightarrow> m d = None \<longrightarrow> ev_publish v s d m = (Inr (), m(s := None, d := m s)))"

lemma held_call:
  assumes "leaves_alone v S" "q \<in> S" "g \<Longrightarrow> fault_free v"
    and "\<And>n m x m'. \<forall>p \<in> S. p \<noteq> q \<longrightarrow> m p = m0 p \<Longrightarrow> k (m q) \<Longrightarrow> f n m = (Inr x, m') \<Longrightarrow>
       (\<forall>p \<in> S. p \<noteq> q \<longrightarrow> m' p = m0 p) \<and> k' x (m' q)"
    and "\<And>n m e m'. \<forall>p \<in> S. p \<noteq> q \<longrightarrow> m p = m0 p \<Longrightarrow> k (m q) \<Longrightarrow> f n m = (Inl e, m') \<Longrightarrow>
       (\<forall>p \<in> S. p \<noteq> q \<longrightarrow> m' p = m0 p) \<and> \<not> g"
  shows "triple (held_at S q m0 k) (syscall v f) (\<lambda>x. held_at S q m0 (k' x)) (\<lambda>_. failed g S q m0)"
proof -
  have E: "failed g S q m0 = vol (\<lambda>_ m. (\<forall>p \<in> S. p \<noteq> q \<longrightarrow> m p = m0 p) \<and> \<not> g)"
    by (auto simp: fun_eq_iff failed_def held_at_def vol_def)
  show ?thesis
    unfolding held_at_def E
  proof (rule vol_syscall)
    fix n j m
    assume "(\<forall>p \<in> S. p \<noteq> q \<longrightarrow> m p = m0 p) \<and> k (m q)"
    with assms(1,2) show "(\<forall>p \<in> S. p \<noteq> q \<longrightarrow> ev_foreign v n m p = m0 p) \<and> k (ev_foreign v n m q)"
      by (simp add: leaves_alone_def)
  next
    fix n :: nat and j m e
    assume "(\<forall>p \<in> S. p \<noteq> q \<longrightarrow> m p = m0 p) \<and> k (m q)" "ev_fault v n = Some e"
    with assms(3) show "(\<forall>p \<in> S. p \<noteq> q \<longrightarrow> m p = m0 p) \<and> \<not> g" by (auto simp: fault_free_def)
  qed (use assms(4,5) in blast)+
qed

lemma held_weaken: "held_at S q m0 k w \<Longrightarrow> (\<And>x. k x \<Longrightarrow> k' x) \<Longrightarrow> held_at S q m0 k' w"
  by (simp add: held_at_def vol_def)

lemma triple_os_call: "triple P m Q (\<lambda>_. E) \<Longrightarrow> triple P (os_call m) Q (\<lambda>_. E)"
  unfolding os_call_def by (rule triple_map_err)

lemma held_failed: "held_at S q m0 k w \<Longrightarrow> \<not> g \<Longrightarrow> failed g S q m0 w"
  by (auto simp: failed_def held_at_def vol_def)

lemma held_halting:
  assumes "g \<Longrightarrow> fault_free v" "triple (held_at S q m0 k) m Q (\<lambda>_. failed g S q m0)"
  shows "triple (held_at S q m0 k) (halting v m) Q (\<lambda>_. failed g S q m0)"
proof (rule tripleI)
  fix w e w' assume w: "held_at S q m0 k w" and run: "halting v m w = (Inl e, w')"
  show "failed g S q m0 w'"
  proof (cases "cancelled v w")
    case True
    with run w assms(1) show ?thesis by (auto simp: halting_def fail_def cancelled_def fault_free_def intro: held_failed)
  next
    case False
    with run have "os_call m w = (Inl e, w')" by (simp add: halting_def)
    from triple_run [OF triple_os_call [OF assms(2)] w this] show ?thesis by simp
  qed
next
  fix w x w' assume w: "held_at S q m0 k w" and run: "halting v m w = (Inr x, w')"
  then have "os_call m w = (Inr x, w')" by (simp add: halting_def fail_def split: if_splits)
  from triple_run [OF triple_os_call [OF assms(2)] w this] show "Q x w'" by simp
qed

lemma held_look:
  assumes "leaves_alone v S" "q \<in> S" "g \<Longrightarrow> fault_free v"
    and "\<And>n m. snd (f n m) = m" and "\<And>n m e. k (m q) \<Longrightarrow> \<forall>p \<in> S. p \<noteq> q \<longrightarrow> m p = m0 p \<Longrightarrow> fst (f n m) = Inl e \<Longrightarrow> \<not> g"
  shows "triple (held_at S q m0 k) (syscall v f) (\<lambda>_. held_at S q m0 k) (\<lambda>_. failed g S q m0)"
proof (rule held_call [OF assms(1-3)])
  fix n m x m'
  assume "\<forall>p \<in> S. p \<noteq> q \<longrightarrow> m p = m0 p" "k (m q)" "f n m = (Inr x, m')"
  with assms(4) [of n m] show "(\<forall>p \<in> S. p \<noteq> q \<longrightarrow> m' p = m0 p) \<and> k (m' q)" by simp
next
  fix n m e m'
  assume "\<forall>p \<in> S. p \<noteq> q \<longrightarrow> m p = m0 p" "k (m q)" "f n m = (Inl e, m')"
  with assms(4) [of n m] assms(5) [of m n e] show "(\<forall>p \<in> S. p \<noteq> q \<longrightarrow> m' p = m0 p) \<and> \<not> g" by simp
qed

lemma sync_held:
  assumes "leaves_alone v S" "q \<in> S" "g \<Longrightarrow> fault_free v"
  shows "triple (held_at S q m0 k) (sync_path v p) (\<lambda>_. held_at S q m0 k) (\<lambda>_. failed g S q m0)"
  unfolding sync_path_def by (rule held_look [OF assms]) simp_all

lemma triple_err: "triple P m Q (\<lambda>_. E) \<Longrightarrow> (\<And>w. E w \<Longrightarrow> E' w) \<Longrightarrow> triple P m Q (\<lambda>_. E')"
  by (rule triple_weaken)

lemma triple_after: "triple P m Q E \<Longrightarrow> (\<And>w. P w \<Longrightarrow> P (h w)) \<Longrightarrow> triple P (\<lambda>w. m (h w)) Q E"
  by (simp add: triple_def)

text \<open>A call whose failure is ignored.\<close>

lemma held_ignored: "triple (held_at S q m0 k) m (\<lambda>_. held_at S q m0 k) (\<lambda>_. held_at S q m0 k) \<Longrightarrow> held_at S q m0 k w \<Longrightarrow> held_at S q m0 k (snd (m w))"
  by (simp add: keeps_iff)

lemma held_try_look:
  assumes "leaves_alone v S" "q \<in> S" "\<And>n m. snd (f n m) = m"
  shows "keeps (held_at S q m0 k) (syscall v f)"
  unfolding held_at_def
  by (rule keeps_syscall) (use assms in \<open>auto simp: leaves_alone_def\<close>)

lemma pin_held:
  fixes w :: "'j volume"
  assumes "leaves_alone v S" "q \<in> S" "held_at S q m0 (has_bytes c) w"
  shows "held_at S q m0 (has_bytes c) (pin_time v q t w)"
proof -
  have "keeps (held_at S q m0 (has_bytes c)) (set_modified v q t :: ('j, unit) io)"
    unfolding set_modified_def held_at_def
    by (rule keeps_syscall) (use assms(1,2) in \<open>auto simp: leaves_alone_def has_bytes_def split: option.splits disk_node.splits\<close>)
  with assms(3) show ?thesis by (simp add: pin_time_def keeps_snd)
qed

lemma beat_held:
  "leaves_alone v S \<Longrightarrow> q \<in> S \<Longrightarrow> held_at S q m0 (has_bytes c) w \<Longrightarrow> held_at S q m0 (has_bytes c) (beat v q w)"
  unfolding beat_def by (rule pin_held)

lemma append_held:
  assumes "leaves_alone v S" "q \<in> S" "g \<Longrightarrow> fault_free v"
  shows "triple (held_at S q m0 (has_bytes a)) (append_file v q b) (\<lambda>_. held_at S q m0 (has_bytes (a @ b))) (\<lambda>_. failed g S q m0)"
proof -
  have app: "has_bytes a x \<Longrightarrow> append_node y t q m q = (case x of Some (RegularFile d _) \<Rightarrow> Some (RegularFile (d @ y) t) | _ \<Rightarrow> x)" if "m q = x" for y t m x
    using that by (auto simp: append_node_def has_bytes_def)
  have other: "p \<noteq> q \<Longrightarrow> append_node y t q m p = m p" for y t m p
    by (auto simp: append_node_def split: option.splits disk_node.splits)
  show ?thesis
    using assms unfolding triple_def append_file_def Let_def held_at_def failed_def vol_def leaves_alone_def fault_free_def
    by (auto simp: app other has_bytes_def append_node_def split: option.splits disk_node.splits)
qed

section \<open>The copy\<close>

lemma remove_held:
  assumes "leaves_alone v S" "q \<in> S" "g \<Longrightarrow> fault_free v"
  shows "triple (held_at S q m0 (\<lambda>x. g \<longrightarrow> x \<noteq> Some DirNode)) (remove_if_present v q)
     (\<lambda>_. held_at S q m0 (\<lambda>x. g \<longrightarrow> x = None)) (\<lambda>_. failed g S q m0)"
  unfolding remove_if_present_def
proof (rule triple_attempt_io)
  let ?E = "\<lambda>e :: io_error. held_at S q m0 (\<lambda>x. g \<longrightarrow> err_kind e = NotFound \<and> x = None)"
  show "triple (held_at S q m0 (\<lambda>x. g \<longrightarrow> x \<noteq> Some DirNode)) (remove_path v q) (\<lambda>_. held_at S q m0 (\<lambda>x. x = None)) ?E"
    unfolding remove_path_def held_at_def
    by (rule vol_syscall)
      (use assms in \<open>auto simp: leaves_alone_def absent_def fault_free_def split: option.splits disk_node.splits\<close>)
  show "triple (held_at S q m0 (\<lambda>x. x = None)) (case Inr u of Inr _ \<Rightarrow> give ()
       | Inl e \<Rightarrow> if err_kind e = NotFound then give () else fail e) (\<lambda>_. held_at S q m0 (\<lambda>x. g \<longrightarrow> x = None)) (\<lambda>_. failed g S q m0)"
    for u :: unit
    by (auto simp: triple_def give_def elim: held_weaken)
  show "triple (?E e) (case Inl e of Inr _ \<Rightarrow> give ()
       | Inl e \<Rightarrow> if err_kind e = NotFound then give () else fail e) (\<lambda>_. held_at S q m0 (\<lambda>x. g \<longrightarrow> x = None)) (\<lambda>_. failed g S q m0)" for e
    by (auto simp: triple_def give_def fail_def failed_def held_at_def vol_def)
qed

lemma create_held:
  assumes "leaves_alone v S" "q \<in> S" "g \<Longrightarrow> fault_free v"
  shows "triple (held_at S q m0 (\<lambda>x. g \<longrightarrow> x = None)) (create_temporary v q) (\<lambda>_. held_at S q m0 (has_bytes [])) (\<lambda>_. failed g S q m0)"
  unfolding create_temporary_def
  by (rule held_call [OF assms]) (auto simp: has_bytes_def split: if_splits)

lemma copy_all_held:
  assumes al: "leaves_alone v S" "q \<in> S" and g: "g \<Longrightarrow> fault_free v"
  shows "held_at S q m0 (has_bytes d) w \<Longrightarrow> copy_all v q rest unsynced w = (r, w')
    \<Longrightarrow> (case r of Inl _ \<Rightarrow> failed g S q m0 w' | Inr _ \<Rightarrow> held_at S q m0 (has_bytes (d @ rest)) w')"
proof (induction "length rest" arbitrary: rest unsynced d w rule: less_induct)
  case less
  let ?k = "\<lambda>n. read_len v n rest"
  have look: "triple (held_at S q m0 (has_bytes d)) (os_call (syscall v (\<lambda>n m. (Inr n, m)))) (\<lambda>_. held_at S q m0 (has_bytes d)) (\<lambda>_. failed g S q m0)"
    by (intro triple_os_call held_look [OF al g]) simp_all
  show ?case
  proof (cases "cancelled v w")
    case True
    with g have "\<not> g" by (auto simp: cancelled_def fault_free_def)
    with True less.prems held_failed show ?thesis by (subst (asm) copy_all.simps) (auto simp: fail_def)
  next
    case nc: False
    obtain x w1 where read: "os_call (syscall v (\<lambda>n m. (Inr n, m))) w = (x, w1)" by fastforce
    note h1 = triple_run [OF look less.prems(1) read]
    show ?thesis
    proof (cases x)
      case (Inl e)
      with less.prems(2) nc read h1 show ?thesis by (subst (asm) copy_all.simps) auto
    next
      case (Inr n)
      with h1 have h1: "held_at S q m0 (has_bytes d) w1" by simp
      show ?thesis
      proof (cases "rest = []")
        case True
        with less.prems(2) nc read Inr h1 show ?thesis by (subst (asm) copy_all.simps) auto
      next
        case False
        let ?a = "take (?k n) rest" and ?b = "drop (?k n) rest"
        have shorter: "length ?b < length rest" using False by (simp add: read_len_def)
        obtain y w2 where app: "os_call (append_file v q ?a) w1 = (y, w2)" by fastforce
        note h2 = triple_run [OF triple_os_call [OF append_held [OF al g]] h1 app]
        show ?thesis
        proof (cases y)
          case (Inl e)
          with less.prems(2) nc read Inr False app h2 show ?thesis by (subst (asm) copy_all.simps) (auto simp: Let_def \<open>x = Inr n\<close>)
        next
          case yr: (Inr u)
          with h2 have h2: "held_at S q m0 (has_bytes (d @ ?a)) w2" by simp
          show ?thesis
          proof (cases "unsynced + ?k n < checkpoint_limit")
            case True
            with less.prems(2) nc read Inr False app yr have "copy_all v q ?b (unsynced + ?k n) w2 = (r, w')"
              by (subst (asm) copy_all.simps) (simp add: Let_def)
            from less.hyps [OF shorter h2 this] show ?thesis by (cases r) auto
          next
            case over: False
            obtain z w3 where sync: "os_call (sync_path v q) w2 = (z, w3)" by fastforce
            note h3 = triple_run [OF triple_os_call [OF sync_held [OF al g]] h2 sync]
            show ?thesis
            proof (cases z)
              case (Inl e)
              with less.prems(2) nc read Inr False app yr over sync h3 show ?thesis
                by (subst (asm) copy_all.simps) (auto simp: Let_def \<open>x = Inr n\<close>)
            next
              case (Inr u')
              with less.prems(2) nc read \<open>x = Inr n\<close> False app yr over sync have "copy_all v q ?b 0 w3 = (r, w')"
                by (subst (asm) copy_all.simps) (simp add: Let_def)
              with less.hyps [OF shorter _ this, of "d @ ?a"] h3 Inr show ?thesis by (cases r) auto
            qed
          qed
        qed
      qed
    qed
  qed
qed

lemma copy_all_triple:
  assumes "leaves_alone v S" "q \<in> S" "g \<Longrightarrow> fault_free v"
  shows "triple (held_at S q m0 (has_bytes d)) (copy_all v q rest u) (\<lambda>_. held_at S q m0 (has_bytes (d @ rest))) (\<lambda>_. failed g S q m0)"
proof (rule tripleI)
  fix w e w' assume "held_at S q m0 (has_bytes d) w" "copy_all v q rest u w = (Inl e, w')"
  from copy_all_held [OF assms this] show "failed g S q m0 w'" by simp
next
  fix w x w' assume "held_at S q m0 (has_bytes d) w" "copy_all v q rest u w = (Inr x, w')"
  from copy_all_held [OF assms this] show "held_at S q m0 (has_bytes (d @ rest)) w'" by simp
qed

lemma copy_to_held:
  assumes al: "leaves_alone v S" "q \<in> S" and g: "g \<Longrightarrow> fault_free v" and src: "src \<in> S" "src \<noteq> q" "m0 src = Some (RegularFile c t)"
  shows "triple (held_at S q m0 (\<lambda>x. g \<longrightarrow> x = None)) (copy_to v src q) (\<lambda>_. held_at S q m0 (has_bytes c)) (\<lambda>_. failed g S q m0)"
proof -
  let ?P = "held_at S q m0 (\<lambda>x. g \<longrightarrow> x = None)"
  let ?f = "\<lambda>n m. (case m src of None \<Rightarrow> Inl absent | Some (RegularFile c t) \<Rightarrow> Inr (c, t)
     | Some _ \<Rightarrow> Inl (io_other ''not a regular file''), m)"
  have op: "triple ?P (os_call (open_source v src)) (\<lambda>x w. ?P w \<and> fst x = c) (\<lambda>_. failed g S q m0)"
  proof -
    have "triple ?P (syscall v ?f) (\<lambda>x. held_at S q m0 (\<lambda>y. (g \<longrightarrow> y = None) \<and> fst x = c)) (\<lambda>_. failed g S q m0)"
      by (rule held_call [OF al g]) (use src in auto)
    then have "triple ?P (open_source v src) (\<lambda>x w. ?P w \<and> fst x = c) (\<lambda>_. failed g S q m0)"
      unfolding open_source_def by (rule triple_weaken) (simp_all add: held_at_def vol_def)
    then show ?thesis by (rule triple_os_call)
  qed
  have size: "triple (held_at S q m0 (has_bytes c)) (os_call (len_at v q)) (\<lambda>n w. held_at S q m0 (has_bytes c) w \<and> n = length c) (\<lambda>_. failed g S q m0)"
  proof -
    have "triple (held_at S q m0 (has_bytes c)) (len_at v q) (\<lambda>n. held_at S q m0 (\<lambda>x. has_bytes c x \<and> n = length c)) (\<lambda>_. failed g S q m0)"
      unfolding len_at_def by (rule held_call [OF al g]) (auto simp: has_bytes_def)
    then have "triple (held_at S q m0 (has_bytes c)) (len_at v q) (\<lambda>n w. held_at S q m0 (has_bytes c) w \<and> n = length c) (\<lambda>_. failed g S q m0)"
      by (rule triple_weaken) (simp_all add: held_at_def vol_def)
    then show ?thesis by (rule triple_os_call)
  qed
  show ?thesis
    unfolding copy_to_def
  proof (rule triple_try_io [OF op])
    fix x :: "string \<times> nat"
    obtain b s where x: "x = (b, s)" by fastforce
    have body: "triple ?P (try_io (os_call (create_temporary v q)) (\<lambda>_. try_io (copy_all v q b 0) (\<lambda>_ w.
       try_io (os_call (len_at v q)) (\<lambda>have. if have \<noteq> length b then fail (StagedSizeMismatch have (length b)) else give (pinned_mtime s))
         (pin_time v q (pinned_mtime s) w)))) (\<lambda>_. held_at S q m0 (has_bytes c)) (\<lambda>_. failed g S q m0)" if b: "b = c"
    proof (rule triple_try_io [OF triple_os_call [OF create_held [OF al g]]])
      have copy: "triple (held_at S q m0 (has_bytes [])) (copy_all v q b 0) (\<lambda>_. held_at S q m0 (has_bytes c)) (\<lambda>_. failed g S q m0)"
        using copy_all_triple [OF al g, where d = "[]" and rest = b and u = 0] b by simp
      have rest: "triple (held_at S q m0 (has_bytes c)) (try_io (os_call (len_at v q))
          (\<lambda>have. if have \<noteq> length b then fail (StagedSizeMismatch have (length b)) else give (pinned_mtime s)))
          (\<lambda>_. held_at S q m0 (has_bytes c)) (\<lambda>_. failed g S q m0)"
        by (rule triple_try_io [OF size], rule triple_fact) (use b in \<open>simp add: triple_give\<close>)
      show "triple (held_at S q m0 (has_bytes [])) (try_io (copy_all v q b 0) (\<lambda>_ w.
       try_io (os_call (len_at v q)) (\<lambda>have. if have \<noteq> length b then fail (StagedSizeMismatch have (length b)) else give (pinned_mtime s))
         (pin_time v q (pinned_mtime s) w))) (\<lambda>_. held_at S q m0 (has_bytes c)) (\<lambda>_. failed g S q m0)"
        by (rule triple_try_io [OF copy])
          (rule triple_after [OF rest pin_held [OF al]])
    qed
    show "triple (\<lambda>w. ?P w \<and> fst x = c) (case x of (bytes, t) \<Rightarrow> try_io (os_call (create_temporary v q)) (\<lambda>_. try_io (copy_all v q bytes 0) (\<lambda>_ w.
       try_io (os_call (len_at v q)) (\<lambda>have. if have \<noteq> length bytes then fail (StagedSizeMismatch have (length bytes)) else give (pinned_mtime t))
         (pin_time v q (pinned_mtime t) w)))) (\<lambda>_. held_at S q m0 (has_bytes c)) (\<lambda>_. failed g S q m0)"
      unfolding x case_prod_conv fst_conv by (rule triple_fact) (rule body)
  qed
qed

lemma sync_copy_held:
  assumes al: "leaves_alone v S" "q \<in> S" and g: "g \<Longrightarrow> fault_free v"
  shows "triple (held_at S q m0 (has_bytes c)) (sync_copy v q) (\<lambda>_. held_at S q m0 (has_bytes c)) (\<lambda>_. failed g S q m0)"
  unfolding sync_copy_def
proof (rule triple_try_io)
  show "triple (held_at S q m0 (has_bytes c)) (os_call (open_existing v q)) (\<lambda>_. held_at S q m0 (has_bytes c)) (\<lambda>_. failed g S q m0)"
    unfolding open_existing_def by (intro triple_os_call held_look [OF al g]) (auto simp: has_bytes_def)
  show "triple (held_at S q m0 (has_bytes c)) (\<lambda>w. halting v (sync_path v q) (beat v q w)) (\<lambda>_. held_at S q m0 (has_bytes c)) (\<lambda>_. failed g S q m0)"
    by (rule triple_after [OF held_halting [OF g sync_held [OF al g]] beat_held [OF al]])
qed

definition sound_bytes :: "deliver_world \<Rightarrow> path \<Rightarrow> expect \<Rightarrow> string \<Rightarrow> bool" where
  "sound_bytes dw p want c \<longleftrightarrow> c \<noteq> [] \<and> length c = ex_size want
     \<and> (case dw_probe dw c of Inl _ \<Rightarrow> False | Inr pb \<Rightarrow> judge_probe p want pb = Inr ())"

lemma verify_held:
  assumes al: "leaves_alone (dw_env dw) S" "q \<in> S" and g: "g \<Longrightarrow> fault_free (dw_env dw)" "g \<Longrightarrow> sound_bytes dw q want c"
  shows "triple (held_at S q m0 (has_bytes c)) (verify_copy dw q want)
     (\<lambda>pb w. held_at S q m0 (has_bytes c) w \<and> dw_probe dw c = Inr pb \<and> sound_bytes dw q want c) (\<lambda>_. failed g S q m0)"
proof -
  let ?v = "dw_env dw" and ?H = "held_at S q m0 (has_bytes c)"
  have size: "triple ?H (os_call (len_at ?v q)) (\<lambda>n w. ?H w \<and> n = length c) (\<lambda>_. failed g S q m0)"
  proof -
    have "triple ?H (len_at ?v q) (\<lambda>n. held_at S q m0 (\<lambda>x. has_bytes c x \<and> n = length c)) (\<lambda>_. failed g S q m0)"
      unfolding len_at_def by (rule held_call [OF al g(1)]) (auto simp: has_bytes_def)
    then have "triple ?H (len_at ?v q) (\<lambda>n w. ?H w \<and> n = length c) (\<lambda>_. failed g S q m0)"
      by (rule triple_weaken) (simp_all add: held_at_def vol_def)
    then show ?thesis by (rule triple_os_call)
  qed
  have bytes: "triple ?H (halting ?v (read_bytes_at ?v q)) (\<lambda>b w. ?H w \<and> b = c) (\<lambda>_. failed g S q m0)"
  proof (rule held_halting [OF g(1)])
    have "triple ?H (read_bytes_at ?v q) (\<lambda>b. held_at S q m0 (\<lambda>x. has_bytes c x \<and> b = c)) (\<lambda>_. failed g S q m0)"
      unfolding read_bytes_at_def by (rule held_call [OF al g(1)]) (auto simp: has_bytes_def)
    then show "triple ?H (read_bytes_at ?v q) (\<lambda>b w. ?H w \<and> b = c) (\<lambda>_. failed g S q m0)"
      by (rule triple_weaken) (simp_all add: held_at_def vol_def)
  qed
  have probe: "triple ?H (\<lambda>w. case dw_probe dw c of Inl e \<Rightarrow> fail (DIo e) (beat ?v q w)
      | Inr pb \<Rightarrow> (case judge_probe q want pb of Inl e \<Rightarrow> fail e | Inr _ \<Rightarrow> give pb) (beat ?v q w))
      (\<lambda>pb w. ?H w \<and> dw_probe dw c = Inr pb \<and> sound_bytes dw q want c) (\<lambda>_. failed g S q m0)"
    if c: "c \<noteq> []" "length c = ex_size want"
  proof (cases "dw_probe dw c")
    case (Inl e)
    with g(2) beat_held [OF al] show ?thesis
      by (auto simp: triple_def fail_def sound_bytes_def intro: held_failed)
  next
    case (Inr pb)
    with g(2) c beat_held [OF al] show ?thesis
      by (cases "judge_probe q want pb") (auto simp: triple_def fail_def give_def sound_bytes_def intro: held_failed)
  qed
  show ?thesis
    unfolding verify_copy_def Let_def
  proof (rule triple_try_io [OF size], rule triple_fact)
    fix n assume n: "n = length c"
    show "triple ?H (if n = 0 then fail (VerifyFailed VerifyEmpty q) else if n \<noteq> ex_size want then fail (StagedSizeMismatch n (ex_size want))
      else try_io (halting ?v (read_bytes_at ?v q)) (\<lambda>bytes w. case dw_probe dw bytes of Inl e \<Rightarrow> fail (DIo e) (beat ?v q w)
        | Inr pb \<Rightarrow> (case judge_probe q want pb of Inl e \<Rightarrow> fail e | Inr _ \<Rightarrow> give pb) (beat ?v q w)))
      (\<lambda>pb w. ?H w \<and> dw_probe dw c = Inr pb \<and> sound_bytes dw q want c) (\<lambda>_. failed g S q m0)"
    proof (intro triple_if)
      show "n = 0 \<Longrightarrow> triple ?H (fail (VerifyFailed VerifyEmpty q)) (\<lambda>pb w. ?H w \<and> dw_probe dw c = Inr pb \<and> sound_bytes dw q want c) (\<lambda>_. failed g S q m0)"
        using n g(2) by (auto simp: sound_bytes_def intro!: triple_fail held_failed)
      show "n \<noteq> ex_size want \<Longrightarrow> triple ?H (fail (StagedSizeMismatch n (ex_size want))) (\<lambda>pb w. ?H w \<and> dw_probe dw c = Inr pb \<and> sound_bytes dw q want c) (\<lambda>_. failed g S q m0)"
        using n g(2) by (auto simp: sound_bytes_def intro!: triple_fail held_failed)
    next
      assume "n \<noteq> 0" "\<not> n \<noteq> ex_size want"
      with n have c: "c \<noteq> []" "length c = ex_size want" by auto
      show "triple ?H (try_io (halting ?v (read_bytes_at ?v q)) (\<lambda>bytes w. case dw_probe dw bytes of Inl e \<Rightarrow> fail (DIo e) (beat ?v q w)
        | Inr pb \<Rightarrow> (case judge_probe q want pb of Inl e \<Rightarrow> fail e | Inr _ \<Rightarrow> give pb) (beat ?v q w)))
        (\<lambda>pb w. ?H w \<and> dw_probe dw c = Inr pb \<and> sound_bytes dw q want c) (\<lambda>_. failed g S q m0)"
        by (rule triple_try_io [OF bytes], rule triple_fact) (use probe [OF c] in simp)
    qed
  qed
qed

section \<open>The landing\<close>

definition may_land :: "bool \<Rightarrow> target_stamp option \<Rightarrow> disk_node option \<Rightarrow> bool" where
  "may_land replace old x \<longleftrightarrow> x = None \<or> replace
     \<and> (\<exists>c t. x = Some (RegularFile c t) \<and> (old = None \<or> old = Some (TargetPresent (length c) t)))"

text \<open>After a landing: the copy is the target. After a landing that failed, the target is as it was, or
  it was absent and a publication was cut off.\<close>

definition file_landed :: "path set \<Rightarrow> path \<Rightarrow> path \<Rightarrow> nodes \<Rightarrow> string \<Rightarrow> 'j volume \<Rightarrow> bool" where
  "file_landed S q target m0 c = vol (\<lambda>_ m. (\<forall>p \<in> S. p \<noteq> q \<longrightarrow> p \<noteq> target \<longrightarrow> m p = m0 p) \<and> has_bytes c (m target) \<and> m q = None)"

definition not_landed :: "path set \<Rightarrow> path \<Rightarrow> path \<Rightarrow> nodes \<Rightarrow> string \<Rightarrow> 'j volume \<Rightarrow> bool" where
  "not_landed S q target m0 c = vol (\<lambda>_ m. (\<forall>p \<in> S. p \<noteq> q \<longrightarrow> p \<noteq> target \<longrightarrow> m p = m0 p)
     \<and> (m target = m0 target \<or> m0 target = None \<and> (has_bytes c (m target) \<or> has_bytes [] (m target))))"

lemma held_not_landed: "target \<in> S \<Longrightarrow> target \<noteq> q \<Longrightarrow> held_at S q m0 k w \<Longrightarrow> not_landed S q target m0 c w"
  by (simp add: held_at_def not_landed_def vol_def)

lemma look_target:
  assumes al: "leaves_alone v S" "q \<in> S" and t: "target \<in> S" "target \<noteq> q"
    and f: "\<And>n m. f n m = (h n (m target), m)"
  shows "triple (held_at S q m0 k) (syscall v f)
     (\<lambda>x w. held_at S q m0 k w \<and> (\<exists>n. h n (m0 target) = Inr x))
     (\<lambda>e w. held_at S q m0 k w \<and> (fault_free v \<or> truthful v \<and> err_kind e = NotFound \<longrightarrow> (\<exists>n. h n (m0 target) = Inl e)))"
proof -
  have "triple (held_at S q m0 k) (syscall v f)
     (\<lambda>x. vol (\<lambda>_ m. ((\<forall>p \<in> S. p \<noteq> q \<longrightarrow> m p = m0 p) \<and> k (m q)) \<and> (\<exists>n. h n (m0 target) = Inr x)))
     (\<lambda>e. vol (\<lambda>_ m. ((\<forall>p \<in> S. p \<noteq> q \<longrightarrow> m p = m0 p) \<and> k (m q))
        \<and> (fault_free v \<or> truthful v \<and> err_kind e = NotFound \<longrightarrow> (\<exists>n. h n (m0 target) = Inl e))))"
    unfolding held_at_def
    by (rule vol_syscall)
      (use al t in \<open>auto simp: leaves_alone_def f fault_free_def dest: truthful_fault\<close>)
  then show ?thesis by (rule triple_weaken) (simp_all add: held_at_def vol_def)
qed

lemma fault_free_truthful: "fault_free v \<Longrightarrow> truthful v"
  by (simp add: fault_free_def truthful_def)

lemma target_present_held:
  assumes al: "leaves_alone v S" "q \<in> S" and g: "g \<Longrightarrow> fault_free v" and t: "target \<in> S" "target \<noteq> q"
  shows "triple (held_at S q m0 k) (target_present v target)
     (\<lambda>b w. held_at S q m0 k w \<and> (truthful v \<longrightarrow> b = (m0 target \<noteq> None))) (\<lambda>_. failed g S q m0)"
  unfolding target_present_def symlink_metadata_def
proof (rule triple_attempt_io [OF look_target [OF al t]])
  show "(case m target of None \<Rightarrow> Inl absent | Some n \<Rightarrow> Inr n, m) = ((\<lambda>_ x. case x of None \<Rightarrow> Inl absent | Some n \<Rightarrow> Inr n) n (m target), m)" for n :: nat and m :: nodes
    by simp
  show "triple (\<lambda>w. held_at S q m0 k w \<and> (\<exists>n. (case m0 target of None \<Rightarrow> Inl absent | Some n \<Rightarrow> Inr n) = Inr x))
     (case Inr x of Inr _ \<Rightarrow> give True | Inl e \<Rightarrow> if err_kind e = NotFound then give False else fail e)
     (\<lambda>b w. held_at S q m0 k w \<and> (truthful v \<longrightarrow> b = (m0 target \<noteq> None))) (\<lambda>_. failed g S q m0)" for x
    by (auto intro!: triple_give split: option.splits)
  show "triple (\<lambda>w. held_at S q m0 k w \<and> (fault_free v \<or> truthful v \<and> err_kind e = NotFound \<longrightarrow> (\<exists>n. (case m0 target of None \<Rightarrow> Inl absent | Some n \<Rightarrow> Inr n) = Inl e)))
     (case Inl e of Inr _ \<Rightarrow> give True | Inl e \<Rightarrow> if err_kind e = NotFound then give False else fail e)
     (\<lambda>b w. held_at S q m0 k w \<and> (truthful v \<longrightarrow> b = (m0 target \<noteq> None))) (\<lambda>_. failed g S q m0)" for e
    using g by (auto intro!: triple_give triple_fail split: option.splits if_splits simp: absent_def intro: held_failed)
qed

lemma refuse_existing_held:
  assumes al: "leaves_alone v S" "q \<in> S" and g: "g \<Longrightarrow> fault_free v" "g \<Longrightarrow> may_land replace old (m0 target)" and t: "target \<in> S" "target \<noteq> q"
  shows "triple (held_at S q m0 k) (refuse_existing v target replace) (\<lambda>_. held_at S q m0 k) (\<lambda>_. failed g S q m0)"
  unfolding refuse_existing_def
proof (rule triple_if)
  show "triple (held_at S q m0 k) (give ()) (\<lambda>_. held_at S q m0 k) (\<lambda>_. failed g S q m0)" by (simp add: triple_give)
  assume "\<not> replace"
  with g fault_free_truthful [of v] have "\<not> g" if "truthful v \<longrightarrow> m0 target \<noteq> None" using that by (auto simp: may_land_def)
  then show "triple (held_at S q m0 k) (try_io (os_call (target_present v target)) (\<lambda>there. if there then fail (TargetExists target) else give ()))
     (\<lambda>_. held_at S q m0 k) (\<lambda>_. failed g S q m0)"
    by (intro triple_try_io [OF triple_os_call [OF target_present_held [OF al g(1) t]]] triple_fact)
      (auto intro!: triple_give triple_fail held_failed)
qed

definition unchanged_since :: "target_stamp option \<Rightarrow> disk_node option \<Rightarrow> bool" where
  "unchanged_since old x \<longleftrightarrow> (\<forall>b c t. old = Some b \<and> x = Some (RegularFile c t) \<longrightarrow> b = TargetPresent (length c) t)"

lemma refuse_changed_held:
  assumes al: "leaves_alone v S" "q \<in> S" and g: "g \<Longrightarrow> fault_free v" "g \<Longrightarrow> may_land replace (Some b) (m0 target)" and t: "target \<in> S" "target \<noteq> q"
  shows "triple (held_at S q m0 k) (refuse_changed v target b)
     (\<lambda>_ w. held_at S q m0 k w \<and> (truthful v \<longrightarrow> unchanged_since (Some b) (m0 target))) (\<lambda>_. failed g S q m0)"
  unfolding refuse_changed_def target_now_def
proof (rule triple_attempt_io [OF look_target [OF al t]])
  let ?h = "\<lambda>n x. case x of None \<Rightarrow> Inl absent | Some y \<Rightarrow> Inr (target_of v n y)"
  let ?Q = "\<lambda>_ w. held_at S q m0 k w \<and> (truthful v \<longrightarrow> unchanged_since (Some b) (m0 target))"
  show "(case m target of None \<Rightarrow> Inl absent | Some y \<Rightarrow> Inr (target_of v n y), m) = (?h n (m target), m)" for n and m :: nodes
    by simp
  show "triple (\<lambda>w. held_at S q m0 k w \<and> (\<exists>n. ?h n (m0 target) = Inr x))
     (case Inr x of Inl e \<Rightarrow> if err_kind e = NotFound then give () else fail (DIo e)
      | Inr now \<Rightarrow> if b = TargetUnknown \<or> now \<noteq> b then fail (TargetExists target) else give ()) ?Q (\<lambda>_. failed g S q m0)" for x
    using g by (auto intro!: triple_give triple_fail split: option.splits disk_node.splits
        simp: unchanged_since_def target_of_def may_land_def intro!: held_failed)
  show "triple (\<lambda>w. held_at S q m0 k w \<and> (fault_free v \<or> truthful v \<and> err_kind e = NotFound \<longrightarrow> (\<exists>n. ?h n (m0 target) = Inl e)))
     (case Inl e of Inl e \<Rightarrow> if err_kind e = NotFound then give () else fail (DIo e)
      | Inr now \<Rightarrow> if b = TargetUnknown \<or> now \<noteq> b then fail (TargetExists target) else give ()) ?Q (\<lambda>_. failed g S q m0)" for e
    using g by (auto intro!: triple_give triple_fail split: option.splits if_splits simp: absent_def unchanged_since_def intro: held_failed)
qed

lemma land_held:
  assumes al: "leaves_alone v S" "q \<in> S" and g: "g \<Longrightarrow> fault_free v" "g \<Longrightarrow> may_land replace old (m0 target)" and t: "target \<in> S" "target \<noteq> q"
    and pub: "publishes (ev_publish v)"
  shows "triple (held_at S q m0 (has_bytes c)) (land v q target replace)
     (\<lambda>_ w. file_landed S q target m0 c w \<and> (replace \<or> m0 target = None)) (\<lambda>_ w. not_landed S q target m0 c w \<and> \<not> g)"
proof -
  let ?I = "\<lambda>_ m. (\<forall>p \<in> S. p \<noteq> q \<longrightarrow> m p = m0 p) \<and> has_bytes c (m q)"
  let ?Q = "\<lambda>_ m. ((\<forall>p \<in> S. p \<noteq> q \<longrightarrow> p \<noteq> target \<longrightarrow> m p = m0 p) \<and> has_bytes c (m target) \<and> m q = None) \<and> (replace \<or> m0 target = None)"
  let ?E = "\<lambda>_ m. ((\<forall>p \<in> S. p \<noteq> q \<longrightarrow> p \<noteq> target \<longrightarrow> m p = m0 p)
     \<and> (m target = m0 target \<or> m0 target = None \<and> (has_bytes c (m target) \<or> has_bytes [] (m target)))) \<and> \<not> g"
  have foreign: "?I j (ev_foreign v n m)" if "?I j m" for j :: "'a doc slot" and n m
    using that al by (simp add: leaves_alone_def)
  have fault: "?E j m" if "?I j m" "ev_fault v n = Some e" for j :: "'a doc slot" and n m e
    using that g t by (auto simp: fault_free_def)
  have "triple (vol ?I) (land v q target replace) (\<lambda>_. vol ?Q) (\<lambda>_. vol ?E)"
  proof (cases replace)
    case True
    have "triple (vol ?I) (rename_path v q target) (\<lambda>_. vol ?Q) (\<lambda>_. vol ?E)"
      unfolding rename_path_def
    proof (rule vol_syscall [where I = ?I])
      show "?Q j m'" if "?I j m" "(case m q of None \<Rightarrow> (Inl absent, m) | Some k \<Rightarrow> if m target = Some DirNode
          then (Inl (io_other ''is a directory''), m) else (Inr (), m(q := None, target \<mapsto> k))) = (Inr x, m')" for n j m x m'
        using that t True by (auto simp: has_bytes_def split: if_splits)
      show "?E j m'" if "?I j m" "(case m q of None \<Rightarrow> (Inl absent, m) | Some k \<Rightarrow> if m target = Some DirNode
          then (Inl (io_other ''is a directory''), m) else (Inr (), m(q := None, target \<mapsto> k))) = (Inl e, m')" for n j m e m'
        using that t g by (auto simp: has_bytes_def may_land_def split: if_splits)
    qed (use foreign fault in blast)+
    from triple_os_call [OF this] True show ?thesis by (simp add: land_def)
  next
    case False
    have "triple (vol ?I) (publish_path v q target) (\<lambda>_. vol ?Q) (\<lambda>_. vol ?E)"
      unfolding publish_path_def
    proof (rule vol_syscall [where I = ?I])
      have p: "m' = m \<and> r \<noteq> Inr () \<or> m q \<noteq> None \<and> m target = None \<and> m' = m(q := None, target := m q)
          \<or> m target = None \<and> r \<noteq> Inr () \<and> (\<exists>t. m' = m(target \<mapsto> RegularFile [] t))"
        if "ev_publish v q target m = (r, m')" for r m m'
        using spec [OF spec [OF spec [OF pub [unfolded publishes_def], of q], of target], of m] that by simp
      show "?Q j m'" if "?I j m" "ev_publish v q target m = (Inr x, m')" for n j m x m'
        using p [OF that(2)] that(1) t by (auto simp: has_bytes_def)
      fix n j m e m'
      assume i: "?I j m" and run: "ev_publish v q target m = (Inl e, m')"
      have "\<not> g"
      proof
        assume g' : g
        with g(2) False i t have "m target = None" by (simp add: may_land_def)
        moreover from i have "m q \<noteq> None" by (auto simp: has_bytes_def)
        ultimately show False using g(1) [OF g'] run by (simp add: fault_free_def)
      qed
      with p [OF run] i t show "?E j m'" by (auto simp: has_bytes_def)
    qed (use foreign fault in blast)+
    from triple_map_err' [OF this] False show ?thesis by (simp add: land_def)
  qed
  then show ?thesis
    unfolding held_at_def by (rule triple_weaken) (simp_all add: file_landed_def not_landed_def vol_def)
qed

lemma replace_step_held:
  assumes al: "leaves_alone v S" "q \<in> S" and g: "g \<Longrightarrow> fault_free v" "g \<Longrightarrow> may_land replace old (m0 target)" and t: "target \<in> S" "target \<noteq> q"
    and pub: "publishes (ev_publish v)"
  shows "triple (held_at S q m0 (has_bytes c)) (replace_step v q target replace old)
     (\<lambda>b w. file_landed S q target m0 c w \<and> (replace \<or> m0 target = None)
        \<and> (truthful v \<longrightarrow> b = (m0 target \<noteq> None) \<and> unchanged_since old (m0 target)))
     (\<lambda>_ w. not_landed S q target m0 c w \<and> \<not> g)"
proof -
  let ?H = "held_at S q m0 (has_bytes c)" and ?E = "\<lambda>w. not_landed S q target m0 c w \<and> \<not> g"
  have fail_E: "failed g S q m0 w \<Longrightarrow> ?E w" for w
    using held_not_landed [OF t] by (auto simp: failed_def)
  have changed: "triple ?H (case old of None \<Rightarrow> give () | Some b \<Rightarrow> refuse_changed v target b)
      (\<lambda>_ w. ?H w \<and> (truthful v \<longrightarrow> unchanged_since old (m0 target))) (\<lambda>_. failed g S q m0)"
    using refuse_changed_held [OF al g(1), of g replace _ m0 target] g(2) t
    by (cases old) (auto simp: unchanged_since_def intro!: triple_give)
  have land: "triple ?H (\<lambda>w. if cancelled v w then fail Halted w else try_io (land v q target replace) (\<lambda>_. give b) w)
      (\<lambda>b' w. file_landed S q target m0 c w \<and> (replace \<or> m0 target = None) \<and> b' = b) (\<lambda>_. ?E)" for b
  proof (rule tripleI)
    have run: "triple ?H (try_io (land v q target replace) (\<lambda>_. give b))
      (\<lambda>b' w. file_landed S q target m0 c w \<and> (replace \<or> m0 target = None) \<and> b' = b) (\<lambda>_. ?E)"
      by (rule triple_try_io [OF land_held [where ?m0.0 = m0 and target = target, OF al g t pub]]) (simp_all add: triple_give)
    { fix w e w' assume w: "?H w" and r: "(if cancelled v w then fail Halted w else try_io (land v q target replace) (\<lambda>_. give b) w) = (Inl e, w')"
      show "?E w'"
      proof (cases "cancelled v w")
        case True
        with g(1) have "\<not> g" by (auto simp: cancelled_def fault_free_def)
        with True r held_not_landed [OF t w] show ?thesis by (simp add: fail_def)
      next
        case False
        with r triple_run [OF run w] show ?thesis by fastforce
      qed }
    { fix w x w' assume w: "?H w" and r: "(if cancelled v w then fail Halted w else try_io (land v q target replace) (\<lambda>_. give b) w) = (Inr x, w')"
      with triple_run [OF run w] show "file_landed S q target m0 c w' \<and> (replace \<or> m0 target = None) \<and> x = b"
        by (fastforce simp: fail_def split: if_splits) }
  qed
  have there: "triple ?H (os_call (target_present v target)) (\<lambda>b w. ?H w \<and> (truthful v \<longrightarrow> b = (m0 target \<noteq> None))) (\<lambda>_. ?E)"
    by (rule triple_err [OF triple_os_call [OF target_present_held [OF al g(1) t]] fail_E])
  have existing: "triple ?H (refuse_existing v target replace) (\<lambda>_. ?H) (\<lambda>_. ?E)"
    by (rule triple_err [OF refuse_existing_held [where g = g and old = old, OF al g(1) _ t] fail_E]) (assumption, erule g(2), assumption)
  have altered: "triple ?H (case old of None \<Rightarrow> give () | Some b \<Rightarrow> refuse_changed v target b)
      (\<lambda>_ w. ?H w \<and> (truthful v \<longrightarrow> unchanged_since old (m0 target))) (\<lambda>_. ?E)"
    by (rule triple_err [OF changed fail_E])
  show ?thesis
    unfolding replace_step_def
  proof (rule triple_try_io [OF existing], rule triple_try_io [OF altered], rule triple_fact)
    assume u: "truthful v \<longrightarrow> unchanged_since old (m0 target)"
    show "triple ?H (try_io (os_call (target_present v target)) (\<lambda>b w. if cancelled v w then fail Halted w else try_io (land v q target replace) (\<lambda>_. give b) w))
       (\<lambda>b w. file_landed S q target m0 c w \<and> (replace \<or> m0 target = None)
        \<and> (truthful v \<longrightarrow> b = (m0 target \<noteq> None) \<and> unchanged_since old (m0 target))) (\<lambda>_. ?E)"
      by (rule triple_try_io [OF there], rule triple_fact, rule triple_weaken [OF land]) (use u in auto)
  qed
qed

text \<open>What a landing that succeeded has shown.\<close>

definition shown :: "deliver_world \<Rightarrow> path \<Rightarrow> path \<Rightarrow> nodes \<Rightarrow> string \<Rightarrow> bool \<Rightarrow> expect \<Rightarrow> target_stamp option \<Rightarrow> bool \<Rightarrow> bool" where
  "shown dw q target m0 c replace want old b \<longleftrightarrow> (replace \<or> m0 target = None) \<and> sound_bytes dw q want c
     \<and> (truthful (dw_env dw) \<longrightarrow> b = (m0 target \<noteq> None) \<and> unchanged_since old (m0 target))"

lemma phase: "triple P m Q (\<lambda>_. E) \<Longrightarrow> triple P (in_phase ph m) Q (\<lambda>_. E)"
  unfolding in_phase_def by (rule triple_map_err')

lemma deliver_steps_held:
  assumes al: "leaves_alone (dw_env dw) S" "q \<in> S"
    and g: "g \<Longrightarrow> fault_free (dw_env dw)" "g \<Longrightarrow> may_land replace old (m0 target)" "g \<Longrightarrow> sound_bytes dw q want c"
    and t: "target \<in> S" "target \<noteq> q" and pub: "publishes (ev_publish (dw_env dw))"
    and src: "local \<in> S" "local \<noteq> q" "m0 local = Some (RegularFile c tm)"
  shows "triple (held_at S q m0 (\<lambda>x. g \<longrightarrow> x \<noteq> Some DirNode)) (deliver_steps dw local target q replace want old)
     (\<lambda>b w. file_landed S q target m0 c w \<and> shown dw q target m0 c replace want old b)
     (\<lambda>_ w. not_landed S q target m0 c w \<and> \<not> g)"
proof -
  let ?v = "dw_env dw" and ?H = "held_at S q m0 (has_bytes c)" and ?E = "\<lambda>w. not_landed S q target m0 c w \<and> \<not> g"
  let ?P = "held_at S q m0 (\<lambda>x. g \<longrightarrow> x \<noteq> Some DirNode)"
  have fail_E: "failed g S q m0 w \<Longrightarrow> ?E w" for w
    using held_not_landed [OF t] by (auto simp: failed_def)
  have c1: "triple ?P (refuse_existing ?v target replace) (\<lambda>_. ?P) (\<lambda>_. failed g S q m0)"
    by (rule refuse_existing_held [where g = g and old = old, OF al g(1) _ t]) (assumption, erule g(2))
  have "triple ?P (copy_step ?v local target q replace) (\<lambda>_. ?H) (\<lambda>_. failed g S q m0)"
    unfolding copy_step_def
    by (rule triple_try_io [OF c1], rule triple_try_io, rule triple_os_call [OF remove_held [OF al g(1)]], assumption,
        rule copy_to_held [where ?m0.0 = m0 and src = local, OF al g(1) src])
  then have copy: "triple ?P (in_phase ''copy'' (copy_step ?v local target q replace)) (\<lambda>_. ?H) (\<lambda>_. ?E)"
    by (intro phase) (erule triple_err, erule fail_E)
  have sync: "triple ?H (in_phase ''sync'' (sync_copy ?v q)) (\<lambda>_. ?H) (\<lambda>_. ?E)"
    by (intro phase) (rule triple_err [OF sync_copy_held [OF al g(1)] fail_E])
  have "triple ?H (verify_copy dw q want) (\<lambda>_ w. ?H w \<and> sound_bytes dw q want c) (\<lambda>_. ?E)"
    by (rule triple_err [OF triple_weaken [OF verify_held [where g = g, OF al g(1) g(3)]] fail_E]) auto
  then have verify: "triple ?H (in_phase ''verify'' (verify_copy dw q want)) (\<lambda>_ w. ?H w \<and> sound_bytes dw q want c) (\<lambda>_. ?E)"
    by (rule phase)
  have "triple ?H (\<lambda>w. in_phase ''replace'' (replace_step ?v q target replace old) (pin_time ?v q p w))
      (\<lambda>b w. file_landed S q target m0 c w \<and> (replace \<or> m0 target = None)
        \<and> (truthful ?v \<longrightarrow> b = (m0 target \<noteq> None) \<and> unchanged_since old (m0 target))) (\<lambda>_. ?E)" for p
    by (rule triple_after [OF phase [OF replace_step_held [where g = g and ?m0.0 = m0 and target = target, OF al g(1) g(2) t pub]] pin_held [OF al]])
  then have final: "triple ?H (\<lambda>w. in_phase ''replace'' (replace_step ?v q target replace old) (pin_time ?v q p w))
      (\<lambda>b w. file_landed S q target m0 c w \<and> shown dw q target m0 c replace want old b) (\<lambda>_. ?E)"
    if "sound_bytes dw q want c" for p
    by (rule triple_weaken) (use that in \<open>auto simp: shown_def\<close>)
  show ?thesis
    unfolding deliver_steps_def Let_def
    by (rule triple_try_io [OF copy], rule triple_try_io [OF sync], rule triple_try_io [OF verify], rule triple_fact, erule final)
qed

lemma landing_looks:
  assumes "leaves_alone v S" "q \<in> S" "target \<in> S" "\<And>n m. snd (f n m) = m"
  shows "file_landed S q target m0 c w \<Longrightarrow> file_landed S q target m0 c (snd (syscall v f w))"
    "not_landed S q target m0 c w \<Longrightarrow> not_landed S q target m0 c (snd (syscall v f w))"
proof -
  have "keeps (file_landed S q target m0 c) (syscall v f)"
    unfolding file_landed_def by (rule keeps_syscall) (use assms in \<open>auto simp: leaves_alone_def\<close>)
  then show "file_landed S q target m0 c w \<Longrightarrow> file_landed S q target m0 c (snd (syscall v f w))" by (rule keeps_snd)
  have "keeps (not_landed S q target m0 c) (syscall v f)"
    unfolding not_landed_def by (rule keeps_syscall) (use assms in \<open>auto simp: leaves_alone_def\<close>)
  then show "not_landed S q target m0 c w \<Longrightarrow> not_landed S q target m0 c (snd (syscall v f w))" by (rule keeps_snd)
qed

lemma unlock_landing:
  assumes "leaves_alone v S" "q \<in> S" "target \<in> S"
  shows "file_landed S q target m0 c w \<Longrightarrow> file_landed S q target m0 c (unlock_target v p w)"
    "not_landed S q target m0 c w \<Longrightarrow> not_landed S q target m0 c (unlock_target v p w)"
  unfolding unlock_target_def lock_target_def by (auto intro!: landing_looks [OF assms])

lemma sync_landing_landed:
  assumes "leaves_alone v S" "q \<in> S" "target \<in> S" "file_landed S q target m0 c w"
  shows "file_landed S q target m0 c (sync_landing v p w)"
  using landing_looks(1) [OF assms(1-3), of "\<lambda>_ m. (Inr (), m)" m0 c w] assms(4)
  by (auto simp: sync_landing_def halting_def fail_def os_call_def map_err_def sync_path_def split: option.split prod.split sum.split)

lemma drop_remote_not_landed:
  assumes "leaves_alone v S" "q \<in> S" "target \<in> S" "target \<noteq> q" "not_landed S q target m0 c w"
  shows "not_landed S q target m0 c (drop_remote v q p w)"
proof -
  have "keeps (not_landed S q target m0 c) (remove_path v q)"
    unfolding not_landed_def remove_path_def
    by (rule keeps_syscall) (use assms(1-4) in \<open>auto simp: leaves_alone_def split: option.splits disk_node.splits\<close>)
  from unlock_landing(2) [OF assms(1-3) keeps_snd [OF this assms(5)]] show ?thesis by (simp add: drop_remote_def)
qed

lemma deliver_file_outcome:
  fixes target dw defines "q \<equiv> target_partial target"
  assumes al: "leaves_alone (dw_env dw) S" and S: "target \<in> S" "q \<in> S" "local \<in> S" "target \<noteq> q" "local \<noteq> q"
    and g: "g \<Longrightarrow> fault_free (dw_env dw)" "g \<Longrightarrow> may_land replace old (vo_nodes w target)" "g \<Longrightarrow> sound_bytes dw q want c"
      "g \<Longrightarrow> vo_nodes w q \<noteq> Some DirNode"
    and pub: "publishes (ev_publish (dw_env dw))" and src: "vo_nodes w local = Some (RegularFile c tm)"
    and run: "deliver_file dw local target replace want old w = (r, w')"
  shows "case r of Inr b \<Rightarrow> file_landed S q target (vo_nodes w) c w' \<and> shown dw q target (vo_nodes w) c replace want old b
    | Inl _ \<Rightarrow> not_landed S q target (vo_nodes w) c w' \<and> \<not> g"
proof -
  let ?v = "dw_env dw" and ?m0 = "vo_nodes w"
  let ?k = "\<lambda>x. g \<longrightarrow> x \<noteq> Some DirNode"
  let ?H = "held_at S q ?m0 ?k" and ?E = "\<lambda>w. not_landed S q target ?m0 c w \<and> \<not> g"
  have fail_E: "failed g S q ?m0 u \<Longrightarrow> ?E u" for u
    using held_not_landed [OF S(1,4)] by (auto simp: failed_def)
  have start: "?H w" using g(4) by (simp add: held_at_def vol_def)
  have lock: "triple ?H (in_phase ''copy'' (halting ?v (lock_target ?v target))) (\<lambda>_. ?H) (\<lambda>_. ?E)"
    unfolding lock_target_def
    by (rule phase, rule triple_err [OF held_halting [OF g(1) held_look [OF al S(2) g(1)]] fail_E]) auto
  have check: "triple ?H (in_phase ''target'' (case old of None \<Rightarrow> give () | Some b \<Rightarrow> refuse_changed ?v target b)) (\<lambda>_. ?H) (\<lambda>_. ?E)"
  proof (rule phase, cases old)
    case None
    then show "triple ?H (case old of None \<Rightarrow> give () | Some b \<Rightarrow> refuse_changed ?v target b) (\<lambda>_. ?H) (\<lambda>_. ?E)"
      by (simp add: triple_give)
  next
    case (Some b)
    have "triple ?H (refuse_changed ?v target b) (\<lambda>_ w. ?H w \<and> (truthful ?v \<longrightarrow> unchanged_since (Some b) (?m0 target))) (\<lambda>_. failed g S q ?m0)"
      by (rule refuse_changed_held [where g = g and replace = replace, OF al S(2) g(1) _ S(1,4)]) (use g(2) Some in auto)
    from triple_err [OF this fail_E] have "triple ?H (refuse_changed ?v target b) (\<lambda>_. ?H) (\<lambda>_. ?E)"
      by (rule triple_weaken) auto
    with Some show "triple ?H (case old of None \<Rightarrow> give () | Some b \<Rightarrow> refuse_changed ?v target b) (\<lambda>_. ?H) (\<lambda>_. ?E)" by simp
  qed
  have steps: "triple ?H (deliver_steps dw local target q replace want old)
     (\<lambda>b w. file_landed S q target ?m0 c w \<and> shown dw q target ?m0 c replace want old b) (\<lambda>_. ?E)"
    by (rule deliver_steps_held [where g = g and ?m0.0 = ?m0 and local = local, OF al S(2) g(1,2,3) S(1,4) pub S(3,5) src])
  obtain a w1 where l: "in_phase ''copy'' (halting ?v (lock_target ?v target)) w = (a, w1)" by fastforce
  note h1 = triple_run [OF lock start l]
  show ?thesis
  proof (cases a)
    case (Inl e)
    with h1 l run show ?thesis by (auto simp: deliver_file_def Let_def)
  next
    case (Inr u)
    with h1 have h1: "?H w1" by simp
    obtain b w2 where k: "in_phase ''target'' (case old of None \<Rightarrow> give () | Some b \<Rightarrow> refuse_changed ?v target b) w1 = (b, w2)" by fastforce
    note h2 = triple_run [OF check h1 k]
    show ?thesis
    proof (cases b)
      case (Inl e)
      with h2 l k run \<open>a = Inr u\<close> unlock_landing(2) [OF al S(2,1)] show ?thesis by (auto simp: deliver_file_def Let_def)
    next
      case br: (Inr u')
      with h2 have h2: "?H w2" by simp
      obtain d w3 where s: "deliver_steps dw local target q replace want old w2 = (d, w3)" by fastforce
      note h3 = triple_run [OF steps h2 s]
      show ?thesis
      proof (cases d)
        case (Inl e)
        with h3 l k s run \<open>a = Inr u\<close> br drop_remote_not_landed [OF al S(2,1,4)] show ?thesis
          by (auto simp: deliver_file_def Let_def q_def)
      next
        case (Inr x)
        with h3 l k s run \<open>a = Inr u\<close> br unlock_landing(1) [OF al S(2,1) sync_landing_landed [OF al S(2,1)]] show ?thesis
          by (auto simp: deliver_file_def Let_def q_def)
      qed
    qed
  qed
qed

section \<open>Keeping a file that could not land\<close>

definition same_on :: "path set \<Rightarrow> 'j volume \<Rightarrow> 'j volume \<Rightarrow> bool" where
  "same_on S w w' \<longleftrightarrow> (\<forall>p \<in> S. vo_nodes w' p = vo_nodes w p)"

lemma same_on_trans: "same_on S w w' \<Longrightarrow> same_on S' w' w'' \<Longrightarrow> S'' \<subseteq> S \<Longrightarrow> S'' \<subseteq> S' \<Longrightarrow> same_on S'' w w''"
  unfolding same_on_def by (metis subsetD)

lemma call_same:
  assumes "leaves_alone v S" "\<And>n m p. p \<in> S - X \<Longrightarrow> snd (f n m) p = m p"
  shows "same_on (S - X) w (snd (syscall v f w))"
proof -
  have "keeps (vol (\<lambda>_ m. \<forall>p \<in> S - X. m p = vo_nodes w p)) (syscall v f)"
    by (rule keeps_syscall) (use assms in \<open>auto simp: leaves_alone_def\<close>)
  from keeps_snd [OF this, of w] show ?thesis by (simp add: same_on_def vol_def)
qed

lemma look_same: "leaves_alone v S \<Longrightarrow> (\<And>n m. snd (f n m) = m) \<Longrightarrow> same_on S w (snd (syscall v f w))"
  using call_same [of v S "{}" f w] by simp

lemma drop_file_same:
  assumes "leaves_alone v S"
  shows "same_on (S - {p}) w (drop_file v p w)"
proof -
  have "same_on (S - {p}) w (snd (truncate_file v p w))"
    unfolding truncate_file_def by (rule call_same [OF assms]) (auto split: option.splits disk_node.splits)
  moreover have "same_on (S - {p}) u (snd (remove_path v p u))" for u
    unfolding remove_path_def by (rule call_same [OF assms]) (auto split: option.splits disk_node.splits)
  ultimately show ?thesis unfolding drop_file_def by (blast intro: same_on_trans)
qed

lemma rename_same:
  assumes "leaves_alone v S" "s \<in> S" "d \<in> S" "s \<noteq> d" "rename_path v s d w = (r, w')"
  shows "same_on (S - {s, d}) w w'" "r = Inl e \<Longrightarrow> same_on S w w'" "r = Inr u \<Longrightarrow> vo_nodes w' d = vo_nodes w s"
proof -
  show "same_on (S - {s, d}) w w'"
    using call_same [OF assms(1), of "{s, d}" "\<lambda>_ m. case m s of None \<Rightarrow> (Inl absent, m)
       | Some k \<Rightarrow> if m d = Some DirNode then (Inl (io_other ''is a directory''), m) else (Inr (), m(s := None, d \<mapsto> k))" w]
      assms(5) by (auto simp: rename_path_def split: option.splits)
  show "r = Inl e \<Longrightarrow> same_on S w w'" "r = Inr u \<Longrightarrow> vo_nodes w' d = vo_nodes w s"
    using assms by (auto simp: rename_path_def syscall_def Let_def leaves_alone_def same_on_def split: option.splits if_splits)
qed

lemma write_sidecar_same:
  fixes p :: path defines "t \<equiv> tmp_of p"
  assumes al: "leaves_alone (dw_env dw) S" and S: "p \<in> S" "t \<in> S" "t \<noteq> p" and run: "write_sidecar dw p r w = (x, w')"
  shows "same_on (S - {p, t}) w w'" "x = Inr () \<Longrightarrow> \<exists>bytes. dw_encode dw r = Inr bytes \<and> has_bytes bytes (vo_nodes w' p)"
proof -
  let ?v = "dw_env dw" and ?m0 = "vo_nodes w"
  have "same_on (S - {p, t}) w w' \<and> (x = Inr () \<longrightarrow> (\<exists>bytes. dw_encode dw r = Inr bytes \<and> has_bytes bytes (vo_nodes w' p)))"
  proof (cases "dw_encode dw r")
    case (Inl e)
    with run show ?thesis by (auto simp: write_sidecar_def fail_def same_on_def)
  next
    case (Inr bytes)
    let ?Q = "vol (\<lambda>_ m. (\<forall>a \<in> S. a \<noteq> t \<longrightarrow> a \<noteq> p \<longrightarrow> m a = ?m0 a) \<and> has_bytes bytes (m p))"
    let ?E = "vol (\<lambda>_ m. \<forall>a \<in> S. a \<noteq> t \<longrightarrow> a \<noteq> p \<longrightarrow> m a = ?m0 a)"
    have fail_E: "failed False S t ?m0 u \<Longrightarrow> ?E u" for u by (simp add: failed_def held_at_def vol_def)
    have create: "triple (held_at S t ?m0 (\<lambda>_. True)) (create_empty ?v t) (\<lambda>_. held_at S t ?m0 (has_bytes [])) (\<lambda>_. ?E)"
      unfolding create_empty_def
      by (rule triple_err [OF held_call [where g = False, OF al S(2)] fail_E]) (auto simp: has_bytes_def split: if_splits)
    have append: "triple (held_at S t ?m0 (has_bytes [])) (append_file ?v t bytes) (\<lambda>_. held_at S t ?m0 (has_bytes bytes)) (\<lambda>_. ?E)"
      using triple_err [OF append_held [where g = False and a = "[]", OF al S(2)] fail_E] by simp
    have sync: "triple (held_at S t ?m0 (has_bytes bytes)) (sync_path ?v t) (\<lambda>_. held_at S t ?m0 (has_bytes bytes)) (\<lambda>_. ?E)"
      using triple_err [OF sync_held [where g = False, OF al S(2)] fail_E] by simp
    have rename: "triple (held_at S t ?m0 (has_bytes bytes)) (rename_path ?v t p) (\<lambda>_. ?Q) (\<lambda>_. ?E)"
      unfolding held_at_def rename_path_def
      by (rule vol_syscall) (use al S in \<open>auto simp: leaves_alone_def has_bytes_def split: option.splits if_splits\<close>)
    have all: "triple (held_at S t ?m0 (\<lambda>_. True)) (try_io (create_empty ?v t) (\<lambda>_. try_io (append_file ?v t bytes) (\<lambda>_.
                try_io (sync_path ?v t) (\<lambda>_. rename_path ?v t p)))) (\<lambda>_. ?Q) (\<lambda>_. ?E)"
      by (rule triple_try_io [OF create triple_try_io [OF append triple_try_io [OF sync rename]]])
    have start: "held_at S t ?m0 (\<lambda>_. True) w" by (simp add: held_at_def vol_def)
    obtain y w1 where steps: "try_io (create_empty ?v t) (\<lambda>_. try_io (append_file ?v t bytes) (\<lambda>_.
                try_io (sync_path ?v t) (\<lambda>_. rename_path ?v t p))) w = (y, w1)" by fastforce
    note h = triple_run [OF all start steps]
    show ?thesis
    proof (cases y)
      case (Inl e)
      have "same_on (S - {t}) w1 (snd (remove_path ?v t w1))"
        unfolding remove_path_def by (rule call_same [OF al]) (auto split: option.splits disk_node.splits)
      with Inl h steps run Inr show ?thesis by (auto simp: write_sidecar_def Let_def t_def same_on_def vol_def)
    next
      case yr: (Inr u)
      have "same_on S w1 (sync_stage ?v (folder_of p) w1)"
        unfolding sync_stage_def sync_path_def by (rule look_same [OF al]) simp
      with yr h steps run Inr S show ?thesis by (auto simp: write_sidecar_def Let_def t_def same_on_def vol_def)
    qed
  qed
  then show "same_on (S - {p, t}) w w'" "x = Inr () \<Longrightarrow> \<exists>bytes. dw_encode dw r = Inr bytes \<and> has_bytes bytes (vo_nodes w' p)"
    by blast+
qed

definition staged_mkv :: "finished \<Rightarrow> path" where
  "staged_mkv f = fst (kept_paths (folder_of (fi_file f)) (fi_target f))"

definition staged_json :: "finished \<Rightarrow> path" where
  "staged_json f = snd (kept_paths (folder_of (fi_file f)) (fi_target f))"

text \<open>The files a landing works on.\<close>

definition landing_files :: "finished \<Rightarrow> path list" where
  "landing_files f = [fi_file f, fi_target f, target_partial (fi_target f), staged_mkv f, staged_json f, tmp_of (staged_json f)]"

definition target_spared :: "nodes \<Rightarrow> nodes \<Rightarrow> path \<Rightarrow> string \<Rightarrow> bool" where
  "target_spared m m' target c \<longleftrightarrow> m' target = m target \<or> m target = None \<and> (has_bytes c (m' target) \<or> has_bytes [] (m' target))"

definition tells :: "deliver_world \<Rightarrow> finished \<Rightarrow> string \<Rightarrow> sidecar \<Rightarrow> bool" where
  "tells dw f c r \<longleftrightarrow> sc_format r = sidecar_format \<and> sc_target r = fi_target f \<and> sc_replace r = fi_replace f \<and> sc_before r = fi_before f
     \<and> sc_size r = length c \<and> sc_runtime r = finite_secs (muxed_runtime (fi_verified f))"

definition safely_kept :: "deliver_world \<Rightarrow> finished \<Rightarrow> string \<Rightarrow> nodes \<Rightarrow> bool" where
  "safely_kept dw f c m \<longleftrightarrow> has_bytes c (m (staged_mkv f))
     \<and> (\<exists>bytes r. has_bytes bytes (m (staged_json f)) \<and> dw_encode dw r = Inr bytes \<and> tells dw f c r)"

lemma target_spared_same: "target_spared m0 (vo_nodes w) p c \<Longrightarrow> same_on S w w' \<Longrightarrow> p \<in> S \<Longrightarrow> target_spared m0 (vo_nodes w') p c"
  by (simp add: target_spared_def same_on_def)

lemma keep_outcome:
  assumes al: "leaves_alone (dw_env dw) S" and S: "set (landing_files f) \<subseteq> S" "distinct (landing_files f)"
    and whole: "has_bytes c (vo_nodes w (fi_file f))" and want: "ex_size want = length c" "ex_runtime want = finite_secs (muxed_runtime (fi_verified f))"
    and run: "keep dw f want ph e w = (k, w')"
  shows "same_on (S - {fi_file f, staged_mkv f, staged_json f, tmp_of (staged_json f)}) w w'"
    "k = Kept p s ph' e' \<Longrightarrow> p = staged_mkv f \<and> s = staged_json f \<and> safely_kept dw f c (vo_nodes w')"
proof -
  let ?v = "dw_env dw" and ?file = "fi_file f" and ?p = "staged_mkv f" and ?s = "staged_json f"
  let ?X = "{?file, ?p, ?s, tmp_of ?s}"
  have ps: "kept_paths (folder_of ?file) (fi_target f) = (?p, ?s)" by (simp add: staged_mkv_def staged_json_def)
  have d: "?file \<in> S" "?p \<in> S" "?s \<in> S" "tmp_of ?s \<in> S" "?file \<noteq> ?p" "tmp_of ?s \<noteq> ?s" "?p \<noteq> ?s" "?p \<noteq> tmp_of ?s"
    using S by (auto simp: landing_files_def)
  obtain r w1 where rec: "record_of dw f want ph e w = (r, w1)" by fastforce
  have w1: "same_on S w w1" and r: "tells dw f c r"
    using look_same [OF al, of "\<lambda>n m. (case ev_resolve ?v n (fi_iso f) of Inl e \<Rightarrow> Inl e
       | Inr q \<Rightarrow> (case m q of None \<Rightarrow> Inl absent | Some k \<Rightarrow> Inr (target_of ?v n k)), m)" w] rec want
    by (auto simp: record_of_def followed_def Let_def record_failed_def tells_def split: prod.splits)
  obtain x w2 where mv: "rename_path ?v ?file ?p w1 = (x, w2)" by fastforce
  note mvs = rename_same [OF al d(1,2,5) mv]
  have w2: "same_on (S - ?X) w w2" by (rule same_on_trans [OF w1 mvs(1)]) auto
  have "same_on (S - ?X) w w' \<and> (k = Kept p s ph' e' \<longrightarrow> p = ?p \<and> s = ?s \<and> safely_kept dw f c (vo_nodes w'))"
  proof (cases x)
    case (Inl e1)
    with run rec mv ps have k: "k = NotKept e" "w' = drop_file ?v ?file w2" by (auto simp: keep_def Let_def)
    with same_on_trans [OF w2 drop_file_same [OF al], of "S - ?X" ?file] show ?thesis by auto
  next
    case (Inr u)
    have bytes: "has_bytes c (vo_nodes w2 ?p)" using mvs(3) [OF Inr] whole w1 d(1) by (simp add: same_on_def)
    let ?w3 = "sync_stage ?v (folder_of ?p) w2"
    have w3: "same_on S w2 ?w3" unfolding sync_stage_def sync_path_def by (rule look_same [OF al]) simp
    obtain y w4 where wr: "write_sidecar dw ?s r ?w3 = (y, w4)" by fastforce
    note wrs = write_sidecar_same [OF al d(3,4,6) wr]
    have "same_on (S - ?X) w ?w3" by (rule same_on_trans [OF w2 w3]) auto
    then have w4: "same_on (S - ?X) w w4" by (rule same_on_trans [OF _ wrs(1)]) auto
    have kept: "has_bytes c (vo_nodes w4 ?p)" using bytes w3 wrs(1) d by (simp add: same_on_def)
    show ?thesis
    proof (cases y)
      case (Inl e1)
      with run rec mv ps Inr wr have k: "k = NotKept e" "w' = drop_file ?v ?p w4" by (auto simp: keep_def Let_def)
      with same_on_trans [OF w4 drop_file_same [OF al], of "S - ?X" ?p] show ?thesis by auto
    next
      case yr: (Inr u')
      with run rec mv ps Inr wr have k: "k = Kept ?p ?s ph e" "w' = w4" by (auto simp: keep_def Let_def)
      from wrs(2) yr obtain bs where "dw_encode dw r = Inr bs" "has_bytes bs (vo_nodes w4 ?s)" by auto
      with k kept r w4 show ?thesis by (auto simp: safely_kept_def)
    qed
  qed
  then show "same_on (S - ?X) w w'" "k = Kept p s ph' e' \<Longrightarrow> p = ?p \<and> s = ?s \<and> safely_kept dw f c (vo_nodes w')" by blast+
qed

section \<open>The outcome of a finished remux\<close>

definition finished_expect :: "finished \<Rightarrow> string \<Rightarrow> expect" where
  "finished_expect f c = \<lparr>ex_size = length c, ex_runtime = finite_secs (muxed_runtime (fi_verified f))\<rparr>"

definition target_before :: "finished \<Rightarrow> target_stamp option" where
  "target_before f = (if fi_replace f then Some (fi_before f) else None)"

definition lands :: "deliver_world \<Rightarrow> finished \<Rightarrow> string \<Rightarrow> bool \<Rightarrow> nodes \<Rightarrow> nodes \<Rightarrow> bool" where
  "lands dw f c b m m' \<longleftrightarrow> has_bytes c (m' (fi_target f))
     \<and> shown dw (target_partial (fi_target f)) (fi_target f) m c (fi_replace f) (finished_expect f c) (target_before f) b"

definition kept_as :: "deliver_world \<Rightarrow> finished \<Rightarrow> string \<Rightarrow> landing_error \<Rightarrow> nodes \<Rightarrow> bool" where
  "kept_as dw f c k m \<longleftrightarrow> (case k of Kept p s _ _ \<Rightarrow> p = staged_mkv f \<and> s = staged_json f \<and> safely_kept dw f c m | NotKept _ \<Rightarrow> True)"

lemma landing_paths:
  assumes "set (landing_files f) \<subseteq> S" "distinct (landing_files f)"
  shows "fi_file f \<in> S" "fi_target f \<in> S" "target_partial (fi_target f) \<in> S" "fi_target f \<noteq> target_partial (fi_target f)"
    "fi_file f \<noteq> target_partial (fi_target f)" "fi_target f \<in> S - {fi_file f, staged_mkv f, staged_json f, tmp_of (staged_json f)}"
    "fi_target f \<noteq> fi_file f"
  using assms by (auto simp: landing_files_def)

lemma file_len:
  assumes "leaves_alone v S" "p \<in> S" "vo_nodes w p = Some (RegularFile c t)" "len_at v p w = (r, w')"
  shows "same_on S w w'" "r = Inr n \<Longrightarrow> n = length c" "fault_free v \<Longrightarrow> r = Inr (length c)"
proof -
  show "same_on S w w'" using look_same [OF assms(1), of "\<lambda>n m. (case m p of None \<Rightarrow> Inl absent | Some (RegularFile c _) \<Rightarrow> Inr (length c)
     | Some _ \<Rightarrow> Inr (ev_chunk v n), m)" w] assms(4) by (simp add: len_at_def)
  show "r = Inr n \<Longrightarrow> n = length c" "fault_free v \<Longrightarrow> r = Inr (length c)"
    using assms by (auto simp: len_at_def syscall_def Let_def leaves_alone_def fault_free_def split: option.splits)
qed

lemma finished_outcome:
  assumes al: "leaves_alone (dw_env dw) S" and S: "set (landing_files f) \<subseteq> S" "distinct (landing_files f)"
    and pub: "publishes (ev_publish (dw_env dw))" and src: "vo_nodes w (fi_file f) = Some (RegularFile c t)"
    and g: "g \<Longrightarrow> fault_free (dw_env dw)" "g \<Longrightarrow> may_land (fi_replace f) (target_before f) (vo_nodes w (fi_target f))"
      "g \<Longrightarrow> sound_bytes dw (target_partial (fi_target f)) (finished_expect f c) c"
      "g \<Longrightarrow> vo_nodes w (target_partial (fi_target f)) \<noteq> Some DirNode"
    and run: "deliver_finished dw f retention w = (r, w')"
  shows "same_on (S - set (landing_files f)) w w'
    \<and> (case r of Inr b \<Rightarrow> lands dw f c b (vo_nodes w) (vo_nodes w')
       | Inl k \<Rightarrow> target_spared (vo_nodes w) (vo_nodes w') (fi_target f) c \<and> kept_as dw f c k (vo_nodes w') \<and> \<not> g)"
proof -
  let ?v = "dw_env dw" and ?t = "fi_target f" and ?file = "fi_file f" and ?q = "target_partial (fi_target f)"
  let ?X = "set (landing_files f)" and ?K = "{?file, staged_mkv f, staged_json f, tmp_of (staged_json f)}"
  note p = landing_paths [OF S]
  have X: "?file \<in> ?X" "?t \<in> ?X" "?q \<in> ?X" "?K \<subseteq> ?X" by (auto simp: landing_files_def)
  obtain a w1 where len: "len_at ?v ?file w = (a, w1)" by fastforce
  note len_facts = file_len [OF al p(1) src len]
  have spared1: "target_spared (vo_nodes w) (vo_nodes w1) ?t c" using len_facts(1) p(2) by (simp add: same_on_def target_spared_def)
  show ?thesis
  proof (cases a)
    case (Inl e)
    with run len have k: "r = Inl (NotKept (DIo e))" "w' = drop_file ?v ?file w1" by (auto simp: deliver_finished_def)
    have drop: "same_on (S - {?file}) w1 w'" using k drop_file_same [OF al] by simp
    have "target_spared (vo_nodes w) (vo_nodes w') ?t c"
      by (rule target_spared_same [OF spared1 drop]) (use p in auto)
    moreover have "same_on (S - ?X) w w'" by (rule same_on_trans [OF len_facts(1) drop]) (use X in auto)
    ultimately show ?thesis using k len_facts(3) g(1) Inl by (auto simp: kept_as_def)
  next
    case (Inr n)
    let ?want = "finished_expect f c"
    have want: "\<lparr>ex_size = n, ex_runtime = finite_secs (muxed_runtime (fi_verified f))\<rparr> = ?want"
      using len_facts(2) [OF Inr] by (simp add: finished_expect_def)
    have nodes: "vo_nodes w1 ?file = Some (RegularFile c t)" "vo_nodes w1 ?t = vo_nodes w ?t" "vo_nodes w1 ?q = vo_nodes w ?q"
      using len_facts(1) src p by (simp_all add: same_on_def)
    obtain d w2 where del: "deliver_file dw ?file ?t (fi_replace f) ?want (target_before f) w1 = (d, w2)" by fastforce
    have out: "case d of Inr b \<Rightarrow> file_landed S ?q ?t (vo_nodes w1) c w2
            \<and> shown dw ?q ?t (vo_nodes w1) c (fi_replace f) ?want (target_before f) b
         | Inl _ \<Rightarrow> not_landed S ?q ?t (vo_nodes w1) c w2 \<and> \<not> g"
      by (rule deliver_file_outcome [OF al p(2,3,1,4,5) g(1) _ g(3) _ pub nodes(1) del]) (simp_all add: nodes g)
    note run' = run [unfolded deliver_finished_def len Inr prod.case sum.case Let_def want, folded target_before_def,
        unfolded del prod.case]
    have others: "same_on (S - {?q, ?t}) w w2"
      using out len_facts(1) by (auto simp: same_on_def file_landed_def not_landed_def vol_def split: sum.splits)
    show ?thesis
    proof (cases d)
      case dr: (Inr b)
      with run' have k: "r = Inr b" "w' = drop_file ?v ?file w2" by auto
      have drop: "same_on (S - {?file}) w2 w'" using k drop_file_same [OF al] by simp
      have "has_bytes c (vo_nodes w2 ?t)" using out dr by (simp add: file_landed_def vol_def)
      then have "has_bytes c (vo_nodes w' ?t)" using drop p by (simp add: same_on_def)
      moreover have "same_on (S - ?X) w w'" by (rule same_on_trans [OF others drop]) (use X in auto)
      ultimately show ?thesis using out dr k nodes by (simp add: lands_def shown_def)
    next
      case dl: (Inl pe)
      obtain ph e where pe: "pe = (ph, e)" by fastforce
      have spared2: "target_spared (vo_nodes w) (vo_nodes w2) ?t c" and ng: "\<not> g"
        using out dl nodes by (auto simp: not_landed_def vol_def target_spared_def)
      have whole: "has_bytes c (vo_nodes w2 ?file)"
        using others src p by (auto simp: same_on_def has_bytes_def)
      show ?thesis
      proof (cases "keeps_local ?v e (retention w2 \<noteq> None) w2")
        case False
        with run' dl pe have k: "r = Inl (NotKept e)" "w' = drop_file ?v ?file w2" by (auto simp: Let_def)
        have drop: "same_on (S - {?file}) w2 w'" using k drop_file_same [OF al] by simp
        have "target_spared (vo_nodes w) (vo_nodes w') ?t c"
          by (rule target_spared_same [OF spared2 drop]) (use p in auto)
        moreover have "same_on (S - ?X) w w'" by (rule same_on_trans [OF others drop]) (use X in auto)
        ultimately show ?thesis using k ng by (simp add: kept_as_def)
      next
        case True
        let ?e = "case retention w2 of None \<Rightarrow> e | Some t \<Rightarrow> Retained t"
        obtain k w3 where kp: "keep dw f ?want ph ?e w2 = (k, w3)" by fastforce
        with run' dl pe True have k: "r = Inl k" "w' = w3" by (auto simp: Let_def)
        have want': "ex_size ?want = length c" "ex_runtime ?want = finite_secs (muxed_runtime (fi_verified f))"
          by (simp_all add: finished_expect_def)
        note keep_facts = keep_outcome [OF al S whole want' kp]
        have "target_spared (vo_nodes w) (vo_nodes w') ?t c"
          unfolding k(2) by (rule target_spared_same [OF spared2 keep_facts(1)]) (use p in auto)
        moreover have "same_on (S - ?X) w w'" unfolding k(2) by (rule same_on_trans [OF others keep_facts(1)]) (use X in auto)
        ultimately show ?thesis using k ng keep_facts(2) by (auto simp: kept_as_def split: landing_error.splits)
      qed
    qed
  qed
qed

section \<open>Finishing a kept remux later\<close>

lemma split_slash_plain: "CHR ''/'' \<notin> set s \<Longrightarrow> split_slash s = [s]"
  by (induction s) auto

lemma path_of_plain: "CHR ''/'' \<notin> set s \<Longrightarrow> length s > 2 \<Longrightarrow> path_of s = [Normal s]"
  by (cases s) (auto simp: path_of_def split_slash_plain comp_of_def)

lemma hex_digit_plain: "d < 16 \<Longrightarrow> hex_digit d \<noteq> CHR ''/''"
proof
  assume "d < 16" "hex_digit d = CHR ''/''"
  then have "of_char (hex_digit d) = (47 :: nat)" by simp
  with \<open>d < 16\<close> show False by (auto simp: hex_digit_def split: if_splits)
qed

lemma hex_plain: "CHR ''/'' \<notin> set (hex k n)"
proof (induction k arbitrary: n)
  case (Suc k)
  have "hex_digit (n mod 16) \<noteq> CHR ''/''" by (rule hex_digit_plain) simp
  with Suc show ?case by auto
qed simp

lemma kept_name_plain: "CHR ''/'' \<notin> set (kept_name t)" "kept_name t \<noteq> []"
proof -
  have safe: "CHR ''/'' \<notin> set (map (\<lambda>c. if unsafe_in_name c then CHR ''_'' else c) s)" for s
    by (auto simp: unsafe_in_name_def split: if_splits)
  have "CHR ''/'' \<notin> set (take n (map (\<lambda>c. if unsafe_in_name c then CHR ''_'' else c) s))" for n s
    using safe [of s] in_set_takeD by fast
  then show "CHR ''/'' \<notin> set (kept_name t)" using hex_plain by (simp add: kept_name_def)
qed (simp add: kept_name_def)

lemma join_normal: "path_join p [Normal n] = p @ [Normal n]"
  by (simp add: path_join_def is_absolute_def)

text \<open>A kept file's name leads back to both files of its pair.\<close>

lemma pair_of_kept: "pair_of (fst (kept_paths stage t)) = Some (kept_paths stage t)"
proof -
  have "path_of (kept_name t @ kept_mkv) = [Normal (kept_name t @ kept_mkv)]"
    "path_of (kept_name t @ kept_json) = [Normal (kept_name t @ kept_json)]"
    using kept_name_plain(1) [of t] by (auto simp: kept_mkv_def kept_json_def intro!: path_of_plain)
  then show ?thesis using kept_name_plain(2) [of t]
    by (simp add: pair_of_def kept_paths_def join_normal with_file_name_def)
qed

text \<open>What the model asks of \<open>serde_json\<close>: a written sidecar reads back, and is not over the limit.\<close>

definition codec_ok :: "deliver_world \<Rightarrow> bool" where
  "codec_ok dw \<longleftrightarrow> (\<forall>r b. dw_encode dw r = Inr b \<longrightarrow>
     dw_decode dw b = Some r \<and> dw_format dw b = Some (sc_format r) \<and> length b \<le> sidecar_max)"

lemma read_whole:
  assumes "leaves_alone v S" "p \<in> S" "fault_free v" "has_bytes c (vo_nodes w p)"
  shows "\<exists>w'. read_bytes_at v p w = (Inr c, w') \<and> same_on S w w'" "\<exists>w'. len_at v p w = (Inr (length c), w') \<and> same_on S w w'"
  using assms by (auto simp: read_bytes_at_def len_at_def syscall_def Let_def leaves_alone_def fault_free_def has_bytes_def same_on_def)

lemma remove_all_gone:
  assumes al: "leaves_alone v S" and ff: "fault_free v"
  shows "set ps \<subseteq> S \<Longrightarrow> (\<forall>p \<in> set ps. vo_nodes w p \<noteq> Some DirNode) \<Longrightarrow>
    same_on (S - set ps) w (snd (remove_all v ps w)) \<and> (\<forall>p \<in> set ps. vo_nodes (snd (remove_all v ps w)) p = None)"
proof (induction ps arbitrary: w)
  case Nil
  then show ?case by (simp add: give_def same_on_def)
next
  case (Cons p ps)
  obtain r w1 where r: "remove_if_present v p w = (r, w1)" by fastforce
  have w1: "\<forall>a \<in> S. vo_nodes w1 a = (if a = p then None else vo_nodes w a)"
    using r Cons.prems al ff
    by (auto simp: remove_if_present_def remove_path_def attempt_io_def syscall_def Let_def leaves_alone_def fault_free_def give_def fail_def
        split: option.splits disk_node.splits if_splits)
  obtain d w2 where rest: "remove_all v ps w1 = (d, w2)" by fastforce
  have "\<forall>q \<in> set ps. vo_nodes w1 q \<noteq> Some DirNode" using w1 Cons.prems by (simp add: subset_iff)
  then have "same_on (S - set ps) w1 w2 \<and> (\<forall>q \<in> set ps. vo_nodes w2 q = None)"
    using Cons.IH [of w1] Cons.prems rest by simp
  then show ?case using r rest w1 Cons.prems by (cases r) (auto simp: same_on_def)
qed

lemma read_kept_pair:
  assumes al: "leaves_alone (dw_env dw) S" and S: "staged_mkv f \<in> S" "staged_json f \<in> S"
    and ff: "fault_free (dw_env dw)" and codec: "codec_ok dw" and kept: "safely_kept dw f c (vo_nodes u)"
    and target: "is_absolute (fi_target f)" "file_name (fi_target f) \<noteq> None"
  obtains r w where "read_pair dw (staged_mkv f) u = (Inr \<lparr>ki_staged = staged_mkv f, ki_sidecar = staged_json f, ki_record = r\<rparr>, w)"
    "same_on S u w" "tells dw f c r" "pair_of (staged_mkv f) = Some (staged_mkv f, staged_json f)"
proof -
  have pair: "pair_of (staged_mkv f) = Some (staged_mkv f, staged_json f)"
    using pair_of_kept [of "folder_of (fi_file f)" "fi_target f"] by (simp add: staged_mkv_def staged_json_def)
  from kept obtain b r where js: "has_bytes b (vo_nodes u (staged_json f))" and enc: "dw_encode dw r = Inr b" and r: "tells dw f c r"
    by (auto simp: safely_kept_def)
  have judge: "judge_sidecar dw b = Inr r"
    using codec [unfolded codec_ok_def, rule_format, OF enc] r target by (simp add: judge_sidecar_def tells_def)
  from read_whole(1) [OF al S(2) ff js] obtain w where w: "read_bytes_at (dw_env dw) (staged_json f) u = (Inr b, w)" "same_on S u w" by blast
  have "read_pair dw (staged_mkv f) u = (Inr \<lparr>ki_staged = staged_mkv f, ki_sidecar = staged_json f, ki_record = r\<rparr>, w)"
    using w judge by (simp add: read_pair_def pair try_io_def map_err_def give_def)
  then show thesis using w(2) r pair by (rule that)
qed

lemma resume_lands:
  assumes al: "leaves_alone (dw_env dw) S" and S: "set (landing_files f) \<subseteq> S" "distinct (landing_files f)"
    and pub: "publishes (ev_publish (dw_env dw))" and ff: "fault_free (dw_env dw)" and codec: "codec_ok dw"
    and kept: "safely_kept dw f c (vo_nodes u)"
    and target: "is_absolute (fi_target f)" "file_name (fi_target f) \<noteq> None"
    and free: "may_land (fi_replace f) (Some (fi_before f)) (vo_nodes u (fi_target f))"
      "vo_nodes u (target_partial (fi_target f)) \<noteq> Some DirNode" "vo_nodes u (tmp_of (staged_json f)) \<noteq> Some DirNode"
    and sound: "dw_probe dw c = Inr pb" "\<And>p. sound_bytes dw p (finished_expect f c) c"
  shows "\<exists>w. resume_kept dw (staged_mkv f) u = (Inr (pb_app pb), w) \<and> has_bytes c (vo_nodes w (fi_target f))
     \<and> vo_nodes w (staged_mkv f) = None \<and> vo_nodes w (staged_json f) = None"
proof -
  let ?v = "dw_env dw" and ?p = "staged_mkv f" and ?s = "staged_json f" and ?t = "fi_target f" and ?q = "target_partial (fi_target f)"
  have d: "?p \<in> S" "?s \<in> S" "tmp_of ?s \<in> S" "?t \<in> S" "?q \<in> S" "?t \<noteq> ?q" "?p \<noteq> ?q" "?p \<noteq> ?t" "?s \<noteq> ?q" "?s \<noteq> ?t"
      "tmp_of ?s \<noteq> ?q" "tmp_of ?s \<noteq> ?t" "?p \<noteq> ?s" "?p \<noteq> tmp_of ?s"
    using S by (auto simp: landing_files_def)
  obtain r w1 where read: "read_pair dw ?p u = (Inr \<lparr>ki_staged = ?p, ki_sidecar = ?s, ki_record = r\<rparr>, w1)"
    and w1: "same_on S u w1" and r: "tells dw f c r" and pair: "pair_of ?p = Some (?p, ?s)"
    by (rule read_kept_pair [OF al d(1,2) ff codec kept target])
  let ?i = "\<lparr>ki_staged = ?p, ki_sidecar = ?s, ki_record = r\<rparr>"
  have whole: "has_bytes c (vo_nodes u ?p)" using kept by (simp add: safely_kept_def)
  obtain b where js: "has_bytes b (vo_nodes u ?s)" using kept by (auto simp: safely_kept_def)
  have "has_bytes c (vo_nodes w1 ?p)" using whole w1 d(1) by (simp add: same_on_def)
  from read_whole(2) [OF al d(1) ff this] obtain w2 where w2: "len_at ?v ?p w1 = (Inr (length c), w2)" "same_on S w1 w2" by blast
  have start: "held_at S ?p (vo_nodes u) (has_bytes c) w2"
    using w1 w2 whole d(1) by (simp add: held_at_def vol_def same_on_def)
  have want: "\<lparr>ex_size = sc_size r, ex_runtime = sc_runtime r\<rparr> = finished_expect f c"
    using r by (simp add: tells_def finished_expect_def)
  obtain x w3 where ver: "verify_copy dw ?p (finished_expect f c) w2 = (x, w3)" by fastforce
  have v3: "x = Inr pb" "held_at S ?p (vo_nodes u) (has_bytes c) w3"
    using triple_run [OF verify_held [where g = True, OF al d(1) ff sound(2)] start ver] sound(1)
    by (auto simp: failed_def split: sum.splits)
  obtain tm where src: "vo_nodes w3 ?p = Some (RegularFile c tm)" using v3(2) by (auto simp: held_at_def vol_def has_bytes_def)
  have nodes: "vo_nodes w3 a = vo_nodes u a" if "a \<in> S" "a \<noteq> ?p" for a using v3(2) that by (simp add: held_at_def vol_def)
  obtain y w4 where del: "deliver_file dw ?p ?t (fi_replace f) (finished_expect f c) (Some (fi_before f)) w3 = (y, w4)" by fastforce
  have "case y of Inr b \<Rightarrow> file_landed S ?q ?t (vo_nodes w3) c w4 \<and> shown dw ?q ?t (vo_nodes w3) c (fi_replace f) (finished_expect f c) (Some (fi_before f)) b
     | Inl _ \<Rightarrow> not_landed S ?q ?t (vo_nodes w3) c w4 \<and> \<not> True"
    by (rule deliver_file_outcome [where g = True, OF al d(4,5,1,6,7) ff _ sound(2) _ pub src del]) (use nodes d free in simp_all)
  then obtain rep where y: "y = Inr rep" and w4: "file_landed S ?q ?t (vo_nodes w3) c w4" by (cases y) auto
  let ?w5 = "snd (discard_kept dw ?p w4)"
  have others: "vo_nodes w4 a = vo_nodes w3 a" if "a \<in> S" "a \<noteq> ?q" "a \<noteq> ?t" for a using w4 that by (simp add: file_landed_def vol_def)
  have "same_on (S - set [?p, tmp_of ?s, ?s]) w4 (snd (remove_all ?v [?p, tmp_of ?s, ?s] w4))
      \<and> (\<forall>a \<in> set [?p, tmp_of ?s, ?s]. vo_nodes (snd (remove_all ?v [?p, tmp_of ?s, ?s] w4)) a = None)"
    by (rule remove_all_gone [OF al ff]) (use d others nodes free(3) js src in \<open>auto simp: has_bytes_def\<close>)
  moreover have "?w5 = snd (remove_all ?v [?p, tmp_of ?s, ?s] w4)"
    by (simp add: discard_kept_def pair os_call_def map_err_def split: prod.split sum.split)
  moreover have "has_bytes c (vo_nodes w4 ?t)" using w4 by (simp add: file_landed_def vol_def)
  ultimately have fin: "has_bytes c (vo_nodes ?w5 ?t)" "vo_nodes ?w5 ?p = None" "vo_nodes ?w5 ?s = None"
    using d by (auto simp: same_on_def)
  have "resume_kept dw ?p u = (Inr (pb_app pb), ?w5)"
    using read w2 r ver v3(1) want del y d
    by (simp add: resume_kept_def resume_checked_def resume_delivery_def tells_def Let_def)
  with fin show ?thesis by blast
qed

section \<open>Properties\<close>

text \<open>C4: whatever fails on the way, a finished remux is either in the library, byte for byte the file the
  engine verified and shown sound after the copy, and nothing that was there was replaced without leave; or the
  target is as it was (an absent one may hold the file, or an empty cut-off publication) and an error
  that reports a kept file tells the truth: the whole file and a sidecar that describes it are there. No
  other file changes.\<close>

theorem finished_remux_lands_or_is_kept:
  assumes "leaves_alone (dw_env dw) S" "set (landing_files f) \<subseteq> S" "distinct (landing_files f)"
    and "publishes (ev_publish (dw_env dw))" "vo_nodes w (fi_file f) = Some (RegularFile c t)"
    and run: "deliver_finished dw f retention w = (r, w')"
  shows "same_on (S - set (landing_files f)) w w'
    \<and> (case r of Inr b \<Rightarrow> lands dw f c b (vo_nodes w) (vo_nodes w')
       | Inl k \<Rightarrow> target_spared (vo_nodes w) (vo_nodes w') (fi_target f) c \<and> kept_as dw f c k (vo_nodes w'))"
  using finished_outcome [where g = False, OF assms(1-5) _ _ _ _ run] by (simp split: sum.splits)

lemma sound_when_probed:
  assumes "dw_probe dw c = Inr (fi_verified f)" "pb_tracks (fi_verified f) > 0" "c \<noteq> []"
  shows "sound_bytes dw p (finished_expect f c) c"
  using assms by (auto simp: sound_bytes_def finished_expect_def judge_probe_def runtime_epsilon_def split: option.split)

text \<open>C24: when no call fails and nobody stops it, a remux whose bytes still probe as the engine verified
  them lands: in a free target, or in one it may replace that has not changed since it was looked at.\<close>

theorem sound_remux_lands:
  assumes "leaves_alone (dw_env dw) S" "set (landing_files f) \<subseteq> S" "distinct (landing_files f)"
    and "publishes (ev_publish (dw_env dw))" "vo_nodes w (fi_file f) = Some (RegularFile c t)"
    and "fault_free (dw_env dw)" "may_land (fi_replace f) (target_before f) (vo_nodes w (fi_target f))"
    and "vo_nodes w (target_partial (fi_target f)) \<noteq> Some DirNode"
    and "dw_probe dw c = Inr (fi_verified f)" "pb_tracks (fi_verified f) > 0" "c \<noteq> []"
  shows "\<exists>b w'. deliver_finished dw f retention w = (Inr b, w') \<and> has_bytes c (vo_nodes w' (fi_target f))
     \<and> b = (vo_nodes w (fi_target f) \<noteq> None)"
proof -
  obtain r w' where run: "deliver_finished dw f retention w = (r, w')" by fastforce
  from finished_outcome [where g = True, OF assms(1-5) _ _ _ _ run] assms sound_when_probed [OF assms(9-11)]
  have "case r of Inr b \<Rightarrow> lands dw f c b (vo_nodes w) (vo_nodes w') | Inl k \<Rightarrow> False"
    by (simp split: sum.splits)
  with run fault_free_truthful [OF assms(6)] show ?thesis
    by (cases r) (auto simp: lands_def shown_def)
qed


section \<open>The budget of the staging folder\<close>

abbreviation kept_bytes :: "kept_info list \<Rightarrow> nat" where
  "kept_bytes is \<equiv> sum_list (map (\<lambda>i. sc_size (ki_record i)) is)"

lemma while_over_split:
  "\<exists>rest. is = while_over max_bytes (kept_bytes is) is @ rest \<and> kept_bytes rest \<le> max_bytes
     \<and> (while_over max_bytes (kept_bytes is) is = []
        \<or> kept_bytes rest + sc_size (ki_record (last (while_over max_bytes (kept_bytes is) is))) > max_bytes)"
proof (induction "is")
  case (Cons i "is")
  show ?case
  proof (cases "kept_bytes (i # is) > max_bytes")
    case True
    let ?out = "while_over max_bytes (kept_bytes is) is"
    from Cons.IH obtain rest where r: "is = ?out @ rest" "kept_bytes rest \<le> max_bytes"
      "?out = [] \<or> kept_bytes rest + sc_size (ki_record (last ?out)) > max_bytes" by blast
    have out: "while_over max_bytes (kept_bytes (i # is)) (i # is) = i # ?out" using True by simp
    have "kept_bytes rest + sc_size (ki_record (last (i # ?out))) > max_bytes"
    proof (cases "?out = []")
      case True
      with r(1) have "rest = is" by simp
      with True \<open>kept_bytes (i # is) > max_bytes\<close> show ?thesis by simp
    qed (use r(3) in simp)
    with out r(1,2) show ?thesis by (intro exI [of _ rest]) simp
  qed (intro exI [of _ "i # is"], simp)
qed simp

text \<open>C28: the remuxes the sweep gives up are the oldest ones, what stays fits the budget, and giving up one
  fewer would not do.\<close>

theorem over_budget_frees_just_enough:
  "\<exists>rest. mset is = mset (over_budget is max_bytes) + mset rest
     \<and> sorted (map (\<lambda>i. sc_created (ki_record i)) (over_budget is max_bytes @ rest)) \<and> kept_bytes rest \<le> max_bytes
     \<and> (over_budget is max_bytes = [] \<or> kept_bytes rest + sc_size (ki_record (last (over_budget is max_bytes))) > max_bytes)"
proof -
  let ?is = "sort_key (\<lambda>i. sc_created (ki_record i)) is"
  have sum: "kept_bytes ?is = kept_bytes is"
    unfolding sum_mset_sum_list [symmetric] mset_map mset_sort ..
  from while_over_split [of ?is max_bytes] sum
  obtain rest where r: "?is = over_budget is max_bytes @ rest" "kept_bytes rest \<le> max_bytes"
    "over_budget is max_bytes = [] \<or> kept_bytes rest + sc_size (ki_record (last (over_budget is max_bytes))) > max_bytes"
    unfolding over_budget_def by (auto simp: sum)
  have "mset is = mset ?is" by simp
  then have "mset is = mset (over_budget is max_bytes) + mset rest" unfolding r(1) mset_append .
  moreover have "sorted (map (\<lambda>i. sc_created (ki_record i)) (over_budget is max_bytes @ rest))"
    unfolding r(1) [symmetric] by (rule sorted_sort_key)
  ultimately show ?thesis using r(2,3) by blast
qed

section \<open>Witnesses\<close>

definition quiet_disk :: world_env where
  "quiet_disk = calm_library\<lparr>ev_publish := rename_absent\<rparr>"

definition losing_disk :: world_env where
  "losing_disk = quiet_disk\<lparr>ev_fault := (\<lambda>n. if n = 4 then Some (io_other ''lost'') else None)\<rparr>"

definition film_mkv :: finished where
  "film_mkv = \<lparr>fi_file = [RootDir, Normal ''stage'', Normal ''1.mkv''], fi_target = [RootDir, Normal ''lib'', Normal ''a.mkv''],
     fi_replace = False, fi_iso = film_iso, fi_title = Some 1, fi_expected = None,
     fi_verified = \<lparr>pb_tracks = 2, pb_last_cue = Some (Fin 60), pb_duration = None, pb_app = Some ''mux''\<rparr>, fi_before = TargetAbsent\<rparr>"

definition film_sidecar :: sidecar where
  "film_sidecar = \<lparr>sc_format = 1, sc_target = fi_target film_mkv, sc_replace = False, sc_before = TargetAbsent, sc_iso = film_iso,
     sc_iso_len = None, sc_iso_mtime = None, sc_title = Some 1, sc_size = 2, sc_runtime = Some 60, sc_expected = None,
     sc_app = Some ''mux'', sc_engine = ''1'', sc_created = 0, sc_attempts = 1, sc_last = 0, sc_phase = ''copy'',
     sc_error = ''lost'', sc_code = None\<rparr>"

definition film_world :: "world_env \<Rightarrow> deliver_world" where
  "film_world v = \<lparr>dw_env = v, dw_probe = (\<lambda>_. Inr (fi_verified film_mkv)), dw_kind = (\<lambda>_. OtherKind), dw_text = (\<lambda>_. []),
     dw_code = (\<lambda>_. None), dw_encode = (\<lambda>r. if r = film_sidecar then Inr ''s'' else Inl (io_other [])),
     dw_decode = (\<lambda>b. if b = ''s'' then Some film_sidecar else None), dw_format = (\<lambda>b. if b = ''s'' then Some 1 else None),
     dw_version = ''1''\<rparr>"

definition stage_volume :: "links_file volume" where
  "stage_volume = library_volume\<lparr>vo_nodes := [fi_file film_mkv \<mapsto> RegularFile ''xy'' 5]\<rparr>"

definition film_kept :: "(landing_error + bool) \<times> links_file volume" where
  "film_kept = deliver_finished (film_world losing_disk) film_mkv (\<lambda>_. None) stage_volume"

lemma film_kept_run:
  "case film_kept of (Inl (Kept p s ph e), w) \<Rightarrow> vo_nodes w (fi_target film_mkv) = None
     \<and> vo_nodes w (target_partial (fi_target film_mkv)) = None \<and> vo_nodes w (tmp_of s) = None | _ \<Rightarrow> False"
  by code_simp

lemma film_name: "kept_name (fi_target film_mkv) = ''a.4f17145901af''"
  by code_simp

lemma film_kept_paths:
  "staged_mkv film_mkv = [RootDir, Normal ''stage'', Normal ''a.4f17145901af.staged.mkv'']"
  "staged_json film_mkv = [RootDir, Normal ''stage'', Normal ''a.4f17145901af.staged.json'']"
  "tmp_of (staged_json film_mkv) = [RootDir, Normal ''stage'', Normal ''a.4f17145901af.staged.json.tmp'']"
  "target_partial (fi_target film_mkv) = [RootDir, Normal ''lib'', Normal ''a.mkv.partial'']"
proof -
  have f: "folder_of (fi_file film_mkv) = [RootDir, Normal ''stage'']"
    by (simp add: folder_of_def film_mkv_def path_parent_def)
  show m: "staged_mkv film_mkv = [RootDir, Normal ''stage'', Normal ''a.4f17145901af.staged.mkv'']"
    and j: "staged_json film_mkv = [RootDir, Normal ''stage'', Normal ''a.4f17145901af.staged.json'']"
    by (simp_all add: staged_mkv_def staged_json_def kept_paths_def film_name f join_normal kept_mkv_def kept_json_def)
  show "tmp_of (staged_json film_mkv) = [RootDir, Normal ''stage'', Normal ''a.4f17145901af.staged.json.tmp'']"
    by (simp add: j tmp_of_def suffixed_def with_file_name_def file_name_def path_of_plain join_normal)
  show "target_partial (fi_target film_mkv) = [RootDir, Normal ''lib'', Normal ''a.mkv.partial'']"
    by (simp add: film_mkv_def target_partial_def suffixed_def with_file_name_def file_name_def path_of_plain join_normal)
qed

lemma film_distinct: "distinct (landing_files film_mkv)"
  unfolding landing_files_def film_kept_paths(3) unfolding film_kept_paths by (simp add: film_mkv_def)

lemma film_world_facts:
  "leaves_alone quiet_disk UNIV" "leaves_alone losing_disk UNIV" "publishes (ev_publish quiet_disk)" "publishes (ev_publish losing_disk)"
  "fault_free quiet_disk" "codec_ok (film_world losing_disk)"
  by (simp_all add: leaves_alone_def quiet_disk_def losing_disk_def calm_library_def publishes_rename fault_free_def rename_absent_def
      codec_ok_def film_world_def film_sidecar_def sidecar_max_def)

lemma film_source: "vo_nodes stage_volume (fi_file film_mkv) = Some (RegularFile ''xy'' 5)"
  by (simp add: stage_volume_def film_mkv_def)

lemma film_kept_eq:
  obtains p s ph e where "deliver_finished (film_world losing_disk) film_mkv (\<lambda>_. None) stage_volume = (Inl (Kept p s ph e), snd film_kept)"
    "vo_nodes (snd film_kept) (fi_target film_mkv) = None" "vo_nodes (snd film_kept) (target_partial (fi_target film_mkv)) = None"
    "vo_nodes (snd film_kept) (tmp_of s) = None"
  using film_kept_run unfolding film_kept_def by (auto split: prod.splits sum.splits landing_error.splits)

theorem finished_remux_lands_or_is_kept_witness:
  "safely_kept (film_world losing_disk) film_mkv ''xy'' (vo_nodes (snd film_kept))"
proof -
  obtain p s ph e where run: "deliver_finished (film_world losing_disk) film_mkv (\<lambda>_. None) stage_volume = (Inl (Kept p s ph e), snd film_kept)"
    by (rule film_kept_eq)
  from finished_remux_lands_or_is_kept [OF _ _ film_distinct _ film_source run, of UNIV] film_world_facts
  show ?thesis by (simp add: kept_as_def film_world_def)
qed

theorem sound_remux_lands_witness:
  "\<exists>b w. deliver_finished (film_world quiet_disk) film_mkv (\<lambda>_. None) stage_volume = (Inr b, w)
     \<and> has_bytes ''xy'' (vo_nodes w (fi_target film_mkv))"
  using sound_remux_lands [OF _ _ film_distinct _ film_source, of "film_world quiet_disk" UNIV "\<lambda>_. None"] film_world_facts
  by (simp add: film_world_def may_land_def stage_volume_def film_kept_paths) (auto simp: film_mkv_def)


end
