(* ===== verification/Job_Ending.thy ===== *)
theory Job_Ending
  imports Remux_Delivery Queue_System
begin

text \<open>
  The library worker around one job: the slot it shares with rips (\<open>server/library/arbiter.rs\<close>),
  what holds the next job and how it is taken (\<open>next_job\<close> of \<open>library/worker.rs\<close>, the holds of
  \<open>library/mod.rs\<close>), how a failure is classed (\<open>Fault\<close> of \<open>server/health.rs\<close>), and what each ending
  does to the queue (\<open>finish\<close> of \<open>worker.rs\<close>).

  The answers of the folder checks are arguments: \<open>Problem\<close> values. Queue operations are the closures
  of Queue\_Ops on the queue file: while a job runs the store is not held, as \<open>claim_next\<close> gave the job
  only then. An OS error carries its number in its text. Texts of the interface are \<open>say\<close> of
  their key, with the arguments the code gives them.
\<close>

section \<open>The mux slot\<close>

record arbiter =
  ar_rips :: "64 word"
  ar_starts :: "64 word"

definition new_arbiter :: arbiter where
  "new_arbiter = \<lparr>ar_rips = 0, ar_starts = 0\<rparr>"

definition claim_slot :: "arbiter \<Rightarrow> arbiter" where
  "claim_slot a = a\<lparr>ar_rips := ar_rips a + 1, ar_starts := ar_starts a + 1\<rparr>"

definition release_slot :: "arbiter \<Rightarrow> arbiter" where
  "release_slot a = a\<lparr>ar_rips := ar_rips a - 1\<rparr>"

definition rip_active :: "arbiter \<Rightarrow> bool" where
  "rip_active a \<longleftrightarrow> ar_rips a > 0"

definition epoch :: "arbiter \<Rightarrow> 64 word" where
  "epoch a = ar_starts a"

definition rip_started_since :: "arbiter \<Rightarrow> 64 word \<Rightarrow> bool" where
  "rip_started_since a e \<longleftrightarrow> ar_starts a \<noteq> e"

text \<open>\<open>JobSink::preempted\<close>.\<close>

definition preempted :: "arbiter \<Rightarrow> 64 word \<Rightarrow> bool" where
  "preempted a e \<longleftrightarrow> rip_active a \<or> rip_started_since a e"

section \<open>Faults of folders\<close>

datatype folder_fault = FStale | FIo | FReadOnly | FMissing | FUnresponsive | FUnmounted | FDenied | FOther

datatype health_state = HealthOk | Unhealthy | Unresponsive | Checking

record problem =
  pr_role :: string
  pr_path :: path
  pr_fault :: folder_fault
  pr_message :: string
  pr_hint :: string
  pr_detail :: string

definition fault_state :: "folder_fault \<Rightarrow> health_state" where
  "fault_state f = (if f = FUnresponsive then Unresponsive else Unhealthy)"

text \<open>The text after the last occurrence of a marker.\<close>

fun after_last :: "string \<Rightarrow> string \<Rightarrow> string option" where
  "after_last m [] = (if m = [] then Some [] else None)"
| "after_last m (c # cs) = (case after_last m cs of Some r \<Rightarrow> Some r
     | None \<Rightarrow> if starts_with (c # cs) m then Some (drop (length m) (c # cs)) else None)"

text \<open>\<open>trim().parse()\<close> of an errno; a negative number is none the code knows.\<close>

definition parse_errno :: "string \<Rightarrow> nat option" where
  "parse_errno s =
     (let t = rev (dropWhile (\<lambda>c. c = CHR '' '') (rev (dropWhile (\<lambda>c. c = CHR '' '') s)));
          d = (case t of c # cs \<Rightarrow> if c = CHR ''+'' then cs else t | [] \<Rightarrow> t)
      in if d \<noteq> [] \<and> list_all is_digit_char d then Some (digits_value d) else None)"

definition errno_in :: "string \<Rightarrow> nat option" where
  "errno_in text = Option.bind (after_last ''(os error '' text) (\<lambda>r. parse_errno (takeWhile (\<lambda>c. c \<noteq> CHR '')'') r))"

text \<open>The numbers of Linux.\<close>

definition of_errno :: "nat \<Rightarrow> folder_fault option" where
  "of_errno n =
     (if n = 116 then Some FStale else if n = 5 then Some FIo else if n = 30 then Some FReadOnly
      else if n = 2 then Some FMissing else if n = 13 \<or> n = 1 then Some FDenied
      else if n \<in> {110, 107, 112, 113, 101, 100} then Some FUnresponsive else None)"

definition fault_of_kind :: "io_kind \<Rightarrow> folder_fault" where
  "fault_of_kind k = (case k of StaleNetworkFileHandle \<Rightarrow> FStale | ReadOnlyFilesystem \<Rightarrow> FReadOnly
     | NotFound \<Rightarrow> FMissing | PermissionDenied \<Rightarrow> FDenied
     | TimedOut \<Rightarrow> FUnresponsive | NotConnected \<Rightarrow> FUnresponsive | HostUnreachable \<Rightarrow> FUnresponsive
     | NetworkUnreachable \<Rightarrow> FUnresponsive | NetworkDown \<Rightarrow> FUnresponsive | _ \<Rightarrow> FOther)"

definition fault_of :: "io_kind \<Rightarrow> string \<Rightarrow> folder_fault" where
  "fault_of k text = (case Option.bind (errno_in text) of_errno of Some f \<Rightarrow> f | None \<Rightarrow> fault_of_kind k)"

text \<open>\<open>storage_fault\<close>; \<open>timeouts\<close> are the two time-out codes of the disc crate.\<close>

definition storage_fault :: "deliver_world \<Rightarrow> nat set \<Rightarrow> deliver_error \<Rightarrow> folder_fault option" where
  "storage_fault dw timeouts e = (case dw_code dw e of
       Some c \<Rightarrow> if c \<in> timeouts then Some FUnresponsive else None
     | None \<Rightarrow> let f = fault_of (error_kind dw e) (error_text dw e) in if f = FOther then None else Some f)"

definition problem_kind :: "folder_fault \<Rightarrow> io_kind" where
  "problem_kind f = (case f of FStale \<Rightarrow> StaleNetworkFileHandle | FReadOnly \<Rightarrow> ReadOnlyFilesystem | FMissing \<Rightarrow> NotFound
     | FDenied \<Rightarrow> PermissionDenied | FUnresponsive \<Rightarrow> TimedOut | FUnmounted \<Rightarrow> TimedOut | FIo \<Rightarrow> OtherKind | FOther \<Rightarrow> OtherKind)"

section \<open>Holds and the next job\<close>

record hold =
  ho_role :: string
  ho_path :: path
  ho_state :: health_state
  ho_message :: string
  ho_hint :: string
  ho_since :: nat
  ho_recheck :: "nat option"

definition interval_secs :: nat where "interval_secs = 30"

definition hold_from_problem :: "problem \<Rightarrow> nat \<Rightarrow> hold" where
  "hold_from_problem p now = \<lparr>ho_role = pr_role p, ho_path = pr_path p, ho_state = fault_state (pr_fault p),
     ho_message = pr_message p, ho_hint = pr_hint p, ho_since = now, ho_recheck = Some (now + interval_secs)\<rparr>"

definition set_hold :: "hold option \<Rightarrow> hold option \<Rightarrow> hold option" where
  "set_hold next old = map_option (\<lambda>n. case old of None \<Rightarrow> n
     | Some x \<Rightarrow> if ho_path x = ho_path n then n\<lparr>ho_since := min (ho_since n) (ho_since x)\<rparr> else n) next"

text \<open>A folder the Library depends on; its health is a state and since when, if it was checked.\<close>

record folder_view =
  fv_role :: string
  fv_path :: path
  fv_health :: "(health_state \<times> nat) option"
  fv_message :: "string option"
  fv_hint :: "string option"

definition tv_role :: string where "tv_role = ''TV output''"

definition view_ok :: "folder_view \<Rightarrow> bool" where
  "view_ok v \<longleftrightarrow> (case fv_health v of None \<Rightarrow> True | Some (s, _) \<Rightarrow> s = HealthOk)"

definition folder_gate :: "folder_view list \<Rightarrow> bool \<Rightarrow> hold option" where
  "folder_gate views tv = Option.bind (find (\<lambda>v. (tv \<or> fv_role v \<noteq> tv_role) \<and> \<not> view_ok v) views) (\<lambda>v.
     map_option (\<lambda>(s, since). \<lparr>ho_role = fv_role v, ho_path = fv_path v, ho_state = s,
        ho_message = (case fv_message v of None \<Rightarrow> [] | Some t \<Rightarrow> t), ho_hint = (case fv_hint v of None \<Rightarrow> [] | Some t \<Rightarrow> t),
        ho_since = since, ho_recheck = None\<rparr>) (fv_health v))"

definition blocked_by :: "folder_view list \<Rightarrow> nat \<Rightarrow> bool \<Rightarrow> hold option \<Rightarrow> hold option" where
  "blocked_by views now tv h = (case folder_gate views tv of Some x \<Rightarrow> Some x
     | None \<Rightarrow> Option.bind h (\<lambda>x. case ho_recheck x of Some t \<Rightarrow> if now < t then Some x else None | None \<Rightarrow> None))"

record worker =
  wk_store :: store
  wk_hold :: "hold option"

record gate =
  ga_arbiter :: arbiter        \<comment> \<open>when the slot is looked at\<close>
  ga_later :: arbiter          \<comment> \<open>when the epoch is taken\<close>
  ga_views :: "folder_view list"
  ga_preflight :: "path \<Rightarrow> problem option"
  ga_library :: path
  ga_tv :: "path option"
  ga_path :: path              \<comment> \<open>the queue file\<close>
  ga_load :: load_env
  ga_writes :: "nat \<Rightarrow> faults"
  ga_held :: "held \<Rightarrow> string"
  ga_hint :: string

definition hold_for_unreadable_queue :: "gate \<Rightarrow> nat \<Rightarrow> worker \<Rightarrow> bool \<times> worker" where
  "hold_for_unreadable_queue ga now w =
     (if qs_unreadable (wk_store w) = None then (False, w)
      else case retry_unreadable (ga_path ga) (ga_load ga) (ga_writes ga 0) now (wk_store w) of
        (True, s) \<Rightarrow> (False, \<lparr>wk_store = s, wk_hold = set_hold None (wk_hold w)\<rparr>)
      | (False, s) \<Rightarrow> (case qs_unreadable s of None \<Rightarrow> (False, w\<lparr>wk_store := s\<rparr>)
          | Some why \<Rightarrow> (True, \<lparr>wk_store = s, wk_hold = set_hold (Some \<lparr>ho_role = ''queue file'', ho_path = ga_path ga,
               ho_state = Unhealthy, ho_message = ga_held ga why, ho_hint = ga_hint ga, ho_since = now,
               ho_recheck = None\<rparr>) (wk_hold w)\<rparr>)))"

definition tv_root_of :: "path option \<Rightarrow> job \<Rightarrow> path option" where
  "tv_root_of tv j = (case tv of None \<Rightarrow> None
     | Some d \<Rightarrow> if list_ex (\<lambda>t. path_starts_with t d) (output_targets j) then Some d else None)"

definition next_job :: "gate \<Rightarrow> nat \<Rightarrow> nat \<Rightarrow> worker \<Rightarrow> (job \<times> 64 word) option \<times> worker" where
  "next_job ga now started w =
     (if rip_active (ga_arbiter ga) then (None, w)
      else case hold_for_unreadable_queue ga now w of (True, w1) \<Rightarrow> (None, w1)
      | (False, w1) \<Rightarrow>
         (case peek_next now (qs_file (wk_store w1)) of
            None \<Rightarrow> (None, w1\<lparr>wk_hold := set_hold None (wk_hold w1)\<rparr>)
          | Some j \<Rightarrow>
              let tv = tv_root_of (ga_tv ga) j in
              (case blocked_by (ga_views ga) now (tv \<noteq> None) (wk_hold w1) of
                 Some h \<Rightarrow> (None, w1\<lparr>wk_hold := set_hold (Some h) (wk_hold w1)\<rparr>)
               | None \<Rightarrow>
                   (case find_map (ga_preflight ga) (ga_library ga # (case tv of None \<Rightarrow> [] | Some r \<Rightarrow> [r])) of
                      Some p \<Rightarrow> (None, w1\<lparr>wk_hold := set_hold (Some (hold_from_problem p now)) (wk_hold w1)\<rparr>)
                    | None \<Rightarrow>
                        (case claim_next (ga_path ga) (ga_writes ga 1) (ga_writes ga 2) now started (wk_store w1) of
                           (got, s) \<Rightarrow> (map_option (\<lambda>x. (x, epoch (ga_later ga))) got,
                              \<lparr>wk_store = s, wk_hold = set_hold None (wk_hold w1)\<rparr>))))))"

section \<open>How a job ended\<close>

text \<open>An error of a job: of a delivery or of any call, or old files that were kept.\<close>

datatype work_error = WorkError landing_error | KeptOld string

datatype ending = EndDone "string option" | EndStopped job_note | EndFailed work_error

record ending_env =
  en_dw :: deliver_world
  en_timeouts :: "nat set"
  en_problem :: "problem option"                 \<comment> \<open>\<open>folder_problem\<close>: a fresh look at the job's folders\<close>
  en_phase :: "string option"                    \<comment> \<open>the phase last shown\<close>
  en_parse :: "work_error \<Rightarrow> string option"       \<comment> \<open>the phase a time-out names\<close>
  en_error :: "work_error \<Rightarrow> string"              \<comment> \<open>\<open>error_text\<close>\<close>
  en_landed :: nat                               \<comment> \<open>the size the index shows for the row\<close>
  en_say :: "string \<Rightarrow> string list \<Rightarrow> string"     \<comment> \<open>the translated text of a key\<close>
  en_gb :: "nat \<Rightarrow> string"
  en_changed_code :: nat                         \<comment> \<open>\<open>E_REMUX_TARGET_EXISTS\<close>\<close>

definition cause_of :: "work_error \<Rightarrow> deliver_error" where
  "cause_of e = (case e of WorkError l \<Rightarrow> landing_cause l | KeptOld t \<Rightarrow> DIo (io_other t))"

definition kept_file :: "work_error \<Rightarrow> path option" where
  "kept_file e = (case e of WorkError l \<Rightarrow> kept_of l | KeptOld _ \<Rightarrow> None)"

definition code_of :: "ending_env \<Rightarrow> work_error \<Rightarrow> nat option" where
  "code_of en e = (case e of WorkError l \<Rightarrow> dw_code (en_dw en) (landing_cause l) | KeptOld _ \<Rightarrow> None)"

definition still_kept :: "deliver_world \<Rightarrow> path option \<Rightarrow> 'j volume \<Rightarrow> staged_file option \<times> 'j volume" where
  "still_kept dw p w = (case p of None \<Rightarrow> (None, w)
     | Some p \<Rightarrow> (case is_kept dw p w of (False, w1) \<Rightarrow> (None, w1)
         | (True, w1) \<Rightarrow> (case read_kept dw p w1 of (Inl _, w2) \<Rightarrow> (None, w2)
             | (Inr i, w2) \<Rightarrow> (Some \<lparr>sf_path = ki_staged i, sf_bytes = sc_size (ki_record i),
                                  sf_attempts = sc_attempts (ki_record i)\<rparr>, w2))))"

section \<open>What the user is told\<close>

datatype safety = RetireDone | RetirePending | OutputsRemain | NewLanded | OldUnchanged | NothingWritten | IsoRetained

definition safe_state :: "job \<Rightarrow> safety" where
  "safe_state j =
     (let landed = length (filter (\<lambda>x. op_state x = ODone) (job_outputs j));
          all_done = landed > 0 \<and> landed = length (job_outputs j)
      in if job_retire j \<and> all_done then RetireDone else if job_retire j then RetirePending
         else if (case job_plan j of None \<Rightarrow> False | Some p \<Rightarrow> length (rp_outputs p) > 1)
            \<or> list_ex (\<lambda>x. op_landing x \<noteq> None) (job_outputs j) then OutputsRemain
         else if landed > 0 then NewLanded else if job_replace j then OldUnchanged else NothingWritten)"

definition safe_key :: "safety \<Rightarrow> string" where
  "safe_key s = (case s of RetireDone \<Rightarrow> ''server.library.safe.retire_done'' | RetirePending \<Rightarrow> ''server.library.safe.retire_pending''
     | OutputsRemain \<Rightarrow> ''server.library.safe.outputs'' | NewLanded \<Rightarrow> ''server.library.safe.landed''
     | OldUnchanged \<Rightarrow> ''server.library.safe.unchanged'' | NothingWritten \<Rightarrow> ''server.library.safe.nothing_written''
     | IsoRetained \<Rightarrow> ''server.library.safe.retained'')"

definition safe_text :: "ending_env \<Rightarrow> job \<Rightarrow> string" where
  "safe_text en j = en_say en (safe_key (safe_state j)) []"

definition phase_words :: "string \<Rightarrow> string option" where
  "phase_words p = map_of [(''open'', ''opening the ISO''), (''mux'', ''muxing''), (''sync'', ''flushing the new file to disk''),
     (''verify'', ''verifying the new file''), (''copy'', ''copying the new MKV into the output folder''),
     (''replace'', ''moving the new MKV into place''), (''target'', ''checking the library file it replaces'')] p"

definition no_dots :: "string \<Rightarrow> string" where
  "no_dots s = rev (dropWhile (\<lambda>c. c = CHR ''.'') (rev s))"

definition folder_sentence :: "ending_env \<Rightarrow> problem \<Rightarrow> string" where
  "folder_sentence en p = en_say en ''server.library.folder_failed'' [pr_message p, path_text (pr_path p)]"

fun has_infix :: "string \<Rightarrow> string \<Rightarrow> bool" where
  "has_infix m [] \<longleftrightarrow> m = []"
| "has_infix m (c # cs) \<longleftrightarrow> starts_with (c # cs) m \<or> has_infix m cs"

definition failure_message :: "ending_env \<Rightarrow> string \<Rightarrow> string option \<Rightarrow> problem option \<Rightarrow> job \<Rightarrow> nat option \<Rightarrow> string" where
  "failure_message en text ph folder j retry =
     (let m = no_dots text @ ''.'';
          m1 = m @ (case Option.bind ph phase_words of None \<Rightarrow> [] | Some words \<Rightarrow> '' It stopped while '' @ words @ ''.'');
          m2 = m1 @ (case map_option (folder_sentence en) folder of None \<Rightarrow> []
                       | Some s \<Rightarrow> if has_infix s m1 then [] else '' '' @ s)
      in m2 @ '' '' @ safe_text en j
           @ (if retry \<noteq> None then '' It is retried automatically once the folder checks out.'' else []))"

definition kept_text :: "ending_env \<Rightarrow> staged_file \<Rightarrow> bool \<Rightarrow> string" where
  "kept_text en k changed = ''The finished MKV ('' @ en_gb en (sf_bytes k) @ (if changed
     then '') is still kept on local staging; Discard it once you have checked the library file.''
     else '') is kept on local staging: Retry copies it in without muxing again, Discard deletes it.'')"

text \<open>The library file a kept file set out to replace.\<close>

definition changed_target :: "job \<Rightarrow> path" where
  "changed_target j = (case find (\<lambda>x. op_staged x \<noteq> None \<and> op_staged x = job_staged j) (job_outputs j) of
       Some x \<Rightarrow> op_target x
     | None \<Rightarrow> (case find (\<lambda>x. op_state x = OFailed) (job_outputs j) of Some x \<Rightarrow> op_target x | None \<Rightarrow> job_target j))"

definition target_changed_message :: "ending_env \<Rightarrow> string \<Rightarrow> job \<Rightarrow> string" where
  "target_changed_message en text j = en_say en ''server.library.target_changed'' [no_dots text, path_text (changed_target j)]"

section \<open>Writing an ending to the queue\<close>

record 'j finishing =
  fn_queue :: queue_file
  fn_hold :: "hold option"
  fn_disk :: "'j volume"

definition retry_storage_fault ::
    "ending_env \<Rightarrow> job \<Rightarrow> nat option \<Rightarrow> string \<Rightarrow> folder_fault \<Rightarrow> problem option \<Rightarrow> string option \<Rightarrow> nat
     \<Rightarrow> staged_file option \<Rightarrow> 'j finishing \<Rightarrow> bool \<times> 'j finishing" where
  "retry_storage_fault en j code text fault folder ph now staged x =
     (if folder = None \<and> (job_attempts j > 0 \<or> fault \<in> {FMissing, FDenied, FReadOnly}) then (False, x)
      else case retry_at j now (folder = None) of None \<Rightarrow> (False, x)
      | Some due \<Rightarrow>
          let message = failure_message en text ph folder j (Some due)
                @ (case staged of None \<Rightarrow> [] | Some k \<Rightarrow> '' The finished MKV ('' @ en_gb en (sf_bytes k)
                     @ '') waits on local staging to be copied in.'')
          in (True, x\<lparr>fn_queue := snd (retry_later (job_id j) \<lparr>fl_code = code, fl_message = message\<rparr> due staged now (fn_queue x)),
                     fn_hold := (case folder of None \<Rightarrow> fn_hold x
                       | Some p \<Rightarrow> set_hold (Some (hold_from_problem p now)) (fn_hold x))\<rparr>))"

definition fail_job :: "nat \<Rightarrow> nat option \<Rightarrow> string \<Rightarrow> staged_file option \<Rightarrow> nat \<Rightarrow> queue_file \<Rightarrow> queue_file" where
  "fail_job i code message kept now q =
     snd (finish i (ResultFailed code message now) now (snd (set_staged i kept q)))"

fun landed_bytes :: "world_env \<Rightarrow> path list \<Rightarrow> nat \<Rightarrow> 'j volume \<Rightarrow> nat \<times> 'j volume" where
  "landed_bytes v [] n w = (n, w)"
| "landed_bytes v (p # ps) n w = (case len_at v p w of
     (Inl _, w1) \<Rightarrow> landed_bytes v ps n w1 | (Inr k, w1) \<Rightarrow> landed_bytes v ps (saturating_add 64 n k) w1)"

definition finish_done :: "ending_env \<Rightarrow> job \<Rightarrow> string option \<Rightarrow> nat \<Rightarrow> nat \<Rightarrow> 'j finishing \<Rightarrow> 'j finishing" where
  "finish_done en j app took now x =
     (case (if job_plan j \<noteq> None then landed_bytes (dw_env (en_dw en)) (output_targets j) 0 (fn_disk x)
            else (en_landed en, fn_disk x)) of
        (bytes, w) \<Rightarrow> x\<lparr>fn_disk := w, fn_queue := snd (finish (job_id j) (ResultDone bytes took now app) now (fn_queue x))\<rparr>)"

definition finish_stalled :: "ending_env \<Rightarrow> job \<Rightarrow> nat \<Rightarrow> 'j finishing \<Rightarrow> 'j finishing" where
  "finish_stalled en j now x =
     (case still_kept (en_dw en) (job_staged j) (fn_disk x) of (kept, w) \<Rightarrow>
        let x1 = x\<lparr>fn_disk := w\<rparr> in
        case (if en_problem en \<noteq> None
              then retry_storage_fault en j None ''stalled'' FUnresponsive (en_problem en) (en_phase en) now kept x1
              else (False, x1)) of
          (True, x2) \<Rightarrow> x2
        | (False, x2) \<Rightarrow>
            let q1 = snd (set_staged (job_id j) kept (fn_queue x2)); q2 = snd (note_running (job_id j) Stalled q1)
            in x2\<lparr>fn_queue := snd (finish (job_id j) (ResultFailed None ''stalled'' now) now q2)\<rparr>)"

definition stopped_message :: "staged_file option \<Rightarrow> string" where
  "stopped_message kept = (if kept \<noteq> None
     then ''Stopped. The finished MKV is still kept on local staging: Retry copies it in, Discard deletes it.'' else ''Stopped.'')"

definition finish_cancelled :: "ending_env \<Rightarrow> job \<Rightarrow> nat \<Rightarrow> 'j finishing \<Rightarrow> 'j finishing" where
  "finish_cancelled en j now x =
     (if job_staged j \<noteq> None
      then case still_kept (en_dw en) (job_staged j) (fn_disk x) of (kept, w) \<Rightarrow>
        x\<lparr>fn_disk := w, fn_queue := fail_job (job_id j) None (stopped_message kept) kept now (fn_queue x)\<rparr>
      else x\<lparr>fn_queue := snd (drop_job (job_id j) (fn_queue x))\<rparr>)"

definition failed_text :: "ending_env \<Rightarrow> job \<Rightarrow> work_error \<Rightarrow> string option \<Rightarrow> problem option \<Rightarrow> staged_file option \<Rightarrow> string" where
  "failed_text en j e ph unhealthy kept =
     (let text = en_error en e;
          changed = job_staged j \<noteq> None \<and> code_of en e = Some (en_changed_code en);
          base = (if changed then target_changed_message en text j
                  else case e of KeptOld _ \<Rightarrow> text @ '' '' @ en_say en (safe_key IsoRetained) []
                       | _ \<Rightarrow> failure_message en text ph unhealthy j None)
      in base @ (case kept of Some k \<Rightarrow> '' '' @ kept_text en k changed
           | None \<Rightarrow> if job_staged j \<noteq> None
               then '' The finished MKV kept on local staging could not be used and was removed; queue a fresh remux.'' else []))"

definition finish_failed :: "ending_env \<Rightarrow> job \<Rightarrow> work_error \<Rightarrow> nat \<Rightarrow> 'j finishing \<Rightarrow> 'j finishing" where
  "finish_failed en j e now x =
     (case still_kept (en_dw en) (case kept_file e of Some p \<Rightarrow> Some p | None \<Rightarrow> job_staged j) (fn_disk x) of (kept, w) \<Rightarrow>
        let x1 = x\<lparr>fn_disk := w\<rparr>;
            ph = (case e of WorkError (Kept _ _ p _) \<Rightarrow> Some p
                  | _ \<Rightarrow> (case en_parse en e of Some p \<Rightarrow> Some p | None \<Rightarrow> en_phase en));
            fault = storage_fault (en_dw en) (en_timeouts en) (cause_of e);
            unhealthy = (if fault = None then None else en_problem en)
        in case (case fault of None \<Rightarrow> (False, x1)
                 | Some f \<Rightarrow> retry_storage_fault en j (code_of en e) (en_error en e) f unhealthy ph now kept x1) of
             (True, x2) \<Rightarrow> x2
           | (False, x2) \<Rightarrow> x2\<lparr>fn_queue := fail_job (job_id j) (code_of en e)
                 (failed_text en j e ph unhealthy kept) kept now (fn_queue x2)\<rparr>)"

text \<open>\<open>finish\<close> of \<open>worker.rs\<close>: a planned job is taken as the queue has it now.\<close>

definition recorded_job :: "job \<Rightarrow> queue_file \<Rightarrow> job" where
  "recorded_job claimed q = (case find (\<lambda>j. job_id j = job_id claimed \<and> job_plan j \<noteq> None) (qf_jobs q) of
     Some j \<Rightarrow> j | None \<Rightarrow> claimed)"

definition finish_ending :: "ending_env \<Rightarrow> job \<Rightarrow> ending \<Rightarrow> nat \<Rightarrow> nat \<Rightarrow> 'j finishing \<Rightarrow> 'j finishing" where
  "finish_ending en claimed e took now x =
     (let j = recorded_job claimed (fn_queue x)
      in case e of EndDone app \<Rightarrow> finish_done en j app took now x
         | EndStopped note \<Rightarrow> if note = Stalled then finish_stalled en j now x
             else if note = Cancelled then finish_cancelled en j now x
             else x\<lparr>fn_queue := snd (requeue (job_id j) note (fn_queue x))\<rparr>
         | EndFailed err \<Rightarrow> finish_failed en j err now x)"

end
