(* ===== verification/Stage_Sweep.thy ===== *)
theory Stage_Sweep
  imports Job_Ending
begin

text \<open>
  The sweep of the remux staging folder before the first job (\<open>housekeep_staging\<close> of
  \<open>server/library/worker.rs\<close>): job files a killed run left, debris named like a kept file, kept files past
  their age or the folder's budget; the others are queued to be copied in. Times are milliseconds; the
  clock is read once.
\<close>

definition job_file_name :: "string \<Rightarrow> bool" where
  "job_file_name n \<longleftrightarrow> list_ex (\<lambda>suffix. case strip_suffix n suffix of None \<Rightarrow> False
     | Some s \<Rightarrow> s \<noteq> [] \<and> list_all is_digit_char s) [''.mkv'', ''.mkv.partial'', ''.mkv.lock'']"

definition stage_names :: "world_env \<Rightarrow> path \<Rightarrow> ('j, string list) io" where
  "stage_names v dir = syscall v (\<lambda>n m. (Inr (concat (map (\<lambda>e. case e of Inl _ \<Rightarrow> [] | Inr x \<Rightarrow> [x]) (ev_list v n dir m))), m))"

fun remove_job_files :: "world_env \<Rightarrow> path \<Rightarrow> string list \<Rightarrow> 'j volume \<Rightarrow> 'j volume" where
  "remove_job_files v dir [] w = w"
| "remove_job_files v dir (n # ns) w =
     (let p = path_join dir [Normal n] in
      if \<not> job_file_name n then remove_job_files v dir ns w
      else case is_file_at v p w of (there, w1) \<Rightarrow>
        remove_job_files v dir ns (if there then snd (remove_path v p w1) else w1))"

definition clean_stale_staging :: "world_env \<Rightarrow> path \<Rightarrow> 'j volume \<Rightarrow> 'j volume" where
  "clean_stale_staging v dir w = (case stage_names v dir w of (Inl _, w1) \<Rightarrow> w1 | (Inr ns, w1) \<Rightarrow> remove_job_files v dir ns w1)"

section \<open>Limits\<close>

record staging_limits =
  li_age_ms :: nat
  li_bytes :: nat

definition staged_max_age_days :: nat where "staged_max_age_days = 7"
definition staged_max_bytes :: nat where "staged_max_bytes = 500000000000"

text \<open>From the settings (0 is the default) and the size of the staging disk.\<close>

definition limits_of :: "nat \<Rightarrow> nat \<Rightarrow> nat option \<Rightarrow> staging_limits" where
  "limits_of days gb capacity = \<lparr>
     li_age_ms = 1000 * min ((if days = 0 then staged_max_age_days else days) * 86400) (2 ^ 64 - 1),
     li_bytes = (if gb = 0 then (case capacity of None \<Rightarrow> staged_max_bytes | Some n \<Rightarrow> min (n div 4) staged_max_bytes)
                 else min (gb * 1000000000) (2 ^ 64 - 1))\<rparr>"

section \<open>The sweep\<close>

text \<open>\<open>mkv_title\<close> of \<open>library/index.rs\<close>.\<close>

definition mkv_title :: "path \<Rightarrow> path \<Rightarrow> string" where
  "mkv_title library p =
     (let rel = (if path_starts_with p library then drop (length library) p else p)
      in case rel of d # _ # _ \<Rightarrow> (if d = RootDir then ''/'' else comp_text d)
         | _ \<Rightarrow> (case file_stem p of None \<Rightarrow> [] | Some s \<Rightarrow> s))"

definition adopted :: "path \<Rightarrow> kept_info \<Rightarrow> kept" where
  "adopted library i =
     (let r = ki_record i in
      (\<lparr>nj_title = mkv_title library (sc_target r), nj_iso = sc_iso r, nj_target = sc_target r, nj_replace = sc_replace r\<rparr>,
       \<lparr>sf_path = ki_staged i, sf_bytes = sc_size r, sf_attempts = sc_attempts r\<rparr>,
       \<lparr>fl_code = sc_code r, fl_message = no_dots (sc_error r)
          @ ''. Finished locally; waiting for the output folder to copy it in.''\<rparr>))"

fun remove_each :: "world_env \<Rightarrow> path list \<Rightarrow> 'j volume \<Rightarrow> 'j volume" where
  "remove_each v [] w = w"
| "remove_each v (p # ps) w = remove_each v ps (snd (remove_path v p w))"

text \<open>The kept files that could be discarded.\<close>

fun discard_each :: "deliver_world \<Rightarrow> kept_info list \<Rightarrow> 'j volume \<Rightarrow> path list \<times> 'j volume" where
  "discard_each dw [] w = ([], w)"
| "discard_each dw (i # is) w = (case discard_kept dw (ki_staged i) w of (r, w1) \<Rightarrow>
     (case discard_each dw is w1 of (gone, w2) \<Rightarrow> ((case r of Inr _ \<Rightarrow> ki_staged i # gone | Inl _ \<Rightarrow> gone), w2)))"

definition to_discard :: "staging_limits \<Rightarrow> nat \<Rightarrow> kept_info list \<Rightarrow> kept_info list" where
  "to_discard li now_ms is = filter (\<lambda>i. expired now_ms i (li_age_ms li)) is
     @ over_budget (filter (\<lambda>i. \<not> expired now_ms i (li_age_ms li)) is) (li_bytes li)"

definition housekeep_staging ::
    "deliver_world \<Rightarrow> path \<Rightarrow> staging_limits \<Rightarrow> path \<Rightarrow> nat \<Rightarrow> queue_file \<times> 'j volume \<Rightarrow> nat \<times> queue_file \<times> 'j volume" where
  "housekeep_staging dw dir li library now_ms s =
     (case s of (q, w) \<Rightarrow>
      case orphans dw dir (clean_stale_staging (dw_env dw) dir w) of (debris, w1) \<Rightarrow>
      (case pending dw dir (remove_each (dw_env dw) debris w1) of (found, w2) \<Rightarrow>
       (case discard_each dw (to_discard li now_ms found) w2 of (gone, w3) \<Rightarrow>
          (length (remdups gone),
           snd (adopt_staged (map (adopted library) (filter (\<lambda>i. ki_staged i \<notin> set gone) found)) (now_ms div 1000) q), w3))))"

end
