(* ===== verification/Ending_Safety.thy ===== *)
theory Ending_Safety
  imports Job_Ending Remux_Safety
begin

text \<open>
  What the worker's bookkeeping promises. A job that ended no longer runs, no other job is touched, and
  a finished file that could not land is in the queue under its job. The slot: a remux sees every rip
  that started after it did.
\<close>

section \<open>The mux slot\<close>

datatype slot_use = RipStarts | RipEnds

fun slot_event :: "slot_use \<Rightarrow> arbiter \<Rightarrow> arbiter" where
  "slot_event RipStarts a = claim_slot a"
| "slot_event RipEnds a = release_slot a"

definition slot_after :: "slot_use list \<Rightarrow> arbiter \<Rightarrow> arbiter" where
  "slot_after es a = fold slot_event es a"

lemma starts_counted: "ar_starts (slot_after es a) = ar_starts a + of_nat (count_list es RipStarts)"
proof (induction es arbitrary: a)
  case (Cons e es)
  then show ?case by (cases e) (simp_all add: slot_after_def claim_slot_def release_slot_def algebra_simps)
qed (simp add: slot_after_def)

text \<open>A remux that took its epoch notices every rip that starts later, also one that has ended by the
  time it looks, for fewer than \<open>2 ^ 64\<close> of them; without one, only the rips still holding the slot count.\<close>

theorem preempted_by_every_rip:
  assumes "count_list es RipStarts < 2 ^ 64"
  shows "preempted (slot_after es a) (epoch a) = (rip_active (slot_after es a) \<or> RipStarts \<in> set es)"
proof -
  have "(of_nat (count_list es RipStarts) :: 64 word) = 0 \<longleftrightarrow> count_list es RipStarts = 0"
  proof
    assume "(of_nat (count_list es RipStarts) :: 64 word) = 0"
    then have "unat (of_nat (count_list es RipStarts) :: 64 word) = 0" by simp
    with assms show "count_list es RipStarts = 0" by (simp add: unat_of_nat take_bit_nat_def)
  qed simp
  then have "ar_starts (slot_after es a) = ar_starts a \<longleftrightarrow> RipStarts \<notin> set es"
    by (simp add: starts_counted count_list_0_iff)
  then show ?thesis by (simp add: preempted_def rip_started_since_def epoch_def)
qed

section \<open>Taking the next job\<close>

text \<open>A job starts only while no rip holds the slot, the queue file is loaded and every folder it needs
  passes; then nothing is held any more.\<close>

lemma job_starts_only_when_clear:
  assumes run: "next_job ga now started w = (Some (j, e), w')"
  shows "\<not> rip_active (ga_arbiter ga)" "ga_preflight ga (ga_library ga) = None" "e = epoch (ga_later ga)"
    "wk_hold w' = None" "job_state j = JRunning"
    "\<exists>j0 f0 h0. peek_next now f0 = Some j0 \<and> blocked_by (ga_views ga) now (tv_root_of (ga_tv ga) j0 \<noteq> None) h0 = None
       \<and> (\<forall>r. tv_root_of (ga_tv ga) j0 = Some r \<longrightarrow> ga_preflight ga r = None)"
proof -
  obtain held w1 where h: "hold_for_unreadable_queue ga now w = (held, w1)" by fastforce
  have free: "\<not> rip_active (ga_arbiter ga)" "\<not> held" using run h by (auto simp: next_job_def split: if_splits)
  obtain j0 where p: "peek_next now (qs_file (wk_store w1)) = Some j0" using run h free by (auto simp: next_job_def split: option.splits)
  let ?tv = "tv_root_of (ga_tv ga) j0"
  have b: "blocked_by (ga_views ga) now (?tv \<noteq> None) (wk_hold w1) = None"
    using run h free p by (auto simp: next_job_def Let_def split: option.splits)
  have f: "find_map (ga_preflight ga) (ga_library ga # (case ?tv of None \<Rightarrow> [] | Some r \<Rightarrow> [r])) = None"
    using run h free p b by (auto simp: next_job_def Let_def split: option.splits)
  obtain got s where c: "claim_next (ga_path ga) (ga_writes ga 1) (ga_writes ga 2) now started (wk_store w1) = (got, s)" by fastforce
  have r: "got = Some j" "e = epoch (ga_later ga)" "w' = \<lparr>wk_store = s, wk_hold = set_hold None (wk_hold w1)\<rparr>"
    using run h free p b f c by (auto simp: next_job_def Let_def)
  show "\<not> rip_active (ga_arbiter ga)" "e = epoch (ga_later ga)" by (fact free(1), fact r(2))
  show "ga_preflight ga (ga_library ga) = None" using f by (auto split: option.splits)
  show "wk_hold w' = None" using r(3) by (simp add: set_hold_def)
  show "job_state j = JRunning" using c r(1)
    by (auto simp: claim_next_def mutate_def mutate_or_def claim_def Let_def split: if_splits option.splits prod.splits)
  show "\<exists>j0 f0 h0. peek_next now f0 = Some j0 \<and> blocked_by (ga_views ga) now (tv_root_of (ga_tv ga) j0 \<noteq> None) h0 = None
       \<and> (\<forall>r. tv_root_of (ga_tv ga) j0 = Some r \<longrightarrow> ga_preflight ga r = None)"
    using p b f by (intro exI [of _ j0] exI [of _ "qs_file (wk_store w1)"] exI [of _ "wk_hold w1"]) (auto split: option.splits)
qed

section \<open>One job of the queue\<close>

text \<open>\<open>q'\<close> is \<open>q\<close> with job \<open>i\<close> turned into \<open>j\<close> (or gone), in place or moved.\<close>

definition becomes :: "nat \<Rightarrow> queue_file \<Rightarrow> job option \<Rightarrow> queue_file \<Rightarrow> bool" where
  "becomes i q j q' \<longleftrightarrow> queue_ok q' \<and> filter (\<lambda>x. job_id x \<noteq> i) (qf_jobs q') = filter (\<lambda>x. job_id x \<noteq> i) (qf_jobs q)
     \<and> find_job i q' = j"

lemma becomes_trans: "becomes i q j q1 \<Longrightarrow> becomes i q1 j' q2 \<Longrightarrow> becomes i q j' q2"
  by (simp add: becomes_def)

lemma becomes_self: "queue_ok q \<Longrightarrow> becomes i q (find_job i q) q"
  by (simp add: becomes_def)

lemma find_update_mapped:
  "(\<And>x. P x \<Longrightarrow> P (g x)) \<Longrightarrow> find P (update_first P g xs) = map_option g (find P xs)"
  by (induction xs) auto

lemma filter_update_first:
  "(\<And>x. P x \<Longrightarrow> P (g x)) \<Longrightarrow> filter (\<lambda>x. \<not> P x) (update_first P g xs) = filter (\<lambda>x. \<not> P x) xs"
  by (induction xs) auto

lemma update_job_becomes:
  assumes "\<And>x. job_id (g x) = job_id x" "find_job i q = Some j" "queue_ok (update_job i g q)"
  shows "becomes i q (Some (g j)) (update_job i g q)"
  using assms filter_update_first [of "\<lambda>x. job_id x = i" g] find_update_mapped [of "\<lambda>x. job_id x = i" g]
  by (simp add: becomes_def find_job_def update_job_def)

lemma find_position: "position P xs = Some k \<Longrightarrow> find P xs = Some (xs ! k)"
  by (induction xs arbitrary: k) (auto split: if_splits)

lemma find_position_none: "find P xs = Some x \<Longrightarrow> \<exists>k. position P xs = Some k"
  by (induction xs) (auto split: if_splits)

lemma filter_remove_at: "k < length xs \<Longrightarrow> \<not> P (xs ! k) \<Longrightarrow> filter P (remove_at k xs) = filter P xs"
  by (metis append_Cons_eq_iff remove_at_def filter.simps(2) filter_append id_take_nth_drop)

lemma filter_insert_at: "\<not> P x \<Longrightarrow> filter P (insert_at k x xs) = filter P xs"
  by (metis append_take_drop_id filter.simps(2) filter_append insert_at_def)

lemma find_by_key: "distinct (map f xs) \<Longrightarrow> x \<in> set xs \<Longrightarrow> find (\<lambda>y. f y = f x) xs = Some x"
  by (induction xs) (auto simp: image_iff)

lemma move_becomes:
  assumes ok: "queue_ok q" and keep: "\<And>x. job_id (g x) = job_id x" and pos: "position (\<lambda>x. job_id x = i) (qf_jobs q) = Some k"
    and ok': "queue_ok (move_to_head k g q)"
  shows "becomes i q (Some (g (qf_jobs q ! k))) (move_to_head k g q)"
proof -
  let ?js = "qf_jobs q" and ?j = "g (qf_jobs q ! k)"
  have k: "k < length ?js" "job_id (?js ! k) = i" using position_Some [OF pos] by auto
  have js': "qf_jobs (move_to_head k g q) = insert_at (head_position (remove_at k ?js)) ?j (remove_at k ?js)"
    by (simp add: move_to_head_def Let_def)
  have "?j \<in> set (qf_jobs (move_to_head k g q))" unfolding js' by (simp add: insert_at_def)
  moreover have "distinct (map job_id (qf_jobs (move_to_head k g q)))" using ok' by (simp add: queue_ok_def jobs_ok_def)
  ultimately have "find (\<lambda>x. job_id x = i) (qf_jobs (move_to_head k g q)) = Some ?j"
    using find_by_key [of job_id _ ?j] k keep by simp
  moreover have "filter (\<lambda>x. job_id x \<noteq> i) (qf_jobs (move_to_head k g q)) = filter (\<lambda>x. job_id x \<noteq> i) ?js"
    unfolding js' using k keep by (simp add: filter_insert_at filter_remove_at)
  ultimately show ?thesis using ok' by (simp add: becomes_def find_job_def)
qed

lemma set_staged_becomes:
  assumes "queue_ok q" "find_job i q = Some j"
  shows "becomes i q (Some (set_staged_file k j)) (snd (set_staged i k q))"
proof -
  have "becomes i q (Some (set_staged_file k j)) (update_job i (set_staged_file k) q)"
    by (rule update_job_becomes) (use assms set_staged_ok [OF assms(1), of i k] in \<open>simp_all add: set_staged_def\<close>)
  then show ?thesis using assms(2) by (simp add: set_staged_def)
qed

lemma note_becomes:
  assumes "queue_ok q" "find_job i q = Some j"
  shows "becomes i q (Some (j\<lparr>job_note := Some n\<rparr>)) (snd (note_running i n q))"
proof -
  let ?g = "\<lambda>j. j\<lparr>job_note := Some n\<rparr>"
  have "becomes i q (Some (?g j)) (update_job i ?g q)"
    by (rule update_job_becomes) (use assms note_running_ok [OF assms(1), of i n] in \<open>simp_all add: note_running_def\<close>)
  then show ?thesis by (simp add: note_running_def)
qed

lemma finish_becomes:
  assumes "queue_ok q" "find_job i q = Some j"
  shows "becomes i q (Some (finish_job r now j)) (snd (finish i r now q))"
proof -
  have "queue_ok (update_job i (finish_job r now) q)" using finish_ok [OF assms(1), of i r now] assms(2) by (simp add: finish_def Let_def)
  moreover have "job_id (finish_job r now x) = job_id x" for x by (simp add: finish_job_def Let_def)
  ultimately have "becomes i q (Some (finish_job r now j)) (update_job i (finish_job r now) q)"
    using assms by (intro update_job_becomes)
  then show ?thesis using assms(2) by (simp add: finish_def Let_def becomes_def find_job_def)
qed

lemma requeue_becomes:
  assumes "queue_ok q" "find_job i q = Some j"
  shows "becomes i q (Some (j\<lparr>job_state := JQueued, job_started_at := None, job_note := Some n\<rparr>)) (snd (requeue i n q))"
proof -
  obtain k where k: "position (\<lambda>x. job_id x = i) (qf_jobs q) = Some k"
    using find_position_none assms(2) unfolding find_job_def by metis
  have j: "qf_jobs q ! k = j" using find_position [OF k] assms(2) by (simp add: find_job_def)
  have "queue_ok (move_to_head k (\<lambda>j. j\<lparr>job_state := JQueued, job_started_at := None, job_note := Some n\<rparr>) q)"
    using requeue_ok [OF assms(1), of i n] k by (simp add: requeue_def)
  from move_becomes [OF assms(1) _ k this] show ?thesis using j k by (simp add: requeue_def)
qed

lemma retry_later_becomes:
  assumes "queue_ok q" "find_job i q = Some j"
  shows "becomes i q (Some (retry_later_job fl due k now j)) (snd (retry_later i fl due k now q))"
proof -
  obtain n where n: "position (\<lambda>x. job_id x = i) (qf_jobs q) = Some n"
    using find_position_none assms(2) unfolding find_job_def by metis
  have j: "qf_jobs q ! n = j" using find_position [OF n] assms(2) by (simp add: find_job_def)
  have "queue_ok (move_to_head n (retry_later_job fl due k now) q)"
    using retry_later_ok [OF assms(1), of i fl due k now] n by (simp add: retry_later_def)
  from move_becomes [OF assms(1) _ n this] show ?thesis using j n by (simp add: retry_later_def retry_later_job_def)
qed

lemma drop_becomes:
  assumes "queue_ok q" shows "becomes i q None (snd (drop_job i q))"
  using drop_job_ok [OF assms, of i] by (auto simp: becomes_def drop_job_def find_job_def find_None_iff filter_filter)

section \<open>An ending\<close>

lemma fail_becomes:
  assumes "queue_ok q" "find_job i q = Some j"
  shows "\<exists>j'. becomes i q (Some j') (fail_job i code m k now q) \<and> job_state j' = JFailed
     \<and> job_staged j' = map_option sf_path k \<and> job_staged_bytes j' = map_option sf_bytes k"
proof -
  note s = set_staged_becomes [OF assms, of k]
  have "queue_ok (snd (set_staged i k q))" "find_job i (snd (set_staged i k q)) = Some (set_staged_file k j)"
    using s by (simp_all add: becomes_def)
  from becomes_trans [OF s finish_becomes [OF this, of "ResultFailed code m now" now]] show ?thesis
    unfolding fail_job_def by (intro exI [of _ "finish_job (ResultFailed code m now) now (set_staged_file k j)"])
      (simp add: finish_job_def Let_def result_done_def)
qed

text \<open>What a job that kept file \<open>k\<close> may be after its ending.\<close>

definition put_away :: "staged_file option \<Rightarrow> job \<Rightarrow> bool" where
  "put_away k j \<longleftrightarrow> job_state j \<in> {JQueued, JFailed} \<and> job_staged j = map_option sf_path k \<and> job_staged_bytes j = map_option sf_bytes k"

lemma fail_put_away:
  assumes "queue_ok q" "find_job i q = Some j"
  shows "\<exists>j'. becomes i q (Some j') (fail_job i code m k now q) \<and> put_away k j'"
  using fail_becomes [OF assms, of code m k now] by (auto simp: put_away_def)

lemma retry_becomes:
  assumes "queue_ok (fn_queue x)" "find_job (job_id j) (fn_queue x) = Some j0"
    and "retry_storage_fault en j code t f p ph now k x = (b, x')"
  shows "b \<Longrightarrow> \<exists>j'. becomes (job_id j) (fn_queue x) (Some j') (fn_queue x') \<and> put_away k j'" "\<not> b \<Longrightarrow> x' = x"
proof -
  have "put_away k (retry_later_job fl due k now j0)" for fl due by (simp add: put_away_def retry_later_job_def)
  then show "b \<Longrightarrow> \<exists>j'. becomes (job_id j) (fn_queue x) (Some j') (fn_queue x') \<and> put_away k j'"
    using assms(3) retry_later_becomes [OF assms(1,2)]
    by (fastforce simp: retry_storage_fault_def Let_def split: if_splits option.splits)
  show "\<not> b \<Longrightarrow> x' = x" using assms(3) by (auto simp: retry_storage_fault_def Let_def split: if_splits option.splits)
qed

lemma failed_becomes:
  assumes ok: "queue_ok (fn_queue x)" and j0: "find_job (job_id j) (fn_queue x) = Some j0"
    and k: "still_kept (en_dw en) (case kept_file e of Some p \<Rightarrow> Some p | None \<Rightarrow> job_staged j) (fn_disk x) = (k, w)"
  shows "\<exists>j'. becomes (job_id j) (fn_queue x) (Some j') (fn_queue (finish_failed en j e now x)) \<and> put_away k j'"
proof -
  let ?x = "x\<lparr>fn_disk := w\<rparr>"
  let ?ph = "case e of WorkError (Kept _ _ p _) \<Rightarrow> Some p
                  | _ \<Rightarrow> (case en_parse en e of Some p \<Rightarrow> Some p | None \<Rightarrow> en_phase en)"
  let ?fault = "storage_fault (en_dw en) (en_timeouts en) (cause_of e)"
  let ?un = "if ?fault = None then None else en_problem en"
  obtain b y where r: "(case ?fault of None \<Rightarrow> (False, ?x)
     | Some f \<Rightarrow> retry_storage_fault en j (code_of en e) (en_error en e) f ?un ?ph now k ?x) = (b, y)" by fastforce
  have ok': "queue_ok (fn_queue ?x)" "find_job (job_id j) (fn_queue ?x) = Some j0" using ok j0 by simp_all
  have y: "if b then \<exists>j'. becomes (job_id j) (fn_queue x) (Some j') (fn_queue y) \<and> put_away k j' else fn_queue y = fn_queue x"
  proof (cases ?fault)
    case (Some f)
    with r have "retry_storage_fault en j (code_of en e) (en_error en e) f ?un ?ph now k ?x = (b, y)" by simp
    from retry_becomes [OF ok' this] show ?thesis by (cases b) simp_all
  qed (use r in auto)
  have fin: "finish_failed en j e now x = (if b then y else y\<lparr>fn_queue := fail_job (job_id j) (code_of en e)
     (failed_text en j e ?ph ?un k) k now (fn_queue y)\<rparr>)"
    using k r by (simp add: finish_failed_def Let_def)
  show ?thesis
  proof (cases b)
    case False
    with fin y have "fn_queue (finish_failed en j e now x) = fail_job (job_id j) (code_of en e)
       (failed_text en j e ?ph ?un k) k now (fn_queue x)" by simp
    then show ?thesis by (simp only: fail_put_away [OF ok j0])
  qed (use fin y in simp)
qed

lemma stalled_becomes:
  assumes ok: "queue_ok (fn_queue x)" and j0: "find_job (job_id j) (fn_queue x) = Some j0"
    and k: "still_kept (en_dw en) (job_staged j) (fn_disk x) = (k, w)"
  shows "\<exists>j'. becomes (job_id j) (fn_queue x) (Some j') (fn_queue (finish_stalled en j now x)) \<and> put_away k j'"
proof -
  let ?x = "x\<lparr>fn_disk := w\<rparr>" and ?i = "job_id j"
  obtain b y where r: "(if en_problem en \<noteq> None
      then retry_storage_fault en j None ''stalled'' FUnresponsive (en_problem en) (en_phase en) now k ?x else (False, ?x)) = (b, y)"
    by fastforce
  have ok': "queue_ok (fn_queue ?x)" "find_job ?i (fn_queue ?x) = Some j0" using ok j0 by simp_all
  have y: "if b then \<exists>j'. becomes ?i (fn_queue x) (Some j') (fn_queue y) \<and> put_away k j' else fn_queue y = fn_queue x"
  proof (cases "en_problem en \<noteq> None")
    case True
    with r have "retry_storage_fault en j None ''stalled'' FUnresponsive (en_problem en) (en_phase en) now k ?x = (b, y)" by simp
    from retry_becomes [OF ok' this] show ?thesis by (cases b) simp_all
  qed (use r in auto)
  let ?q1 = "snd (set_staged ?i k (fn_queue x))" and ?j1 = "set_staged_file k j0"
  let ?q2 = "snd (note_running ?i Stalled ?q1)" and ?j2 = "(set_staged_file k j0)\<lparr>job_note := Some Stalled\<rparr>"
  let ?q3 = "snd (finish ?i (ResultFailed None ''stalled'' now) now ?q2)"
  note b1 = set_staged_becomes [OF ok j0, of k]
  then have 1: "queue_ok ?q1" "find_job ?i ?q1 = Some ?j1" by (simp_all add: becomes_def)
  note b2 = note_becomes [OF 1, of Stalled]
  then have 2: "queue_ok ?q2" "find_job ?i ?q2 = Some ?j2" by (simp_all add: becomes_def)
  note b3 = becomes_trans [OF b1 becomes_trans [OF b2 finish_becomes [OF 2, of "ResultFailed None ''stalled'' now" now]]]
  moreover have "put_away k (finish_job (ResultFailed None ''stalled'' now) now ?j2)"
    by (simp add: put_away_def finish_job_def Let_def result_done_def)
  moreover have "finish_stalled en j now x = (if b then y else y\<lparr>fn_queue := snd (finish ?i (ResultFailed None ''stalled'' now) now
       (snd (note_running ?i Stalled (snd (set_staged ?i k (fn_queue y))))))\<rparr>)"
    using k r by (simp add: finish_stalled_def Let_def)
  ultimately show ?thesis using y by (cases b) auto
qed

lemma recorded_job_id [simp]: "job_id (recorded_job claimed q) = job_id claimed"
  by (auto simp: recorded_job_def find_Some_iff split: option.splits)

definition ends_in :: "ending \<Rightarrow> job_state \<Rightarrow> bool" where
  "ends_in e s \<longleftrightarrow> (case e of EndDone _ \<Rightarrow> s = JDone | EndFailed _ \<Rightarrow> s \<in> {JQueued, JFailed}
     | EndStopped n \<Rightarrow> s = JQueued \<or> n \<in> {Stalled, Cancelled} \<and> s = JFailed)"

text \<open>C20: whatever a job's ending, the queue keeps its invariant, every other job is as and where it was,
  and the job no longer runs: it is done, queued again or failed, or, cancelled without a kept file, gone.\<close>

theorem ending_settles_job:
  assumes ok: "queue_ok (fn_queue x)" and j0: "find_job (job_id claimed) (fn_queue x) = Some j0"
  shows "\<exists>j. becomes (job_id claimed) (fn_queue x) j (fn_queue (finish_ending en claimed e took now x))
     \<and> (case j of None \<Rightarrow> e = EndStopped Cancelled
        | Some j' \<Rightarrow> ends_in e (job_state j'))"
proof -
  let ?i = "job_id claimed" and ?q = "fn_queue x"
  define j where "j = recorded_job claimed ?q"
  have id: "job_id j = ?i" by (simp add: j_def)
  have fin: "finish_ending en claimed e' took now x = (case e' of EndDone app \<Rightarrow> finish_done en j app took now x
         | EndStopped note \<Rightarrow> if note = Stalled then finish_stalled en j now x
             else if note = Cancelled then finish_cancelled en j now x
             else x\<lparr>fn_queue := snd (requeue (job_id j) note (fn_queue x))\<rparr>
         | EndFailed err \<Rightarrow> finish_failed en j err now x)" for e'
    unfolding finish_ending_def j_def Let_def ..
  have j0': "find_job (job_id j) ?q = Some j0" using j0 id by simp
  show ?thesis
  proof (cases e)
    case (EndDone app)
    obtain n w where c: "(if job_plan j \<noteq> None then landed_bytes (dw_env (en_dw en)) (output_targets j) 0 (fn_disk x)
            else (en_landed en, fn_disk x)) = (n, w)" by fastforce
    have "fn_queue (finish_done en j app took now x) = snd (finish (job_id j) (ResultDone n took now app) now ?q)"
      unfolding finish_done_def c prod.case by simp
    then have "fn_queue (finish_ending en claimed e took now x) = snd (finish ?i (ResultDone n took now app) now ?q)"
      using EndDone id by (simp add: fin)
    with finish_becomes [OF ok j0, of "ResultDone n took now app" now] EndDone show ?thesis
      by (intro exI [of _ "Some (finish_job (ResultDone n took now app) now j0)"]) (simp add: finish_job_def Let_def result_done_def ends_in_def)
  next
    case (EndFailed err)
    obtain k w where k: "still_kept (en_dw en) (case kept_file err of Some p \<Rightarrow> Some p | None \<Rightarrow> job_staged j) (fn_disk x) = (k, w)" by fastforce
    from failed_becomes [OF ok j0' k] id EndFailed show ?thesis by (force simp: fin put_away_def ends_in_def)
  next
    case (EndStopped n)
    show ?thesis
    proof (cases "n = Stalled")
      case True
      obtain k w where k: "still_kept (en_dw en) (job_staged j) (fn_disk x) = (k, w)" by fastforce
      from stalled_becomes [OF ok j0' k] id EndStopped True show ?thesis by (force simp: fin put_away_def ends_in_def)
    next
      case notstalled: False
      show ?thesis
      proof (cases "n = Cancelled")
        case True
        obtain k w where k: "still_kept (en_dw en) (job_staged j) (fn_disk x) = (k, w)" by fastforce
        show ?thesis
        proof (cases "job_staged j = None")
          case none: True
          with True EndStopped id drop_becomes [OF ok, of ?i] show ?thesis
            by (intro exI [of _ None]) (simp add: fin finish_cancelled_def)
        next
          case False
          with True EndStopped id k have q: "fn_queue (finish_ending en claimed e took now x) = fail_job ?i None (stopped_message k) k now ?q"
            by (simp add: fin finish_cancelled_def)
          obtain j' where "becomes ?i ?q (Some j') (fail_job ?i None (stopped_message k) k now ?q)" "job_state j' = JFailed"
            using fail_becomes [OF ok j0] by blast
          with q True EndStopped show ?thesis by (intro exI [of _ "Some j'"]) (simp add: ends_in_def)
        qed
      next
        case False
        with notstalled EndStopped id requeue_becomes [OF ok j0, of n] show ?thesis
          by (intro exI [of _ "Some (j0\<lparr>job_state := JQueued, job_started_at := None, job_note := Some n\<rparr>)"]) (simp add: fin ends_in_def)
      qed
    qed
  qed
qed

section \<open>A kept remux in the queue\<close>

lemma still_kept_pair:
  assumes al: "leaves_alone (dw_env dw) S" and S: "staged_mkv f \<in> S" "staged_json f \<in> S"
    and ff: "fault_free (dw_env dw)" and codec: "codec_ok dw" and kept: "safely_kept dw f c (vo_nodes u)"
    and target: "is_absolute (fi_target f)" "file_name (fi_target f) \<noteq> None"
  shows "\<exists>n w. still_kept dw (Some (staged_mkv f)) u = (Some \<lparr>sf_path = staged_mkv f, sf_bytes = length c, sf_attempts = n\<rparr>, w)"
proof -
  obtain r w where r: "read_pair dw (staged_mkv f) u = (Inr \<lparr>ki_staged = staged_mkv f, ki_sidecar = staged_json f, ki_record = r\<rparr>, w)"
    "same_on S u w" "pair_of (staged_mkv f) = Some (staged_mkv f, staged_json f)"
    by (rule read_kept_pair [OF al S ff codec kept target])
  have "has_bytes c (vo_nodes w (staged_mkv f))" using kept r(2) S by (simp add: safely_kept_def same_on_def)
  then have "\<exists>w2. is_file_at (dw_env dw) (staged_mkv f) w = (True, w2) \<and> same_on S w w2"
    using al ff S by (auto simp: is_file_at_def syscall_def Let_def leaves_alone_def fault_free_def has_bytes_def same_on_def)
  then obtain w2 where w2: "is_kept dw (staged_mkv f) u = (True, w2)" "same_on S w w2"
    using r by (auto simp: is_kept_def)
  have kept2: "safely_kept dw f c (vo_nodes w2)"
    using kept r(2) w2(2) S by (simp add: safely_kept_def same_on_def)
  obtain r2 w3 where "read_pair dw (staged_mkv f) w2 = (Inr \<lparr>ki_staged = staged_mkv f, ki_sidecar = staged_json f, ki_record = r2\<rparr>, w3)"
    "tells dw f c r2" by (rule read_kept_pair [OF al S ff codec kept2 target])
  then show ?thesis using w2 by (auto simp: still_kept_def read_kept_def map_err_def tells_def)
qed


section \<open>Witnesses\<close>

definition film_ending :: "world_env \<Rightarrow> ending_env" where
  "film_ending v = \<lparr>en_dw = film_world v, en_timeouts = {9073}, en_problem = None, en_phase = None, en_parse = (\<lambda>_. None),
     en_error = (\<lambda>_. ''E''), en_landed = 0, en_say = (\<lambda>k _. k), en_gb = (\<lambda>_. ''1 GB''), en_changed_code = 9084\<rparr>"

definition film_finishing :: "links_file finishing" where
  "film_finishing = \<lparr>fn_queue = sample_claimed, fn_hold = None, fn_disk = snd film_kept\<rparr>"

lemma claimed_facts: "queue_ok sample_claimed" "find_job (job_id sample_running) sample_claimed = Some sample_running"
proof -
  show "queue_ok sample_claimed" using claim_ok [OF sample_queue_ok, of False 200 201] sample_claim by simp
  show "find_job (job_id sample_running) sample_claimed = Some sample_running"
    by (simp add: find_job_def sample_claimed_def sample_running_def sample_jobs)
qed

theorem preempted_by_every_rip_witness: "preempted (slot_after [RipStarts, RipEnds] new_arbiter) (epoch new_arbiter)"
  using preempted_by_every_rip [of "[RipStarts, RipEnds]" new_arbiter] by simp

theorem ending_settles_job_witness:
  "\<exists>j. find_job (job_id sample_running) (fn_queue (finish_ending (film_ending quiet_disk) sample_running (EndStopped Preempted) 5 300
     film_finishing)) = Some j \<and> job_state j = JQueued"
proof -
  have "queue_ok (fn_queue film_finishing)" "find_job (job_id sample_running) (fn_queue film_finishing) = Some sample_running"
    using claimed_facts by (simp_all add: film_finishing_def)
  from ending_settles_job [OF this, of "film_ending quiet_disk" "EndStopped Preempted" 5 300] show ?thesis
    by (auto simp: becomes_def ends_in_def split: option.splits)
qed


end
