(* ===== verification/Sweep_Safety.thy ===== *)
theory Sweep_Safety
  imports Stage_Sweep Ending_Safety
begin

text \<open>
  What the sweep of the staging folder leaves alone: a whole kept remux whose calls do not fail goes only
  when it is expired or the folder is over its budget. A read that fails is another matter: the last
  theorem is a run in which one such failure deletes a finished file.
\<close>

definition pair_intact :: "finished \<Rightarrow> 'j volume \<Rightarrow> 'j volume \<Rightarrow> bool" where
  "pair_intact f w w' \<longleftrightarrow> vo_nodes w' (staged_mkv f) = vo_nodes w (staged_mkv f) \<and> vo_nodes w' (staged_json f) = vo_nodes w (staged_json f)"

lemma pair_intact_trans: "pair_intact f w w' \<Longrightarrow> pair_intact f w' w'' \<Longrightarrow> pair_intact f w w''"
  by (simp add: pair_intact_def)

lemma same_intact: "same_on UNIV w w' \<Longrightarrow> pair_intact f w w'"
  by (simp add: same_on_def pair_intact_def)

lemma intact_kept: "safely_kept dw f c (vo_nodes w) \<Longrightarrow> pair_intact f w w' \<Longrightarrow> safely_kept dw f c (vo_nodes w')"
  by (simp add: safely_kept_def pair_intact_def)

lemma remove_intact:
  assumes "leaves_alone v UNIV" "p \<noteq> staged_mkv f" "p \<noteq> staged_json f"
  shows "pair_intact f w (snd (remove_path v p w))"
proof -
  have "same_on (UNIV - {p}) w (snd (remove_path v p w))"
    unfolding remove_path_def by (rule call_same [OF assms(1)]) (auto split: option.splits disk_node.splits)
  with assms(2,3) show ?thesis by (simp add: same_on_def pair_intact_def)
qed

section \<open>Names\<close>

lemma stage_paths:
  "staged_mkv f = folder_of (fi_file f) @ [Normal (kept_name (fi_target f) @ kept_mkv)]"
  "staged_json f = folder_of (fi_file f) @ [Normal (kept_name (fi_target f) @ kept_json)]"
  by (simp_all add: staged_mkv_def staged_json_def kept_paths_def join_normal)

lemma json_not_mkv: "strip_suffix (b @ kept_json) kept_mkv = None"
  by (auto simp: strip_suffix_def ends_with_def kept_json_def kept_mkv_def)

lemma no_job_file: "\<not> job_file_name (b @ kept_mkv)" "\<not> job_file_name (b @ kept_json)"
proof -
  have "strip_suffix (b @ kept_mkv) ''.mkv'' = Some (b @ ''.staged'')"
    using strip_suffix_append [of "b @ ''.staged''" "''.mkv''"] by (simp add: kept_mkv_def)
  then show "\<not> job_file_name (b @ kept_mkv)"
    by (auto simp: job_file_name_def strip_suffix_def ends_with_def kept_mkv_def is_digit_char_def split: if_splits)
  show "\<not> job_file_name (b @ kept_json)"
    by (auto simp: job_file_name_def strip_suffix_def ends_with_def kept_json_def split: if_splits)
qed

lemma pair_of_names:
  assumes "pair_of (d @ [Normal n]) = Some (a, b)" "CHR ''/'' \<notin> set n"
  obtains base where "base \<noteq> []" "CHR ''/'' \<notin> set base" "a = d @ [Normal (base @ kept_mkv)]" "b = d @ [Normal (base @ kept_json)]"
    "n = base @ kept_mkv \<or> n = base @ kept_json"
proof -
  have strip: "strip_suffix n m = Some x \<Longrightarrow> n = x @ m" for m x
    by (auto simp: strip_suffix_def ends_with_def split: if_splits) (metis append_take_drop_id)
  from assms(1) obtain base where base: "base \<noteq> []" "n = base @ kept_mkv \<or> n = base @ kept_json"
    and ab: "a = with_file_name (d @ [Normal n]) (base @ kept_mkv)" "b = with_file_name (d @ [Normal n]) (base @ kept_json)"
    by (auto simp: pair_of_def strip split: option.splits if_splits)
  have plain: "CHR ''/'' \<notin> set base" using assms(2) base(2) by auto
  have "path_of (base @ kept_mkv) = [Normal (base @ kept_mkv)]" "path_of (base @ kept_json) = [Normal (base @ kept_json)]"
    using plain by (auto simp: kept_mkv_def kept_json_def intro!: path_of_plain)
  with ab have "a = d @ [Normal (base @ kept_mkv)]" "b = d @ [Normal (base @ kept_json)]"
    by (simp_all add: with_file_name_def join_normal)
  with base plain show thesis by (intro that)
qed

lemma tmp_of_plain: "CHR ''/'' \<notin> set n \<Longrightarrow> tmp_of (d @ [Normal n]) = d @ [Normal (n @ ''.tmp'')]"
  by (simp add: tmp_of_def suffixed_def with_file_name_def path_of_plain join_normal)
     
text \<open>Both names of a pair lead to the pair.\<close>

lemma pair_of_staged: "pair_of (staged_mkv f) = Some (staged_mkv f, staged_json f)" "pair_of (staged_json f) = Some (staged_mkv f, staged_json f)"
proof -
  show "pair_of (staged_mkv f) = Some (staged_mkv f, staged_json f)"
    using pair_of_kept [of "folder_of (fi_file f)" "fi_target f"] by (simp add: staged_mkv_def staged_json_def)
  have "path_of (kept_name t @ kept_mkv) = [Normal (kept_name t @ kept_mkv)]"
    "path_of (kept_name t @ kept_json) = [Normal (kept_name t @ kept_json)]" for t
    using kept_name_plain(1) [of t] by (auto simp: kept_mkv_def kept_json_def intro!: path_of_plain)
  then show "pair_of (staged_json f) = Some (staged_mkv f, staged_json f)"
    by (simp add: stage_paths pair_of_def json_not_mkv kept_name_plain(2) with_file_name_def join_normal)
qed

section \<open>The sweep, step by step\<close>

text \<open>A staging folder whose calls do not fail and that no one else touches; a listed name has no slash.\<close>

definition calm_stage :: "deliver_world \<Rightarrow> path \<Rightarrow> bool" where
  "calm_stage dw dir \<longleftrightarrow> leaves_alone (dw_env dw) UNIV \<and> fault_free (dw_env dw) \<and> codec_ok dw
     \<and> (\<forall>n m x. Inr x \<in> set (ev_list (dw_env dw) n dir m) \<longrightarrow> CHR ''/'' \<notin> set x)"

definition landing_ok :: "finished \<Rightarrow> bool" where
  "landing_ok f \<longleftrightarrow> is_absolute (fi_target f) \<and> file_name (fi_target f) \<noteq> None"

lemma look_same_all: "leaves_alone v UNIV \<Longrightarrow> (\<And>n m. snd (f n m) = m) \<Longrightarrow> syscall v f w = (r, w') \<Longrightarrow> same_on UNIV w w'"
  using look_same [of v UNIV f w] by simp

lemma same_all_trans: "same_on UNIV w w' \<Longrightarrow> same_on UNIV w' w'' \<Longrightarrow> same_on UNIV w w''"
  by (simp add: same_on_def)

lemma is_file_same: "leaves_alone v UNIV \<Longrightarrow> is_file_at v p w = (b, w') \<Longrightarrow> same_on UNIV w w'"
  by (rule look_same_all [of v "\<lambda>_ m. (Inr (m p), m)" w "fst (syscall v (\<lambda>_ m. (Inr (m p), m)) w)"])
    (auto simp: is_file_at_def prod_eq_iff split: prod.splits sum.splits option.splits disk_node.splits)

lemma job_files_intact:
  assumes "leaves_alone v UNIV" "dir = folder_of (fi_file f)"
  shows "pair_intact f w (remove_job_files v dir ns w)"
proof (induction ns arbitrary: w)
  case (Cons n ns)
  obtain b w1 where l: "is_file_at v (path_join dir [Normal n]) w = (b, w1)" by fastforce
  note w1 = same_intact [OF is_file_same [OF assms(1) l], of f]
  show ?case
  proof (cases "job_file_name n")
    case True
    then have "dir @ [Normal n] \<noteq> staged_mkv f" "dir @ [Normal n] \<noteq> staged_json f"
      using no_job_file assms(2) by (auto simp: stage_paths)
    from pair_intact_trans [OF w1 remove_intact [OF assms(1) this]] w1 Cons.IH l True show ?thesis
      by (auto simp: join_normal intro: pair_intact_trans)
  qed (use Cons.IH l in simp)
qed (simp add: pair_intact_def)

lemma clean_intact:
  assumes "leaves_alone v UNIV" "dir = folder_of (fi_file f)"
  shows "pair_intact f w (clean_stale_staging v dir w)"
proof -
  obtain r w1 where r: "stage_names v dir w = (r, w1)" by fastforce
  have "same_on UNIV w w1" using look_same_all [OF assms(1) _ r [unfolded stage_names_def]] by simp
  from pair_intact_trans [OF same_intact [OF this] job_files_intact [OF assms]] same_intact [OF this] r show ?thesis
    by (auto simp: clean_stale_staging_def split: sum.splits)
qed

lemma read_pair_same: "leaves_alone (dw_env dw) UNIV \<Longrightarrow> read_pair dw p w = (r, w') \<Longrightarrow> same_on UNIV w w'"
proof -
  assume al: "leaves_alone (dw_env dw) UNIV" and r: "read_pair dw p w = (r, w')"
  show ?thesis
  proof (cases "pair_of p")
    case (Some ab)
    obtain x w1 where x: "read_bytes_at (dw_env dw) (snd ab) w = (x, w1)" by fastforce
    have "same_on UNIV w w1" using look_same_all [OF al _ x [unfolded read_bytes_at_def]] by simp
    moreover have "w' = w1" using r Some x
      by (cases ab) (auto simp: read_pair_def try_io_def map_err_def fail_def give_def split: sum.splits)
    ultimately show ?thesis by simp
  qed (use r in \<open>simp add: read_pair_def fail_def same_on_def\<close>)
qed

lemma is_kept_same: "leaves_alone (dw_env dw) UNIV \<Longrightarrow> is_kept dw p w = (b, w') \<Longrightarrow> same_on UNIV w w'"
proof -
  assume al: "leaves_alone (dw_env dw) UNIV" and r: "is_kept dw p w = (b, w')"
  obtain x w1 where x: "read_pair dw p w = (x, w1)" by fastforce
  note w1 = read_pair_same [OF al x]
  show ?thesis
  proof (cases "pair_of p")
    case (Some ab)
    obtain c w2 where c: "is_file_at (dw_env dw) (fst ab) w1 = (c, w2)" by fastforce
    have "w' = w1 \<or> w' = w2" using r x c Some by (cases ab) (auto simp: is_kept_def split: sum.splits pair_error.splits)
    with w1 same_all_trans [OF w1 is_file_same [OF al c]] show ?thesis by auto
  qed (use r in \<open>simp add: is_kept_def same_on_def\<close>)
qed

lemma kept_is_kept:
  assumes calm: "calm_stage dw dir" and ok: "landing_ok f" and kept: "safely_kept dw f c (vo_nodes w)"
    and p: "p = staged_mkv f \<or> p = staged_json f"
  shows "\<exists>w'. is_kept dw p w = (True, w')"
proof -
  have al: "leaves_alone (dw_env dw) UNIV" and ff: "fault_free (dw_env dw)" and codec: "codec_ok dw"
    using calm by (simp_all add: calm_stage_def)
  obtain r w1 where r: "read_pair dw (staged_mkv f) w = (Inr \<lparr>ki_staged = staged_mkv f, ki_sidecar = staged_json f, ki_record = r\<rparr>, w1)"
    "same_on UNIV w w1"
    by (rule read_kept_pair [OF al _ _ ff codec kept]) (use ok in \<open>auto simp: landing_ok_def\<close>)
  have r': "read_pair dw p w = (Inr \<lparr>ki_staged = staged_mkv f, ki_sidecar = staged_json f, ki_record = r\<rparr>, w1)"
    using r(1) p pair_of_staged [of f] by (auto simp: read_pair_def)
  have "has_bytes c (vo_nodes w1 (staged_mkv f))" using kept r(2) by (simp add: safely_kept_def same_on_def)
  then have "\<exists>w2. is_file_at (dw_env dw) (staged_mkv f) w1 = (True, w2)"
    using al ff by (auto simp: is_file_at_def syscall_def Let_def leaves_alone_def fault_free_def has_bytes_def)
  then show ?thesis using r' p pair_of_staged [of f] by (auto simp: is_kept_def)
qed

lemma not_kept_spares:
  assumes calm: "calm_stage dw dir" and ok: "landing_ok f"
  shows "safely_kept dw f c (vo_nodes w) \<Longrightarrow> not_kept dw ps w = (out, w') \<Longrightarrow>
    same_on UNIV w w' \<and> staged_mkv f \<notin> set out \<and> staged_json f \<notin> set out"
proof (induction ps arbitrary: w out w')
  case Nil
  then show ?case by (simp add: same_on_def)
next
  case (Cons p ps)
  have al: "leaves_alone (dw_env dw) UNIV" using calm by (simp add: calm_stage_def)
  obtain b w1 where b: "is_kept dw p w = (b, w1)" by fastforce
  note w1 = is_kept_same [OF al b]
  obtain rest w2 where rest: "not_kept dw ps w1 = (rest, w2)" by fastforce
  have "safely_kept dw f c (vo_nodes w1)" by (rule intact_kept [OF Cons.prems(1) same_intact [OF w1]])
  note IH = Cons.IH [OF this rest]
  have "b" if "p = staged_mkv f \<or> p = staged_json f" using kept_is_kept [OF calm ok Cons.prems(1) that] b by simp
  with IH Cons.prems(2) b rest same_all_trans [OF w1] show ?case by (auto split: if_splits)
qed

lemma kept_names_facts:
  assumes "calm_stage dw dir" "kept_names (dw_env dw) dir w = (ps, w')"
  shows "same_on UNIV w w'" "\<forall>p \<in> set ps. \<exists>n. p = dir @ [Normal n] \<and> CHR ''/'' \<notin> set n"
proof -
  have al: "leaves_alone (dw_env dw) UNIV" using assms(1) by (simp add: calm_stage_def)
  let ?f = "\<lambda>n m. (Inr (sort (filter (\<lambda>p. case m p of Some (RegularFile _ _) \<Rightarrow> True | _ \<Rightarrow> False)
          (map (\<lambda>x. path_join dir [Normal x]) (filter kept_like (concat (map (\<lambda>e. case e of Inl _ \<Rightarrow> [] | Inr x \<Rightarrow> [x])
            (ev_list (dw_env dw) n dir m))))))), m) :: path list io_result \<times> nodes"
  obtain r w1 where r: "syscall (dw_env dw) ?f w = (r, w1)" by fastforce
  have "w' = w1" using assms(2) r by (auto simp: kept_names_def split: sum.splits)
  then show "same_on UNIV w w'" using look_same_all [OF al _ r] by simp
  show "\<forall>p \<in> set ps. \<exists>n. p = dir @ [Normal n] \<and> CHR ''/'' \<notin> set n"
  proof (cases r)
    case (Inl e)
    with assms(2) r show ?thesis by (simp add: kept_names_def)
  next
    case (Inr xs)
    with assms(2) r have "ps = xs" by (simp add: kept_names_def)
    obtain n m where eq: "Inr xs = fst (?f n m)"
      using r Inr by (auto simp: syscall_def Let_def split: option.splits)
    have "set ps \<subseteq> (\<lambda>x. path_join dir [Normal x]) ` {x. Inr x \<in> set (ev_list (dw_env dw) n dir m)}"
      using eq \<open>ps = xs\<close> by (auto split: sum.splits)
    then have names: "\<exists>x. p = dir @ [Normal x] \<and> Inr x \<in> set (ev_list (dw_env dw) n dir m)" if "p \<in> set ps" for p
      using that by (auto simp: join_normal)
    have "CHR ''/'' \<notin> set x" if "Inr x \<in> set (ev_list (dw_env dw) n dir m)" for x
      using assms(1) that by (simp add: calm_stage_def)
    with names show ?thesis by blast
  qed
qed

text \<open>A pair as the sweep finds it: both files in the folder, under one name.\<close>

definition in_stage :: "path \<Rightarrow> kept_info \<Rightarrow> bool" where
  "in_stage dir i \<longleftrightarrow> (\<exists>base. base \<noteq> [] \<and> CHR ''/'' \<notin> set base \<and> ki_staged i = dir @ [Normal (base @ kept_mkv)]
     \<and> ki_sidecar i = dir @ [Normal (base @ kept_json)])"

lemma read_pairs_facts:
  assumes calm: "calm_stage dw dir" and ok: "landing_ok f"
  shows "safely_kept dw f c (vo_nodes w) \<Longrightarrow> \<forall>p \<in> set ps. \<exists>n. p = dir @ [Normal n] \<and> CHR ''/'' \<notin> set n \<Longrightarrow>
    read_pairs dw ps w = (is, w') \<Longrightarrow>
    same_on UNIV w w' \<and> (\<forall>i \<in> set is. in_stage dir i \<and> (ki_staged i = staged_mkv f \<longrightarrow> tells dw f c (ki_record i)))"
proof (induction ps arbitrary: w "is" w')
  case Nil
  then show ?case by (simp add: same_on_def)
next
  case (Cons p ps)
  have al: "leaves_alone (dw_env dw) UNIV" and ff: "fault_free (dw_env dw)" and codec: "codec_ok dw"
    using calm by (simp_all add: calm_stage_def)
  obtain r w1 where r: "read_pair dw p w = (r, w1)" by fastforce
  note w1 = read_pair_same [OF al r]
  obtain rest w2 where rest: "read_pairs dw ps w1 = (rest, w2)" by fastforce
  have "safely_kept dw f c (vo_nodes w1)" by (rule intact_kept [OF Cons.prems(1) same_intact [OF w1]])
  from Cons.IH [OF this _ rest] Cons.prems(2)
  have IH: "same_on UNIV w1 w2" "\<forall>i \<in> set rest. in_stage dir i \<and> (ki_staged i = staged_mkv f \<longrightarrow> tells dw f c (ki_record i))" by auto
  have w2: "same_on UNIV w w2" by (rule same_all_trans [OF w1 IH(1)])
  show ?case
  proof (cases r)
    case (Inl e)
    with Cons.prems(3) r rest IH(2) w2 show ?thesis by auto
  next
    case (Inr i)
    from r Inr obtain a b where ab: "pair_of p = Some (a, b)" and i: "ki_staged i = a" "ki_sidecar i = b"
      by (auto simp: read_pair_def try_io_def map_err_def fail_def give_def split: option.splits sum.splits prod.splits)
    from Cons.prems(2) obtain n where n: "p = dir @ [Normal n]" "CHR ''/'' \<notin> set n" by auto
    obtain base where base: "base \<noteq> []" "CHR ''/'' \<notin> set base" "a = dir @ [Normal (base @ kept_mkv)]" "b = dir @ [Normal (base @ kept_json)]"
      by (rule pair_of_names [OF ab [unfolded n(1)] n(2)])
    have "in_stage dir i" using base i by (auto simp: in_stage_def)
    moreover have "tells dw f c (ki_record i)" if "ki_staged i = staged_mkv f"
    proof -
      obtain q u where q: "read_pair dw (staged_mkv f) w = (Inr \<lparr>ki_staged = staged_mkv f, ki_sidecar = staged_json f, ki_record = q\<rparr>, u)" "tells dw f c q"
        by (rule read_kept_pair [OF al _ _ ff codec Cons.prems(1)]) (use ok in \<open>auto simp: landing_ok_def\<close>)
      have "staged_mkv f = dir @ [Normal (base @ kept_mkv)]" using that i base by simp
      then have "b = staged_json f" "a = staged_mkv f" using base by (auto simp: stage_paths)
      then have "read_pair dw p w = read_pair dw (staged_mkv f) w" using ab pair_of_staged [of f] by (simp add: read_pair_def)
      with q r Inr show ?thesis by auto
    qed
    ultimately show ?thesis using Cons.prems(3) r rest IH(2) w2 Inr by auto
  qed
qed

lemma with_file_facts:
  assumes "leaves_alone v UNIV"
  shows "with_file v is w = (out, w') \<Longrightarrow> same_on UNIV w w' \<and> set out \<subseteq> set is"
proof (induction "is" arbitrary: w out w')
  case (Cons i "is")
  obtain b w1 where b: "is_file_at v (ki_staged i) w = (b, w1)" by fastforce
  obtain rest w2 where rest: "with_file v is w1 = (rest, w2)" by fastforce
  from Cons.IH [OF rest] Cons.prems b rest same_all_trans [OF is_file_same [OF assms b]] show ?case by (auto split: if_splits)
qed (simp add: same_on_def)

lemma pending_facts:
  assumes calm: "calm_stage dw dir" and ok: "landing_ok f" and kept: "safely_kept dw f c (vo_nodes w)"
    and run: "pending dw dir w = (is, w')"
  shows "same_on UNIV w w'" "\<forall>i \<in> set is. in_stage dir i \<and> (ki_staged i = staged_mkv f \<longrightarrow> tells dw f c (ki_record i))"
proof -
  have al: "leaves_alone (dw_env dw) UNIV" using calm by (simp add: calm_stage_def)
  obtain ps w1 where ps: "kept_names (dw_env dw) dir w = (ps, w1)" by fastforce
  note n = kept_names_facts [OF calm ps]
  obtain xs w2 where xs: "read_pairs dw (filter (\<lambda>p. ends_with (path_text p) kept_json) ps) w1 = (xs, w2)" by fastforce
  have names: "\<forall>p \<in> set (filter (\<lambda>p. ends_with (path_text p) kept_json) ps). \<exists>n. p = dir @ [Normal n] \<and> CHR ''/'' \<notin> set n"
    using n(2) by simp
  note r = read_pairs_facts [OF calm ok intact_kept [OF kept same_intact [OF n(1)]] names xs]
  obtain ys w3 where ys: "with_file (dw_env dw) xs w2 = (ys, w3)" by fastforce
  note f = with_file_facts [OF al ys]
  have out: "w' = w3" "set is = set ys" using run ps xs ys by (auto simp: pending_def)
  show "same_on UNIV w w'" using n(1) r f out same_all_trans by metis
  show "\<forall>i \<in> set is. in_stage dir i \<and> (ki_staged i = staged_mkv f \<longrightarrow> tells dw f c (ki_record i))" using r f out by auto
qed

lemma discard_other_intact:
  assumes calm: "calm_stage dw dir" and dir: "dir = folder_of (fi_file f)" and i: "in_stage dir i" "ki_staged i \<noteq> staged_mkv f"
  shows "pair_intact f w (snd (discard_kept dw (ki_staged i) w))"
proof -
  have al: "leaves_alone (dw_env dw) UNIV" using calm by (simp add: calm_stage_def)
  from i(1) obtain base where base: "base \<noteq> []" "CHR ''/'' \<notin> set base" "ki_staged i = dir @ [Normal (base @ kept_mkv)]"
    by (auto simp: in_stage_def)
  have path_of: "path_of (base @ kept_mkv) = [Normal (base @ kept_mkv)]" "path_of (base @ kept_json) = [Normal (base @ kept_json)]"
    using base(2) by (auto simp: kept_mkv_def kept_json_def intro!: path_of_plain)
  have pair: "pair_of (ki_staged i) = Some (dir @ [Normal (base @ kept_mkv)], dir @ [Normal (base @ kept_json)])"
    unfolding base(3) using path_of base(1) by (simp add: pair_of_def with_file_name_def join_normal)
  have tmp: "tmp_of (dir @ [Normal (base @ kept_json)]) = dir @ [Normal ((base @ kept_json) @ ''.tmp'')]"
    by (rule tmp_of_plain) (use base(2) in \<open>auto simp: kept_json_def\<close>)
  have other: "base \<noteq> kept_name (fi_target f)" using i(2) base(3) dir by (auto simp: stage_paths)
  have ends: "(x :: string) @ kept_mkv \<noteq> y @ kept_json" "x @ kept_json @ ''.tmp'' \<noteq> y @ kept_json" "x @ kept_json @ ''.tmp'' \<noteq> y @ kept_mkv" for x y
    by (auto simp: kept_mkv_def kept_json_def dest!: arg_cong [of _ _ last])
  have go: "pair_intact f u (snd (remove_if_present (dw_env dw) p u))" if "p \<noteq> staged_mkv f" "p \<noteq> staged_json f" for p u
    using remove_intact [OF al that, of u] by (auto simp: remove_if_present_def attempt_io_def give_def fail_def split: prod.splits sum.splits)
  have all: "pair_intact f u (snd (remove_all (dw_env dw) ps u))" if "staged_mkv f \<notin> set ps" "staged_json f \<notin> set ps" for ps u
    using that
  proof (induction ps arbitrary: u)
    case (Cons p ps)
    obtain r1 u1 where r1: "remove_if_present (dw_env dw) p u = (r1, u1)" by fastforce
    obtain r2 u2 where r2: "remove_all (dw_env dw) ps u1 = (r2, u2)" by fastforce
    have "pair_intact f u u1" using go [of p u] Cons.prems r1 by auto
    moreover have "pair_intact f u1 u2" using Cons.IH [of u1] Cons.prems r2 by simp
    ultimately show ?case using r1 r2 by (simp add: pair_intact_trans [of f u u1 u2])
  qed (simp add: pair_intact_def give_def)
  have "staged_mkv f \<notin> set [dir @ [Normal (base @ kept_mkv)], tmp_of (dir @ [Normal (base @ kept_json)]), dir @ [Normal (base @ kept_json)]]"
    "staged_json f \<notin> set [dir @ [Normal (base @ kept_mkv)], tmp_of (dir @ [Normal (base @ kept_json)]), dir @ [Normal (base @ kept_json)]]"
    unfolding tmp using other ends ends [symmetric] dir by (auto simp: stage_paths)
  from all [OF this, of w] pair show ?thesis
    by (simp add: discard_kept_def os_call_def map_err_def split: prod.splits sum.splits)
qed

lemma remove_each_intact:
  assumes "leaves_alone v UNIV"
  shows "staged_mkv f \<notin> set ps \<Longrightarrow> staged_json f \<notin> set ps \<Longrightarrow> pair_intact f w (remove_each v ps w)"
proof (induction ps arbitrary: w)
  case (Cons p ps)
  have "pair_intact f w (snd (remove_path v p w))" by (rule remove_intact [OF assms]) (use Cons.prems in auto)
  with Cons show ?case by (auto intro: pair_intact_trans)
qed (simp add: pair_intact_def)

lemma discard_each_intact:
  assumes calm: "calm_stage dw dir" and dir: "dir = folder_of (fi_file f)"
  shows "\<forall>i \<in> set is. in_stage dir i \<and> ki_staged i \<noteq> staged_mkv f \<Longrightarrow> pair_intact f w (snd (discard_each dw is w))"
proof (induction "is" arbitrary: w)
  case (Cons i "is")
  obtain r w1 where r: "discard_kept dw (ki_staged i) w = (r, w1)" by fastforce
  obtain g w2 where g: "discard_each dw is w1 = (g, w2)" by fastforce
  have "pair_intact f w w1" using discard_other_intact [OF calm dir, of i w] Cons.prems r by simp
  moreover have "pair_intact f w1 w2" using Cons.IH [of w1] Cons.prems g by simp
  ultimately show ?case using r g by (simp add: pair_intact_trans [of f w w1 w2])
qed (simp add: pair_intact_def)

lemma set_to_discard: "set (to_discard li now is) \<subseteq> set is"
proof -
  have "set (while_over m h js) \<subseteq> set js" for m h js
    by (induction js arbitrary: h) auto
  then have "set (over_budget js m) \<subseteq> set js" for js m
    unfolding over_budget_def by (metis set_sort)
  then show ?thesis by (fastforce simp: to_discard_def)
qed

text \<open>The kept files a sweep that starts on \<open>w\<close> finds.\<close>

definition sweep_found :: "deliver_world \<Rightarrow> path \<Rightarrow> 'j volume \<Rightarrow> kept_info list" where
  "sweep_found dw dir w = (case orphans dw dir (clean_stale_staging (dw_env dw) dir w) of (debris, w1) \<Rightarrow>
     fst (pending dw dir (remove_each (dw_env dw) debris w1)))"

definition aged_out :: "staging_limits \<Rightarrow> nat \<Rightarrow> kept_info list \<Rightarrow> kept_info \<Rightarrow> bool" where
  "aged_out li now_ms is i \<longleftrightarrow> expired now_ms i (li_age_ms li)
     \<or> i \<in> set (over_budget (filter (\<lambda>i. \<not> expired now_ms i (li_age_ms li)) is) (li_bytes li))"

text \<open>C19: the sweep of the staging folder at startup, while nothing fails, leaves a whole kept remux in
  place, unless it found it and its own record makes it expired or one of the oldest that keep the
  folder over its budget.\<close>

theorem sweep_spares_kept_remux:
  assumes calm: "calm_stage dw dir" and ok: "landing_ok f" and dir: "dir = folder_of (fi_file f)"
    and kept: "safely_kept dw f c (vo_nodes w)" and run: "housekeep_staging dw dir li library now_ms (q, w) = (n, q', w')"
  shows "safely_kept dw f c (vo_nodes w')
     \<or> (\<exists>i \<in> set (sweep_found dw dir w). ki_staged i = staged_mkv f \<and> tells dw f c (ki_record i)
          \<and> aged_out li now_ms (sweep_found dw dir w) i)"
proof -
  have al: "leaves_alone (dw_env dw) UNIV" using calm by (simp add: calm_stage_def)
  let ?w0 = "clean_stale_staging (dw_env dw) dir w"
  obtain debris w1 where debris: "orphans dw dir ?w0 = (debris, w1)" by fastforce
  obtain found w2 where found: "pending dw dir (remove_each (dw_env dw) debris w1) = (found, w2)" by fastforce
  obtain gone w3 where gone: "discard_each dw (to_discard li now_ms found) w2 = (gone, w3)" by fastforce
  have w': "w' = w3" using run debris found gone by (simp add: housekeep_staging_def)
  have kept0: "safely_kept dw f c (vo_nodes ?w0)" by (rule intact_kept [OF kept clean_intact [OF al dir]])
  obtain ps w4 where ps: "kept_names (dw_env dw) dir ?w0 = (ps, w4)" by fastforce
  note names = kept_names_facts [OF calm ps]
  have kept4: "safely_kept dw f c (vo_nodes w4)" by (rule intact_kept [OF kept0 same_intact [OF names(1)]])
  have "not_kept dw ps w4 = (debris, w1)" using debris ps by (simp add: orphans_def)
  note spares = not_kept_spares [OF calm ok kept4 this]
  have kept1: "safely_kept dw f c (vo_nodes w1)" by (rule intact_kept [OF kept4 same_intact]) (use spares in blast)
  have kept2: "safely_kept dw f c (vo_nodes (remove_each (dw_env dw) debris w1))"
    by (rule intact_kept [OF kept1 remove_each_intact [OF al]]) (use spares in blast)+
  note p = pending_facts [OF calm ok kept2 found]
  have kept3: "safely_kept dw f c (vo_nodes w2)" by (rule intact_kept [OF kept2 same_intact [OF p(1)]])
  show ?thesis
  proof (cases "\<forall>i \<in> set (to_discard li now_ms found). ki_staged i \<noteq> staged_mkv f")
    case True
    then have "\<forall>i \<in> set (to_discard li now_ms found). in_stage dir i \<and> ki_staged i \<noteq> staged_mkv f"
      using p(2) set_to_discard by blast
    from discard_each_intact [OF calm dir this, of w2] gone have "pair_intact f w2 w3" by simp
    from intact_kept [OF kept3 this] w' show ?thesis by simp
  next
    case False
    then obtain i where i: "i \<in> set (to_discard li now_ms found)" "ki_staged i = staged_mkv f" by blast
    with set_to_discard p(2) have "i \<in> set found" "tells dw f c (ki_record i)" by blast+
    moreover have "found = sweep_found dw dir w" using debris found by (simp add: sweep_found_def)
    ultimately show ?thesis using i by (auto simp: to_discard_def aged_out_def)
  qed
qed

section \<open>A read that fails\<close>

definition sweep_env :: "nat option \<Rightarrow> world_env" where
  "sweep_env n = quiet_disk\<lparr>ev_list := (\<lambda>_ p m. if p = [RootDir, Normal ''stage'']
       then map Inr (filter (\<lambda>x. m [RootDir, Normal ''stage'', Normal x] \<noteq> None)
         [''a.4f17145901af.staged.mkv'', ''a.4f17145901af.staged.json'']) else []),
     ev_fault := (\<lambda>k. if Some k = n then Some (io_other ''Input/output error (os error 5)'') else None)\<rparr>"

definition kept_disk :: "links_file volume" where
  "kept_disk = library_volume\<lparr>vo_nodes := [[RootDir, Normal ''stage'', Normal ''a.4f17145901af.staged.mkv''] \<mapsto> RegularFile ''xy'' 5,
     [RootDir, Normal ''stage'', Normal ''a.4f17145901af.staged.json''] \<mapsto> RegularFile ''s'' 5]\<rparr>"

definition swept :: "nat option \<Rightarrow> nat \<times> queue_file \<times> links_file volume" where
  "swept n = housekeep_staging (film_world (sweep_env n)) [RootDir, Normal ''stage''] (limits_of 0 0 None) [RootDir, Normal ''lib'']
     1000 (default_queue_file, kept_disk)"

lemma swept_found: "list_ex (aged_out (limits_of 0 0 None) 1000 (sweep_found (film_world (sweep_env None)) [RootDir, Normal ''stage''] kept_disk))
    (sweep_found (film_world (sweep_env None)) [RootDir, Normal ''stage''] kept_disk) = False"
  by code_simp

lemma sweep_premises:
  "calm_stage (film_world (sweep_env None)) [RootDir, Normal ''stage'']" "landing_ok film_mkv"
  "[RootDir, Normal ''stage''] = folder_of (fi_file film_mkv)"
  "safely_kept (film_world (sweep_env None)) film_mkv ''xy'' (vo_nodes kept_disk)"
proof -
  have "fault_free quiet_disk" "leaves_alone quiet_disk UNIV" "codec_ok (film_world losing_disk)" by (simp_all add: film_world_facts)
  then show "calm_stage (film_world (sweep_env None)) [RootDir, Normal ''stage'']"
    by (auto simp: calm_stage_def sweep_env_def fault_free_def leaves_alone_def codec_ok_def film_world_def)
  show "landing_ok film_mkv" by (simp add: landing_ok_def film_mkv_def is_absolute_def file_name_def)
  show "[RootDir, Normal ''stage''] = folder_of (fi_file film_mkv)" by (simp add: folder_of_def film_mkv_def path_parent_def)
  show "safely_kept (film_world (sweep_env None)) film_mkv ''xy'' (vo_nodes kept_disk)"
    unfolding safely_kept_def film_kept_paths
    by (simp add: kept_disk_def film_world_def has_bytes_def)
      (simp add: tells_def film_sidecar_def film_mkv_def sidecar_format_def muxed_runtime_def finite_secs_def)
qed

theorem sweep_spares_kept_remux_witness:
  "safely_kept (film_world (sweep_env None)) film_mkv ''xy'' (vo_nodes (snd (snd (swept None))))"
proof -
  obtain n q w where run: "swept None = (n, q, w)" by (metis prod.exhaust)
  from sweep_spares_kept_remux [OF sweep_premises run [unfolded swept_def]] swept_found run show ?thesis
    by (auto simp: list_ex_iff)
qed

text \<open>The same folder swept while nothing fails: the remux is queued to be copied in.\<close>

lemma sweep_runs:
  "case swept None of (n, q, w) \<Rightarrow> n = 0 \<and> list_all (\<lambda>j. job_staged j \<noteq> None) (qf_jobs q) \<and> length (qf_jobs q) = 1
     \<and> vo_nodes w [RootDir, Normal ''stage'', Normal ''a.4f17145901af.staged.mkv''] \<noteq> None"
  by code_simp


end
