(* ===== verification/Spec2Isabelle.thy ===== *)
theory Spec2Isabelle
  imports Prelude Paths Durable Set_Aside Server_Util Planner Job_Queue Queue_Ops Queue_Invariant
    Queue_Append Queue_Behaviour Queue_Store Queue_System Staging_State Staging_Metadata Staging_Job
    Staging_Reset Staging_Scan Mux_Cards Staging_Resume Staging_Safety Staging_Loops Rip_State
    Rip_Session Rediscover Session_System Rip_Claims Rip_Progress Drive_Poll Poll_Safety Mux_Worker
    Mux_Safety Retry_Budget Retire_Safety Remux_Safety Sweep_Safety
begin

text \<open>
  A verification library for freemkv's server: the rip, mux and library-queue core under
  \<open>src/src/server\<close>. The server rips discs into a staging folder per job, muxes captured images in a
  background worker, hands finished jobs to a mover, and re-muxes library ISOs from a queue kept
  on disk. What it must not do is lose a capture, a finished file, an operator's correction or a
  Stop, work twice on one drive, overwrite a library file that is not its own, or trust a file it
  could not read. These are the properties.

  Parts and how they interact. The poll loop ticks every drive and claims its row
  (\<open>Drive_Poll\<close>, \<open>Rip_State\<close>); a claim's number guards the worker thread and its stop token
  (\<open>Rip_Session\<close>), a Stop or Eject handler's cleanup and a failed spawn's rollback
  (\<open>Rip_Claims\<close>). The worker shows its progress on the row (\<open>Rip_Progress\<close>) and moves the job's
  \<open>state.json\<close> through its transitions (\<open>Staging_State\<close>, \<open>Staging_Metadata\<close>, \<open>Staging_Job\<close>), beside
  the operator's corrections and resets (\<open>Staging_Reset\<close>). The walks at startup and of Clear
  staging read what a crash left (\<open>Staging_Scan\<close>, \<open>Staging_Resume\<close>); the mux worker walks the same
  folders (\<open>Mux_Worker\<close>) and shows what failed (\<open>Mux_Cards\<close>). The library queue (\<open>Job_Queue\<close>,
  \<open>Queue_Ops\<close>, \<open>Queue_Store\<close>) is the other owner of work: a queued ISO is remuxed and landed or kept
  (\<open>Remux_Delivery\<close>), then the files it replaces are retired (\<open>Library_Retire\<close>) by what the links and
  the owned files recorded (\<open>Library_Links\<close>, \<open>Library_Owned\<close>). The mover takes over a finished job: it
  freezes a plan in a journal, delivers file after file, and removes the staged ones last
  (\<open>Delivery_Journal\<close>, \<open>Delivery_Copy\<close>, \<open>Delivery\<close>), with a retry budget of its own (\<open>Delivery_Retry\<close>).
  Every durable file goes through \<open>write_marker_durable\<close> (\<open>Durable\<close>).

  Theories and sources.

  \<^item> Prelude, Paths: shared results, saturating arithmetic, list operations, \<open>std::path\<close>, and the
    interface \<open>step_invariant\<close> of a step relation with an invariant.
  \<^item> Durable, Set\_Aside, Server\_Util: the durable write of \<open>server/ripper/staging.rs\<close> with a fault per
    system call (interface \<open>durable_store\<close>), \<open>set_aside\<close> of \<open>server/library/mod.rs\<close>, names, dates and
    stamps of \<open>server/util.rs\<close> and \<open>title_identity.rs\<close>.
  \<^item> Planner: \<open>server/planner.rs\<close>.
  \<^item> Job\_Queue, Queue\_Ops, Queue\_Store: \<open>server/library/queue.rs\<close> (jobs and rows, operations on the
    file, the store). Queue\_Invariant proves the invariant per operation through the interfaces
    \<open>job_change\<close> and \<open>output_change\<close>; Queue\_Append that the bulk add is the sequential one;
    Queue\_Behaviour what the operations do; Queue\_System interleaves callers, snapshot writes, write
    failures, reloads and crashes as a step relation over one store and its file.
  \<^item> Staging\_State, Staging\_Metadata, Staging\_Job, Staging\_Reset, Staging\_Scan, Staging\_Resume:
    \<open>server/ripper/staging.rs\<close> (with the hand-off record of \<open>server/muxer.rs\<close>), in the order the file
    has them. Staging\_Safety and Staging\_Loops: what the walks never delete, and what repeated starts
    come to.
  \<^item> Mux\_Cards, Mux\_Worker, Mux\_Safety: \<open>server/muxer.rs\<close> and \<open>remux_from_ripped_marker\<close>,
    \<open>mux_handoff_success\<close> and their helpers of \<open>server/ripper/resume.rs\<close>.
  \<^item> Rip\_State, Rip\_Session, Rediscover, Rip\_Claims, Rip\_Progress, Drive\_Poll: \<open>server/ripper/state.rs\<close>,
    \<open>session.rs\<close>, the poll loop and the Stop and Eject paths of \<open>server/ripper/mod.rs\<close> and
    \<open>server/web.rs\<close>, the progress sink of \<open>server/ripper/passes.rs\<close>. Session\_System is the labelled step
    relation of all that touches the session registries; Poll\_Safety is about consecutive ticks.

  \<^item> Move\_Rows, Delivery\_Disk, Delivery\_Journal, Delivery\_Retry, Delivery\_Copy, Delivery:
    \<open>server/mover.rs\<close>, \<open>mover_manifest.rs\<close>, \<open>mover_copy_monitor.rs\<close> and \<open>Stamp\<close> of \<open>util.rs\<close>: the error
    rows, the file system call by call with triples in the style of Hoare logic, the journal, the
    retry state in it, moving one file, and a pass over a journaled job. Delivery\_Safety: what a
    delivery never loses, against other programs that keep to \<open>others_fair\<close>. Retry\_Budget: three
    attempts, restarts included.
  \<^item> Library\_Links, Library\_Owned, Library\_Retire: \<open>server/library/links.rs\<close> (which library file came
    from which ISO), \<open>owned.rs\<close> (the files a remux may retire) and \<open>retire.rs\<close>, with
    \<open>safe_destination\<close> of \<open>worker.rs\<close>. Retire\_Safety: what a retire pass may remove.
  \<^item> Remux\_Delivery: \<open>server/library/deliver.rs\<close>, the landing of a finished remux, its kept files and
    their resume. Remux\_Safety: one set of triples under an assumption \<open>g\<close> that nothing goes wrong gives
    both what a failed landing leaves and that an unhindered one succeeds.
  \<^item> Job\_Ending: \<open>server/library/arbiter.rs\<close>, \<open>Fault\<close> of \<open>server/health.rs\<close>, the holds of
    \<open>library/mod.rs\<close>, and \<open>next_job\<close> and \<open>finish\<close> of \<open>library/worker.rs\<close>. Stage\_Sweep: its sweep of the
    staging folder. Ending\_Safety and Sweep\_Safety: a kept file stays under its job, through the
    worker's bookkeeping and through the sweep; and the run in which a failed read loses one.

  State and operations. A Rust struct is a record with the same fields, under a prefix; an enum a
  datatype; a map behind a mutex a function to \<open>option\<close>; each locked section is one function from the
  state before to the state after, and what may happen between two is a step of a relation or an
  argument (the naps of a drain, the other calls of a listing). Every fallible call of the file system
  has a fault of its own in an environment (\<open>faults\<close>, \<open>env\<close>, \<open>load_env\<close>), so an error path is a branch
  of the model; a crash keeps what had reached the folder when it fell. Unsigned integers are
  naturals with the source's saturating or checked arithmetic written out (\<open>saturating_add 64\<close>), and
  products the source does not check wrap at 64 bits where they occur (\<open>Rip_Progress\<close>); the sg number
  of \<open>Rediscover\<close> wraps at 32. Strings are byte lists; \<open>trim\<close> and case folding are the ASCII ones.

  Bounds and fuel. No definition runs on fuel. The loops are bounded by what the code gives them: a
  job is closed after \<open>restart_limit\<close> = 3 restarts; a queue read is tried 3 times; a retry is granted 30
  times within 24 hours of the first fault; a delivery is tried three times, 30 seconds and two
  minutes apart; a copy reads at most 4 MiB (a remux delivery 1 MiB) at a time until the source ends;
  rediscovery settles ten times per neighbour, 67 probes at most; an ETA is capped at six hours; the
  drain polls once per nap of its deadline.

  Parameters. The codec of \<open>state.json\<close> and the hand-off record (with its round-trip law), the titles
  and the template engine of the planner (a crate), the clock, the drive's answers to a probe, whether
  a spawn succeeds, \<open>publish::no_replace\<close> of the disc crate (with its documented law \<open>publishes\<close>), the
  probe of an MKV's bytes, the codec of a remux sidecar (with its law \<open>codec_ok\<close>), how the copy
  monitor saw its worker end, the run of a mux and the folder it leaves, the damage classification,
  the checks of the folders, the speed estimate, and texts of the interface. A hypothesis on one of them states its documented behaviour
  and has a witness with a concrete one. A read that answers NotFound for a file that exists is a
  fault the code cannot tell from absence; the properties that need it excluded say so.

  What the lemmas show, in the order of the manifest: a delivery loses nothing (Delivery\_Safety) and is
  tried three times (Retry\_Budget); the queue's invariant and its file's refinement
  of the saved generation, durability and crash safety (Queue\_System); one worker per drive, drains and
  stops (Session\_System); claims and their numbers (Rip\_Claims); which files a walk may delete, what a
  half reset comes to, that a correction is never written over and a stale plan never delivered
  (Staging theories); which job the mux worker muxes and what a failure leads to (Mux\_Safety); when the
  poll loop takes a disc up (Poll\_Safety); what a retire pass removes (Retire\_Safety) and where a
  finished remux ends up (Remux\_Safety, Ending\_Safety, Sweep\_Safety); the bars of a pass.

  Not modelled, and why. \<open>rip_disc\<close> and the disc identity lookups of \<open>server/ripper/mod.rs\<close>,
  \<open>resume_remux\<close> and the choice of an image in \<open>resume.rs\<close>, \<open>mux.rs\<close> and \<open>disc_capture.rs\<close> are calls
  into the engine and disc crates, whose effects on the states above are the operations modelled.
  The desktop and command-line front ends, HTTP routing, key sources, webhooks, peers, logs and
  settings keep no state of these components. Logging is left out throughout. Of the mover, a panic of
  the copy worker, the progress bars and the webhook are left out; the work of the copy monitor on the
  rows is placed after the worker returned. Of the library worker the planning of a job and the loop
  over its outputs, with their sinks and watchdog, are not modelled: they run on the engine and disc
  crates between the queue, the delivery and the retire pass, which are. The library scan and its
  audits (\<open>library/mod.rs\<close>, \<open>index.rs\<close>, \<open>audit.rs\<close>, \<open>deep.rs\<close>) and the probe threads of
  \<open>health.rs\<close> are not modelled.
\<close>

end
